(* ===== verification/Prelude.thy ===== *)
theory Prelude
  imports Main "HOL-Library.Char_ord" "HOL-Library.List_Lexorder"
begin

text \<open>
  Shared vocabulary of the development: the result type of fallible Go code, the
  named collections of rewrite rules, and the contracts that several
  components promise, stated as locales.

  \<^item> \<open>invariant_system\<close>: an initial state, a total step function and an
    invariant it keeps; the invariant then holds after every sequence of steps.
  \<^item> \<open>generation_guarded\<close>: operations carry a generation identifier, an
    operation of another generation changes nothing, and no guarded operation
    changes the current generation.  The lifecycle machine and the activity
    bridge both rely on it: a late message of an old Worker is harmless.
  \<^item> \<open>change_log\<close>: every operation emits the messages that, replayed by a
    client, rebuild the view the operation produced.  The event hub and the
    interaction store promise it to their subscribers.
  \<^item> \<open>fifo_window\<close>: a memory of the last \<open>cap\<close> distinct items; an accepted item is
    not accepted again while fewer than \<open>cap\<close> different ones follow it.
\<close>

named_theorems keeps_inv \<open>preservation lemmas of the components' invariants\<close>

text \<open>A Go function that returns a value, returns an error or panics.\<close>

datatype ('e, 'a) outcome = Ok 'a | Err 'e | Panic

definition outcome_bind :: "('e, 'a) outcome \<Rightarrow> ('a \<Rightarrow> ('e, 'b) outcome) \<Rightarrow> ('e, 'b) outcome" where
  "outcome_bind x f = (case x of Ok a \<Rightarrow> f a | Err e \<Rightarrow> Err e | Panic \<Rightarrow> Panic)"

lemma outcome_bind_Ok:
  "outcome_bind x f = Ok r \<longleftrightarrow> (\<exists>a. x = Ok a \<and> f a = Ok r)"
  by (cases x) (auto simp: outcome_bind_def)

lemma outcome_bind_Panic:
  "outcome_bind x f = Panic \<longleftrightarrow> x = Panic \<or> (\<exists>a. x = Ok a \<and> f a = Panic)"
  by (cases x) (auto simp: outcome_bind_def)

subsection \<open>Threads in a list\<close>

lemma length_filter_update:
  "i < length xs \<Longrightarrow> length (filter P (xs[i := y])) + (if P (xs ! i) then 1 else 0)
     = length (filter P xs) + (if P y then 1 else 0)"
  by (subst (2) id_take_nth_drop [of i xs]) (simp_all add: upd_conv_take_nth_drop)

lemma only_one_satisfies:
  assumes "length (filter P xs) = 1" "i < length xs" "P (xs ! i)"
  shows "filter P (take i xs) = []" "filter P (drop (Suc i) xs) = []"
proof -
  have "filter P xs = filter P (take i xs) @ [xs ! i] @ filter P (drop (Suc i) xs)"
    using assms(2,3) by (subst id_take_nth_drop [of i xs]) auto
  then have "length (filter P (take i xs)) + length (filter P (drop (Suc i) xs)) = 0"
    using assms(1) by simp
  then show "filter P (take i xs) = []" "filter P (drop (Suc i) xs) = []" by auto
qed

text \<open>What a list of threads contributes, when only the threads in \<open>P\<close> contribute and \<open>i\<close> is the only one.\<close>

lemma concat_map_only:
  assumes "length (filter P xs) = 1" "i < length xs" "P (xs ! i)" "\<And>x. \<not> P x \<Longrightarrow> g x = []"
  shows "concat (map g (xs[i := y])) = g y"
proof -
  have "concat (map g ys) = []" if "filter P ys = []" for ys
    using that assms(4) by (induction ys) (auto split: if_splits)
  then have "concat (map g (take i xs)) = []" "concat (map g (drop (Suc i) xs)) = []"
    using only_one_satisfies [OF assms(1-3)] by blast+
  then show ?thesis
    using assms(2) by (simp add: upd_conv_take_nth_drop del: concat_eq_Nil_conv)
qed

lemma concat_map_none: "length (filter P xs) = 0 \<Longrightarrow> (\<And>x. \<not> P x \<Longrightarrow> g x = []) \<Longrightarrow> concat (map g xs) = []"
  by (induction xs) (auto split: if_splits)

subsection \<open>Steps that keep an invariant\<close>

locale invariant_system =
  fixes init :: 's
    and step :: "'op \<Rightarrow> 's \<Rightarrow> 's"
    and inv :: "'s \<Rightarrow> bool"
  assumes inv_init: "inv init"
    and inv_step: "inv s \<Longrightarrow> inv (step x s)"
begin

lemma inv_run_from: "inv s \<Longrightarrow> inv (fold step xs s)"
  by (induction xs arbitrary: s) (auto intro: inv_step)

lemma inv_run: "inv (fold step xs init)"
  by (rule inv_run_from [OF inv_init])

end

subsection \<open>Operations guarded by a generation\<close>

locale generation_guarded =
  fixes generation :: "'s \<Rightarrow> 'g"
    and act :: "'op \<Rightarrow> 'g \<Rightarrow> 's \<Rightarrow> 's"
  assumes stale_noop: "g \<noteq> generation s \<Longrightarrow> act x g s = s"
    and act_generation: "generation (act x g s) = generation s"
begin

definition runs :: "('g \<times> 'op) list \<Rightarrow> 's \<Rightarrow> 's" where
  "runs xs s = fold (\<lambda>(g, x). act x g) xs s"

lemma runs_Cons [simp]: "runs ((g, x) # xs) s = runs xs (act x g s)"
  by (simp add: runs_def)

lemma runs_Nil [simp]: "runs [] s = s"
  by (simp add: runs_def)

lemma generation_runs [simp]: "generation (runs xs s) = generation s"
  by (induction xs arbitrary: s) (auto simp: act_generation)

lemma runs_drop_stale:
  "runs xs s = runs (filter (\<lambda>(g, x). g = generation s) xs) s"
proof (induction xs arbitrary: s)
  case Nil
  show ?case by simp
next
  case (Cons p xs)
  obtain g x where p: "p = (g, x)" by (cases p)
  show ?case
    using Cons.IH [of "act x g s"] Cons.IH [of s]
    by (cases "g = generation s") (simp_all add: p act_generation stale_noop)
qed

end

subsection \<open>Changes that a client can replay\<close>

locale change_log =
  fixes view :: "'s \<Rightarrow> 'v"
    and exec :: "'op \<Rightarrow> 's \<Rightarrow> 's"
    and emitted :: "'op \<Rightarrow> 's \<Rightarrow> 'e list"
    and replay :: "'e \<Rightarrow> 'v \<Rightarrow> 'v"
    and ok :: "'s \<Rightarrow> bool"
  assumes exec_view: "ok s \<Longrightarrow> view (exec x s) = fold replay (emitted x s) (view s)"
    and exec_ok: "ok s \<Longrightarrow> ok (exec x s)"
begin

fun log_of :: "'op list \<Rightarrow> 's \<Rightarrow> 'e list" where
  "log_of [] s = []"
| "log_of (x # xs) s = emitted x s @ log_of xs (exec x s)"

lemma replay_log: "ok s \<Longrightarrow> fold replay (log_of xs s) (view s) = view (fold exec xs s)"
  by (induction xs arbitrary: s) (auto simp: exec_view [symmetric] exec_ok)

end

subsection \<open>A bounded memory of recent items\<close>

text \<open>Remembering an item in a first-in first-out window of \<open>cap\<close> distinct items.\<close>

definition fifo_push :: "nat \<Rightarrow> 'a \<Rightarrow> 'a list \<Rightarrow> 'a list \<times> bool" where
  "fifo_push cap x w =
    (if x \<in> set w then (w, False) else (drop (Suc (length w) - cap) (w @ [x]), True))"

locale fifo_window =
  fixes cap :: nat
    and window :: "'s \<Rightarrow> 'a list"
    and push :: "'a \<Rightarrow> 's \<Rightarrow> 's \<times> bool"
    and ok :: "'s \<Rightarrow> bool"
  assumes push_window: "ok s \<Longrightarrow> window (fst (push x s)) = fst (fifo_push cap x (window s))"
    and push_new: "ok s \<Longrightarrow> snd (push x s) = snd (fifo_push cap x (window s))"
    and push_ok: "ok s \<Longrightarrow> ok (fst (push x s))"
    and ok_distinct: "ok s \<Longrightarrow> distinct (window s)"
    and ok_length: "ok s \<Longrightarrow> length (window s) \<le> cap"
begin

definition pushes :: "'a list \<Rightarrow> 's \<Rightarrow> 's" where
  "pushes xs s = fold (\<lambda>x s. fst (push x s)) xs s"

lemma pushes_Nil [simp]: "pushes [] s = s"
  by (simp add: pushes_def)

lemma pushes_Cons [simp]: "pushes (x # xs) s = pushes xs (fst (push x s))"
  by (simp add: pushes_def)

lemma pushes_append: "pushes (xs @ ys) s = pushes ys (pushes xs s)"
  by (simp add: pushes_def)

lemma pushes_ok: "ok s \<Longrightarrow> ok (pushes xs s)"
  by (induction xs arbitrary: s) (auto intro: push_ok)

lemma pushes_window:
  "ok s \<Longrightarrow> window (pushes xs s) = fold (\<lambda>x w. fst (fifo_push cap x w)) xs (window s)"
  by (induction xs arbitrary: s) (auto simp: push_window push_ok)

lemma push_keeps:
  assumes "ok s" "window s = pre @ x # post" "set post \<subseteq> A" "y \<in> A" "finite A" "card A < cap"
  shows "\<exists>pre' post'. window (fst (push y s)) = pre' @ x # post' \<and> set post' \<subseteq> A"
proof (cases "y \<in> set (window s)")
  case True
  with assms show ?thesis by (auto simp: push_window fifo_push_def)
next
  case False
  have "distinct (post @ [y])" using ok_distinct [OF assms(1)] assms(2) False by auto
  then have "Suc (length post) = card (set (post @ [y]))"
    using distinct_card [of "post @ [y]"] by simp
  also have "\<dots> \<le> card A" using assms by (intro card_mono) auto
  finally have post: "Suc (length post) < cap" using assms(6) by simp
  let ?d = "Suc (length (window s)) - cap"
  have d: "?d \<le> length pre" using post ok_length [OF assms(1)] assms(2) by auto
  have "window (fst (push y s)) = drop ?d (window s @ [y])"
    using assms(1) False by (simp add: push_window fifo_push_def)
  also have "\<dots> = drop ?d pre @ x # post @ [y]" using d by (simp add: assms(2))
  finally show ?thesis using assms(3,4) by (intro exI [of _ "drop ?d pre"] exI [of _ "post @ [y]"]) auto
qed

lemma pushes_keep:
  assumes "ok s" "window s = pre @ x # post" "set post \<subseteq> A" "set ys \<subseteq> A" "finite A" "card A < cap"
  shows "x \<in> set (window (pushes ys s))"
  using assms(1-4)
proof (induction ys arbitrary: s pre post)
  case (Cons y ys)
  then obtain pre' post' where "window (fst (push y s)) = pre' @ x # post'" "set post' \<subseteq> A"
    using push_keeps [of s pre x post A y] assms(5,6) by auto
  with Cons.IH [of "fst (push y s)" pre' post'] Cons.prems show ?case by (simp add: push_ok)
qed simp

text \<open>An accepted item stays remembered while fewer than \<open>cap\<close> different items follow it.\<close>

lemma push_recent:
  assumes "ok s" "snd (push x s)" "card (set ys) < cap"
    and "ok s'" "window s' = fold (\<lambda>x w. fst (fifo_push cap x w)) ys (window (fst (push x s)))"
  shows "\<not> snd (push x s')"
proof -
  have "x \<notin> set (window s)" using assms(1,2) by (auto simp: push_new fifo_push_def split: if_splits)
  moreover have "0 < cap" using assms(3) by simp
  ultimately have "window (fst (push x s)) = drop (Suc (length (window s)) - cap) (window s) @ [x]"
    using assms(1) ok_length [OF assms(1)] by (simp add: push_window fifo_push_def)
  then have "x \<in> set (window (pushes ys (fst (push x s))))"
    using assms by (intro pushes_keep [where A = "set ys" and post = "[]"]) (auto simp: push_ok)
  then show ?thesis
    using assms by (simp add: push_new push_ok pushes_window fifo_push_def)
qed

end

end
