(* ===== verification/Go_Strings.thy ===== *)
theory Go_Strings
  imports Prelude
begin

text \<open>
  The part of Go's string library the program uses.  A Go string is a sequence of
  bytes, modelled as \<^typ>\<open>string\<close> with one \<^typ>\<open>char\<close> per byte.  The functions that look
  at characters (\<open>utf8.RuneCountInString\<close>, \<open>strings.TrimSpace\<close>, \<open>strings.Fields\<close>,
  \<open>strings.Map\<close>, \<open>[]rune(s)\<close>, \<open>string(runes)\<close>) decode UTF-8 the way
  \<open>unicode/utf8\<close> does: an invalid byte is one rune \<open>RuneError\<close> of width 1.

  The lemmas show that decoding loses no byte, that every decoded rune is a Unicode
  scalar value, and that decoding the encoding of scalar values is the identity; the
  bounds the components promise in runes rest on these.
\<close>

subsection \<open>UTF-8\<close>

abbreviation byte :: "char \<Rightarrow> nat" where
  "byte c \<equiv> of_char c"

definition rune_error :: nat where
  "rune_error = 0xFFFD"

definition cont :: "char \<Rightarrow> bool" where
  "cont c \<longleftrightarrow> 0x80 \<le> byte c \<and> byte c \<le> 0xBF"

definition accept_lo :: "nat \<Rightarrow> nat" where
  "accept_lo x = (if x = 0xE0 then 0xA0 else if x = 0xF0 then 0x90 else 0x80)"

definition accept_hi :: "nat \<Rightarrow> nat" where
  "accept_hi x = (if x = 0xED then 0x9F else if x = 0xF4 then 0x8F else 0xBF)"

fun decode_rune :: "string \<Rightarrow> nat \<times> nat" where
  "decode_rune [] = (rune_error, 0)"
| "decode_rune (b0 # bs) =
    (let x = byte b0 in
     if x < 0x80 then (x, 1)
     else if 0xC2 \<le> x \<and> x \<le> 0xDF then
       (case bs of
          b1 # _ \<Rightarrow> if cont b1 then ((x - 0xC0) * 64 + (byte b1 - 0x80), 2) else (rune_error, 1)
        | _ \<Rightarrow> (rune_error, 1))
     else if 0xE0 \<le> x \<and> x \<le> 0xEF then
       (case bs of
          b1 # b2 # _ \<Rightarrow>
            if accept_lo x \<le> byte b1 \<and> byte b1 \<le> accept_hi x \<and> cont b2
            then ((x - 0xE0) * 4096 + (byte b1 - 0x80) * 64 + (byte b2 - 0x80), 3)
            else (rune_error, 1)
        | _ \<Rightarrow> (rune_error, 1))
     else if 0xF0 \<le> x \<and> x \<le> 0xF4 then
       (case bs of
          b1 # b2 # b3 # _ \<Rightarrow>
            if accept_lo x \<le> byte b1 \<and> byte b1 \<le> accept_hi x \<and> cont b2 \<and> cont b3
            then ((x - 0xF0) * 262144 + (byte b1 - 0x80) * 4096 + (byte b2 - 0x80) * 64
                    + (byte b3 - 0x80), 4)
            else (rune_error, 1)
        | _ \<Rightarrow> (rune_error, 1))
     else (rune_error, 1))"

definition valid_rune :: "nat \<Rightarrow> bool" where
  "valid_rune r \<longleftrightarrow> r < 0xD800 \<or> 0xDFFF < r \<and> r \<le> 0x10FFFF"

definition encode_rune :: "nat \<Rightarrow> string" where
  "encode_rune r0 =
    (let r = (if valid_rune r0 then r0 else rune_error) in
     if r < 0x80 then [char_of r]
     else if r < 0x800 then [char_of (0xC0 + r div 64), char_of (0x80 + r mod 64)]
     else if r < 0x10000 then
       [char_of (0xE0 + r div 4096), char_of (0x80 + r div 64 mod 64), char_of (0x80 + r mod 64)]
     else
       [char_of (0xF0 + r div 262144), char_of (0x80 + r div 4096 mod 64),
        char_of (0x80 + r div 64 mod 64), char_of (0x80 + r mod 64)])"

lemma decode_rune_width_pos: "s \<noteq> [] \<Longrightarrow> 0 < snd (decode_rune s)"
  by (cases s) (auto simp: Let_def split: list.splits)

lemma decode_rune_width_le: "snd (decode_rune s) \<le> length s"
  by (cases s) (auto simp: Let_def split: list.splits)

function chunks :: "string \<Rightarrow> (nat \<times> string) list" where
  "chunks s =
    (if s = [] then []
     else (fst (decode_rune s), take (snd (decode_rune s)) s) # chunks (drop (snd (decode_rune s)) s))"
  by pat_completeness auto
termination
  by (relation "measure length") (auto simp: decode_rune_width_pos)

declare chunks.simps [simp del]
declare decode_rune.simps [simp del]

lemma chunks_Nil [simp]: "chunks [] = []"
  by (simp add: chunks.simps)

lemma chunks_eq_Nil [simp]: "chunks s = [] \<longleftrightarrow> s = []"
  by (simp add: chunks.simps [of s])

lemma concat_chunks: "concat (map snd (chunks s)) = s"
proof (induction s rule: chunks.induct)
  case (1 s)
  then show ?case
    by (cases "s = []") (auto simp: chunks.simps [of s])
qed

definition runes :: "string \<Rightarrow> nat list" where
  "runes s = map fst (chunks s)"

definition string_of_runes :: "nat list \<Rightarrow> string" where
  "string_of_runes rs = concat (map encode_rune rs)"

definition rune_count :: "string \<Rightarrow> nat" where
  "rune_count s = length (runes s)"

lemma valid_rune_error [simp]: "valid_rune rune_error"
  by (simp add: valid_rune_def rune_error_def)

lemma valid_two: "x \<le> 0xDF \<Longrightarrow> y \<le> 0xBF \<Longrightarrow> valid_rune ((x - 0xC0) * 64 + (y - 0x80))"
  unfolding valid_rune_def by linarith

lemma valid_three:
  assumes "x \<le> 0xEF" "accept_lo x \<le> y" "y \<le> accept_hi x" "z \<le> 0xBF"
  shows "valid_rune ((x - 0xE0) * 4096 + (y - 0x80) * 64 + (z - 0x80))"
proof -
  have y: "0x80 \<le> y" "y \<le> 0xBF" "x = 0xED \<Longrightarrow> y \<le> 0x9F"
    using assms by (auto simp: accept_lo_def accept_hi_def split: if_splits)
  consider "x \<le> 0xEC" | "x = 0xED" | "0xEE \<le> x" by linarith
  then show ?thesis
    using y assms(1,4) unfolding valid_rune_def by cases linarith+
qed

lemma valid_four:
  assumes "0xF0 \<le> x" "x \<le> 0xF4" "accept_lo x \<le> y" "y \<le> accept_hi x"
    and "w \<le> 0xBF" "z \<le> 0xBF"
  shows "valid_rune ((x - 0xF0) * 262144 + (y - 0x80) * 4096 + (w - 0x80) * 64 + (z - 0x80))"
proof -
  have y: "y \<le> 0xBF" "x = 0xF0 \<Longrightarrow> 0x90 \<le> y" "x = 0xF4 \<Longrightarrow> y \<le> 0x8F"
    using assms by (auto simp: accept_lo_def accept_hi_def split: if_splits)
  consider "x = 0xF0" | "0xF0 < x" "x < 0xF4" | "x = 0xF4" using assms(1,2) by linarith
  then show ?thesis
    using y assms(5,6) unfolding valid_rune_def by cases linarith+
qed

lemma decode_rune_valid: "valid_rune (fst (decode_rune s))"
proof (cases s)
  case Nil
  then show ?thesis by (simp add: decode_rune.simps)
next
  case (Cons b0 bs)
  have "b < 0x80 \<Longrightarrow> valid_rune b" for b by (simp add: valid_rune_def)
  then show ?thesis
    unfolding Cons decode_rune.simps Let_def
    by (simp add: cont_def valid_two valid_three valid_four del: Nat.add_diff_assoc split: list.split)
qed

lemma valid_runes: "r \<in> set (runes s) \<Longrightarrow> valid_rune r"
proof (induction s rule: chunks.induct)
  case (1 s)
  then show ?case
    by (cases "s = []") (auto simp: runes_def chunks.simps [of s] decode_rune_valid)
qed

lemma byte_char_of [simp]: "n < 256 \<Longrightarrow> byte (char_of n) = n"
  by simp

lemma digits64_3: "(r::nat) = r div 4096 * 4096 + r div 64 mod 64 * 64 + r mod 64"
proof -
  have "r div 4096 = r div 64 div 64" using div_mult2_eq [of r 64 64] by simp
  then show ?thesis
    using div_mult_mod_eq [of r 64] div_mult_mod_eq [of "r div 64" 64] by linarith
qed

lemma digits64_4:
  "(r::nat) = r div 262144 * 262144 + r div 4096 mod 64 * 4096 + r div 64 mod 64 * 64 + r mod 64"
proof -
  have "r div 262144 = r div 4096 div 64" using div_mult2_eq [of r 4096 64] by simp
  then show ?thesis
    using digits64_3 [of r] div_mult_mod_eq [of "r div 4096" 64] by linarith
qed

lemma decode_three:
  assumes "a < 16" "b < 64" "c < 64" "0x800 \<le> a * 4096 + b * 64 + c"
    and "a * 4096 + b * 64 + c < 0xD800 \<or> 0xDFFF < a * 4096 + b * 64 + c"
  shows "decode_rune (char_of (0xE0 + a) # char_of (0x80 + b) # char_of (0x80 + c) # s)
    = (a * 4096 + b * 64 + c, 3)"
proof -
  have "accept_lo (0xE0 + a) \<le> 0x80 + b" "0x80 + b \<le> accept_hi (0xE0 + a)"
    using assms by (auto simp: accept_lo_def accept_hi_def)
  then show ?thesis
    using assms by (simp add: decode_rune.simps cont_def Let_def)
qed

lemma decode_four:
  assumes "a < 5" "b < 64" "c < 64" "d < 64"
    and "0x10000 \<le> a * 262144 + b * 4096 + c * 64 + d"
    and "a * 262144 + b * 4096 + c * 64 + d \<le> 0x10FFFF"
  shows "decode_rune (char_of (0xF0 + a) # char_of (0x80 + b) # char_of (0x80 + c) # char_of (0x80 + d) # s)
    = (a * 262144 + b * 4096 + c * 64 + d, 4)"
proof -
  have "accept_lo (0xF0 + a) \<le> 0x80 + b" "0x80 + b \<le> accept_hi (0xF0 + a)"
    using assms by (auto simp: accept_lo_def accept_hi_def)
  then show ?thesis
    using assms by (simp add: decode_rune.simps cont_def Let_def)
qed

lemma decode_encode:
  assumes "valid_rune r"
  shows "decode_rune (encode_rune r @ s) = (r, length (encode_rune r))"
proof -
  have v: "r < 0xD800 \<or> 0xDFFF < r \<and> r \<le> 0x10FFFF"
    using assms by (simp add: valid_rune_def)
  consider (one) "r < 0x80" | (two) "0x80 \<le> r" "r < 0x800"
    | (three) "0x800 \<le> r" "r < 0x10000" | (four) "0x10000 \<le> r" "r \<le> 0x10FFFF"
    using v by linarith
  then show ?thesis
  proof cases
    case one
    then show ?thesis using assms by (simp add: encode_rune_def decode_rune.simps)
  next
    case two
    then have "2 \<le> r div 64" "r div 64 < 32" by auto
    then show ?thesis
      using two assms by (simp add: encode_rune_def decode_rune.simps cont_def Let_def)
  next
    case three
    then show ?thesis
      using v assms digits64_3 [of r, symmetric] decode_three [of "r div 4096" "r div 64 mod 64" "r mod 64" s]
      by (simp add: encode_rune_def Let_def)
  next
    case four
    then show ?thesis
      using assms digits64_4 [of r, symmetric]
        decode_four [of "r div 262144" "r div 4096 mod 64" "r div 64 mod 64" "r mod 64" s]
      by (simp add: encode_rune_def Let_def)
  qed
qed

lemma encode_rune_nonempty [simp]: "encode_rune r \<noteq> []"
  by (simp add: encode_rune_def Let_def)

lemma chunks_encode: "valid_rune r \<Longrightarrow> chunks (encode_rune r @ s) = (r, encode_rune r) # chunks s"
  by (subst chunks.simps) (simp add: decode_encode)

text \<open>Decoding the encoding of scalar values gives them back.\<close>

lemma runes_string_of_runes:
  "\<forall>r \<in> set rs. valid_rune r \<Longrightarrow> runes (string_of_runes rs) = rs"
  by (induction rs) (auto simp: runes_def string_of_runes_def chunks_encode)

lemma rune_count_string_of_runes:
  "\<forall>r \<in> set rs. valid_rune r \<Longrightarrow> rune_count (string_of_runes rs) = length rs"
  by (simp add: rune_count_def runes_string_of_runes)

subsection \<open>White space and control characters\<close>

definition is_space :: "nat \<Rightarrow> bool" where
  "is_space r \<longleftrightarrow> 9 \<le> r \<and> r \<le> 13 \<or> r = 0x20 \<or> r = 0x85 \<or> r = 0xA0 \<or> r = 0x1680
     \<or> 0x2000 \<le> r \<and> r \<le> 0x200A \<or> r = 0x2028 \<or> r = 0x2029 \<or> r = 0x202F \<or> r = 0x205F \<or> r = 0x3000"

definition is_control :: "nat \<Rightarrow> bool" where
  "is_control r \<longleftrightarrow> r < 0x20 \<or> 0x7F \<le> r \<and> r < 0xA0"

text \<open>
  \<open>strings.TrimSpace\<close> drops the leading and the trailing white-space runes.  Cutting
  on the left and on the right at the boundaries of the forward decoding is what Go
  does: the first byte of a valid encoding is never inside another valid encoding.
\<close>

definition trim_chunks :: "(nat \<times> string) list \<Rightarrow> (nat \<times> string) list" where
  "trim_chunks cs =
    rev (dropWhile (is_space \<circ> fst) (rev (dropWhile (is_space \<circ> fst) cs)))"

definition trim_space :: "string \<Rightarrow> string" where
  "trim_space s = concat (map snd (trim_chunks (chunks s)))"

fun fields_chunks :: "(nat \<times> string) list \<Rightarrow> string \<Rightarrow> string list" where
  "fields_chunks [] cur = (if cur = [] then [] else [cur])"
| "fields_chunks ((r, b) # cs) cur =
    (if is_space r then (if cur = [] then fields_chunks cs [] else cur # fields_chunks cs [])
     else fields_chunks cs (cur @ b))"

definition fields :: "string \<Rightarrow> string list" where
  "fields s = fields_chunks (chunks s) []"

fun join :: "string list \<Rightarrow> string \<Rightarrow> string" where
  "join [] sep = []"
| "join [x] sep = x"
| "join (x # y # xs) sep = x @ sep @ join (y # xs) sep"

text \<open>
  \<open>strings.Map\<close> re-encodes every mapped rune; an invalid byte becomes the encoding of
  what \<open>RuneError\<close> is mapped to.
\<close>

definition strings_map :: "(nat \<Rightarrow> nat) \<Rightarrow> string \<Rightarrow> string" where
  "strings_map f s = string_of_runes (map f (runes s))"

definition truncate_runes :: "nat \<Rightarrow> string \<Rightarrow> string" where
  "truncate_runes n s = string_of_runes (take n (runes s))"

lemma rune_count_truncate: "rune_count (truncate_runes n s) = min (rune_count s) n"
proof -
  have "\<forall>r \<in> set (take n (runes s)). valid_rune r"
    by (meson in_set_takeD valid_runes)
  from rune_count_string_of_runes [OF this] show ?thesis
    by (simp add: truncate_runes_def rune_count_def min.commute)
qed

lemma chunks_ascii: "\<forall>c \<in> set s. byte c < 0x80 \<Longrightarrow> chunks s = map (\<lambda>c. (byte c, [c])) s"
  by (induction s) (auto simp: chunks.simps [of "_ # _"] decode_rune.simps)

lemma rune_count_ascii: "\<forall>c \<in> set s. byte c < 0x80 \<Longrightarrow> rune_count s = length s"
  by (simp add: rune_count_def runes_def chunks_ascii)

lemma encode_rune_ascii: "byte c < 0x80 \<Longrightarrow> encode_rune (byte c) = [c]"
  by (simp add: encode_rune_def valid_rune_def)

lemma string_of_runes_ascii: "\<forall>c \<in> set s. byte c < 0x80 \<Longrightarrow> string_of_runes (map of_char s) = s"
  by (induction s) (auto simp: string_of_runes_def encode_rune_ascii)

lemma fields_chunks_none:
  "\<forall>x \<in> set cs. \<not> is_space (fst x) \<Longrightarrow>
     fields_chunks cs cur = (let w = cur @ concat (map snd cs) in if w = [] then [] else [w])"
  by (induction cs arbitrary: cur) (auto simp: Let_def simp del: concat_eq_Nil_conv)

lemma dropWhile_none: "\<forall>x \<in> set xs. \<not> P x \<Longrightarrow> dropWhile P xs = xs"
  by (cases xs) auto

lemma trim_chunks_none: "\<forall>x \<in> set cs. \<not> is_space (fst x) \<Longrightarrow> trim_chunks cs = cs"
  by (simp add: trim_chunks_def dropWhile_none)

lemma trim_space_graphic:
  assumes "\<forall>c \<in> set s. 0x20 < byte c \<and> byte c < 0x7F"
  shows "trim_space s = s"
proof -
  have c: "chunks s = map (\<lambda>c. (byte c, [c])) s" using assms by (intro chunks_ascii) auto
  have "\<forall>x \<in> set (chunks s). \<not> is_space (fst x)" using assms by (auto simp: c is_space_def)
  then show ?thesis by (simp add: trim_space_def trim_chunks_none concat_chunks)
qed

lemma fields_graphic:
  assumes "\<forall>c \<in> set s. 0x20 < byte c \<and> byte c < 0x7F"
  shows "fields s = (if s = [] then [] else [s])"
proof -
  have c: "chunks s = map (\<lambda>c. (byte c, [c])) s" using assms by (intro chunks_ascii) auto
  have "\<forall>x \<in> set (chunks s). \<not> is_space (fst x)" using assms by (auto simp: c is_space_def)
  then show ?thesis
    using concat_chunks [of s] by (simp add: fields_def fields_chunks_none Let_def)
qed

subsection \<open>Decoding around boundaries\<close>

lemma decode_rune_take:
  assumes "snd (decode_rune s) \<le> n" "0 < n"
  shows "decode_rune (take n s) = decode_rune s"
proof (cases s)
  case (Cons b0 bs)
  obtain m where m: "n = Suc m" using assms(2) by (cases n) auto
  consider "byte b0 < 0xC2" | "0xC2 \<le> byte b0" "byte b0 \<le> 0xDF" | "0xE0 \<le> byte b0" "byte b0 \<le> 0xEF"
    | "0xF0 \<le> byte b0" "byte b0 \<le> 0xF4" | "0xF4 < byte b0" by linarith
  then show ?thesis
    using assms(1) unfolding Cons m
    by cases (auto simp: decode_rune.simps Let_def take_Cons' split: list.splits if_splits)
qed simp

lemma decode_rune_tail:
  assumes "0 < i" "i < snd (decode_rune s)"
  shows "0x80 \<le> byte (s ! i)"
proof -
  obtain b0 bs where s: "s = b0 # bs" using assms(2) by (cases s) (auto simp: decode_rune.simps)
  have lo: "0x80 \<le> accept_lo x" for x by (simp add: accept_lo_def)
  have "snd (decode_rune s) \<le> 4" by (auto simp: s decode_rune.simps Let_def split: list.split)
  then consider "i = 1" | "i = 2" | "i = 3" using assms by linarith
  then show ?thesis
    using assms(2) lo [of "byte b0"] unfolding s
    by cases (simp_all add: decode_rune.simps Let_def cont_def split: list.splits if_splits)
qed

lemma decode_rune_before_ascii:
  assumes "a \<noteq> []" "byte c < 0x80"
  shows "decode_rune (a @ c # b) = decode_rune a"
proof -
  let ?s = "a @ c # b"
  have "snd (decode_rune ?s) \<le> length a"
    using decode_rune_tail [of "length a" ?s] assms by (fastforce simp: not_le)
  from decode_rune_take [OF this] assms(1) show ?thesis by simp
qed

lemma chunks_ascii_Cons [simp]: "byte c < 0x80 \<Longrightarrow> chunks (c # s) = (byte c, [c]) # chunks s"
  by (simp add: chunks.simps [of "c # s"] decode_rune.simps)

lemma chunks_before_ascii: "byte c < 0x80 \<Longrightarrow> chunks (a @ c # b) = chunks a @ (byte c, [c]) # chunks b"
proof (induction a rule: chunks.induct)
  case (1 a)
  show ?case
  proof (cases "a = []")
    case False
    then show ?thesis
      using 1 decode_rune_width_le [of a]
      by (simp add: chunks.simps [of "a @ c # b"] chunks.simps [of a] decode_rune_before_ascii)
  qed (simp add: 1)
qed

lemma chunks_take: "chunks (concat (map snd (take n (chunks s)))) = take n (chunks s)"
proof (induction s arbitrary: n rule: chunks.induct)
  case (1 s)
  show ?case
  proof (cases "s = [] \<or> n = 0")
    case False
    then obtain m where m: "n = Suc m" "s \<noteq> []" by (cases n) auto
    let ?w = "snd (decode_rune s)"
    let ?r = "concat (map snd (take m (chunks (drop ?w s))))"
    have t: "take ?w s @ ?r = take (?w + length ?r) s"
    proof -
      have "?r @ concat (map snd (drop m (chunks (drop ?w s)))) = drop ?w s"
        by (metis append_take_drop_id concat_append concat_chunks map_append)
      then have "?r = take (length ?r) (drop ?w s)" by (metis append_eq_conv_conj)
      then show ?thesis by (metis take_add)
    qed
    have w: "0 < ?w" "?w \<le> length s" using m decode_rune_width_pos decode_rune_width_le by auto
    have d: "decode_rune (take ?w s @ ?r) = decode_rune s"
      unfolding t using w by (intro decode_rune_take) auto
    show ?thesis
      using 1(1) [OF m(2), of m] m w d
      by (simp add: chunks.simps [of s] chunks.simps [of "take ?w s @ ?r"])
  qed auto
qed

definition trim_right :: "string \<Rightarrow> string" where
  "trim_right s = concat (map snd (rev (dropWhile (is_space \<circ> fst) (rev (chunks s)))))"

lemma rev_dropWhile_take: "\<exists>n. rev (dropWhile P (rev xs)) = take n xs"
  by (metis dropWhile_eq_drop rev_drop rev_rev_ident)

lemma chunks_trim_right: "chunks (trim_right s) = rev (dropWhile (is_space \<circ> fst) (rev (chunks s)))"
  unfolding trim_right_def using rev_dropWhile_take [of "is_space \<circ> fst" "chunks s"] chunks_take by metis

lemma trim_space_around:
  assumes "byte d < 0x80" "\<not> is_space (byte d)" "byte c < 0x80" "\<not> is_space (byte c)"
  shows "trim_space (d # a @ c # b) = d # a @ c # trim_right b"
proof -
  have "dropWhile (is_space \<circ> fst) (xs @ (byte c, [c]) # ys) = dropWhile (is_space \<circ> fst) xs @ (byte c, [c]) # ys" for xs ys
    using assms(4) by (induction xs) auto
  then show ?thesis
    using assms
    by (simp add: trim_space_def trim_chunks_def chunks_before_ascii trim_right_def concat_chunks dropWhile_append3)
qed

lemma rune_count_before_ascii:
  "byte c < 0x80 \<Longrightarrow> rune_count (a @ c # b) = rune_count a + 1 + rune_count b"
  by (simp add: rune_count_def runes_def chunks_before_ascii)

lemma rune_count_trim_right: "rune_count (trim_right s) \<le> rune_count s"
  using length_dropWhile_le [of "is_space \<circ> fst" "rev (chunks s)"]
  by (simp add: rune_count_def runes_def chunks_trim_right)

text \<open>\<open>utf8.ValidString\<close>: no byte decodes to an error of width one.\<close>

definition valid_string :: "string \<Rightarrow> bool" where
  "valid_string s \<longleftrightarrow> list_all (\<lambda>(r, w). \<not> (r = rune_error \<and> length w = 1)) (chunks s)"

lemma fields_chunks_no_empty: "\<forall>x \<in> set cs. snd x \<noteq> [] \<Longrightarrow> [] \<notin> set (fields_chunks cs cur)"
  by (induction cs cur rule: fields_chunks.induct) auto

lemma fields_chunks_visible:
  "cur \<noteq> [] \<or> (\<exists>x \<in> set cs. \<not> is_space (fst x)) \<Longrightarrow> \<forall>x \<in> set cs. snd x \<noteq> [] \<Longrightarrow> fields_chunks cs cur \<noteq> []"
  by (induction cs cur rule: fields_chunks.induct) auto

lemma chunk_nonempty: "x \<in> set (chunks s) \<Longrightarrow> snd x \<noteq> []"
proof (induction s rule: chunks.induct)
  case (1 s)
  then show ?case
    using decode_rune_width_pos [of s] by (cases "s = []") (auto simp: chunks.simps [of s])
qed

lemma join_fields_nonempty:
  assumes "x \<in> set (chunks s)" "\<not> is_space (fst x)"
  shows "join (fields s) sep \<noteq> []"
proof -
  have "fields s \<noteq> []" "[] \<notin> set (fields s)"
    using assms fields_chunks_visible [of "[]" "chunks s"] fields_chunks_no_empty [of "chunks s" "[]"] chunk_nonempty
    by (auto simp: fields_def)
  then show ?thesis by (cases "(fields s, sep)" rule: join.cases) auto
qed

subsection \<open>Searching, cutting and splitting\<close>

definition has_prefix :: "string \<Rightarrow> string \<Rightarrow> bool" where
  "has_prefix s p \<longleftrightarrow> take (length p) s = p"

definition trim_prefix :: "string \<Rightarrow> string \<Rightarrow> string" where
  "trim_prefix s p = (if has_prefix s p then drop (length p) s else s)"

definition has_suffix :: "string \<Rightarrow> string \<Rightarrow> bool" where
  "has_suffix s p \<longleftrightarrow> length p \<le> length s \<and> drop (length s - length p) s = p"

definition trim_suffix :: "string \<Rightarrow> string \<Rightarrow> string" where
  "trim_suffix s p = (if has_suffix s p then take (length s - length p) s else s)"

text \<open>\<open>strings.IndexByte\<close> together with the two slices the callers take around it.\<close>

fun cut_byte :: "char \<Rightarrow> string \<Rightarrow> (string \<times> string) option" where
  "cut_byte c [] = None"
| "cut_byte c (x # xs) =
    (if x = c then Some ([], xs) else map_option (\<lambda>(a, b). (x # a, b)) (cut_byte c xs))"

lemma cut_byte_Some: "cut_byte c s = Some (a, b) \<longleftrightarrow> s = a @ c # b \<and> c \<notin> set a"
proof (induction s arbitrary: a)
  case (Cons x xs)
  then show ?case by (cases a) auto
qed simp

lemma cut_byte_None: "cut_byte c s = None \<longleftrightarrow> c \<notin> set s"
  by (induction s) auto

fun split_byte :: "char \<Rightarrow> string \<Rightarrow> string list" where
  "split_byte c [] = [[]]"
| "split_byte c (x # xs) =
    (if x = c then [] # split_byte c xs
     else (x # hd (split_byte c xs)) # tl (split_byte c xs))"

lemma split_byte_nonempty [simp]: "split_byte c s \<noteq> []"
  by (cases s) auto

lemma split_byte_plain [simp]: "c \<notin> set a \<Longrightarrow> split_byte c a = [a]"
  by (induction a) auto

lemma split_byte_append [simp]:
  "c \<notin> set a \<Longrightarrow> split_byte c (a @ c # b) = a # split_byte c b"
  by (induction a) auto

lemma join_split_byte: "join (split_byte c s) [c] = s"
proof (induction s)
  case (Cons x xs)
  obtain y ys where "split_byte c xs = y # ys"
    using split_byte_nonempty neq_Nil_conv by metis
  with Cons show ?case by (cases ys) auto
qed simp

subsection \<open>Decimal numbers\<close>

definition is_digit :: "char \<Rightarrow> bool" where
  "is_digit c \<longleftrightarrow> 48 \<le> byte c \<and> byte c \<le> 57"

fun show_nat :: "nat \<Rightarrow> string" where
  "show_nat n = (if n < 10 then [char_of (48 + n)] else show_nat (n div 10) @ [char_of (48 + n mod 10)])"

declare show_nat.simps [simp del]

definition digits_value :: "string \<Rightarrow> nat" where
  "digits_value s = foldl (\<lambda>n c. 10 * n + (byte c - 48)) 0 s"

lemma digits_value_snoc [simp]: "digits_value (s @ [c]) = 10 * digits_value s + (byte c - 48)"
  by (simp add: digits_value_def)

lemma show_nat_value: "digits_value (show_nat n) = n"
proof (induction n rule: show_nat.induct)
  case (1 n)
  show ?case
  proof (cases "n < 10")
    case True
    then show ?thesis by (simp add: show_nat.simps [of n] digits_value_def)
  next
    case False
    with 1 show ?thesis by (simp add: show_nat.simps [of n])
  qed
qed

lemma show_nat_digits: "\<forall>c \<in> set (show_nat n). is_digit c"
proof (induction n rule: show_nat.induct)
  case (1 n)
  then show ?case
    by (cases "n < 10") (auto simp: show_nat.simps [of n] is_digit_def)
qed

lemma show_nat_nonempty [simp]: "show_nat n \<noteq> []"
  by (simp add: show_nat.simps [of n])

lemma show_nat_no_leading_zero: "1 < length (show_nat n) \<Longrightarrow> hd (show_nat n) \<noteq> CHR ''0''"
proof (induction n rule: show_nat.induct)
  case (1 n)
  show ?case
  proof (cases "n < 10")
    case True
    with 1 show ?thesis by (simp add: show_nat.simps [of n])
  next
    case False
    let ?m = "n div 10"
    have s: "show_nat n = show_nat ?m @ [char_of (48 + n mod 10)]"
      using False by (simp add: show_nat.simps [of n])
    have "hd (show_nat ?m) \<noteq> CHR ''0''"
    proof (cases "?m < 10")
      case True
      have "show_nat ?m = [char_of (48 + ?m)]" using True by (simp add: show_nat.simps [of ?m])
      moreover have "byte (char_of (48 + ?m)) \<noteq> byte CHR ''0''" using False True by simp
      ultimately show ?thesis by (metis list.sel(1))
    next
      case big: False
      then have "1 < length (show_nat ?m)"
        by (subst show_nat.simps) (simp add: Suc_lessI)
      with 1(1) False show ?thesis by simp
    qed
    with s show ?thesis by simp
  qed
qed

lemma show_nat_inject: "show_nat a = show_nat b \<Longrightarrow> a = b"
  by (metis show_nat_value)

end
