(* ===== verification/Workspace_Context.thy ===== *)
theory Workspace_Context
  imports Go_Strings
begin

text \<open>
  \<open>internal/workspacecontext/context.go\<close>: the per-generation Workspace context a
  Worker generation carries.  The file system and the path functions of the host
  platform (\<open>filepath.IsAbs\<close>, \<open>Abs\<close>, \<open>EvalSymlinks\<close>, \<open>Clean\<close>, \<open>Base\<close> and
  \<open>os.Stat\<close>) are an environment record passed to the operations; a call that
  fails is \<open>None\<close>, and \<open>fs_stat\<close> gives whether the path is a directory.
\<close>

record fs_env =
  fs_is_abs :: "string \<Rightarrow> bool"
  fs_abs :: "string \<Rightarrow> string option"
  fs_eval_symlinks :: "string \<Rightarrow> string option"
  fs_stat :: "string \<Rightarrow> bool option"
  fs_clean :: "string \<Rightarrow> string"
  fs_base :: "string \<Rightarrow> string"

datatype ws_state = StateSelected | StateSelectionRequired | StateOther string

record ws_request =
  req_ID :: string
  req_Path :: string
  req_Title :: string

record ws_context =
  ws_GenerationID :: string
  ws_State :: ws_state
  ws_ID :: string
  ws_Path :: string
  ws_Title :: string

datatype ws_error =
    WsCancelled string
  | WsGenerationRequired
  | WsIDRequired
  | WsPathNotAbsolute
  | WsPathRequired
  | WsResolveFailed
  | WsStatFailed
  | WsNotDirectory
  | WsOtherGeneration
  | WsUnexpectedRecord
  | WsIDAndTitleRequired
  | WsNotCanonical
  | WsUnsupportedState string

definition canonicalDirectory :: "fs_env \<Rightarrow> string \<Rightarrow> ws_error + string" where
  "canonicalDirectory fs path0 =
    (let path = trim_space path0 in
     if path = [] then Inl WsPathRequired
     else if \<not> fs_is_abs fs path then Inl WsPathNotAbsolute
     else case fs_abs fs path of
       None \<Rightarrow> Inl WsResolveFailed
     | Some absolute \<Rightarrow>
         (case fs_eval_symlinks fs absolute of
            None \<Rightarrow> Inl WsResolveFailed
          | Some canonical \<Rightarrow>
              (case fs_stat fs canonical of
                 None \<Rightarrow> Inl WsStatFailed
               | Some is_dir \<Rightarrow>
                   if \<not> is_dir then Inl WsNotDirectory else Inr (fs_clean fs canonical))))"

definition NewSelected :: "fs_env \<Rightarrow> string \<Rightarrow> string \<Rightarrow> string \<Rightarrow> string \<Rightarrow> ws_error + ws_context" where
  "NewSelected fs generationID id0 path title0 =
    (if trim_space generationID = [] then Inl WsGenerationRequired
     else let id = trim_space id0 in
       if id = [] then Inl WsIDRequired
       else if \<not> fs_is_abs fs (trim_space path) then Inl WsPathNotAbsolute
       else case canonicalDirectory fs path of
         Inl e \<Rightarrow> Inl e
       | Inr canonical \<Rightarrow>
           let title1 = trim_space title0;
               title = (if title1 = [] then fs_base fs canonical else title1)
           in Inr \<lparr>ws_GenerationID = generationID, ws_State = StateSelected, ws_ID = id,
                   ws_Path = canonical, ws_Title = title\<rparr>)"

text \<open>\<open>ctx.Err()\<close> of the caller's context is \<open>Some\<close> when it is cancelled; a nil context is \<open>None\<close>.\<close>

definition Resolve :: "fs_env \<Rightarrow> string option \<Rightarrow> string \<Rightarrow> ws_request \<Rightarrow> ws_error + ws_context" where
  "Resolve fs ctx_err generationID request =
    (case ctx_err of
       Some e \<Rightarrow> Inl (WsCancelled e)
     | None \<Rightarrow>
         if trim_space generationID = [] then Inl WsGenerationRequired
         else if trim_space (req_ID request) = [] \<and> trim_space (req_Path request) = []
                 \<and> trim_space (req_Title request) = []
         then Inr \<lparr>ws_GenerationID = generationID, ws_State = StateSelectionRequired, ws_ID = [],
                   ws_Path = [], ws_Title = []\<rparr>
         else NewSelected fs generationID (req_ID request) (req_Path request) (req_Title request))"

definition ValidateForGeneration :: "fs_env \<Rightarrow> ws_context \<Rightarrow> string \<Rightarrow> ws_error option" where
  "ValidateForGeneration fs c generationID =
    (if trim_space generationID = [] \<or> ws_GenerationID c \<noteq> generationID then Some WsOtherGeneration
     else case ws_State c of
       StateSelectionRequired \<Rightarrow>
         if ws_ID c \<noteq> [] \<or> ws_Path c \<noteq> [] \<or> ws_Title c \<noteq> [] then Some WsUnexpectedRecord else None
     | StateSelected \<Rightarrow>
         if trim_space (ws_ID c) = [] \<or> trim_space (ws_Title c) = [] then Some WsIDAndTitleRequired
         else (case canonicalDirectory fs (ws_Path c) of
                 Inl e \<Rightarrow> Some e
               | Inr canonical \<Rightarrow> if canonical \<noteq> ws_Path c then Some WsNotCanonical else None)
     | StateOther s \<Rightarrow> Some (WsUnsupportedState s))"

lemma ValidateForGeneration_None:
  "ValidateForGeneration fs c g = None \<Longrightarrow>
     ws_GenerationID c = g \<and> g \<noteq> [] \<and> ws_State c \<in> {StateSelected, StateSelectionRequired}"
  by (auto simp: ValidateForGeneration_def trim_space_def trim_chunks_def
      split: if_splits ws_state.splits)

end
