(* ===== verification/Lifecycle.thy ===== *)
theory Lifecycle
  imports Workspace_Context "HOL-Library.Word"
begin

text \<open>
  \<open>internal/lifecycle/types.go\<close>: the lifecycle machine of the Host.  Every method
  of \<open>Machine\<close> runs under the machine's mutex, so one method call is one atomic
  step on the status; the model of a method maps the status before the call to the
  status after it and the error it returns.  The status a method returns is a clone
  of the machine's own status (\<open>cloneStatus\<close>), so it is not modelled twice.
\<close>

subsection \<open>Data\<close>

datatype state = StateStarting | StateReady | StateStopping | StateStopped | StateFailed

datatype phase =
    PhaseIdle | PhaseConfiguration | PhaseRuntime | PhaseNode | PhaseProfile | PhaseWorker
  | PhaseReadiness | PhaseCheckpoint | PhaseWorkspace | PhaseStopping | PhaseFailed

datatype preparation_state =
    RuntimePreparationIdle | RuntimePreparationResolvingToolchain | RuntimePreparationAcquiringNode
  | RuntimePreparationAcquiringDSH | RuntimePreparationVerifying | RuntimePreparationInstalled
  | RuntimePreparationCancelled | RuntimePreparationFailed

datatype preparation_operation =
    RuntimePreparationOperationNone | RuntimePreparationOperationDetectNode
  | RuntimePreparationOperationDetectPNPM | RuntimePreparationOperationDetectNPM
  | RuntimePreparationOperationDownloadNode | RuntimePreparationOperationInstallDSH
  | RuntimePreparationOperationVerify | RuntimePreparationOperationCleanup

datatype preparation_source =
    RuntimePreparationSourceNone | RuntimePreparationSourceLocal
  | RuntimePreparationSourceOfficial | RuntimePreparationSourceMirror

text \<open>An \<open>ErrorCode\<close> is a string type; the codes the machine compares are named here.\<close>

type_synonym error_code = string

definition ErrorInvalidTransition :: error_code where
  "ErrorInvalidTransition = ''INVALID_LIFECYCLE_TRANSITION''"

record failure =
  f_Code :: error_code
  f_Summary :: string
  f_Retryable :: bool
  f_EffectOccurred :: bool
  f_CorrelationID :: string
  f_Detail :: string

definition failure_Error :: "failure \<Rightarrow> string" where
  "failure_Error f =
    (if f_Detail f = [] then f_Code f @ '': '' @ f_Summary f
     else f_Code f @ '': '' @ f_Summary f @ '' ('' @ f_Detail f @ '')'')"

record runtime_preparation =
  rp_State :: preparation_state
  rp_Operation :: preparation_operation
  rp_TargetVersion :: string
  rp_Toolchain :: string
  rp_Source :: preparation_source
  rp_ReceivedBytes :: "64 word"
  rp_TotalBytes :: "64 word"
  rp_HasTotal :: bool
  rp_CanCancel :: bool
  rp_Error :: "failure option"

record launch_selection =
  ls_RuntimeVersion :: string
  ls_RuntimePath :: string
  ls_NodeVersion :: string
  ls_NodePath :: string
  ls_DataDirectoryPath :: string
  ls_ProfileName :: string
  ls_RuntimeID :: string
  ls_NodeID :: string

record fault_plugin =
  fp_Package :: string
  fp_Enabled :: bool
  fp_Suspected :: bool

record status =
  LaunchSelection :: "launch_selection option"
  State :: state
  Phase :: phase
  GenerationID :: string
  WorkspaceURL :: string
  Workspace :: "ws_context option"
  RuntimePreparation :: "runtime_preparation option"
  Error :: "failure option"
  PluginFault :: "fault_plugin list option"
  CanRetry :: bool
  CanCancel :: bool
  CorrelationID :: string

datatype transition_error = TransitionError (From: state) (To: state) (Why: string)

datatype machine_error = Transition transition_error | InvalidWorkspace ws_error

definition empty_status :: status where
  "empty_status = \<lparr>LaunchSelection = None, State = StateStopped, Phase = PhaseIdle, GenerationID = [],
     WorkspaceURL = [], Workspace = None, RuntimePreparation = None, Error = None,
     PluginFault = None, CanRetry = False, CanCancel = False, CorrelationID = []\<rparr>"

text \<open>The copy a caller receives; a pointer field is copied to a fresh object of equal value.\<close>

definition cloneStatus :: "status \<Rightarrow> status" where
  "cloneStatus status = status
     \<lparr>LaunchSelection := (case LaunchSelection status of None \<Rightarrow> None | Some selection \<Rightarrow> Some selection),
      Workspace := (case Workspace status of None \<Rightarrow> None | Some workspace \<Rightarrow> Some workspace),
      Error := (case Error status of None \<Rightarrow> None | Some failure \<Rightarrow> Some failure),
      RuntimePreparation := (case RuntimePreparation status of
          None \<Rightarrow> None
        | Some preparation \<Rightarrow> Some (preparation\<lparr>rp_Error := (case rp_Error preparation of
              None \<Rightarrow> None | Some failure \<Rightarrow> Some failure)\<rparr>))\<rparr>"

lemma cloneStatus_id: "cloneStatus s = s"
  by (cases s) (auto simp: cloneStatus_def split: option.splits)

subsection \<open>Generation identifiers\<close>

text \<open>
  \<open>newGenerationID\<close> hex-encodes eight random bytes; when the random source fails it
  counts up a process-wide 64-bit sequence.  The eight bytes are an argument, packed
  in a word (\<open>None\<close> when reading them failed), and the sequence is passed along.
\<close>

definition random_bytes :: "64 word \<Rightarrow> string" where
  "random_bytes w = map (\<lambda>i. char_of (unat (drop_bit (8 * i) w))) [0..<8]"

definition hex_digit :: "nat \<Rightarrow> char" where
  "hex_digit n = (if n < 10 then char_of (48 + n) else char_of (87 + n))"

definition hex_encode :: "string \<Rightarrow> string" where
  "hex_encode bs = concat (map (\<lambda>b. [hex_digit (byte b div 16), hex_digit (byte b mod 16)]) bs)"

definition newGenerationID :: "64 word option \<Rightarrow> 64 word \<Rightarrow> string \<times> 64 word" where
  "newGenerationID random seq =
    (case random of
       Some w \<Rightarrow> (hex_encode (random_bytes w), seq)
     | None \<Rightarrow> (''local-'' @ show_nat (unat (seq + 1)), seq + 1))"

subsection \<open>The machine's operations\<close>

definition NewMachine :: status where
  "NewMachine = empty_status\<lparr>State := StateStopped, Phase := PhaseIdle, CanRetry := False, CanCancel := False\<rparr>"

definition checkGeneration :: "string \<Rightarrow> status \<Rightarrow> machine_error option" where
  "checkGeneration g m =
    (if g = [] \<or> g \<noteq> GenerationID m
     then Some (Transition (TransitionError (State m) (State m) ''stale or missing generation''))
     else None)"

text \<open>The state of \<open>BeginStart\<close> is the status and the sequence of \<open>newGenerationID\<close>.\<close>

definition BeginStart ::
    "64 word option \<Rightarrow> status \<times> 64 word \<Rightarrow> (status \<times> 64 word) \<times> string \<times> machine_error option" where
  "BeginStart random = (\<lambda>(m, seq).
    (if State m \<noteq> StateStopped \<and> State m \<noteq> StateFailed
     then ((m, seq), [], Some (Transition (TransitionError (State m) StateStarting
             ''start is already active'')))
     else let (generationID, seq') = newGenerationID random seq in
       ((empty_status\<lparr>State := StateStarting, Phase := PhaseConfiguration,
           GenerationID := generationID, CorrelationID := generationID, CanCancel := True\<rparr>, seq'),
        generationID, None)))"

definition validPhaseTransition :: "state \<Rightarrow> phase \<Rightarrow> phase \<Rightarrow> bool" where
  "validPhaseTransition state from to =
    (if from = to then True
     else if state = StateStopping then from = PhaseStopping \<and> to = PhaseStopping
     else if state \<noteq> StateStarting then False
     else (case from of
         PhaseConfiguration \<Rightarrow> to = PhaseRuntime \<or> to = PhaseNode
       | PhaseNode \<Rightarrow> to = PhaseRuntime \<or> to = PhaseWorker
       | PhaseProfile \<Rightarrow> to = PhaseWorker
       | PhaseRuntime \<Rightarrow> to = PhaseWorker \<or> to = PhaseNode \<or> to = PhaseProfile
       | PhaseWorker \<Rightarrow> to = PhaseReadiness
       | PhaseReadiness \<Rightarrow> to = PhaseCheckpoint
       | _ \<Rightarrow> False))"

definition phase_name :: "phase \<Rightarrow> string" where
  "phase_name p = (case p of
      PhaseIdle \<Rightarrow> ''idle'' | PhaseConfiguration \<Rightarrow> ''configuration'' | PhaseRuntime \<Rightarrow> ''runtime''
    | PhaseNode \<Rightarrow> ''node'' | PhaseProfile \<Rightarrow> ''profile'' | PhaseWorker \<Rightarrow> ''worker''
    | PhaseReadiness \<Rightarrow> ''readiness'' | PhaseCheckpoint \<Rightarrow> ''checkpoint'' | PhaseWorkspace \<Rightarrow> ''workspace''
    | PhaseStopping \<Rightarrow> ''stopping'' | PhaseFailed \<Rightarrow> ''failed'')"

definition SetPhase :: "string \<Rightarrow> phase \<Rightarrow> status \<Rightarrow> status \<times> machine_error option" where
  "SetPhase generationID phase m =
    (case checkGeneration generationID m of
       Some err \<Rightarrow> (m, Some err)
     | None \<Rightarrow>
         if State m \<noteq> StateStarting \<and> State m \<noteq> StateStopping
         then (m, Some (Transition (TransitionError (State m) (State m)
                 ''phase cannot change after a terminal result'')))
         else if \<not> validPhaseTransition (State m) (Phase m) phase
         then (m, Some (Transition (TransitionError (State m) (State m)
                 (''phase cannot move from '' @ phase_name (Phase m) @ '' to '' @ phase_name phase))))
         else (m\<lparr>Phase := phase\<rparr>, None))"

definition MarkReady :: "string \<Rightarrow> string \<Rightarrow> status \<Rightarrow> status \<times> machine_error option" where
  "MarkReady generationID workspaceURL m =
    (case checkGeneration generationID m of
       Some err \<Rightarrow> (m, Some err)
     | None \<Rightarrow>
         if State m \<noteq> StateStarting
         then (m, Some (Transition (TransitionError (State m) StateReady
                 ''readiness is only valid during startup'')))
         else if workspaceURL = []
         then (m, Some (Transition (TransitionError StateStarting StateReady ''workspace URL is required'')))
         else (m\<lparr>State := StateReady, Phase := PhaseWorkspace, WorkspaceURL := workspaceURL,
                 RuntimePreparation := None, CanCancel := True\<rparr>, None))"

definition SetRuntimePreparation ::
    "string \<Rightarrow> runtime_preparation \<Rightarrow> status \<Rightarrow> status \<times> machine_error option" where
  "SetRuntimePreparation generationID preparation m =
    (case checkGeneration generationID m of
       Some err \<Rightarrow> (m, Some err)
     | None \<Rightarrow>
         if State m \<noteq> StateStarting
         then (m, Some (Transition (TransitionError (State m) (State m)
                 ''runtime preparation is only projected during startup'')))
         else (m\<lparr>RuntimePreparation := Some preparation\<rparr>, None))"

definition SetWorkspaceContext ::
    "fs_env \<Rightarrow> string \<Rightarrow> ws_context \<Rightarrow> status \<Rightarrow> status \<times> machine_error option" where
  "SetWorkspaceContext fs generationID workspace m =
    (case checkGeneration generationID m of
       Some err \<Rightarrow> (m, Some err)
     | None \<Rightarrow>
         if State m \<noteq> StateStarting
         then (m, Some (Transition (TransitionError (State m) (State m)
                 ''workspace context is only set during startup'')))
         else (case ValidateForGeneration fs workspace generationID of
             Some err \<Rightarrow> (m, Some (InvalidWorkspace err))
           | None \<Rightarrow> (m\<lparr>Workspace := Some workspace\<rparr>, None)))"

definition BeginStop :: "string \<Rightarrow> status \<Rightarrow> status \<times> machine_error option" where
  "BeginStop generationID m =
    (if generationID = [] \<and> State m = StateStopped then (m, None)
     else case checkGeneration generationID m of
       Some err \<Rightarrow> (m, Some err)
     | None \<Rightarrow>
         if State m = StateStopping then (m, None)
         else if State m \<noteq> StateStarting \<and> State m \<noteq> StateReady \<and> State m \<noteq> StateFailed
         then (m, Some (Transition (TransitionError (State m) StateStopping
                 ''generation has no active stop boundary'')))
         else (m\<lparr>State := StateStopping, Phase := PhaseStopping, CanCancel := False, CanRetry := False\<rparr>,
               None))"

definition CompleteStop :: "string \<Rightarrow> failure option \<Rightarrow> status \<Rightarrow> status \<times> machine_error option" where
  "CompleteStop generationID failure m =
    (case checkGeneration generationID m of
       Some err \<Rightarrow> (m, Some err)
     | None \<Rightarrow>
         if State m \<noteq> StateStopping
         then (m, Some (Transition (TransitionError (State m) StateStopped ''stop has not been requested'')))
         else (case failure of
             Some f \<Rightarrow> (m\<lparr>State := StateFailed, Phase := PhaseFailed, Error := Some f,
                          CanRetry := f_Retryable f, CanCancel := False\<rparr>, None)
           | None \<Rightarrow> (m\<lparr>State := StateStopped, Phase := PhaseIdle, WorkspaceURL := [], Workspace := None,
                        RuntimePreparation := None, Error := None, CanRetry := False,
                        CanCancel := False\<rparr>, None)))"

definition correlated :: "failure \<Rightarrow> status \<Rightarrow> failure" where
  "correlated f m =
    (if f_CorrelationID f = [] then f\<lparr>f_CorrelationID := CorrelationID m\<rparr> else f)"

definition Fail :: "string \<Rightarrow> failure \<Rightarrow> status \<Rightarrow> status \<times> machine_error option" where
  "Fail generationID f m =
    (case checkGeneration generationID m of
       Some err \<Rightarrow> (m, Some err)
     | None \<Rightarrow>
         if State m \<noteq> StateStarting \<and> State m \<noteq> StateReady
         then (m, Some (Transition (TransitionError (State m) StateFailed
                 ''failure is already terminal or cleanup is active'')))
         else (m\<lparr>State := StateFailed, Phase := PhaseFailed, Workspace := None,
                 Error := Some (correlated f m), CanRetry := f_Retryable f, CanCancel := False\<rparr>, None))"

definition ReplaceFailure :: "string \<Rightarrow> failure \<Rightarrow> status \<Rightarrow> status \<times> machine_error option" where
  "ReplaceFailure generationID f m =
    (case checkGeneration generationID m of
       Some err \<Rightarrow> (m, Some err)
     | None \<Rightarrow>
         if State m \<noteq> StateFailed
         then (m, Some (Transition (TransitionError (State m) StateFailed
                 ''only a terminal failure can be replaced'')))
         else (m\<lparr>Error := Some (correlated f m), CanRetry := f_Retryable f, CanCancel := False\<rparr>, None))"

definition SetLaunchSelection ::
    "string \<Rightarrow> launch_selection \<Rightarrow> status \<Rightarrow> status \<times> machine_error option" where
  "SetLaunchSelection generationID selection m =
    (case checkGeneration generationID m of
       Some err \<Rightarrow> (m, Some err)
     | None \<Rightarrow> (m\<lparr>LaunchSelection := Some selection\<rparr>, None))"

subsection \<open>Runs of the machine\<close>

datatype machine_op =
    OpSetPhase phase
  | OpMarkReady string
  | OpSetRuntimePreparation runtime_preparation
  | OpSetWorkspaceContext fs_env ws_context
  | OpBeginStop
  | OpCompleteStop "failure option"
  | OpFail failure
  | OpReplaceFailure failure
  | OpSetLaunchSelection launch_selection

fun machine_call :: "machine_op \<Rightarrow> string \<Rightarrow> status \<Rightarrow> status \<times> machine_error option" where
  "machine_call (OpSetPhase p) g = SetPhase g p"
| "machine_call (OpMarkReady url) g = MarkReady g url"
| "machine_call (OpSetRuntimePreparation rp) g = SetRuntimePreparation g rp"
| "machine_call (OpSetWorkspaceContext fs w) g = SetWorkspaceContext fs g w"
| "machine_call OpBeginStop g = BeginStop g"
| "machine_call (OpCompleteStop f) g = CompleteStop g f"
| "machine_call (OpFail f) g = Fail g f"
| "machine_call (OpReplaceFailure f) g = ReplaceFailure g f"
| "machine_call (OpSetLaunchSelection sel) g = SetLaunchSelection g sel"

abbreviation machine_act :: "machine_op \<Rightarrow> string \<Rightarrow> status \<Rightarrow> status" where
  "machine_act x g m \<equiv> fst (machine_call x g m)"

datatype machine_event = Start "64 word option" | Call string machine_op

fun machine_step :: "machine_event \<Rightarrow> status \<times> 64 word \<Rightarrow> status \<times> 64 word" where
  "machine_step (Start random) ms = fst (BeginStart random ms)"
| "machine_step (Call g x) (m, seq) = (machine_act x g m, seq)"

lemmas machine_ops =
  SetPhase_def MarkReady_def SetRuntimePreparation_def SetWorkspaceContext_def BeginStop_def
  CompleteStop_def Fail_def ReplaceFailure_def SetLaunchSelection_def checkGeneration_def

definition startup_phases :: "phase set" where
  "startup_phases = {PhaseConfiguration, PhaseRuntime, PhaseNode, PhaseProfile, PhaseWorker,
     PhaseReadiness, PhaseCheckpoint}"

fun reported :: "failure option \<Rightarrow> bool \<Rightarrow> bool" where
  "reported None retry = False"
| "reported (Some f) retry = (retry = f_Retryable f)"

fun of_generation :: "string \<Rightarrow> ws_context option \<Rightarrow> bool" where
  "of_generation g None = True"
| "of_generation g (Some w) = (ws_GenerationID w = g)"

definition state_inv :: "status \<Rightarrow> bool" where
  "state_inv m \<longleftrightarrow>
     (State m = StateStarting \<longrightarrow> Phase m \<in> startup_phases \<and> CanCancel m \<and> \<not> CanRetry m
        \<and> WorkspaceURL m = [] \<and> Error m = None)
   \<and> (State m = StateReady \<longrightarrow> Phase m = PhaseWorkspace \<and> WorkspaceURL m \<noteq> []
        \<and> RuntimePreparation m = None \<and> CanCancel m \<and> \<not> CanRetry m \<and> Error m = None)
   \<and> (State m = StateStopping \<longrightarrow> Phase m = PhaseStopping \<and> \<not> CanCancel m \<and> \<not> CanRetry m)
   \<and> (State m = StateStopped \<longrightarrow> Phase m = PhaseIdle \<and> WorkspaceURL m = [] \<and> Workspace m = None
        \<and> RuntimePreparation m = None \<and> Error m = None \<and> \<not> CanCancel m \<and> \<not> CanRetry m)
   \<and> (State m = StateFailed \<longrightarrow> Phase m = PhaseFailed \<and> \<not> CanCancel m
        \<and> reported (Error m) (CanRetry m))"

definition machine_inv :: "status \<Rightarrow> bool" where
  "machine_inv m \<longleftrightarrow> state_inv m
     \<and> (State m \<noteq> StateStopped \<longrightarrow> GenerationID m \<noteq> [])
     \<and> CorrelationID m = GenerationID m
     \<and> of_generation (GenerationID m) (Workspace m)"

lemma newGenerationID_nonempty: "fst (newGenerationID r seq) \<noteq> []"
  by (simp add: newGenerationID_def hex_encode_def random_bytes_def upt_conv_Cons split: option.split)

lemma BeginStart_inv: "machine_inv m \<Longrightarrow> machine_inv (fst (fst (BeginStart r (m, seq))))"
  using newGenerationID_nonempty [of r seq]
  by (cases "newGenerationID r seq")
     (simp add: BeginStart_def machine_inv_def state_inv_def empty_status_def startup_phases_def)

lemma validPhaseTransition_startup:
  "validPhaseTransition StateStarting p q \<Longrightarrow> p \<in> startup_phases \<Longrightarrow> q \<in> startup_phases"
  by (cases p) (auto simp: validPhaseTransition_def startup_phases_def split: if_splits)

lemma SetPhase_inv: "machine_inv m \<Longrightarrow> machine_inv (fst (SetPhase g p m))"
  by (cases "State m")
     (auto simp: SetPhase_def checkGeneration_def machine_inv_def state_inv_def
        validPhaseTransition_startup validPhaseTransition_def [of StateStopping])

lemma SetWorkspaceContext_inv:
  "machine_inv m \<Longrightarrow> machine_inv (fst (SetWorkspaceContext fs g w m))"
  using ValidateForGeneration_None [of fs w g]
  by (cases "State m"; cases "ValidateForGeneration fs w g")
     (auto simp: SetWorkspaceContext_def checkGeneration_def machine_inv_def state_inv_def)

lemma stop_ops_inv:
  assumes "machine_inv m"
  shows "machine_inv (fst (BeginStop g m))" "machine_inv (fst (CompleteStop g f m))"
  using assms
  by (cases "State m"; cases f;
      auto simp: BeginStop_def CompleteStop_def checkGeneration_def machine_inv_def state_inv_def)+

lemma failure_ops_inv:
  assumes "machine_inv m"
  shows "machine_inv (fst (Fail g f m))" "machine_inv (fst (ReplaceFailure g f m))"
  using assms
  by (cases "State m";
      auto simp: Fail_def ReplaceFailure_def checkGeneration_def correlated_def machine_inv_def
        state_inv_def)+

lemma projection_ops_inv:
  assumes "machine_inv m"
  shows "machine_inv (fst (MarkReady g url m))" "machine_inv (fst (SetRuntimePreparation g rp m))"
    "machine_inv (fst (SetLaunchSelection g sel m))"
  using assms
  by (cases "State m";
      auto simp: MarkReady_def SetRuntimePreparation_def SetLaunchSelection_def checkGeneration_def
        machine_inv_def state_inv_def)+

lemmas machine_ops_inv =
  SetPhase_inv SetWorkspaceContext_inv stop_ops_inv failure_ops_inv projection_ops_inv

lemma machine_call_inv [keeps_inv]: "machine_inv m \<Longrightarrow> machine_inv (machine_act x g m)"
  by (cases x) (simp_all add: machine_ops_inv)

lemma machine_step_inv [keeps_inv]:
  "machine_inv (fst ms) \<Longrightarrow> machine_inv (fst (machine_step e ms))"
  by (cases e; cases ms) (simp_all add: BeginStart_inv machine_call_inv)

lemma NewMachine_inv: "machine_inv NewMachine"
  by (simp add: NewMachine_def machine_inv_def state_inv_def empty_status_def)

interpretation lifecycle: invariant_system "(NewMachine, seq)" machine_step "machine_inv \<circ> fst"
  for seq :: "64 word"
  by unfold_locales (simp_all add: NewMachine_inv machine_step_inv)

lemma machine_call_stale: "g \<noteq> GenerationID m \<Longrightarrow> machine_act x g m = m"
  by (cases x) (auto simp: machine_ops)

lemma machine_call_generation: "GenerationID (machine_act x g m) = GenerationID m"
  by (cases x) (auto simp: machine_ops split: option.split)

interpretation lifecycle_gen: generation_guarded GenerationID machine_act
  by unfold_locales (simp_all add: machine_call_stale machine_call_generation)

subsection \<open>Specification: the life cycle of a generation\<close>

text \<open>The state diagram the machine implements.\<close>

inductive lifecycle_edge :: "state \<Rightarrow> state \<Rightarrow> bool" where
  start: "s \<in> {StateStopped, StateFailed} \<Longrightarrow> lifecycle_edge s StateStarting"
| ready: "lifecycle_edge StateStarting StateReady"
| failed: "s \<in> {StateStarting, StateReady} \<Longrightarrow> lifecycle_edge s StateFailed"
| stop: "s \<in> {StateStarting, StateReady, StateFailed} \<Longrightarrow> lifecycle_edge s StateStopping"
| stopped: "lifecycle_edge StateStopping StateStopped"
| stop_failed: "lifecycle_edge StateStopping StateFailed"

inductive_simps lifecycle_edge_simps: "lifecycle_edge s t"

lemma machine_call_edge:
  "State (machine_act x g m) = State m \<or> lifecycle_edge (State m) (State (machine_act x g m))"
  by (cases x; cases "State m")
     (auto simp: machine_ops lifecycle_edge_simps split: option.split)

definition phase_rank :: "phase \<Rightarrow> nat" where
  "phase_rank p = (case p of PhaseConfiguration \<Rightarrow> 0 | PhaseRuntime \<Rightarrow> 1 | PhaseNode \<Rightarrow> 1
     | PhaseProfile \<Rightarrow> 2 | PhaseWorker \<Rightarrow> 3 | PhaseReadiness \<Rightarrow> 4 | PhaseCheckpoint \<Rightarrow> 5 | _ \<Rightarrow> 6)"

lemma validPhaseTransition_rank:
  "validPhaseTransition StateStarting p q \<Longrightarrow> phase_rank p \<le> phase_rank q"
  by (cases p) (auto simp: validPhaseTransition_def phase_rank_def split: if_splits)

lemma phase_rank_le: "phase_rank p \<le> 6"
  by (cases p) (simp_all add: phase_rank_def)

lemma machine_call_rank: "phase_rank (Phase m) \<le> phase_rank (Phase (machine_act x g m))"
proof (cases x)
  case (OpSetPhase p)
  then show ?thesis
    using validPhaseTransition_rank [of "Phase m" p]
    by (auto simp: SetPhase_def checkGeneration_def validPhaseTransition_def [of StateStopping])
qed (auto simp: machine_ops phase_rank_le phase_rank_def [of PhaseWorkspace]
      phase_rank_def [of PhaseStopping] phase_rank_def [of PhaseIdle]
      phase_rank_def [of PhaseFailed] split: option.split)

lemma machine_step_edge:
  "State (fst (machine_step e ms)) = State (fst ms)
    \<or> lifecycle_edge (State (fst ms)) (State (fst (machine_step e ms)))"
  by (cases e; cases ms)
     (auto simp: machine_call_edge BeginStart_def empty_status_def lifecycle_edge.start
        split: prod.splits)

abbreviation machine_run :: "machine_event list \<Rightarrow> status \<times> 64 word" where
  "machine_run es \<equiv> fold machine_step es (NewMachine, 0)"

text \<open>A run that reaches each state, and a call that takes each edge of the diagram.\<close>

definition some_failure :: failure where
  "some_failure = \<lparr>f_Code = ''DSH_START_FAILED'', f_Summary = ''start failed'', f_Retryable = True,
     f_EffectOccurred = False, f_CorrelationID = [], f_Detail = []\<rparr>"

fun run_to :: "state \<Rightarrow> machine_event list" where
  "run_to StateStopped = []"
| "run_to StateStarting = [Start None]"
| "run_to StateReady = [Start None, Call ''local-1'' (OpMarkReady ''http://127.0.0.1:1/'')]"
| "run_to StateFailed = [Start None, Call ''local-1'' (OpFail some_failure)]"
| "run_to StateStopping = [Start None, Call ''local-1'' OpBeginStop]"

fun edge_event :: "state \<Rightarrow> state \<Rightarrow> machine_event" where
  "edge_event s StateStarting = Start None"
| "edge_event s StateReady = Call ''local-1'' (OpMarkReady ''http://127.0.0.1:1/'')"
| "edge_event s StateFailed = Call ''local-1''
     (if s = StateStopping then OpCompleteStop (Some some_failure) else OpFail some_failure)"
| "edge_event s StateStopping = Call ''local-1'' OpBeginStop"
| "edge_event s StateStopped = Call ''local-1'' (OpCompleteStop None)"

lemma run_to_state: "State (fst (machine_run (run_to s))) = s"
  by (cases s; hypsubst; code_simp)

lemma edge_event_state:
  "lifecycle_edge s t \<Longrightarrow> State (fst (machine_step (edge_event s t) (machine_run (run_to s)))) = t"
  by (auto elim!: lifecycle_edge.cases; code_simp)

subsection \<open>Properties\<close>

text \<open>(C1) In every state the machine can reach, the projected status is consistent: each
  state fixes its phase, its retry and cancel flags, whether a Workspace URL or a failure
  is shown, an active state has a generation, and a recorded Workspace belongs to it.\<close>

theorem lifecycle_status_consistent: "machine_inv (fst (fold machine_step es (NewMachine, seq)))"
  using lifecycle.inv_run [of es seq] by simp

text \<open>(C6) Late calls of other generations have no effect: any interleaving of generation
  calls leaves the same status as the calls of the current generation alone.\<close>

theorem stale_generations_ignored:
  "fold (\<lambda>(g, x). machine_act x g) xs m
     = fold (\<lambda>(g, x). machine_act x g) (filter (\<lambda>(g, x). g = GenerationID m) xs) m"
  using lifecycle_gen.runs_drop_stale [of xs m] by (simp add: lifecycle_gen.runs_def)

text \<open>(C16) The machine implements exactly the state diagram: an edge is in the diagram if and
  only if some run of the machine reaches its source and some call then moves along it.\<close>

theorem lifecycle_diagram:
  "lifecycle_edge s t \<longleftrightarrow>
     s \<noteq> t \<and> (\<exists>es e. State (fst (fold machine_step es (NewMachine, 0))) = s
        \<and> State (fst (machine_step e (fold machine_step es (NewMachine, 0)))) = t)"
proof
  assume e: "lifecycle_edge s t"
  then have "s \<noteq> t" by (auto simp: lifecycle_edge_simps)
  with run_to_state [of s] edge_event_state [OF e]
  show "s \<noteq> t \<and> (\<exists>es e. State (fst (machine_run es)) = s
        \<and> State (fst (machine_step e (machine_run es))) = t)"
    by blast
next
  assume "s \<noteq> t \<and> (\<exists>es e. State (fst (machine_run es)) = s
        \<and> State (fst (machine_step e (machine_run es))) = t)"
  then show "lifecycle_edge s t" using machine_step_edge by metis
qed

text \<open>Start-up never goes back: over any sequence of calls within the machine's current
  generation the phase only moves forward, from configuration over runtime and node
  (which may alternate), profile, worker and readiness to the checkpoint.\<close>

theorem startup_phase_monotone:
  "phase_rank (Phase m) \<le> phase_rank (Phase (fold (\<lambda>(g, x). machine_act x g) xs m))"
proof (induction xs arbitrary: m)
  case (Cons p xs)
  obtain g x where "p = (g, x)" by (cases p)
  then show ?case
    using Cons.IH [of "machine_act x g m"] machine_call_rank [of m x g] by simp
qed simp

text \<open>(C17) A stop always completes: from every reachable status, requesting and completing the
  stop of its generation ends in a clean stopped status from which a new start is accepted.\<close>

theorem stop_completes_and_restarts:
  fixes es seq
  defines "m \<equiv> fst (fold machine_step es (NewMachine, seq))"
  defines "m' \<equiv> machine_act (OpCompleteStop None) (GenerationID m) (machine_act OpBeginStop (GenerationID m) m)"
  shows "State m' = StateStopped \<and> Error m' = None \<and> Workspace m' = None \<and> WorkspaceURL m' = []
     \<and> snd (snd (BeginStart r (m', seq'))) = None"
proof -
  have inv: "machine_inv m"
    using lifecycle.inv_run [of es seq] by (simp add: m_def)
  have "State m' = StateStopped"
    using inv by (cases "State m")
      (auto simp: m'_def machine_inv_def BeginStop_def CompleteStop_def checkGeneration_def)
  moreover have "machine_inv m'"
    using inv by (simp add: m'_def stop_ops_inv)
  ultimately show ?thesis
    by (simp add: machine_inv_def state_inv_def BeginStart_def split: prod.split)
qed

end
