(* ===== verification/Quit_Windows.thy ===== *)
theory Quit_Windows
  imports Prelude "HOL-Library.AList"
begin

text \<open>
  \<open>internal/lifecycle/window_policy.go\<close> (the window ledger) and
  \<open>internal/lifecycle/quit_flow.go\<close> (the managed quit).  A ledger method is one
  critical section, so it is a function on the ledger.  \<open>QuitFlow.Begin\<close> releases
  its lock before it calls out and continues in a goroutine, so the quit flow is a
  step relation over the goroutines of the accepted requests; every interleaving of
  concurrent requests is a run of it.
\<close>

subsection \<open>The window ledger\<close>

text \<open>A Go map is an association list with distinct keys; the order is not observable.\<close>

record window_ledger =
  visible :: "(string \<times> bool) list"
  quitting :: bool

fun NewWindowLedger :: "string list \<Rightarrow> window_ledger" where
  "NewWindowLedger windowIDs = \<lparr>visible = fold (\<lambda>wid. AList.update wid False) windowIDs [], quitting = False\<rparr>"

definition SetVisible :: "string \<Rightarrow> bool \<Rightarrow> window_ledger \<Rightarrow> window_ledger" where
  "SetVisible wid v l =
    (if \<not> v \<or> \<not> quitting l then l\<lparr>visible := AList.update wid v (visible l)\<rparr> else l)"

definition TryShow :: "string \<Rightarrow> window_ledger \<Rightarrow> window_ledger \<times> bool" where
  "TryShow wid l =
    (if quitting l then (l, False) else (l\<lparr>visible := AList.update wid True (visible l)\<rparr>, True))"

definition BeginQuit :: "window_ledger \<Rightarrow> window_ledger" where
  "BeginQuit l = l\<lparr>quitting := True, visible := map (\<lambda>(wid, v). (wid, False)) (visible l)\<rparr>"

definition CancelQuit :: "window_ledger \<Rightarrow> window_ledger" where
  "CancelQuit l = l\<lparr>quitting := False\<rparr>"

definition IsQuitting :: "window_ledger \<Rightarrow> bool" where
  "IsQuitting l = quitting l"

definition VisibleCount :: "window_ledger \<Rightarrow> nat" where
  "VisibleCount l = length (filter snd (visible l))"

datatype ledger_op = LSetVisible string bool | LTryShow string | LBeginQuit | LCancelQuit

fun ledger_step :: "ledger_op \<Rightarrow> window_ledger \<Rightarrow> window_ledger" where
  "ledger_step (LSetVisible wid v) = SetVisible wid v"
| "ledger_step (LTryShow wid) = fst \<circ> TryShow wid"
| "ledger_step LBeginQuit = BeginQuit"
| "ledger_step LCancelQuit = CancelQuit"

lemmas ledger_ops = SetVisible_def TryShow_def BeginQuit_def CancelQuit_def

definition ledger_inv :: "window_ledger \<Rightarrow> bool" where
  "ledger_inv l \<longleftrightarrow> distinct (map fst (visible l)) \<and> (quitting l \<longrightarrow> \<not> list_ex snd (visible l))"

lemma update_False_hidden: "\<not> list_ex snd m \<Longrightarrow> \<not> list_ex snd (AList.update k False m)"
  by (induction m) auto

lemma map_fst_hide [simp]: "map fst (map (\<lambda>(wid, v). (wid, False)) m) = map fst m"
  by (induction m) auto

lemma hidden_after_hide [simp]: "\<not> list_ex snd (map (\<lambda>(wid, v). (wid, False)) m)"
  by (induction m) auto

lemma ledger_step_inv [keeps_inv]: "ledger_inv l \<Longrightarrow> ledger_inv (ledger_step x l)"
  by (cases x)
     (auto simp: ledger_inv_def ledger_ops distinct_update update_False_hidden
        simp del: map_map)

lemma NewWindowLedger_keys: "distinct (map fst m) \<Longrightarrow>
    distinct (map fst (fold (\<lambda>wid. AList.update wid False) ws m))"
  by (induction ws arbitrary: m) (auto simp: distinct_update)

interpretation ledger: invariant_system "NewWindowLedger ids" ledger_step ledger_inv
  for ids :: "string list"
  by unfold_locales (simp add: ledger_inv_def NewWindowLedger_keys, rule ledger_step_inv)

lemma hidden_count: "\<not> list_ex snd m \<Longrightarrow> length (filter snd m) = 0"
  by (induction m) auto

text \<open>No window comes back during a managed quit: in every reachable ledger that is
  quitting the number of visible windows is zero, whatever tray actions, visibility
  reports and quits were interleaved.\<close>

theorem no_window_during_quit:
  "quitting (fold ledger_step ops (NewWindowLedger ids)) \<Longrightarrow>
     VisibleCount (fold ledger_step ops (NewWindowLedger ids)) = 0"
  using ledger.inv_run [of ops ids] by (simp add: ledger_inv_def VisibleCount_def hidden_count)

theorem no_window_during_quit_witness:
  "quitting (fold ledger_step [LTryShow ''workspace'', LBeginQuit, LTryShow ''pet'']
      (NewWindowLedger [''workspace'', ''pet''])) \<and>
   VisibleCount (fold ledger_step [LTryShow ''workspace'', LBeginQuit, LTryShow ''pet'']
      (NewWindowLedger [''workspace'', ''pet''])) = 0"
proof -
  have q: "quitting (fold ledger_step [LTryShow ''workspace'', LBeginQuit, LTryShow ''pet'']
      (NewWindowLedger [''workspace'', ''pet'']))"
    by (simp add: ledger_ops)
  show ?thesis using q no_window_during_quit [OF q] by simp
qed

subsection \<open>The quit flow\<close>

text \<open>
  One accepted \<open>Begin\<close> call is a thread: the caller's part up to \<open>go\<close>, then the
  goroutine.  A callback that is nil is skipped.  The result of \<open>cleanup\<close> is
  arbitrary, so the step that runs it is nondeterministic.
\<close>

datatype 'e quit_pc =
    Notifying | Hiding | Cleaning | Failing 'e | Releasing 'e | Notifying2 'e | Finished 'e
  | Quitting | Quitted

record 'e quit_thread =
  pc :: "'e quit_pc"
  has_hide :: bool
  has_cleanup :: bool
  has_quit :: bool
  has_onFailure :: bool

datatype 'e quit_callback = Hide | Cleanup "'e option" | OnFailure 'e | Quit | StateChanged

record 'e quit_flow =
  inProgress :: bool
  observed :: bool
  threads :: "'e quit_thread list"
  calls :: "(nat \<times> 'e quit_callback) list"

definition NewQuitFlow :: "'e quit_flow" where
  "NewQuitFlow = \<lparr>inProgress = False, observed = False, threads = [], calls = []\<rparr>"

definition InProgress :: "'e quit_flow option \<Rightarrow> bool" where
  "InProgress f = (case f of None \<Rightarrow> False | Some q \<Rightarrow> inProgress q)"

definition move :: "nat \<Rightarrow> 'e quit_pc \<Rightarrow> 'e quit_callback list \<Rightarrow> 'e quit_flow \<Rightarrow> 'e quit_flow" where
  "move i p cs f = f\<lparr>threads := (threads f)[i := (threads f ! i)\<lparr>pc := p\<rparr>],
     calls := calls f @ map (Pair i) cs\<rparr>"

definition notified :: "'e quit_flow \<Rightarrow> 'e quit_callback list" where
  "notified f = (if observed f then [StateChanged] else [])"

inductive quit_step :: "'e quit_flow \<Rightarrow> 'e quit_flow \<Rightarrow> bool" where
  SetStateChanged: "quit_step f (f\<lparr>observed := b\<rparr>)"
| Begin_refused: "inProgress f \<Longrightarrow> quit_step f f"
| Begin_accepted: "\<not> inProgress f \<Longrightarrow>
    quit_step f (f\<lparr>inProgress := True, threads := threads f @
      [\<lparr>pc = Notifying, has_hide = h, has_cleanup = c, has_quit = q, has_onFailure = e\<rparr>]\<rparr>)"
| notify: "i < length (threads f) \<Longrightarrow> pc (threads f ! i) = Notifying \<Longrightarrow>
    quit_step f (move i Hiding (notified f) f)"
| hide: "i < length (threads f) \<Longrightarrow> pc (threads f ! i) = Hiding \<Longrightarrow>
    quit_step f (move i Cleaning (if has_hide (threads f ! i) then [Hide] else []) f)"
| cleanup_ok: "i < length (threads f) \<Longrightarrow> pc (threads f ! i) = Cleaning \<Longrightarrow>
    quit_step f (move i Quitting (if has_cleanup (threads f ! i) then [Cleanup None] else []) f)"
| cleanup_failed: "i < length (threads f) \<Longrightarrow> pc (threads f ! i) = Cleaning \<Longrightarrow> has_cleanup (threads f ! i) \<Longrightarrow>
    quit_step f (move i (Failing x) [Cleanup (Some x)] f)"
| onFailure: "i < length (threads f) \<Longrightarrow> pc (threads f ! i) = Failing x \<Longrightarrow>
    quit_step f (move i (Releasing x) (if has_onFailure (threads f ! i) then [OnFailure x] else []) f)"
| release: "i < length (threads f) \<Longrightarrow> pc (threads f ! i) = Releasing x \<Longrightarrow>
    quit_step f ((move i (Notifying2 x) [] f)\<lparr>inProgress := False\<rparr>)"
| notify2: "i < length (threads f) \<Longrightarrow> pc (threads f ! i) = Notifying2 x \<Longrightarrow>
    quit_step f (move i (Finished x) (notified f) f)"
| quit: "i < length (threads f) \<Longrightarrow> pc (threads f ! i) = Quitting \<Longrightarrow>
    quit_step f (move i Quitted (if has_quit (threads f ! i) then [Quit] else []) f)"

inductive quit_reachable :: "'e quit_flow \<Rightarrow> bool" where
  new: "quit_reachable NewQuitFlow"
| step: "quit_reachable f \<Longrightarrow> quit_step f f' \<Longrightarrow> quit_reachable f'"

text \<open>A thread that still owns the flow: all of them but those whose cleanup failed and released it.\<close>

fun owns :: "'e quit_pc \<Rightarrow> bool" where
  "owns (Notifying2 x) = False"
| "owns (Finished x) = False"
| "owns p = True"

text \<open>The callbacks a thread has made when it is at a program point, in order.\<close>

abbreviation opt_call :: "bool \<Rightarrow> 'e quit_callback \<Rightarrow> 'e quit_callback list" where
  "opt_call b c \<equiv> (if b then [c] else [])"

fun made_at :: "'e quit_thread \<Rightarrow> 'e quit_pc \<Rightarrow> 'e quit_callback list" where
  "made_at t Notifying = []"
| "made_at t Hiding = []"
| "made_at t Cleaning = opt_call (has_hide t) Hide"
| "made_at t (Failing x) = opt_call (has_hide t) Hide @ [Cleanup (Some x)]"
| "made_at t (Releasing x) = opt_call (has_hide t) Hide @ [Cleanup (Some x)] @ opt_call (has_onFailure t) (OnFailure x)"
| "made_at t (Notifying2 x) = opt_call (has_hide t) Hide @ [Cleanup (Some x)] @ opt_call (has_onFailure t) (OnFailure x)"
| "made_at t (Finished x) = opt_call (has_hide t) Hide @ [Cleanup (Some x)] @ opt_call (has_onFailure t) (OnFailure x)"
| "made_at t Quitting = opt_call (has_hide t) Hide @ opt_call (has_cleanup t) (Cleanup None)"
| "made_at t Quitted = opt_call (has_hide t) Hide @ opt_call (has_cleanup t) (Cleanup None) @ opt_call (has_quit t) Quit"

definition made :: "'e quit_thread \<Rightarrow> 'e quit_callback list" where
  "made t = made_at t (pc t)"

lemma made_at_pc [simp]: "made_at (t\<lparr>pc := p\<rparr>) q = made_at t q"
  by (cases q) auto

definition calls_of :: "nat \<Rightarrow> 'e quit_flow \<Rightarrow> 'e quit_callback list" where
  "calls_of i f = map snd (filter (\<lambda>(j, c). j = i \<and> c \<noteq> StateChanged) (calls f))"

definition quit_inv :: "'e quit_flow \<Rightarrow> bool" where
  "quit_inv f \<longleftrightarrow>
     length (filter (owns \<circ> pc) (threads f)) = (if inProgress f then 1 else 0)
   \<and> (\<forall>i < length (threads f). calls_of i f = made (threads f ! i))
   \<and> (\<forall>(j, c) \<in> set (calls f). j < length (threads f))"

lemma calls_of_move:
  "calls_of j (move i p cs f) = calls_of j f @ (if j = i then filter (\<lambda>c. c \<noteq> StateChanged) cs else [])"
  by (simp add: calls_of_def move_def filter_map comp_def)

lemma threads_move: "threads (move i p cs f) = (threads f)[i := (threads f ! i)\<lparr>pc := p\<rparr>]"
  by (simp add: move_def)

lemma inProgress_move [simp]: "inProgress (move i p cs f) = inProgress f"
  by (simp add: move_def)

text \<open>A thread's step keeps the invariant when it makes exactly the callbacks of the new point.\<close>

lemma move_inv:
  assumes inv: "quit_inv f" and i: "i < length (threads f)"
    and owns: "owns p = owns (pc (threads f ! i))"
    and made: "made ((threads f ! i)\<lparr>pc := p\<rparr>)
                 = made (threads f ! i) @ filter (\<lambda>c. c \<noteq> StateChanged) cs"
  shows "quit_inv (move i p cs f)"
proof -
  have "length (filter (owns \<circ> pc) ((threads f)[i := (threads f ! i)\<lparr>pc := p\<rparr>]))
      = length (filter (owns \<circ> pc) (threads f))"
    using length_filter_update [OF i, of "owns \<circ> pc" "(threads f ! i)\<lparr>pc := p\<rparr>"] owns by simp
  moreover have "calls_of j (move i p cs f) = made (threads (move i p cs f) ! j)"
    if "j < length (threads f)" for j
    using inv that made by (auto simp: quit_inv_def calls_of_move threads_move nth_list_update)
  moreover have "\<forall>(j, c) \<in> set (calls (move i p cs f)). j < length (threads f)"
    using inv i by (auto simp: quit_inv_def move_def)
  ultimately show ?thesis
    using inv by (auto simp: quit_inv_def threads_move)
qed

lemma release_inv:
  assumes inv: "quit_inv f" and i: "i < length (threads f)" and pc: "pc (threads f ! i) = Releasing x"
  shows "quit_inv ((move i (Notifying2 x) [] f)\<lparr>inProgress := False\<rparr>)"
proof -
  let ?t = "(threads f ! i)\<lparr>pc := Notifying2 x\<rparr>"
  have owner: "0 < length (filter (owns \<circ> pc) (threads f))"
    using nth_mem [OF i] pc by (auto simp: filter_empty_conv intro!: bexI [of _ "threads f ! i"])
  have "length (filter (owns \<circ> pc) ((threads f)[i := ?t])) = 0"
    using length_filter_update [OF i, of "owns \<circ> pc" ?t] inv owner pc
    by (auto simp: quit_inv_def split: if_splits)
  moreover have "calls_of j (move i (Notifying2 x) [] f) = made (threads (move i (Notifying2 x) [] f) ! j)"
    if "j < length (threads f)" for j
    using inv that pc by (auto simp: quit_inv_def calls_of_move threads_move nth_list_update made_def)
  moreover have "calls (move i (Notifying2 x) [] f) = calls f" by (simp add: move_def)
  ultimately show ?thesis
    using inv by (auto simp: quit_inv_def threads_move calls_of_def)
qed

lemma begin_inv:
  assumes inv: "quit_inv f" and idle: "\<not> inProgress f"
  shows "quit_inv (f\<lparr>inProgress := True, threads := threads f @
      [\<lparr>pc = Notifying, has_hide = h, has_cleanup = c, has_quit = q, has_onFailure = e\<rparr>]\<rparr>)"
proof -
  have "calls_of (length (threads f)) f = []"
    using inv by (auto simp: quit_inv_def calls_of_def filter_empty_conv)
  then show ?thesis
    using inv idle
    by (auto simp: quit_inv_def calls_of_def nth_append less_Suc_eq made_def)
qed

lemma quit_step_inv [keeps_inv]: "quit_step f f' \<Longrightarrow> quit_inv f \<Longrightarrow> quit_inv f'"
proof (induction rule: quit_step.induct)
  case (SetStateChanged f b)
  then show ?case by (simp add: quit_inv_def calls_of_def)
next
  case (Begin_accepted f h c q e)
  then show ?case by (intro begin_inv)
next
  case (release i f x)
  then show ?case by (intro release_inv)
qed (simp_all add: move_inv made_def notified_def)

lemma NewQuitFlow_inv: "quit_inv NewQuitFlow"
  by (simp add: NewQuitFlow_def quit_inv_def)

lemma quit_reachable_inv: "quit_reachable f \<Longrightarrow> quit_inv f"
  by (induction rule: quit_reachable.induct) (blast intro: NewQuitFlow_inv quit_step_inv)+

lemma single_owner:
  assumes "quit_inv f" "i < length (threads f)" "j < length (threads f)"
    and "owns (pc (threads f ! i))" "owns (pc (threads f ! j))"
  shows "i = j"
proof (rule ccontr)
  assume "i \<noteq> j"
  let ?S = "{k. k < length (threads f) \<and> (owns \<circ> pc) (threads f ! k)}"
  have "card {i, j} \<le> card ?S" using assms by (intro card_mono) auto
  with \<open>i \<noteq> j\<close> have "2 \<le> length (filter (owns \<circ> pc) (threads f))"
    by (simp add: length_filter_conv_card)
  with assms(1) show False by (auto simp: quit_inv_def split: if_splits)
qed

lemma made_quit: "Quit \<in> set (made t) \<Longrightarrow> pc t = Quitted"
  by (cases "pc t") (auto simp: made_def split: if_splits)

lemma quit_call_thread:
  assumes "quit_inv f" "(i, Quit) \<in> set (calls f)"
  shows "i < length (threads f)" "pc (threads f ! i) = Quitted"
proof -
  show i: "i < length (threads f)" using assms by (auto simp: quit_inv_def)
  have "Quit \<in> set (calls_of i f)" using assms(2) by (force simp: calls_of_def)
  with assms(1) i show "pc (threads f ! i) = Quitted"
    by (intro made_quit) (simp add: quit_inv_def)
qed

lemma quit_count: "length (filter (\<lambda>c. c = Quit) (made t)) \<le> 1"
  by (cases "pc t") (auto simp: made_def)

text \<open>(C18) A managed quit happens once and in order: in every interleaving of concurrent quit
  requests at most one request owns the flow, the application's quit callback runs at
  most once over the whole run, and the request that ran it had hidden its windows and
  seen its cleanup succeed first.\<close>

theorem quit_once_in_order:
  assumes "quit_reachable f"
  shows "length (filter (owns \<circ> pc) (threads f)) \<le> 1
    \<and> length (filter (\<lambda>(i, c). c = Quit) (calls f)) \<le> 1
    \<and> (\<forall>i. (i, Quit) \<in> set (calls f) \<longrightarrow>
         calls_of i f = opt_call (has_hide (threads f ! i)) Hide @
           opt_call (has_cleanup (threads f ! i)) (Cleanup None) @ [Quit])"
proof (intro conjI allI impI)
  have inv: "quit_inv f" by (rule quit_reachable_inv [OF assms])
  then show "length (filter (owns \<circ> pc) (threads f)) \<le> 1" by (simp add: quit_inv_def)
  show "calls_of i f = opt_call (has_hide (threads f ! i)) Hide @
           opt_call (has_cleanup (threads f ! i)) (Cleanup None) @ [Quit]"
    if q: "(i, Quit) \<in> set (calls f)" for i
  proof -
    have "Quit \<in> set (calls_of i f)" using q by (force simp: calls_of_def)
    then show ?thesis
      using inv quit_call_thread [OF inv q] by (auto simp: quit_inv_def made_def split: if_splits)
  qed
  show "length (filter (\<lambda>(i, c). c = Quit) (calls f)) \<le> 1"
  proof (cases "filter (\<lambda>(i, c). c = Quit) (calls f)")
    case (Cons e es)
    then have "e \<in> set (filter (\<lambda>(i, c). c = Quit) (calls f))" by simp
    then obtain i where i: "(i, Quit) \<in> set (calls f)" by auto
    have "j = i" if "(j, Quit) \<in> set (calls f)" for j
      using single_owner [OF inv] quit_call_thread [OF inv] i that by (metis owns.simps(9))
    then have "filter (\<lambda>(i, c). c = Quit) (calls f)
        = filter (\<lambda>(j, c). j = i \<and> c \<noteq> StateChanged \<and> c = Quit) (calls f)"
      by (intro filter_cong) auto
    also have "length \<dots> = length (filter (\<lambda>c. c = Quit) (calls_of i f))"
      by (simp add: calls_of_def filter_map comp_def case_prod_unfold conj_ac)
    also have "\<dots> \<le> 1"
      using inv quit_call_thread(1) [OF inv i] quit_count by (simp add: quit_inv_def)
    finally show ?thesis .
  qed simp
qed

definition quit_example :: "string quit_flow" where
  "quit_example = \<lparr>inProgress = True, observed = False,
     threads = [\<lparr>pc = Quitted, has_hide = True, has_cleanup = True, has_quit = True, has_onFailure = True\<rparr>],
     calls = [(0, Hide), (0, Cleanup None), (0, Quit)]\<rparr>"

lemma quit_example_reachable: "quit_reachable quit_example"
proof -
  let ?t = "\<lambda>p. \<lparr>pc = p, has_hide = True, has_cleanup = True, has_quit = True, has_onFailure = True\<rparr> :: string quit_thread"
  let ?f = "\<lambda>p cs. \<lparr>inProgress = True, observed = False, threads = [?t p], calls = cs\<rparr>"
  have "quit_step NewQuitFlow (?f Notifying [])"
    using quit_step.Begin_accepted [of NewQuitFlow True True True True] by (simp add: NewQuitFlow_def)
  moreover have "quit_step (?f Notifying []) (?f Hiding [])"
    using quit_step.notify [of 0 "?f Notifying []"] by (simp add: move_def notified_def)
  moreover have "quit_step (?f Hiding []) (?f Cleaning [(0, Hide)])"
    using quit_step.hide [of 0 "?f Hiding []"] by (simp add: move_def)
  moreover have "quit_step (?f Cleaning [(0, Hide)]) (?f Quitting [(0, Hide), (0, Cleanup None)])"
    using quit_step.cleanup_ok [of 0 "?f Cleaning [(0, Hide)]"] by (simp add: move_def)
  moreover have "quit_step (?f Quitting [(0, Hide), (0, Cleanup None)]) quit_example"
    using quit_step.quit [of 0 "?f Quitting [(0, Hide), (0, Cleanup None)]"]
    by (simp add: move_def quit_example_def)
  ultimately show ?thesis by (meson quit_reachable.intros)
qed

theorem quit_once_in_order_witness:
  "quit_reachable quit_example \<and> (0, Quit) \<in> set (calls quit_example)
    \<and> length (filter (\<lambda>(i, c). c = Quit) (calls quit_example)) \<le> 1
    \<and> calls_of 0 quit_example = [Hide, Cleanup None, Quit]"
proof -
  have q: "(0, Quit) \<in> set (calls quit_example)" "has_hide (threads quit_example ! 0)"
    "has_cleanup (threads quit_example ! 0)"
    by (simp_all add: quit_example_def)
  show ?thesis
    using quit_once_in_order [OF quit_example_reachable] quit_example_reachable q by auto
qed

end
