(* ===== verification/Release.thy ===== *)
theory Release
  imports Go_Strings "HOL-Library.Word"
begin

text \<open>
  \<open>internal/release\<close>: release versions, channels and the release preflight
  (\<open>version.go\<close>, \<open>compare.go\<close>, \<open>windows.go\<close>, \<open>compute.go\<close>).  Numbers are
  \<open>uint64\<close>.  A function that can panic (\<open>MustParse\<close> inside \<open>Compute\<close>) returns an
  \<open>outcome\<close>.  The comparison of \<open>golang.org/x/mod/semver\<close>, which is not part of the
  repository, is the argument \<open>cmp\<close> of the definitions that call it.
\<close>

subsection \<open>Channels and stages\<close>

datatype channel = ChannelStable | ChannelBeta | ChannelNightly | ChannelOther string

definition Channels :: "channel list" where
  "Channels = [ChannelStable, ChannelBeta, ChannelNightly]"

definition DefaultChannel :: channel where
  "DefaultChannel = ChannelStable"

definition channel_of_string :: "string \<Rightarrow> channel" where
  "channel_of_string s =
    (if s = ''stable'' then ChannelStable else if s = ''beta'' then ChannelBeta
     else if s = ''nightly'' then ChannelNightly else ChannelOther s)"

definition Valid :: "channel \<Rightarrow> bool" where
  "Valid c = (case c of ChannelOther _ \<Rightarrow> False | _ \<Rightarrow> True)"

definition ParseChannel :: "string \<Rightarrow> string + channel" where
  "ParseChannel value =
    (let trimmed = trim_space value in
     if trimmed = [] then Inr DefaultChannel
     else let channel = channel_of_string trimmed in
       if \<not> Valid channel then Inl trimmed else Inr channel)"

datatype stage = StageNone | StageBeta | StageNightly

subsection \<open>Versions\<close>

record version =
  raw :: string
  major :: "64 word"
  minor :: "64 word"
  patch :: "64 word"
  stage :: stage
  stageNumber :: "64 word"
  date :: string
  runID :: string
  build :: string

definition maxNumericIdentifier :: nat where
  "maxNumericIdentifier = 2 ^ 63 - 1"

datatype num_error = NumEmpty | NumNotNumeric | NumLeadingZero | NumOutOfRange

datatype id_error = IdsEmpty | IdEmpty | IdChars | IdNumber num_error

datatype version_error =
    VersionEmpty
  | BuildInvalid id_error
  | BuildEmpty
  | PreEmpty
  | NotXYZ
  | BadNumber num_error
  | PreInvalid id_error
  | BetaShape
  | BetaNumberInvalid num_error
  | NightlyShape
  | NightlyDateInvalid
  | NightlyRunInvalid
  | UnsupportedStage string
  | BuildForbidden

text \<open>\<open>strconv.ParseUint\<close> fails beyond 64 bits, the code's own limit is one bit lower.\<close>

definition parseNumericIdentifier :: "string \<Rightarrow> num_error + 64 word" where
  "parseNumericIdentifier value =
    (if value = [] then Inl NumEmpty
     else if \<not> list_all is_digit value then Inl NumNotNumeric
     else if length value > 1 \<and> value ! 0 = CHR ''0'' then Inl NumLeadingZero
     else if digits_value value \<ge> 2 ^ 64 then Inl NumOutOfRange
     else let number = word_of_nat (digits_value value) :: 64 word in
       if unat number > maxNumericIdentifier then Inl NumOutOfRange else Inr number)"

definition isNumeric :: "string \<Rightarrow> bool" where
  "isNumeric value \<longleftrightarrow> list_all is_digit value \<and> value \<noteq> []"

definition is_ident_char :: "char \<Rightarrow> bool" where
  "is_ident_char c \<longleftrightarrow> is_digit c \<or> 65 \<le> byte c \<and> byte c \<le> 90 \<or> 97 \<le> byte c \<and> byte c \<le> 122
     \<or> c = CHR ''-''"

definition identifierPattern :: "string \<Rightarrow> bool" where
  "identifierPattern s \<longleftrightarrow> s \<noteq> [] \<and> list_all is_ident_char s"

definition runIDPattern :: "string \<Rightarrow> bool" where
  "runIDPattern s \<longleftrightarrow> s \<noteq> [] \<and> list_all is_digit s \<and> s ! 0 \<noteq> CHR ''0''"

fun valid_identifier_list :: "bool \<Rightarrow> string list \<Rightarrow> id_error option" where
  "valid_identifier_list numeric [] = None"
| "valid_identifier_list numeric (i # is) =
    (if i = [] then Some IdEmpty
     else if \<not> identifierPattern i then Some IdChars
     else if numeric \<and> isNumeric i then
       (case parseNumericIdentifier i of
          Inl e \<Rightarrow> Some (IdNumber e)
        | Inr _ \<Rightarrow> valid_identifier_list numeric is)
     else valid_identifier_list numeric is)"

definition validIdentifiers :: "string \<Rightarrow> bool \<Rightarrow> id_error option" where
  "validIdentifiers value numeric =
    (if value = [] then Some IdsEmpty
     else valid_identifier_list numeric (split_byte CHR ''.'' value))"

text \<open>The pre-release part, after the numbers were read into \<open>v\<close>.\<close>

definition parse_pre :: "version \<Rightarrow> string \<Rightarrow> version_error + version" where
  "parse_pre v pre =
    (let parts = split_byte CHR ''.'' pre in
     case validIdentifiers pre True of
       Some e \<Rightarrow> Inl (PreInvalid e)
     | None \<Rightarrow>
       if parts ! 0 = ''beta'' then
         (if length parts \<noteq> 2 then Inl BetaShape
          else case parseNumericIdentifier (parts ! 1) of
            Inl e \<Rightarrow> Inl (BetaNumberInvalid e)
          | Inr number \<Rightarrow> Inr (v\<lparr>stage := StageBeta, stageNumber := number\<rparr>))
       else if parts ! 0 = ''nightly'' then
         (if length parts \<noteq> 3 then Inl NightlyShape
          else let d = parts ! 1 in
            if length d \<noteq> 8 then Inl NightlyDateInvalid
            else case parseNumericIdentifier d of
              Inl _ \<Rightarrow> Inl NightlyDateInvalid
            | Inr _ \<Rightarrow>
                if \<not> runIDPattern (parts ! 2) then Inl NightlyRunInvalid
                else Inr (v\<lparr>stage := StageNightly, date := d, runID := parts ! 2\<rparr>))
       else Inl (UnsupportedStage (parts ! 0)))"

fun parse_numbers :: "string list \<Rightarrow> num_error + 64 word list" where
  "parse_numbers [] = Inr []"
| "parse_numbers (f # fs) =
    (case parseNumericIdentifier f of
       Inl e \<Rightarrow> Inl e
     | Inr n \<Rightarrow> (case parse_numbers fs of Inl e \<Rightarrow> Inl e | Inr ns \<Rightarrow> Inr (n # ns)))"

text \<open>\<open>core\<close> without its build metadata: the pre-release cut off at the first hyphen.\<close>

definition parse_core :: "string \<Rightarrow> string \<Rightarrow> string \<Rightarrow> version_error + version" where
  "parse_core raw' build' core0 =
    (let (core, pre, has_pre) = (case cut_byte CHR ''-'' core0 of
            None \<Rightarrow> (core0, [], False) | Some (c, p) \<Rightarrow> (c, p, True)) in
     if has_pre \<and> pre = [] then Inl PreEmpty
     else let fields = split_byte CHR ''.'' core in
       if length fields \<noteq> 3 then Inl NotXYZ
       else case parse_numbers fields of
         Inl e \<Rightarrow> Inl (BadNumber e)
       | Inr numbers \<Rightarrow>
           let v = \<lparr>raw = raw', major = numbers ! 0, minor = numbers ! 1, patch = numbers ! 2,
                    stage = StageNone, stageNumber = 0, date = [], runID = [], build = build'\<rparr>
           in if pre = [] then Inr v else parse_pre v pre)"

definition parse :: "string \<Rightarrow> version_error + version" where
  "parse value =
    (let trimmed = trim_space value in
     if trimmed = [] then Inl VersionEmpty
     else let raw' = trim_prefix (trim_prefix trimmed ''v'') ''V'' in
       case cut_byte CHR ''+'' raw' of
         None \<Rightarrow> parse_core raw' [] raw'
       | Some (core, b) \<Rightarrow>
           (case validIdentifiers b False of
              Some e \<Rightarrow> Inl (BuildInvalid e)
            | None \<Rightarrow> if b = [] then Inl BuildEmpty else parse_core raw' b core))"

definition ParseRelease :: "string \<Rightarrow> version_error + version" where
  "ParseRelease value =
    (case parse value of
       Inl e \<Rightarrow> Inl e
     | Inr v \<Rightarrow> if build v \<noteq> [] then Inl BuildForbidden else Inr v)"


definition MustParse :: "string \<Rightarrow> ('e, version) outcome" where
  "MustParse value = (case parse value of Inl _ \<Rightarrow> Panic | Inr v \<Rightarrow> Ok v)"

definition canonical :: "version \<Rightarrow> string" where
  "canonical v =
    (if build v = [] then ''v'' @ raw v else ''v'' @ trim_suffix (raw v) (''+'' @ build v))"

definition IsZero :: "version \<Rightarrow> bool" where
  "IsZero v \<longleftrightarrow> raw v = []"

definition show_base :: "64 word \<Rightarrow> 64 word \<Rightarrow> 64 word \<Rightarrow> string" where
  "show_base a b c = show_nat (unat a) @ ''.'' @ show_nat (unat b) @ ''.'' @ show_nat (unat c)"

definition Base :: "version \<Rightarrow> string" where
  "Base v = show_base (major v) (minor v) (patch v)"

definition IsPrerelease :: "version \<Rightarrow> bool" where
  "IsPrerelease v \<longleftrightarrow> stage v \<noteq> StageNone"

definition Channel :: "version \<Rightarrow> channel" where
  "Channel v = (case stage v of StageBeta \<Rightarrow> ChannelBeta | StageNightly \<Rightarrow> ChannelNightly
     | StageNone \<Rightarrow> ChannelStable)"

definition DevelopmentVersion :: string where
  "DevelopmentVersion = ''development''"

definition ValidateBuildVersion :: "string \<Rightarrow> version_error option" where
  "ValidateBuildVersion value =
    (let trimmed = trim_space value in
     if trimmed = [] then None
     else if trimmed = DevelopmentVersion then None
     else case ParseRelease trimmed of Inl e \<Rightarrow> Some e | Inr _ \<Rightarrow> None)"

subsection \<open>Precedence\<close>

definition Compare :: "(string \<Rightarrow> string \<Rightarrow> int) \<Rightarrow> version \<Rightarrow> version \<Rightarrow> int" where
  "Compare cmp a b =
    (if IsZero a \<or> IsZero b then
       (if IsZero a \<and> IsZero b then 0 else if IsZero a then -1 else 1)
     else cmp (canonical a) (canonical b))"

definition IsNewer :: "(string \<Rightarrow> string \<Rightarrow> int) \<Rightarrow> version \<Rightarrow> version \<Rightarrow> bool" where
  "IsNewer cmp candidate current \<longleftrightarrow> Compare cmp candidate current > 0"

definition Equal :: "(string \<Rightarrow> string \<Rightarrow> int) \<Rightarrow> version \<Rightarrow> version \<Rightarrow> bool" where
  "Equal cmp a b \<longleftrightarrow> Compare cmp a b = 0"

definition SameBase :: "version \<Rightarrow> version \<Rightarrow> bool" where
  "SameBase a b \<longleftrightarrow> \<not> IsZero a \<and> \<not> IsZero b \<and> Base a = Base b"

definition BaseSupersedes :: "(string \<Rightarrow> string \<Rightarrow> int) \<Rightarrow> version \<Rightarrow> version \<Rightarrow> bool" where
  "BaseSupersedes cmp base previous =
    (if IsZero base \<or> IsZero previous then False
     else case parse (Base base) of
       Inl _ \<Rightarrow> False
     | Inr higher \<Rightarrow>
         (case parse (Base previous) of
            Inl _ \<Rightarrow> False
          | Inr lower \<Rightarrow> Compare cmp higher lower > 0))"

subsection \<open>Windows file versions\<close>

definition WindowsFieldMax :: nat where
  "WindowsFieldMax = 65535"

fun windows_fields_loop :: "64 word list \<Rightarrow> 64 word + 16 word list" where
  "windows_fields_loop [] = Inr [0]"
| "windows_fields_loop (component # rest) =
    (if unat component > WindowsFieldMax then Inl component
     else case windows_fields_loop rest of
       Inl e \<Rightarrow> Inl e
     | Inr fs \<Rightarrow> Inr (ucast component # fs))"

definition WindowsFields :: "version \<Rightarrow> 64 word + 16 word list" where
  "WindowsFields v = windows_fields_loop [major v, minor v, patch v]"

definition WindowsFileVersion :: "version \<Rightarrow> 64 word + string" where
  "WindowsFileVersion v =
    (case WindowsFields v of
       Inl e \<Rightarrow> Inl e
     | Inr fs \<Rightarrow> Inr (join (map (show_nat \<circ> unat) fs) ''.''))"

datatype base_file_error = BaseParse version_error | BasePrerelease | BaseField "64 word"

definition BaseWindowsFileVersion :: "string \<Rightarrow> base_file_error + string" where
  "BaseWindowsFileVersion base =
    (case parse base of
       Inl e \<Rightarrow> Inl (BaseParse e)
     | Inr v \<Rightarrow>
         if IsPrerelease v then Inl BasePrerelease
         else (case WindowsFileVersion v of Inl c \<Rightarrow> Inl (BaseField c) | Inr s \<Rightarrow> Inr s))"

subsection \<open>The release preflight\<close>

record release_options =
  o_Channel :: channel
  o_Version :: string
  o_Base :: string
  o_Date :: string
  o_RunID :: string
  o_SourceSHA :: string
  o_LastStableVersion :: string

record release =
  r_Version :: version
  r_Channel :: channel
  r_Base :: string
  r_SourceSHA :: string
  r_Date :: string
  r_RunID :: string
  r_FileVersion :: string
  r_LastStableBase :: string

datatype input_error =
    UnknownChannel
  | BaseInvalid version_error
  | BaseIsPrerelease
  | BaseHasBuild
  | VersionInvalid version_error
  | StableIsPrerelease
  | BaseMismatch
  | BetaNeedsVersion
  | NotBeta
  | DateMissing
  | DateShape
  | DateNotReal
  | RunIDInvalid
  | NightlyExplicitVersion
  | LastStableInvalid version_error
  | LastStableIsPrerelease
  | FieldTooLarge "64 word"

definition is_leap :: "nat \<Rightarrow> bool" where
  "is_leap y \<longleftrightarrow> 4 dvd y \<and> (\<not> 100 dvd y \<or> 400 dvd y)"

definition days_in :: "nat \<Rightarrow> nat \<Rightarrow> nat" where
  "days_in m y = (if m = 2 then (if is_leap y then 29 else 28)
     else if m \<in> {4, 6, 9, 11} then 30 else 31)"

text \<open>
  \<open>time.ParseInLocation(time.DateOnly, \<dots>)\<close> on \<open>YYYY-MM-DD\<close> accepts four, two and
  two digits that name a calendar day; formatting the day back gives the same digits.
\<close>

definition real_date :: "string \<Rightarrow> bool" where
  "real_date compact \<longleftrightarrow> list_all is_digit compact \<and>
    (let y = digits_value (take 4 compact); mth = digits_value (take 2 (drop 4 compact));
         d = digits_value (drop 6 compact)
     in 1 \<le> mth \<and> mth \<le> 12 \<and> 1 \<le> d \<and> d \<le> days_in mth y)"

definition normaliseDate :: "string \<Rightarrow> input_error + string" where
  "normaliseDate value =
    (let trimmed = trim_space value in
     if trimmed = [] then Inl DateMissing
     else let compact = filter (\<lambda>c. c \<noteq> CHR ''-'') trimmed in
       if length compact \<noteq> 8 then Inl DateShape
       else if \<not> real_date compact then Inl DateNotReal
       else Inr compact)"

definition empty_release :: "channel \<Rightarrow> string \<Rightarrow> string \<Rightarrow> version \<Rightarrow> release" where
  "empty_release c b sha v = \<lparr>r_Version = v, r_Channel = c, r_Base = b, r_SourceSHA = sha,
     r_Date = [], r_RunID = [], r_FileVersion = [], r_LastStableBase = []\<rparr>"

definition compute_stable :: "release_options \<Rightarrow> version \<Rightarrow> (input_error, version) outcome" where
  "compute_stable options base =
    (if trim_space (o_Version options) = [] then Ok base
     else case ParseRelease (o_Version options) of
       Inl e \<Rightarrow> Err (VersionInvalid e)
     | Inr parsed \<Rightarrow>
         if IsPrerelease parsed then Err StableIsPrerelease
         else if \<not> SameBase parsed base then Err BaseMismatch
         else Ok parsed)"

definition compute_beta :: "release_options \<Rightarrow> version \<Rightarrow> (input_error, version) outcome" where
  "compute_beta options base =
    (let trimmed = trim_space (o_Version options) in
     if trimmed = [] then Err BetaNeedsVersion
     else case ParseRelease trimmed of
       Inl e \<Rightarrow> Err (VersionInvalid e)
     | Inr v \<Rightarrow>
         if stage v \<noteq> StageBeta then Err NotBeta
         else if \<not> SameBase v base then Err BaseMismatch
         else Ok v)"

text \<open>The base a nightly builds on: the configured base, or the patch after the last stable release.\<close>

definition nightly_base ::
    "(string \<Rightarrow> string \<Rightarrow> int) \<Rightarrow> string \<Rightarrow> version \<Rightarrow> (input_error, version \<times> string) outcome" where
  "nightly_base cmp lastStableVersion base =
    (let previous = trim_space lastStableVersion in
     if previous = [] then Ok (base, [])
     else case parse previous of
       Inl e \<Rightarrow> Err (LastStableInvalid e)
     | Inr lastStable \<Rightarrow>
         if IsPrerelease lastStable then Err LastStableIsPrerelease
         else if \<not> BaseSupersedes cmp base lastStable then
           (case MustParse (show_base (major lastStable) (minor lastStable) (patch lastStable + 1)) of
              Ok base' \<Rightarrow> Ok (base', Base lastStable)
            | Err e \<Rightarrow> Err e
            | Panic \<Rightarrow> Panic)
         else Ok (base, Base lastStable))"

definition nightly_string :: "version \<Rightarrow> string \<Rightarrow> string \<Rightarrow> string" where
  "nightly_string base d r = Base base @ ''-nightly.'' @ d @ ''.'' @ r"

definition compute_nightly ::
    "(string \<Rightarrow> string \<Rightarrow> int) \<Rightarrow> release_options \<Rightarrow> version \<Rightarrow> (input_error, release) outcome" where
  "compute_nightly cmp options base =
    (case normaliseDate (o_Date options) of
       Inl e \<Rightarrow> Err e
     | Inr d \<Rightarrow>
         let r = trim_space (o_RunID options) in
         if \<not> runIDPattern r then Err RunIDInvalid
         else if trim_space (o_Version options) \<noteq> [] then Err NightlyExplicitVersion
         else case nightly_base cmp (o_LastStableVersion options) base of
           Err e \<Rightarrow> Err e
         | Panic \<Rightarrow> Panic
         | Ok (base', lastBase) \<Rightarrow>
             (case MustParse (nightly_string base' d r) of
                Err e \<Rightarrow> Err e
              | Panic \<Rightarrow> Panic
              | Ok v \<Rightarrow> Ok ((empty_release ChannelNightly (Base base') (trim_space (o_SourceSHA options)) v)
                        \<lparr>r_Date := d, r_RunID := r, r_LastStableBase := lastBase\<rparr>)))"

definition with_file_version :: "release \<Rightarrow> (input_error, release) outcome" where
  "with_file_version rel =
    (case WindowsFileVersion (r_Version rel) of
       Inl c \<Rightarrow> Err (FieldTooLarge c)
     | Inr s \<Rightarrow> Ok (rel\<lparr>r_FileVersion := s\<rparr>))"

definition Compute ::
    "(string \<Rightarrow> string \<Rightarrow> int) \<Rightarrow> release_options \<Rightarrow> (input_error, release) outcome" where
  "Compute cmp options =
    (if \<not> Valid (o_Channel options) then Err UnknownChannel
     else case parse (o_Base options) of
       Inl e \<Rightarrow> Err (BaseInvalid e)
     | Inr base \<Rightarrow>
         if IsPrerelease base then Err BaseIsPrerelease
         else if build base \<noteq> [] then Err BaseHasBuild
         else
           let rel = empty_release (o_Channel options) (Base base) (trim_space (o_SourceSHA options)) in
           outcome_bind
             (case o_Channel options of
                ChannelStable \<Rightarrow> outcome_bind (compute_stable options base) (Ok \<circ> rel)
              | ChannelBeta \<Rightarrow> outcome_bind (compute_beta options base) (Ok \<circ> rel)
              | ChannelNightly \<Rightarrow> compute_nightly cmp options base
              | ChannelOther c \<Rightarrow> Err UnknownChannel)
             with_file_version)"

subsection \<open>Reading back what is printed\<close>

lemma show_nat_digits_value:
  "s \<noteq> [] \<Longrightarrow> list_all is_digit s \<Longrightarrow> (length s > 1 \<longrightarrow> s ! 0 \<noteq> CHR ''0'') \<Longrightarrow>
     show_nat (digits_value s) = s"
proof (induction s rule: rev_induct)
  case (snoc c s)
  let ?d = "byte c - 48"
  have c: "?d < 10" "char_of (48 + ?d) = c"
    using snoc.prems by (auto simp: is_digit_def)
  show ?case
  proof (cases "s = []")
    case True
    with c show ?thesis by (simp add: digits_value_def show_nat.simps)
  next
    case False
    then have IH: "show_nat (digits_value s) = s"
      using snoc by (auto simp: nth_append)
    have "digits_value s \<noteq> 0"
    proof
      assume "digits_value s = 0"
      with IH have "s = [char_of (48::nat)]" by (simp add: show_nat.simps)
      moreover have "char_of (48::nat) = CHR ''0''" by code_simp
      ultimately show False using snoc.prems(3) by simp
    qed
    then have "\<not> 10 * digits_value s + ?d < 10" by simp
    then show ?thesis
      using IH c by (subst show_nat.simps) simp
  qed
qed simp

lemma parseNumericIdentifier_Inr:
  assumes "parseNumericIdentifier s = Inr n"
  shows "s = show_nat (unat n)" "unat n \<le> maxNumericIdentifier"
proof -
  from assms have v: "digits_value s < 2 ^ 64" "n = word_of_nat (digits_value s)"
    and s: "s \<noteq> []" "list_all is_digit s" "length s > 1 \<longrightarrow> s ! 0 \<noteq> CHR ''0''"
    by (auto simp: parseNumericIdentifier_def Let_def split: if_splits)
  from v have "unat n = digits_value s" by (simp add: unat_of_nat take_bit_nat_eq_self)
  with show_nat_digits_value [OF s] show "s = show_nat (unat n)" by simp
  show "unat n \<le> maxNumericIdentifier"
    using assms by (auto simp: parseNumericIdentifier_def Let_def split: if_splits)
qed

lemma list_all_digit_show_nat [simp]: "list_all is_digit (show_nat n)"
  using show_nat_digits by (simp add: list_all_iff)

lemma parseNumericIdentifier_show:
  assumes "unat n \<le> maxNumericIdentifier"
  shows "parseNumericIdentifier (show_nat (unat n)) = Inr n"
proof -
  have "unat n < 2 ^ 64" using assms by (simp add: maxNumericIdentifier_def)
  then show ?thesis
    using assms show_nat_no_leading_zero [of "unat n"]
    by (simp add: parseNumericIdentifier_def show_nat_value Let_def hd_conv_nth)
qed

lemma digit_chars: "is_digit c \<Longrightarrow> c \<notin> {CHR ''.'', CHR ''-'', CHR ''+'', CHR ''v'', CHR ''V''}"
  by (auto simp: is_digit_def)

lemma show_nat_chars [simp]:
  "CHR ''.'' \<notin> set (show_nat n)" "CHR ''-'' \<notin> set (show_nat n)" "CHR ''+'' \<notin> set (show_nat n)"
  using show_nat_digits [of n] digit_chars by blast+

text \<open>A version that satisfies the limits the parser imposes, and its text.\<close>

definition render_pre :: "version \<Rightarrow> string" where
  "render_pre v = (case stage v of
      StageNone \<Rightarrow> []
    | StageBeta \<Rightarrow> ''beta.'' @ show_nat (unat (stageNumber v))
    | StageNightly \<Rightarrow> ''nightly.'' @ date v @ ''.'' @ runID v)"

definition render :: "version \<Rightarrow> string" where
  "render v = Base v @ (if stage v = StageNone then [] else ''-'' @ render_pre v)
     @ (if build v = [] then [] else ''+'' @ build v)"

definition small :: "64 word \<Rightarrow> bool" where
  "small n \<longleftrightarrow> unat n \<le> maxNumericIdentifier"

definition nightly_parts :: "string \<Rightarrow> string \<Rightarrow> bool" where
  "nightly_parts d r \<longleftrightarrow> length d = 8 \<and> list_all is_digit d \<and> d ! 0 \<noteq> CHR ''0''
     \<and> runIDPattern r \<and> digits_value r \<le> maxNumericIdentifier"

definition wf_version :: "version \<Rightarrow> bool" where
  "wf_version v \<longleftrightarrow> small (major v) \<and> small (minor v) \<and> small (patch v)
     \<and> (if stage v = StageBeta then small (stageNumber v) else stageNumber v = 0)
     \<and> (if stage v = StageNightly then nightly_parts (date v) (runID v) else date v = [] \<and> runID v = [])
     \<and> (build v = [] \<or> validIdentifiers (build v) False = None)"

lemma length_2_parts:
  "length (split_byte c s) = 2 \<Longrightarrow>
     s = split_byte c s ! 0 @ [c] @ split_byte c s ! 1"
  using join_split_byte [of c s] by (cases "split_byte c s" rule: list.exhaust)
    (auto simp: length_Suc_conv numeral_2_eq_2)

lemma length_3_parts:
  "length (split_byte c s) = 3 \<Longrightarrow>
     s = split_byte c s ! 0 @ [c] @ split_byte c s ! 1 @ [c] @ split_byte c s ! 2"
  using join_split_byte [of c s] by (auto simp: length_Suc_conv numeral_3_eq_3 numeral_2_eq_2)

lemma parse_numbers_Inr:
  "parse_numbers fs = Inr ns \<Longrightarrow> fs = map (show_nat \<circ> unat) ns \<and> list_all small ns"
  by (induction fs arbitrary: ns)
     (auto simp: small_def dest: parseNumericIdentifier_Inr split: sum.splits)

lemma valid_identifier_list_numeric:
  "valid_identifier_list True xs = None \<Longrightarrow> x \<in> set xs \<Longrightarrow> isNumeric x \<Longrightarrow>
     \<exists>n. parseNumericIdentifier x = Inr n"
  by (induction xs) (auto split: if_splits sum.splits)

lemma runID_bound:
  "runIDPattern r \<Longrightarrow> parseNumericIdentifier r = Inr n \<Longrightarrow> digits_value r \<le> maxNumericIdentifier"
  by (metis parseNumericIdentifier_Inr show_nat_value)

lemma date_digits:
  "parseNumericIdentifier d = Inr n \<Longrightarrow> length d = 8 \<Longrightarrow> list_all is_digit d \<and> d ! 0 \<noteq> CHR ''0''"
  by (auto simp: parseNumericIdentifier_def Let_def split: if_splits)

lemma parse_pre_Inr:
  assumes "parse_pre v pre = Inr v'"
  shows "(\<exists>n. small n \<and> pre = ''beta.'' @ show_nat (unat n)
            \<and> v' = v\<lparr>stage := StageBeta, stageNumber := n\<rparr>)
       \<or> (\<exists>d r. nightly_parts d r \<and> pre = ''nightly.'' @ d @ ''.'' @ r
            \<and> v' = v\<lparr>stage := StageNightly, date := d, runID := r\<rparr>)"
proof -
  let ?ps = "split_byte CHR ''.'' pre"
  from assms have ids: "validIdentifiers pre True = None"
    by (auto simp: parse_pre_def Let_def split: option.splits)
  consider (beta) n where "?ps ! 0 = ''beta''" "length ?ps = 2"
      "parseNumericIdentifier (?ps ! 1) = Inr n" "v' = v\<lparr>stage := StageBeta, stageNumber := n\<rparr>"
    | (nightly) n where "?ps ! 0 = ''nightly''" "length ?ps = 3" "length (?ps ! 1) = 8"
      "parseNumericIdentifier (?ps ! 1) = Inr n" "runIDPattern (?ps ! 2)"
      "v' = v\<lparr>stage := StageNightly, date := ?ps ! 1, runID := ?ps ! 2\<rparr>"
    using assms ids by (auto simp: parse_pre_def Let_def split: if_splits sum.splits)
  then show ?thesis
  proof cases
    case (beta n)
    then show ?thesis
      using length_2_parts [of "CHR ''.''" pre] parseNumericIdentifier_Inr [OF beta(3)]
      by (auto simp: small_def)
  next
    case (nightly n)
    have "valid_identifier_list True ?ps = None"
      using ids by (auto simp: validIdentifiers_def split: if_splits)
    moreover have "?ps ! 2 \<in> set ?ps" using nightly(2) by simp
    moreover have "isNumeric (?ps ! 2)" using nightly(5) by (simp add: runIDPattern_def isNumeric_def)
    ultimately obtain k where "parseNumericIdentifier (?ps ! 2) = Inr k"
      by (blast dest: valid_identifier_list_numeric)
    then have "nightly_parts (?ps ! 1) (?ps ! 2)"
      using nightly date_digits runID_bound by (auto simp: nightly_parts_def)
    with nightly length_3_parts [of "CHR ''.''" pre] show ?thesis by auto
  qed
qed

lemma numbers_3:
  assumes "length (split_byte CHR ''.'' core) = 3" "parse_numbers (split_byte CHR ''.'' core) = Inr ns"
  shows "core = show_base (ns ! 0) (ns ! 1) (ns ! 2)" "small (ns ! 0)" "small (ns ! 1)" "small (ns ! 2)"
proof -
  have ns: "split_byte CHR ''.'' core = map (show_nat \<circ> unat) ns" "list_all small ns"
    using parse_numbers_Inr [OF assms(2)] by auto
  then have "length ns = 3" using assms(1) by simp
  then show "core = show_base (ns ! 0) (ns ! 1) (ns ! 2)" "small (ns ! 0)" "small (ns ! 1)" "small (ns ! 2)"
    using length_3_parts [OF assms(1)] ns by (auto simp: show_base_def list_all_length)
qed

lemma parse_core_Inr:
  assumes "parse_core raw' b core0 = Inr v"
  shows "raw v = raw' \<and> build v = b
    \<and> core0 = Base v @ (if stage v = StageNone then [] else ''-'' @ render_pre v)
    \<and> (b = [] \<or> validIdentifiers b False = None \<longrightarrow> wf_version v)"
proof -
  let ?v = "\<lambda>ns. \<lparr>raw = raw', major = ns ! 0, minor = ns ! 1, patch = ns ! 2,
      stage = StageNone, stageNumber = 0, date = [], runID = [], build = b\<rparr> :: version"
  show ?thesis
  proof (cases "cut_byte CHR ''-'' core0")
    case None
    then obtain ns where ns: "length (split_byte CHR ''.'' core0) = 3"
        "parse_numbers (split_byte CHR ''.'' core0) = Inr ns" "v = ?v ns"
      using assms by (auto simp: parse_core_def Let_def split: if_splits sum.splits)
    with numbers_3 [OF ns(1,2)] show ?thesis
      by (auto simp: Base_def wf_version_def)
  next
    case (Some cp)
    then obtain c p where cp: "cut_byte CHR ''-'' core0 = Some (c, p)" by (cases cp) auto
    then obtain ns where ns: "length (split_byte CHR ''.'' c) = 3"
        "parse_numbers (split_byte CHR ''.'' c) = Inr ns" "parse_pre (?v ns) p = Inr v"
      using assms by (auto simp: parse_core_def Let_def split: if_splits sum.splits)
    have "core0 = c @ ''-'' @ p" using cp by (simp add: cut_byte_Some)
    with numbers_3 [OF ns(1,2)] parse_pre_Inr [OF ns(3)] show ?thesis
      by (auto simp: Base_def wf_version_def render_pre_def)
  qed
qed

lemma parse_Inr:
  assumes "parse s = Inr v"
  shows "raw v = render v \<and> wf_version v"
proof -
  let ?r = "trim_prefix (trim_prefix (trim_space s) ''v'') ''V''"
  show ?thesis
  proof (cases "cut_byte CHR ''+'' ?r")
    case None
    then have "parse_core ?r [] ?r = Inr v"
      using assms by (auto simp: parse_def Let_def split: if_splits)
    from parse_core_Inr [OF this] show ?thesis by (auto simp: render_def)
  next
    case (Some cb)
    then obtain core b where cb: "cut_byte CHR ''+'' ?r = Some (core, b)" by (cases cb) auto
    then have p: "parse_core ?r b core = Inr v" "validIdentifiers b False = None" "b \<noteq> []"
      using assms by (auto simp: parse_def Let_def split: if_splits option.splits)
    have "?r = core @ ''+'' @ b" using cb by (simp add: cut_byte_Some)
    with p parse_core_Inr [OF p(1)] show ?thesis by (auto simp: render_def)
  qed
qed

lemma parse_numbers_show:
  "small a \<Longrightarrow> small b \<Longrightarrow> small c \<Longrightarrow>
     parse_numbers [show_nat (unat a), show_nat (unat b), show_nat (unat c)] = Inr [a, b, c]"
  by (simp add: small_def parseNumericIdentifier_show)

lemma split_base:
  "split_byte CHR ''.'' (show_base a b c) = [show_nat (unat a), show_nat (unat b), show_nat (unat c)]"
  by (simp add: show_base_def)

lemma base_chars: "CHR ''-'' \<notin> set (show_base a b c)" "CHR ''+'' \<notin> set (show_base a b c)"
  by (simp_all add: show_base_def)

lemma identifierPattern_digits: "s \<noteq> [] \<Longrightarrow> list_all is_digit s \<Longrightarrow> identifierPattern s"
  by (auto simp: identifierPattern_def is_ident_char_def list_all_iff)

lemma digits_no_dot: "list_all is_digit s \<Longrightarrow> CHR ''.'' \<notin> set s"
  using digit_chars by (auto simp: list_all_iff)

lemma parse_digits:
  assumes "s \<noteq> []" "list_all is_digit s" "s ! 0 \<noteq> CHR ''0''" "digits_value s \<le> maxNumericIdentifier"
  shows "\<exists>n. parseNumericIdentifier s = Inr n"
proof -
  have "digits_value s < 2 ^ 64" using assms(4) by (simp add: maxNumericIdentifier_def)
  with assms show ?thesis
    by (simp add: parseNumericIdentifier_def Let_def unat_of_nat take_bit_nat_eq_self)
qed

lemma parse_pre_beta:
  "small n \<Longrightarrow> parse_pre v (''beta.'' @ show_nat (unat n)) = Inr (v\<lparr>stage := StageBeta, stageNumber := n\<rparr>)"
  by (simp add: parse_pre_def validIdentifiers_def parseNumericIdentifier_show small_def
      identifierPattern_digits isNumeric_def)
     (simp add: identifierPattern_def is_ident_char_def is_digit_def)

lemma digits_value_bound: "list_all is_digit s \<Longrightarrow> digits_value s < 10 ^ length s"
  by (induction s rule: rev_induct) (auto simp: is_digit_def digits_value_def [of "[]"])

lemma parse_pre_nightly:
  assumes "nightly_parts d r"
  shows "parse_pre v (''nightly.'' @ d @ ''.'' @ r)
    = Inr (v\<lparr>stage := StageNightly, date := d, runID := r\<rparr>)"
proof -
  have d: "length d = 8" "list_all is_digit d" "d ! 0 \<noteq> CHR ''0''" "d \<noteq> []"
    and r: "runIDPattern r" "r \<noteq> []" "list_all is_digit r" "r ! 0 \<noteq> CHR ''0''"
      "digits_value r \<le> maxNumericIdentifier"
    using assms by (auto simp: nightly_parts_def runIDPattern_def)
  have "digits_value d \<le> maxNumericIdentifier"
    using digits_value_bound [OF d(2)] d(1) by (simp add: maxNumericIdentifier_def)
  then obtain n where n: "parseNumericIdentifier d = Inr n"
    using parse_digits [OF d(4,2,3)] by blast
  obtain k where k: "parseNumericIdentifier r = Inr k"
    using parse_digits [OF r(2-5)] by blast
  have split: "split_byte CHR ''.'' (''nightly.'' @ d @ ''.'' @ r) = [''nightly'', d, r]"
    using digits_no_dot [OF d(2)] digits_no_dot [OF r(3)] by simp
  have "validIdentifiers (''nightly.'' @ d @ ''.'' @ r) True = None"
    unfolding validIdentifiers_def split
    using d r n k identifierPattern_digits
    by (simp add: isNumeric_def) (simp add: identifierPattern_def is_ident_char_def is_digit_def)
  then show ?thesis
    unfolding parse_pre_def split using d r n by simp
qed

lemma parse_core_render:
  assumes "wf_version v"
  shows "parse_core raw' (build v) (Base v @ (if stage v = StageNone then [] else ''-'' @ render_pre v))
    = Inr (v\<lparr>raw := raw'\<rparr>)"
proof (cases "stage v")
  case StageNone
  have "cut_byte CHR ''-'' (Base v) = None" by (simp add: cut_byte_None Base_def base_chars)
  then show ?thesis
    using assms StageNone
    by (simp add: parse_core_def Base_def split_base parse_numbers_show wf_version_def
        del: parse_numbers.simps)
next
  case StageBeta
  have "cut_byte CHR ''-'' (Base v @ ''-'' @ render_pre v) = Some (Base v, render_pre v)"
    by (simp add: cut_byte_Some Base_def base_chars)
  then show ?thesis
    using assms StageBeta parse_pre_beta
    by (simp add: parse_core_def Base_def split_base parse_numbers_show wf_version_def render_pre_def
        del: parse_numbers.simps)
next
  case StageNightly
  have "cut_byte CHR ''-'' (Base v @ ''-'' @ render_pre v) = Some (Base v, render_pre v)"
    by (simp add: cut_byte_Some Base_def base_chars)
  then show ?thesis
    using assms StageNightly parse_pre_nightly [of "date v" "runID v"]
    by (simp add: parse_core_def Base_def split_base parse_numbers_show wf_version_def render_pre_def
        del: parse_numbers.simps)
qed

definition graphic :: "char \<Rightarrow> bool" where
  "graphic c \<longleftrightarrow> 0x20 < byte c \<and> byte c < 0x7F"

lemma set_join: "set (join xs sep) \<subseteq> (\<Union>x \<in> set xs. set x) \<union> set sep"
  by (induction xs sep rule: join.induct) auto

lemma valid_identifier_list_chars:
  "valid_identifier_list b xs = None \<Longrightarrow> x \<in> set xs \<Longrightarrow> c \<in> set x \<Longrightarrow> is_ident_char c"
  by (induction xs) (auto simp: identifierPattern_def list_all_iff split: if_splits sum.splits)

lemma ident_graphic: "is_ident_char c \<Longrightarrow> graphic c"
  by (auto simp: is_ident_char_def is_digit_def graphic_def)

lemma digits_graphic: "list_all is_digit s \<Longrightarrow> list_all graphic s"
  by (auto simp: list_all_iff is_digit_def graphic_def)

lemma identifiers_graphic:
  assumes "validIdentifiers s b = None"
  shows "list_all graphic s"
  unfolding list_all_iff
proof
  fix c assume "c \<in> set s"
  then have "c \<in> set (join (split_byte CHR ''.'' s) ''.'')" by (simp add: join_split_byte)
  then have "c = CHR ''.'' \<or> (\<exists>x \<in> set (split_byte CHR ''.'' s). c \<in> set x)"
    using set_join [of "split_byte CHR ''.'' s" "''.''"] by auto
  moreover have "valid_identifier_list b (split_byte CHR ''.'' s) = None"
    using assms by (auto simp: validIdentifiers_def split: if_splits)
  ultimately show "graphic c"
    using valid_identifier_list_chars ident_graphic by (auto simp: graphic_def [of "CHR ''.''"])
qed

lemma graphic_literals [simp]:
  "graphic CHR ''.''" "graphic CHR ''-''" "graphic CHR ''+''" "graphic CHR ''v''"
  "list_all graphic ''beta.''" "list_all graphic ''nightly.''"
  by code_simp+

lemma show_nat_graphic [simp]: "list_all graphic (show_nat n)"
  by (rule digits_graphic) simp

lemma render_graphic:
  assumes "wf_version v"
  shows "list_all graphic (render v)"
proof -
  have "list_all graphic (Base v)" by (simp add: Base_def show_base_def)
  moreover have "list_all graphic (render_pre v)"
    using assms digits_graphic graphic_literals(5,6)
    by (cases "stage v")
       (simp_all add: render_pre_def wf_version_def nightly_parts_def runIDPattern_def)
  moreover have "build v \<noteq> [] \<Longrightarrow> list_all graphic (build v)"
    using assms identifiers_graphic by (auto simp: wf_version_def)
  ultimately show ?thesis by (simp add: render_def)
qed

lemma render_starts_digit: "\<exists>c cs. render v = c # cs \<and> is_digit c"
proof -
  obtain c cs where "show_nat (unat (major v)) = c # cs"
    by (cases "show_nat (unat (major v))") auto
  moreover have "is_digit c" using show_nat_digits [of "unat (major v)"] calculation by simp
  ultimately show ?thesis by (simp add: render_def Base_def show_base_def)
qed

lemma parse_raw:
  assumes "wf_version v"
  shows "(case cut_byte CHR ''+'' (render v) of
         None \<Rightarrow> parse_core (render v) [] (render v)
       | Some (core, b) \<Rightarrow>
           (case validIdentifiers b False of
              Some e \<Rightarrow> Inl (BuildInvalid e)
            | None \<Rightarrow> if b = [] then Inl BuildEmpty else parse_core (render v) b core))
    = Inr (v\<lparr>raw := render v\<rparr>)"
proof -
  let ?core = "Base v @ (if stage v = StageNone then [] else ''-'' @ render_pre v)"
  have plus: "CHR ''+'' \<notin> set ?core"
  proof -
    have "\<forall>c \<in> set s. c \<noteq> CHR ''+''" if "list_all is_digit s" for s
      using that digit_chars by (auto simp: list_all_iff)
    then show ?thesis
      using assms
      by (cases "stage v") (auto simp: Base_def base_chars render_pre_def wf_version_def
          nightly_parts_def runIDPattern_def)
  qed
  show ?thesis
  proof (cases "build v = []")
    case True
    have "cut_byte CHR ''+'' (render v) = None" using plus True by (simp add: cut_byte_None render_def)
    moreover have "render v = ?core" using True by (simp add: render_def)
    ultimately show ?thesis using parse_core_render [OF assms, of "render v"] True by simp
  next
    case False
    have "cut_byte CHR ''+'' (render v) = Some (?core, build v)"
      using plus False by (auto simp: cut_byte_Some render_def)
    then show ?thesis
      using parse_core_render [OF assms, of "render v"] False assms by (simp add: wf_version_def)
  qed
qed

lemma parse_render:
  assumes "wf_version v"
  shows "parse (render v) = Inr (v\<lparr>raw := render v\<rparr>)"
    and "parse (''v'' @ render v) = Inr (v\<lparr>raw := render v\<rparr>)"
proof -
  obtain c cs where c: "render v = c # cs" "is_digit c" using render_starts_digit by blast
  then have np: "\<not> has_prefix (render v) ''v''" "\<not> has_prefix (render v) ''V''"
    using digit_chars [of c] by (auto simp: has_prefix_def)
  have t: "trim_space (render v) = render v" "trim_space (''v'' @ render v) = ''v'' @ render v"
    using render_graphic [OF assms]
    by (intro trim_space_graphic; simp add: list_all_iff graphic_def)+
  have "trim_prefix (trim_prefix (render v) ''v'') ''V'' = render v"
    "trim_prefix (trim_prefix (''v'' @ render v) ''v'') ''V'' = render v"
    using np by (simp_all add: trim_prefix_def has_prefix_def)
  moreover have "render v \<noteq> []" using c by simp
  ultimately show "parse (render v) = Inr (v\<lparr>raw := render v\<rparr>)"
    and "parse (''v'' @ render v) = Inr (v\<lparr>raw := render v\<rparr>)"
    using parse_raw [OF assms] t by (simp_all add: parse_def Let_def)
qed


text \<open>(C21) Printing a parsed version and parsing it again, with or without the tag prefix
  \<open>v\<close>, gives the same version.\<close>

theorem parse_print_roundtrip:
  assumes "parse s = Inr v"
  shows "parse (raw v) = Inr v \<and> parse (''v'' @ raw v) = Inr v"
proof -
  have v: "raw v = render v" "wf_version v" using parse_Inr [OF assms] by auto
  then have "v\<lparr>raw := render v\<rparr> = v" by (cases v) simp
  with v parse_render [OF v(2)] show ?thesis by simp
qed

definition nightly_example :: version where
  "nightly_example = \<lparr>raw = ''0.3.0-nightly.20261013.12'', major = 0, minor = 3, patch = 0,
     stage = StageNightly, stageNumber = 0, date = ''20261013'', runID = ''12'', build = []\<rparr>"

lemma nightly_example_wf: "wf_version nightly_example" "render nightly_example = raw nightly_example"
proof -
  have "digits_value ''12'' = 12" by code_simp
  then have "nightly_parts ''20261013'' ''12''"
    by (simp add: nightly_parts_def runIDPattern_def is_digit_def maxNumericIdentifier_def)
  then show "wf_version nightly_example"
    by (simp add: wf_version_def nightly_example_def small_def maxNumericIdentifier_def)
  have "show_nat 0 = ''0''" "show_nat 3 = ''3''" by code_simp+
  then show "render nightly_example = raw nightly_example"
    by (simp add: nightly_example_def render_def render_pre_def Base_def show_base_def)
qed

lemma nightly_example_parse: "parse ''v0.3.0-nightly.20261013.12'' = Inr nightly_example"
  using parse_render(2) [OF nightly_example_wf(1)] nightly_example_wf(2)
  by (simp add: nightly_example_def)

theorem parse_print_roundtrip_witness:
  "parse ''v0.3.0-nightly.20261013.12'' = Inr nightly_example
    \<and> parse (raw nightly_example) = Inr nightly_example
    \<and> parse (''v'' @ raw nightly_example) = Inr nightly_example"
  using parse_print_roundtrip [OF nightly_example_parse] nightly_example_parse by simp

subsection \<open>What the preflight guarantees\<close>

lemma SameBase_eq: "SameBase a b \<Longrightarrow> Base a = Base b"
  by (simp add: SameBase_def)

lemma ParseRelease_Inr: "ParseRelease s = Inr v \<longleftrightarrow> parse s = Inr v \<and> build v = []"
  by (auto simp: ParseRelease_def split: sum.splits)

lemma compute_stable_Ok:
  "compute_stable options base = Ok v \<Longrightarrow> IsPrerelease base = False \<Longrightarrow> build base = [] \<Longrightarrow>
     stage v = StageNone \<and> Base v = Base base \<and> build v = []"
  by (auto simp: compute_stable_def ParseRelease_Inr IsPrerelease_def SameBase_eq
      split: if_splits sum.splits)

lemma compute_beta_Ok:
  "compute_beta options base = Ok v \<Longrightarrow> stage v = StageBeta \<and> Base v = Base base \<and> build v = []"
  by (auto simp: compute_beta_def ParseRelease_Inr SameBase_eq Let_def split: if_splits sum.splits)

lemma MustParse_Ok: "MustParse s = Ok v \<longleftrightarrow> parse s = Inr v"
  by (auto simp: MustParse_def split: sum.splits)

lemma MustParse_not_Err [simp]: "MustParse s \<noteq> Err e"
  by (simp add: MustParse_def split: sum.split)

lemma parse_base: "small a \<Longrightarrow> small b \<Longrightarrow> small c \<Longrightarrow> parse (show_base a b c) =
   Inr \<lparr>raw = show_base a b c, major = a, minor = b, patch = c, stage = StageNone, stageNumber = 0,
        date = [], runID = [], build = []\<rparr>"
  using parse_render(1) [of "\<lparr>raw = show_base a b c, major = a, minor = b, patch = c,
      stage = StageNone, stageNumber = 0, date = [], runID = [], build = []\<rparr>"]
  by (simp add: wf_version_def render_def Base_def)

lemma windows_fields_loop_Inr:
  "windows_fields_loop cs = Inr fs \<Longrightarrow>
     map unat fs = map unat cs @ [0] \<and> list_all (\<lambda>c. unat c \<le> WindowsFieldMax) cs"
proof (induction cs arbitrary: fs)
  case (Cons c cs)
  then obtain gs where gs: "windows_fields_loop cs = Inr gs" "fs = ucast c # gs"
      "unat c \<le> WindowsFieldMax"
    by (auto split: if_splits sum.splits)
  have "unat (ucast c :: 16 word) = unat c"
    using gs(3) by (simp add: WindowsFieldMax_def unsigned_ucast_eq take_bit_nat_eq_self)
  with gs Cons.IH show ?case by simp
qed simp

lemma show_nat_0: "show_nat 0 = ''0''"
  by code_simp

lemma WindowsFileVersion_Inr:
  assumes "WindowsFileVersion v = Inr s"
  shows "s = Base v @ ''.0''" "unat (major v) \<le> 65535" "unat (minor v) \<le> 65535" "unat (patch v) \<le> 65535"
proof -
  from assms obtain fs where fs: "WindowsFields v = Inr fs" "s = join (map (show_nat \<circ> unat) fs) ''.''"
    by (auto simp: WindowsFileVersion_def split: sum.splits)
  have w: "map unat fs = [unat (major v), unat (minor v), unat (patch v), 0]"
    "unat (major v) \<le> 65535 \<and> unat (minor v) \<le> 65535 \<and> unat (patch v) \<le> 65535"
    using windows_fields_loop_Inr [of "[major v, minor v, patch v]" fs] fs(1)
    by (auto simp: WindowsFields_def WindowsFieldMax_def)
  have "map (show_nat \<circ> unat) fs = map show_nat (map unat fs)" by simp
  with w fs(2) show "s = Base v @ ''.0''" by (simp add: Base_def show_base_def show_nat_0)
  show "unat (major v) \<le> 65535" "unat (minor v) \<le> 65535" "unat (patch v) \<le> 65535"
    using w(2) by auto
qed

lemma parse_no_build:
  assumes "list_all graphic t" "t = c # cs" "is_digit c" "CHR ''+'' \<notin> set t"
  shows "parse t = parse_core t [] t"
proof -
  have "trim_space t = t"
    using assms(1) by (intro trim_space_graphic) (simp add: list_all_iff graphic_def)
  moreover have "\<not> has_prefix t ''v''" "\<not> has_prefix t ''V''"
    using assms(2,3) digit_chars [of c] by (auto simp: has_prefix_def)
  moreover have "cut_byte CHR ''+'' t = None" using assms(4) by (simp add: cut_byte_None)
  ultimately show ?thesis using assms(2) by (simp add: parse_def trim_prefix_def Let_def)
qed

lemma parse_nightly_string:
  assumes "small (major base)" "small (minor base)" "small (patch base)"
    and d: "list_all is_digit d" and r: "list_all is_digit r"
  shows "parse (nightly_string base d r) =
    parse_pre \<lparr>raw = nightly_string base d r, major = major base, minor = minor base,
      patch = patch base, stage = StageNone, stageNumber = 0, date = [], runID = [], build = []\<rparr>
      (''nightly.'' @ d @ ''.'' @ r)"
proof -
  let ?t = "nightly_string base d r" and ?p = "''nightly.'' @ d @ ''.'' @ r"
  obtain c cs where c: "show_nat (unat (major base)) = c # cs" "is_digit c"
    using show_nat_digits [of "unat (major base)"] by (cases "show_nat (unat (major base))") auto
  have t: "?t = Base base @ ''-'' @ ?p" by (simp add: nightly_string_def)
  have "list_all graphic ?t"
    using digits_graphic [OF d] digits_graphic [OF r] graphic_literals(6)
    by (simp add: nightly_string_def Base_def show_base_def)
  moreover have "CHR ''+'' \<notin> set ?t"
    using d r digit_chars by (auto simp: nightly_string_def Base_def base_chars list_all_iff)
  ultimately have "parse ?t = parse_core ?t [] ?t"
    using c by (intro parse_no_build) (auto simp: nightly_string_def Base_def show_base_def)
  moreover have "cut_byte CHR ''-'' ?t = Some (Base base, ?p)"
    unfolding t cut_byte_Some by (simp add: Base_def base_chars)
  ultimately show ?thesis
    using assms(1-3)
    by (simp add: parse_core_def Base_def split_base parse_numbers_show del: parse_numbers.simps)
qed

lemma parse_nightly_Inr:
  assumes small: "small (major base)" "small (minor base)" "small (patch base)"
    and d: "list_all is_digit d" and r: "runIDPattern r"
  shows "(\<exists>v. parse (nightly_string base d r) = Inr v) \<longleftrightarrow> nightly_parts d r"
    and "parse (nightly_string base d r) = Inr v \<Longrightarrow>
      stage v = StageNightly \<and> date v = d \<and> runID v = r \<and> build v = [] \<and>
      major v = major base \<and> minor v = minor base \<and> patch v = patch base"
proof -
  have r': "list_all is_digit r" using r by (simp add: runIDPattern_def)
  note eq = parse_nightly_string [OF small d r']
  show "(\<exists>v. parse (nightly_string base d r) = Inr v) \<longleftrightarrow> nightly_parts d r"
  proof
    assume "\<exists>v. parse (nightly_string base d r) = Inr v"
    then obtain d' r' where *: "nightly_parts d' r'"
        "''nightly.'' @ d @ ''.'' @ r = ''nightly.'' @ d' @ ''.'' @ r'"
      unfolding eq using parse_pre_Inr by fastforce
    then have "split_byte CHR ''.'' (d @ CHR ''.'' # r) = split_byte CHR ''.'' (d' @ CHR ''.'' # r')"
      by simp
    moreover have "list_all is_digit d'" "list_all is_digit r'"
      using *(1) by (auto simp: nightly_parts_def runIDPattern_def)
    ultimately show "nightly_parts d r"
      using * digits_no_dot [OF d] digits_no_dot [OF r'] digits_no_dot by simp
  next
    assume "nightly_parts d r"
    then show "\<exists>v. parse (nightly_string base d r) = Inr v"
      unfolding eq using parse_pre_nightly by auto
  qed
  then show "stage v = StageNightly \<and> date v = d \<and> runID v = r \<and> build v = [] \<and>
      major v = major base \<and> minor v = minor base \<and> patch v = patch base"
    if "parse (nightly_string base d r) = Inr v"
    using that parse_pre_nightly [of d r] unfolding eq by auto
qed

lemma parse_small:
  "parse s = Inr v \<Longrightarrow> small (major v) \<and> small (minor v) \<and> small (patch v)"
  using parse_Inr by (auto simp: wf_version_def)

lemma normaliseDate_Inr:
  "normaliseDate s = Inr d \<Longrightarrow> length d = 8 \<and> list_all is_digit d"
  by (auto simp: normaliseDate_def real_date_def Let_def split: if_splits)

lemma nightly_base_Ok:
  assumes "nightly_base cmp lastv base = Ok (base', lastBase)" "parse b = Inr base"
  shows "small (major base')" "small (minor base')" "small (patch base')"
  using assms
  by (auto simp: nightly_base_def MustParse_Ok Let_def dest!: parse_small
      split: if_splits sum.splits outcome.splits)

lemma compute_nightly_Ok:
  assumes "compute_nightly cmp options base = Ok rel" "parse b = Inr base"
  shows "\<exists>base' lastBase. nightly_base cmp (o_LastStableVersion options) base = Ok (base', lastBase)
    \<and> r_Base rel = Base base' \<and> Base (r_Version rel) = Base base'
    \<and> major (r_Version rel) = major base' \<and> minor (r_Version rel) = minor base'
    \<and> patch (r_Version rel) = patch base'
    \<and> stage (r_Version rel) = StageNightly \<and> build (r_Version rel) = []
    \<and> date (r_Version rel) = r_Date rel \<and> runID (r_Version rel) = r_RunID rel
    \<and> r_Channel rel = ChannelNightly \<and> r_FileVersion rel = []"
proof -
  from assms(1) obtain d r base' lastBase v where *:
      "normaliseDate (o_Date options) = Inr d" "runIDPattern r"
      "nightly_base cmp (o_LastStableVersion options) base = Ok (base', lastBase)"
      "parse (nightly_string base' d r) = Inr v"
      "rel = (empty_release ChannelNightly (Base base') (trim_space (o_SourceSHA options)) v)
         \<lparr>r_Date := d, r_RunID := r, r_LastStableBase := lastBase\<rparr>"
    by (auto simp: compute_nightly_def MustParse_Ok Let_def split: if_splits sum.splits outcome.splits)
  have "list_all is_digit d" using normaliseDate_Inr [OF *(1)] by simp
  with parse_nightly_Inr(2) [OF nightly_base_Ok [OF *(3) assms(2)] this *(2) *(4)] *
  show ?thesis by (auto simp: empty_release_def Base_def)
qed

lemma show_base_inject:
  "show_base a b c = show_base x y z \<Longrightarrow> a = x \<and> b = y \<and> c = z"
proof -
  assume "show_base a b c = show_base x y z"
  then have "split_byte CHR ''.'' (show_base a b c) = split_byte CHR ''.'' (show_base x y z)" by simp
  then show ?thesis by (auto simp: split_base word_unat_eq_iff dest!: show_nat_inject)
qed

lemma parse_show_base_Inr:
  assumes "parse (show_base a b c) = Inr v"
  shows "major v = a \<and> minor v = b \<and> patch v = c \<and> small c"
proof -
  let ?t = "show_base a b c"
  obtain x xs where x: "show_nat (unat a) = x # xs" "is_digit x"
    using show_nat_digits [of "unat a"] by (cases "show_nat (unat a)") auto
  have "list_all graphic ?t" by (simp add: show_base_def)
  moreover have "?t = x # (xs @ ''.'' @ show_nat (unat b) @ ''.'' @ show_nat (unat c))"
    using x by (simp add: show_base_def)
  ultimately have "parse ?t = parse_core ?t [] ?t"
    using x(2) base_chars(2) by (rule parse_no_build)
  with assms have core: "parse_core ?t [] ?t = Inr v" by simp
  have t: "?t = Base v @ (if stage v = StageNone then [] else ''-'' @ render_pre v)"
    using parse_core_Inr [OF core] by simp
  moreover have "CHR ''-'' \<notin> set ?t" by (rule base_chars)
  ultimately have "stage v = StageNone" by (auto split: if_splits)
  with t have "?t = Base v" by simp
  then show ?thesis
    using show_base_inject [of a b c] parse_small [OF assms] by (auto simp: Base_def)
qed

text \<open>
  What the code relies on in \<open>semver.Compare\<close>: on two release versions without a
  pre-release part it is positive exactly when the first is numerically higher.
\<close>

definition base_less :: "version \<Rightarrow> version \<Rightarrow> bool" where
  "base_less a b \<longleftrightarrow> unat (major a) < unat (major b)
     \<or> major a = major b \<and> (unat (minor a) < unat (minor b)
     \<or> minor a = minor b \<and> unat (patch a) < unat (patch b))"

definition semver_base_order :: "(string \<Rightarrow> string \<Rightarrow> int) \<Rightarrow> bool" where
  "semver_base_order cmp \<longleftrightarrow> (\<forall>a b. wf_version a \<longrightarrow> wf_version b \<longrightarrow>
     IsPrerelease a = False \<longrightarrow> IsPrerelease b = False \<longrightarrow>
     (cmp (''v'' @ Base a) (''v'' @ Base b) > 0 \<longleftrightarrow> base_less b a))"

lemma Base_nonempty: "show_base a b c \<noteq> []"
  by (simp add: show_base_def)

lemma BaseSupersedes_iff:
  assumes "semver_base_order cmp" "parse s = Inr a" "parse t = Inr b"
  shows "BaseSupersedes cmp a b \<longleftrightarrow> base_less b a"
proof -
  have ab: "small (major a)" "small (minor a)" "small (patch a)" "\<not> IsZero a"
    "small (major b)" "small (minor b)" "small (patch b)" "\<not> IsZero b"
    using parse_small assms(2,3) parse_Inr Base_nonempty
    by (auto simp: IsZero_def render_def Base_def)
  let ?p = "\<lambda>v. v\<lparr>raw := Base v, stage := StageNone, stageNumber := 0, date := [], runID := [], build := []\<rparr>"
  have p: "parse (Base a) = Inr (?p a)" "parse (Base b) = Inr (?p b)"
    using ab by (auto simp: Base_def parse_base)
  have "Compare cmp (?p a) (?p b) = cmp (''v'' @ Base a) (''v'' @ Base b)"
    by (simp add: Compare_def IsZero_def Base_def Base_nonempty canonical_def)
  moreover have "cmp (''v'' @ Base (?p a)) (''v'' @ Base (?p b)) > 0 \<longleftrightarrow> base_less (?p b) (?p a)"
    using assms(1) ab by (simp add: semver_base_order_def IsPrerelease_def wf_version_def)
  ultimately show ?thesis
    using ab p by (simp add: BaseSupersedes_def Base_def base_less_def)
qed

lemma small_Suc: "small n \<Longrightarrow> unat (n + 1) = unat n + 1"
  by (subst unat_add_lem [THEN iffD1]) (simp_all add: small_def maxNumericIdentifier_def)

lemma nightly_base_above:
  assumes "semver_base_order cmp" "parse b = Inr base" "trim_space lastv \<noteq> []"
    and "nightly_base cmp lastv base = Ok (base', lastBase)"
  shows "\<exists>ls. parse (trim_space lastv) = Inr ls \<and> base_less ls base'"
proof -
  from assms(3,4) obtain ls where ls: "parse (trim_space lastv) = Inr ls"
    by (auto simp: nightly_base_def Let_def split: sum.splits)
  show ?thesis
  proof (cases "BaseSupersedes cmp base ls")
    case True
    then have "base_less ls base" using BaseSupersedes_iff [OF assms(1,2) ls] by simp
    moreover have "base' = base"
      using assms(3,4) ls True by (auto simp: nightly_base_def Let_def split: if_splits)
    ultimately show ?thesis using ls by blast
  next
    case False
    then have "parse (show_base (major ls) (minor ls) (patch ls + 1)) = Inr base'"
      using assms(3,4) ls
      by (auto simp: nightly_base_def MustParse_Ok Let_def split: if_splits outcome.splits)
    from parse_show_base_Inr [OF this] parse_small [OF ls] ls show ?thesis
      by (auto simp: base_less_def small_Suc)
  qed
qed

lemma Compute_Ok:
  assumes "Compute cmp options = Ok rel"
  obtains base rel' where "parse (o_Base options) = Inr base" "IsPrerelease base = False" "build base = []"
    "with_file_version rel' = Ok rel" "r_Channel rel' = o_Channel options"
    "Channel (r_Version rel') = o_Channel options" "Base (r_Version rel') = r_Base rel'"
    "build (r_Version rel') = []"
    "o_Channel options = ChannelNightly \<Longrightarrow> compute_nightly cmp options base = Ok rel'"
proof -
  from assms obtain base where base: "parse (o_Base options) = Inr base" "\<not> IsPrerelease base" "build base = []"
    by (auto simp: Compute_def split: if_splits sum.splits)
  let ?rel = "empty_release (o_Channel options) (Base base) (trim_space (o_SourceSHA options))"
  show ?thesis
  proof (cases "o_Channel options")
    case ChannelStable
    with assms base obtain v where v: "compute_stable options base = Ok v" "with_file_version (?rel v) = Ok rel"
      by (auto simp: Compute_def Let_def outcome_bind_Ok Valid_def)
    with compute_stable_Ok [OF v(1)] base ChannelStable show ?thesis
      by (intro that [of base "?rel v"]) (auto simp: empty_release_def Channel_def)
  next
    case ChannelBeta
    with assms base obtain v where v: "compute_beta options base = Ok v" "with_file_version (?rel v) = Ok rel"
      by (auto simp: Compute_def Let_def outcome_bind_Ok Valid_def)
    with compute_beta_Ok [OF v(1)] base ChannelBeta show ?thesis
      by (intro that [of base "?rel v"]) (auto simp: empty_release_def Channel_def)
  next
    case ChannelNightly
    with assms base obtain rel' where r: "compute_nightly cmp options base = Ok rel'" "with_file_version rel' = Ok rel"
      by (auto simp: Compute_def Let_def outcome_bind_Ok Valid_def)
    with compute_nightly_Ok [OF r(1) base(1)] base ChannelNightly show ?thesis
      by (intro that [of base rel']) (auto simp: Channel_def)
  next
    case (ChannelOther c)
    with assms show ?thesis by (simp add: Compute_def Valid_def)
  qed
qed

lemma with_file_version_Ok:
  assumes "with_file_version rel' = Ok rel"
  shows "r_FileVersion rel = Base (r_Version rel') @ ''.0''" "r_Version rel = r_Version rel'"
    "r_Base rel = r_Base rel'" "r_Channel rel = r_Channel rel'"
    "unat (major (r_Version rel')) \<le> 65535 \<and> unat (minor (r_Version rel')) \<le> 65535
       \<and> unat (patch (r_Version rel')) \<le> 65535"
  using assms by (auto simp: with_file_version_def WindowsFileVersion_Inr split: sum.splits)

text \<open>(C19) The release identity is consistent: whenever the preflight accepts, the version
  belongs to the requested channel, its base is the recorded base, it carries no build
  metadata, and the Windows file version is that base with a zero fourth field, no
  component having been truncated to 16 bits.\<close>

theorem compute_identity_consistent:
  assumes "Compute cmp options = Ok rel"
  shows "r_Channel rel = o_Channel options \<and> Channel (r_Version rel) = o_Channel options
    \<and> Base (r_Version rel) = r_Base rel \<and> build (r_Version rel) = []
    \<and> r_FileVersion rel = r_Base rel @ ''.0''
    \<and> unat (major (r_Version rel)) \<le> 65535 \<and> unat (minor (r_Version rel)) \<le> 65535
    \<and> unat (patch (r_Version rel)) \<le> 65535"
proof (rule Compute_Ok [OF assms])
  fix base rel'
  assume "with_file_version rel' = Ok rel" "r_Channel rel' = o_Channel options"
    "Channel (r_Version rel') = o_Channel options" "Base (r_Version rel') = r_Base rel'"
    "build (r_Version rel') = []"
  with with_file_version_Ok [of rel' rel] show ?thesis by simp
qed

text \<open>A nightly is above the last stable release: with a semver comparison that orders
  release versions numerically, an accepted nightly built after a published stable
  release has a base strictly higher than it, also when the configured base was not raised.\<close>

theorem nightly_above_last_stable:
  assumes "semver_base_order cmp" and "Compute cmp options = Ok rel"
    and "o_Channel options = ChannelNightly" and "trim_space (o_LastStableVersion options) \<noteq> []"
  shows "\<exists>ls. parse (trim_space (o_LastStableVersion options)) = Inr ls \<and> base_less ls (r_Version rel)"
proof (rule Compute_Ok [OF assms(2)])
  fix base rel'
  assume p: "parse (o_Base options) = Inr base" and w: "with_file_version rel' = Ok rel"
    and "o_Channel options = ChannelNightly \<Longrightarrow> compute_nightly cmp options base = Ok rel'"
  then have n: "compute_nightly cmp options base = Ok rel'" using assms(3) by simp
  from compute_nightly_Ok [OF n p] obtain base' lastBase where
      b: "nightly_base cmp (o_LastStableVersion options) base = Ok (base', lastBase)"
      "major (r_Version rel') = major base'" "minor (r_Version rel') = minor base'"
      "patch (r_Version rel') = patch base'" by blast
  from nightly_base_above [OF assms(1) p assms(4) b(1)] b with_file_version_Ok(2) [OF w]
  show ?thesis by (auto simp: base_less_def)
qed

lemma compute_nightly_Panic:
  assumes "compute_nightly cmp options base = Panic" "parse b = Inr base"
  shows "(\<exists>d. normaliseDate (o_Date options) = Inr d \<and> d ! 0 = CHR ''0'')
    \<or> digits_value (trim_space (o_RunID options)) > maxNumericIdentifier
    \<or> (\<exists>ls. parse (trim_space (o_LastStableVersion options)) = Inr ls
         \<and> unat (patch ls) = maxNumericIdentifier)"
proof -
  let ?r = "trim_space (o_RunID options)" and ?l = "o_LastStableVersion options"
  from assms(1) obtain d where d: "normaliseDate (o_Date options) = Inr d" "runIDPattern ?r"
    by (auto simp: compute_nightly_def Let_def split: if_splits sum.splits)
  then have d8: "length d = 8" "list_all is_digit d" using normaliseDate_Inr by auto
  show ?thesis
  proof (cases "nightly_base cmp ?l base")
    case (Ok bl)
    then obtain base' lb where bl: "nightly_base cmp ?l base = Ok (base', lb)" by (cases bl) auto
    then have "MustParse (nightly_string base' d ?r) = (Panic :: (input_error, version) outcome)"
      using assms(1) d by (auto simp: compute_nightly_def Let_def split: if_splits outcome.splits)
    then have "\<nexists>v. parse (nightly_string base' d ?r) = Inr v"
      by (auto simp: MustParse_def split: sum.splits)
    then have "\<not> nightly_parts d ?r"
      using parse_nightly_Inr(1) [OF nightly_base_Ok [OF bl assms(2)] d8(2) d(2)] by simp
    with d d8 show ?thesis by (auto simp: nightly_parts_def)
  next
    case Panic
    then obtain ls where ls: "parse (trim_space ?l) = Inr ls"
        "MustParse (show_base (major ls) (minor ls) (patch ls + 1)) = (Panic :: (input_error, version) outcome)"
      by (auto simp: nightly_base_def Let_def split: if_splits sum.splits outcome.splits)
    have "\<not> small (patch ls + 1)"
      using ls(2) parse_small [OF ls(1)] parse_base [of "major ls" "minor ls" "patch ls + 1"]
      by (auto simp: MustParse_def)
    then have "unat (patch ls) = maxNumericIdentifier"
      using parse_small [OF ls(1)] small_Suc [of "patch ls"] by (auto simp: small_def)
    with ls(1) show ?thesis by blast
  next
    case (Err e)
    with assms(1) d show ?thesis
      by (auto simp: compute_nightly_def Let_def split: if_splits)
  qed
qed

text \<open>(C22) The preflight can crash only on a nightly, and only for a date before the year 1000,
  a run id beyond 63 bits or a last stable patch at the numeric limit: these inputs pass
  the checks of \<open>Compute\<close> and make \<open>MustParse\<close> panic.\<close>

theorem compute_panics_only_at_limits:
  assumes "Compute cmp options = Panic"
  shows "o_Channel options = ChannelNightly \<and>
    ((\<exists>d. normaliseDate (o_Date options) = Inr d \<and> d ! 0 = CHR ''0'')
     \<or> digits_value (trim_space (o_RunID options)) > maxNumericIdentifier
     \<or> (\<exists>ls. parse (trim_space (o_LastStableVersion options)) = Inr ls
          \<and> unat (patch ls) = maxNumericIdentifier))"
proof -
  have wfv: "with_file_version r \<noteq> Panic" for r by (simp add: with_file_version_def split: sum.split)
  have "compute_stable options b \<noteq> Panic" "compute_beta options b \<noteq> Panic" for b
    by (simp_all add: compute_stable_def compute_beta_def Let_def split: sum.split)
  then obtain base where "o_Channel options = ChannelNightly" "parse (o_Base options) = Inr base"
      "compute_nightly cmp options base = Panic"
    using assms wfv
    by (auto simp: Compute_def Let_def outcome_bind_Panic outcome_bind_Ok
        split: if_splits sum.splits channel.splits)
  with compute_nightly_Panic show ?thesis by blast
qed

subsection \<open>Witnesses of the preflight properties\<close>

definition numeric_compare :: "string \<Rightarrow> string \<Rightarrow> int" where
  "numeric_compare s t = (case (parse s, parse t) of
      (Inr a, Inr b) \<Rightarrow> if base_less b a then 1 else if base_less a b then -1 else 0
    | _ \<Rightarrow> 0)"

lemma parse_v_base:
  assumes "wf_version v"
  shows "\<exists>w. parse (''v'' @ Base v) = Inr w \<and> major w = major v \<and> minor w = minor v \<and> patch w = patch v"
  using parse_render(2) [of "v\<lparr>stage := StageNone, stageNumber := 0, date := [], runID := [], build := []\<rparr>"]
    assms by (simp add: wf_version_def render_def Base_def)

lemma numeric_compare_order: "semver_base_order numeric_compare"
  unfolding semver_base_order_def
proof (intro allI impI)
  fix a b :: version
  assume "wf_version a" "wf_version b"
  then obtain x y where "parse (''v'' @ Base a) = Inr x" "parse (''v'' @ Base b) = Inr y"
      "base_less y x = base_less b a"
    using parse_v_base [of a] parse_v_base [of b] by (auto simp: base_less_def)
  then show "0 < numeric_compare (''v'' @ Base a) (''v'' @ Base b) \<longleftrightarrow> base_less b a"
    by (simp add: numeric_compare_def)
qed

definition nightly_options :: "string \<Rightarrow> string \<Rightarrow> release_options" where
  "nightly_options run lastv = \<lparr>o_Channel = ChannelNightly, o_Version = [], o_Base = ''0.3.0'',
     o_Date = ''2026-10-13'', o_RunID = run, o_SourceSHA = [], o_LastStableVersion = lastv\<rparr>"

lemma parse_030: "parse ''0.3.0'' = Inr \<lparr>raw = ''0.3.0'', major = 0, minor = 3, patch = 0,
   stage = StageNone, stageNumber = 0, date = [], runID = [], build = []\<rparr>"
proof -
  have "show_nat 3 = ''3''" by code_simp
  then have "show_base 0 3 0 = ''0.3.0''" by (simp add: show_base_def show_nat_0)
  then show ?thesis
    using parse_base [of 0 3 0] by (simp add: small_def maxNumericIdentifier_def)
qed

lemma example_date: "normaliseDate ''2026-10-13'' = Inr ''20261013''"
proof -
  have "trim_space ''2026-10-13'' = ''2026-10-13''"
    by (rule trim_space_graphic) simp
  then show ?thesis
    by (simp add: normaliseDate_def real_date_def is_digit_def digits_value_def days_in_def numeral_2_eq_2)
qed

definition base_version :: "64 word \<Rightarrow> version" where
  "base_version p = \<lparr>raw = show_base 0 3 p, major = 0, minor = 3, patch = p,
     stage = StageNone, stageNumber = 0, date = [], runID = [], build = []\<rparr>"

definition nightly_version :: "64 word \<Rightarrow> string \<Rightarrow> version" where
  "nightly_version p run = (base_version p)\<lparr>raw := nightly_string (base_version p) ''20261013'' run,
     stage := StageNightly, date := ''20261013'', runID := run\<rparr>"

lemma nightly_parts_12: "nightly_parts ''20261013'' ''12''"
  by (simp add: nightly_parts_def runIDPattern_def is_digit_def maxNumericIdentifier_def digits_value_def)

lemma parse_030_base: "parse ''0.3.0'' = Inr (base_version 0)"
proof -
  have "show_nat 3 = ''3''" by code_simp
  then show ?thesis by (simp add: parse_030 base_version_def show_base_def show_nat_0)
qed

lemma trim_space_030: "trim_space ''0.3.0'' = ''0.3.0''" "trim_space ''12'' = ''12''"
    "trim_space ([] :: string) = []"
  by (rule trim_space_graphic; simp)+

lemma nightly_base_example:
  "nightly_base numeric_compare ''0.3.0'' (base_version 0) = Ok (base_version 1, ''0.3.0'')"
proof -
  have "\<not> BaseSupersedes numeric_compare (base_version 0) (base_version 0)"
    using BaseSupersedes_iff [OF numeric_compare_order parse_030_base parse_030_base]
    by (simp add: base_less_def)
  moreover have "parse (show_base 0 3 1) = Inr (base_version 1)"
    by (subst parse_base) (simp_all add: small_def maxNumericIdentifier_def base_version_def)
  moreover have "show_base 0 3 0 = ''0.3.0''"
    using parse_Inr [OF parse_030_base] parse_030 parse_030_base by (simp add: base_version_def)
  ultimately show ?thesis
    by (simp add: nightly_base_def trim_space_030 parse_030_base IsPrerelease_def MustParse_def)
       (simp add: base_version_def Base_def)
qed

lemma parse_nightly_example:
  "parse (nightly_string (base_version 1) ''20261013'' ''12'') = Inr (nightly_version 1 ''12'')"
  by (subst parse_nightly_string)
     (simp_all add: base_version_def small_def maxNumericIdentifier_def is_digit_def
        nightly_version_def parse_pre_nightly [OF nightly_parts_12, simplified])

definition example_release :: release where
  "example_release = \<lparr>r_Version = nightly_version 1 ''12'', r_Channel = ChannelNightly, r_Base = ''0.3.1'',
     r_SourceSHA = [], r_Date = ''20261013'', r_RunID = ''12'', r_FileVersion = ''0.3.1.0'',
     r_LastStableBase = ''0.3.0''\<rparr>"

lemma compute_example: "Compute numeric_compare (nightly_options ''12'' ''0.3.0'') = Ok example_release"
proof -
  let ?o = "nightly_options ''12'' ''0.3.0''"
  have sn: "show_nat 0 = ''0''" "show_nat 1 = ''1''" "show_nat (Suc 0) = ''1''" "show_nat 3 = ''3''" by code_simp+
  have r: "runIDPattern ''12''" by (simp add: runIDPattern_def is_digit_def)
  have "compute_nightly numeric_compare ?o (base_version 0) = Ok (example_release\<lparr>r_FileVersion := []\<rparr>)"
    using nightly_base_example
    by (simp add: compute_nightly_def nightly_options_def example_date trim_space_030 r
        MustParse_def parse_nightly_example example_release_def empty_release_def)
       (simp add: base_version_def Base_def show_base_def sn Let_def)
  moreover have "with_file_version (example_release\<lparr>r_FileVersion := []\<rparr>) = Ok example_release"
    by (simp add: with_file_version_def WindowsFileVersion_def WindowsFields_def example_release_def
        nightly_version_def base_version_def WindowsFieldMax_def sn)
  ultimately show ?thesis
    by (simp add: Compute_def nightly_options_def Valid_def parse_030_base outcome_bind_def)
       (simp add: base_version_def IsPrerelease_def)
qed

theorem compute_identity_consistent_witness:
  "Compute numeric_compare (nightly_options ''12'' ''0.3.0'') = Ok example_release
    \<and> Channel (r_Version example_release) = ChannelNightly
    \<and> r_FileVersion example_release = ''0.3.1.0''"
  using compute_identity_consistent [OF compute_example] compute_example
  by (simp add: nightly_options_def example_release_def)

theorem nightly_above_last_stable_witness:
  "\<exists>ls. parse (trim_space ''0.3.0'') = Inr ls \<and> base_less ls (r_Version example_release)"
  using nightly_above_last_stable [OF numeric_compare_order compute_example]
  by (simp add: nightly_options_def trim_space_030)

lemma compute_panic_example:
  "Compute numeric_compare (nightly_options ''9223372036854775808'' []) = Panic"
proof -
  let ?r = "''9223372036854775808''"
  let ?o = "nightly_options ?r []"
  have r: "runIDPattern ?r" "trim_space ?r = ?r"
    by (simp add: runIDPattern_def is_digit_def) (rule trim_space_graphic; simp)
  have np: "\<not> nightly_parts ''20261013'' ?r"
    by (simp add: nightly_parts_def digits_value_def maxNumericIdentifier_def)
  have "\<nexists>v. parse (nightly_string (base_version 0) ''20261013'' ?r) = Inr v"
    using np r(1) by (subst parse_nightly_Inr(1))
      (simp_all add: base_version_def small_def maxNumericIdentifier_def is_digit_def)
  then have "MustParse (nightly_string (base_version 0) ''20261013'' ?r) = (Panic :: (input_error, version) outcome)"
    by (auto simp: MustParse_def split: sum.split)
  then have "compute_nightly numeric_compare ?o (base_version 0) = Panic"
    by (simp add: compute_nightly_def nightly_options_def example_date trim_space_030 r nightly_base_def)
  then show ?thesis
    by (simp add: Compute_def nightly_options_def Valid_def parse_030_base outcome_bind_def)
       (simp add: base_version_def IsPrerelease_def)
qed

theorem compute_panics_only_at_limits_witness:
  "Compute numeric_compare (nightly_options ''9223372036854775808'' []) = Panic
    \<and> digits_value (trim_space ''9223372036854775808'') > maxNumericIdentifier"
proof -
  have "\<not> ''20261013'' ! 0 = CHR ''0''" by simp
  moreover have "parse (trim_space []) = Inl VersionEmpty"
    by (simp add: trim_space_030 parse_def trim_prefix_def has_prefix_def)
  ultimately show ?thesis
  using compute_panics_only_at_limits [OF compute_panic_example] compute_panic_example
  by (simp add: nightly_options_def example_date)
qed

end
