(* ===== verification/Notifications.thy ===== *)
theory Notifications
  imports Go_Strings
begin

text \<open>
  \<open>internal/notifications/router.go\<close>: the notification vocabulary, the preference rules
  and the router that normalizes, deduplicates and delivers events.  The router's
  critical sections are functions on its record; the platform adapter
  (\<open>Delivery.Send\<close>), the foreground query and the failure handler are arguments, and the
  calls made to them are returned as effects.

  The ring buffer of remembered identifiers is shown to implement a first-in first-out
  window of the last 1024 distinct identifiers (the locale \<open>fifo_window\<close>); at-most-once
  delivery rests on that contract.
\<close>

subsection \<open>Classes and preferences\<close>

datatype notification_class =
    ClassActionRequired | ClassCompleted | ClassDSHInteraction | ClassError | ClassLifecycle
  | ClassUnknown string

datatype preference_key =
    PreferenceEnabled | PreferenceCompleted | PreferenceInteractionRequired | PreferenceErrors
  | PreferenceLifecycle | PreferenceUnknown string

record preferences =
  Enabled :: bool
  Completed :: bool
  InteractionRequired :: bool
  Errors :: bool
  Lifecycle :: bool

definition DefaultPreferences :: preferences where
  "DefaultPreferences = \<lparr>Enabled = True, Completed = True, InteractionRequired = True,
     Errors = True, Lifecycle = False\<rparr>"

fun classPreferenceRules :: "notification_class \<Rightarrow> (preferences \<Rightarrow> bool) option" where
  "classPreferenceRules ClassActionRequired = Some InteractionRequired"
| "classPreferenceRules ClassCompleted = Some Completed"
| "classPreferenceRules ClassDSHInteraction = Some InteractionRequired"
| "classPreferenceRules ClassError = Some Errors"
| "classPreferenceRules ClassLifecycle = Some Lifecycle"
| "classPreferenceRules (ClassUnknown s) = None"

definition Allows :: "preferences \<Rightarrow> notification_class \<Rightarrow> bool" where
  "Allows p c =
    (if \<not> Enabled p then False
     else case classPreferenceRules c of None \<Rightarrow> False | Some rule \<Rightarrow> rule p)"

fun SetPreference :: "preferences \<Rightarrow> preference_key \<Rightarrow> bool \<Rightarrow> preferences \<times> bool" where
  "SetPreference p PreferenceEnabled b = (p\<lparr>Enabled := b\<rparr>, True)"
| "SetPreference p PreferenceCompleted b = (p\<lparr>Completed := b\<rparr>, True)"
| "SetPreference p PreferenceInteractionRequired b = (p\<lparr>InteractionRequired := b\<rparr>, True)"
| "SetPreference p PreferenceErrors b = (p\<lparr>Errors := b\<rparr>, True)"
| "SetPreference p PreferenceLifecycle b = (p\<lparr>Lifecycle := b\<rparr>, True)"
| "SetPreference p (PreferenceUnknown s) b = (p, False)"

subsection \<open>Events\<close>

text \<open>The data map is an association list with distinct keys.\<close>

record event =
  ev_ID :: string
  ev_Class :: notification_class
  ev_Title :: string
  ev_Body :: string
  ev_Target :: string
  ev_CategoryID :: string
  ev_Data :: "(string \<times> string) list"
  ev_AllowWhenWorkspaceFocused :: bool

definition validClass :: "notification_class \<Rightarrow> bool" where
  "validClass c = (classPreferenceRules c \<noteq> None)"

definition validData :: "(string \<times> string) list \<Rightarrow> bool" where
  "validData d = (if length d > 8 then False else list_all (\<lambda>(k, v). rune_count v \<le> 256) d)"

definition cleanText :: "string \<Rightarrow> nat \<Rightarrow> string" where
  "cleanText v maxRunes =
    (let w = join (Go_Strings.fields v) '' '' in
     if rune_count w \<le> maxRunes then w else truncate_runes maxRunes w)"

text \<open>The failed case is \<open>ErrInvalidEvent\<close>.\<close>

definition normalizeEvent :: "event \<Rightarrow> event option" where
  "normalizeEvent ev0 =
    (let ev = ev0\<lparr>ev_ID := trim_space (ev_ID ev0), ev_Title := cleanText (ev_Title ev0) 120,
                  ev_Body := cleanText (ev_Body ev0) 400, ev_Target := cleanText (ev_Target ev0) 80\<rparr> in
     if ev_ID ev = [] \<or> rune_count (ev_ID ev) > 160 \<or> ev_Class ev = ClassUnknown [] \<or> ev_Title ev = []
        \<or> \<not> validClass (ev_Class ev) \<or> \<not> validData (ev_Data ev)
     then None else Some ev)"

subsection \<open>The router\<close>

definition maxRememberedEvents :: nat where
  "maxRememberedEvents = 1024"

record router =
  prefs :: preferences
  has_delivery :: bool
  has_isActive :: bool
  has_onFailure :: bool
  seen :: "string set"
  seenOrder :: "string list"
  seenNext :: nat
  seenCount :: nat

definition NewRouter :: "bool \<Rightarrow> bool \<Rightarrow> router" where
  "NewRouter delivery isActive = \<lparr>prefs = DefaultPreferences, has_delivery = delivery,
     has_isActive = isActive, has_onFailure = False, seen = {},
     seenOrder = replicate maxRememberedEvents [], seenNext = 0, seenCount = 0\<rparr>"

definition SetPreferences :: "preferences \<Rightarrow> router option \<Rightarrow> router option" where
  "SetPreferences p = map_option (\<lambda>r. r\<lparr>prefs := p\<rparr>)"

definition Preferences :: "router option \<Rightarrow> preferences" where
  "Preferences r = (case r of None \<Rightarrow> DefaultPreferences | Some r \<Rightarrow> prefs r)"

definition SetDeliveryFailureHandler :: "bool \<Rightarrow> router option \<Rightarrow> router option" where
  "SetDeliveryFailureHandler handler = map_option (\<lambda>r. r\<lparr>has_onFailure := handler\<rparr>)"

definition rememberEventLocked :: "string \<Rightarrow> router \<Rightarrow> router \<times> bool" where
  "rememberEventLocked i r =
    (if i \<in> seen r then (r, False)
     else if seenCount r < maxRememberedEvents then
       (let slot = (seenNext r + seenCount r) mod maxRememberedEvents in
        (r\<lparr>seenCount := seenCount r + 1, seenOrder := (seenOrder r)[slot := i],
           seen := insert i (seen r)\<rparr>, True))
     else
       (let slot = seenNext r in
        (r\<lparr>seenNext := (seenNext r + 1) mod maxRememberedEvents, seenOrder := (seenOrder r)[slot := i],
           seen := insert i (seen r - {seenOrder r ! slot})\<rparr>, True)))"

datatype 'e publish_error = ErrInvalidEvent | ErrNoDelivery | CtxErr 'e | SendErr 'e

datatype effect = Sent event | FailureReported event

text \<open>A nil context has no error; otherwise \<open>ctx.Err()\<close> is part of the argument.\<close>

definition ctxErr :: "'e option option \<Rightarrow> 'e option" where
  "ctxErr ctx = (case ctx of None \<Rightarrow> None | Some e \<Rightarrow> e)"

definition suppressed_when_focused :: "event \<Rightarrow> bool" where
  "suppressed_when_focused ev \<longleftrightarrow> \<not> ev_AllowWhenWorkspaceFocused ev
     \<or> ev_Class ev \<noteq> ClassActionRequired \<and> ev_Class ev \<noteq> ClassDSHInteraction \<and> ev_Class ev \<noteq> ClassError"

text \<open>What follows the critical section of \<open>Publish\<close>, on a new event.\<close>

definition deliver ::
    "bool \<Rightarrow> (event \<Rightarrow> 'e option) \<Rightarrow> event \<Rightarrow> router \<Rightarrow> 'e publish_error option \<times> effect list" where
  "deliver active send ev r =
    (if \<not> Allows (prefs r) (ev_Class ev) then (None, [])
     else if has_isActive r \<and> active \<and> suppressed_when_focused ev then (None, [])
     else if \<not> has_delivery r then
       (Some ErrNoDelivery, if has_onFailure r then [FailureReported ev] else [])
     else case send ev of
       None \<Rightarrow> (None, [Sent ev])
     | Some e \<Rightarrow> (Some (SendErr e), Sent ev # (if has_onFailure r then [FailureReported ev] else [])))"

definition Publish ::
    "'e option option \<Rightarrow> bool \<Rightarrow> (event \<Rightarrow> 'e option) \<Rightarrow> event \<Rightarrow> router option \<Rightarrow>
     router option \<times> 'e publish_error option \<times> effect list" where
  "Publish ctx active send ev0 ro =
    (case ro of
       None \<Rightarrow> (None, Some ErrNoDelivery, [])
     | Some r \<Rightarrow>
         (case ctxErr ctx of
            Some e \<Rightarrow> (Some r, Some (CtxErr e), [])
          | None \<Rightarrow>
              (case normalizeEvent ev0 of
                 None \<Rightarrow> (Some r, Some ErrInvalidEvent, [])
               | Some ev \<Rightarrow>
                   (case rememberEventLocked (ev_ID ev) r of
                      (r', new) \<Rightarrow>
                        if \<not> new then (Some r', None, [])
                        else (Some r', deliver active send ev r')))))"

subsection \<open>The ring buffer is a bounded window\<close>

text \<open>The remembered identifiers, oldest first.\<close>

definition remembered :: "router \<Rightarrow> string list" where
  "remembered r = map (\<lambda>i. seenOrder r ! ((seenNext r + i) mod maxRememberedEvents)) [0..<seenCount r]"

definition ring_inv :: "router \<Rightarrow> bool" where
  "ring_inv r \<longleftrightarrow> length (seenOrder r) = maxRememberedEvents \<and> seenNext r < maxRememberedEvents
     \<and> seenCount r \<le> maxRememberedEvents \<and> distinct (remembered r) \<and> set (remembered r) = seen r"

lemma max_pos [simp]: "0 < maxRememberedEvents"
  by (simp add: maxRememberedEvents_def)

lemma max_diff [simp]: "Suc 0 - maxRememberedEvents = 0"
  by (simp add: maxRememberedEvents_def)

lemma length_remembered [simp]: "length (remembered r) = seenCount r"
  by (simp add: remembered_def)

lemma nth_remembered:
  "i < seenCount r \<Longrightarrow> remembered r ! i = seenOrder r ! ((seenNext r + i) mod maxRememberedEvents)"
  by (simp add: remembered_def)

lemma ring_slot_inject:
  assumes "a < n" "i < n" "j < n" "(a + i) mod n = (a + j) mod (n::nat)"
  shows "i = j"
proof -
  have "(a + k) mod n = (if a + k < n then a + k else a + k - n)" if "k < n" for k
    using assms(1) that by (simp add: le_mod_geq)
  with assms show ?thesis by (auto split: if_splits)
qed

lemma remember_full_window:
  assumes inv: "ring_inv r" and new: "i \<notin> seen r" and full: "seenCount r = maxRememberedEvents"
  shows "remembered (fst (rememberEventLocked i r)) = tl (remembered r) @ [i]"
proof (rule nth_equalityI)
  let ?n = maxRememberedEvents and ?r = "fst (rememberEventLocked i r)"
  have r: "?r = r\<lparr>seenNext := (seenNext r + 1) mod ?n, seenOrder := (seenOrder r)[seenNext r := i],
           seen := insert i (seen r - {seenOrder r ! seenNext r})\<rparr>"
    using new full by (simp add: rememberEventLocked_def Let_def)
  show "length (remembered ?r) = length (tl (remembered r) @ [i])" using r full by simp
  fix k assume "k < length (remembered ?r)"
  then have k: "k < ?n" using r full by simp
  have n: "length (seenOrder r) = ?n" "seenNext r < ?n" using inv by (auto simp: ring_inv_def)
  have nth: "remembered ?r ! k = (seenOrder r)[seenNext r := i] ! ((seenNext r + Suc k) mod ?n)"
    using k full by (simp add: r nth_remembered mod_simps)
  show "remembered ?r ! k = (tl (remembered r) @ [i]) ! k"
  proof (cases "Suc k < ?n")
    case True
    then have "(seenNext r + Suc k) mod ?n \<noteq> (seenNext r + 0) mod ?n"
      using ring_slot_inject [of "seenNext r" ?n "Suc k" 0] n by auto
    moreover have "k < ?n - 1" using True by simp
    ultimately show ?thesis
      using n full unfolding nth by (simp add: nth_append nth_tl nth_remembered)
  next
    case False
    then have "Suc k = ?n" "\<not> k < ?n - 1" using k by auto
    with n full show ?thesis
      unfolding nth by (simp add: nth_append nth_tl)
  qed
qed

lemma remember_room_window:
  assumes inv: "ring_inv r" and new: "i \<notin> seen r" and room: "seenCount r < maxRememberedEvents"
  shows "remembered (fst (rememberEventLocked i r)) = remembered r @ [i]"
proof (rule nth_equalityI)
  let ?n = maxRememberedEvents and ?r = "fst (rememberEventLocked i r)"
  let ?slot = "(seenNext r + seenCount r) mod ?n"
  have r: "?r = r\<lparr>seenCount := seenCount r + 1, seenOrder := (seenOrder r)[?slot := i],
           seen := insert i (seen r)\<rparr>"
    using new room by (simp add: rememberEventLocked_def Let_def)
  show "length (remembered ?r) = length (remembered r @ [i])" using r by simp
  fix k assume "k < length (remembered ?r)"
  then have k: "k < Suc (seenCount r)" using r by simp
  have n: "length (seenOrder r) = ?n" "seenNext r < ?n" using inv by (auto simp: ring_inv_def)
  have nth: "remembered ?r ! k = (seenOrder r)[?slot := i] ! ((seenNext r + k) mod ?n)"
    using k by (simp add: r nth_remembered)
  show "remembered ?r ! k = (remembered r @ [i]) ! k"
  proof (cases "k < seenCount r")
    case True
    then have "(seenNext r + k) mod ?n \<noteq> ?slot"
      using ring_slot_inject [of "seenNext r" ?n k "seenCount r"] n room by auto
    with True n show ?thesis unfolding nth by (simp add: nth_append nth_remembered)
  next
    case False
    then have "k = seenCount r" using k by simp
    with n show ?thesis unfolding nth by (simp add: nth_append)
  qed
qed

lemma remember_window:
  assumes "ring_inv r"
  shows "remembered (fst (rememberEventLocked i r)) = fst (fifo_push maxRememberedEvents i (remembered r))"
    and "snd (rememberEventLocked i r) = snd (fifo_push maxRememberedEvents i (remembered r))"
proof -
  have s: "set (remembered r) = seen r" "seenCount r \<le> maxRememberedEvents"
    using assms by (auto simp: ring_inv_def)
  show "snd (rememberEventLocked i r) = snd (fifo_push maxRememberedEvents i (remembered r))"
    using s by (simp add: rememberEventLocked_def fifo_push_def Let_def)
  consider (old) "i \<in> seen r" | (room) "i \<notin> seen r" "seenCount r < maxRememberedEvents"
    | (full) "i \<notin> seen r" "seenCount r = maxRememberedEvents" using s(2) by linarith
  then show "remembered (fst (rememberEventLocked i r)) = fst (fifo_push maxRememberedEvents i (remembered r))"
  proof cases
    case old
    then show ?thesis using s by (simp add: rememberEventLocked_def fifo_push_def)
  next
    case room
    then show ?thesis using s remember_room_window [OF assms] by (simp add: fifo_push_def)
  next
    case full
    then have "remembered r \<noteq> []" by (metis length_remembered less_irrefl list.size(3) max_pos)
    then show ?thesis
      using s full remember_full_window [OF assms full] by (simp add: fifo_push_def drop_Suc Suc_diff_le)
  qed
qed

lemma set_tl_distinct: "distinct xs \<Longrightarrow> xs \<noteq> [] \<Longrightarrow> set (tl xs) = set xs - {xs ! 0}"
  by (cases xs) auto

lemma remember_inv [keeps_inv]:
  assumes inv: "ring_inv r"
  shows "ring_inv (fst (rememberEventLocked i r))"
proof -
  let ?r = "fst (rememberEventLocked i r)"
  have i: "length (seenOrder r) = maxRememberedEvents" "seenNext r < maxRememberedEvents"
    "seenCount r \<le> maxRememberedEvents" "distinct (remembered r)" "set (remembered r) = seen r"
    using inv by (auto simp: ring_inv_def)
  have bounds: "length (seenOrder ?r) = maxRememberedEvents" "seenNext ?r < maxRememberedEvents"
    "seenCount ?r \<le> maxRememberedEvents"
    using i by (auto simp: rememberEventLocked_def Let_def)
  consider (old) "i \<in> seen r" | (room) "i \<notin> seen r" "seenCount r < maxRememberedEvents"
    | (full) "i \<notin> seen r" "seenCount r = maxRememberedEvents" using i(3) by linarith
  then have "distinct (remembered ?r) \<and> set (remembered ?r) = seen ?r"
  proof cases
    case old
    then show ?thesis using i by (simp add: rememberEventLocked_def)
  next
    case room
    then show ?thesis
      using i by (simp add: remember_room_window [OF inv]) (simp add: rememberEventLocked_def Let_def)
  next
    case full
    then have ne: "remembered r \<noteq> []" by (metis length_remembered less_irrefl list.size(3) max_pos)
    have "remembered r ! 0 = seenOrder r ! seenNext r" using full i by (simp add: nth_remembered)
    moreover have "seen ?r = insert i (seen r - {seenOrder r ! seenNext r})"
      using full by (simp add: rememberEventLocked_def Let_def)
    ultimately show ?thesis
      using i full set_tl_distinct [OF i(4) ne]
      by (simp add: remember_full_window [OF inv full] distinct_tl)
  qed
  with bounds show ?thesis by (simp add: ring_inv_def)
qed

lemma remembered_NewRouter [simp]: "remembered (NewRouter d a) = []"
  by (simp add: NewRouter_def remembered_def)

lemma NewRouter_inv: "ring_inv (NewRouter d a)"
  by (simp add: ring_inv_def NewRouter_def remembered_def)

interpretation ring: fifo_window maxRememberedEvents remembered rememberEventLocked ring_inv
  by unfold_locales (simp_all add: remember_window remember_inv, simp_all add: ring_inv_def)

subsection \<open>Runs of the router\<close>

datatype 'e router_op =
    DoSetPreferences preferences
  | DoSetHandler bool
  | DoPublish "'e option option" bool "event \<Rightarrow> 'e option" event

fun router_step :: "'e router_op \<Rightarrow> router option \<Rightarrow> router option" where
  "router_step (DoSetPreferences p) r = SetPreferences p r"
| "router_step (DoSetHandler b) r = SetDeliveryFailureHandler b r"
| "router_step (DoPublish ctx active send ev) r = fst (Publish ctx active send ev r)"

text \<open>The identifiers an operation offers to the memory.\<close>

fun offered :: "'e router_op \<Rightarrow> string list" where
  "offered (DoPublish ctx active send ev) =
    (case (ctxErr ctx, normalizeEvent ev) of (None, Some e) \<Rightarrow> [ev_ID e] | _ \<Rightarrow> [])"
| "offered op = []"

abbreviation fifo_run :: "string list \<Rightarrow> string list \<Rightarrow> string list" where
  "fifo_run \<equiv> fold (\<lambda>x w. fst (fifo_push maxRememberedEvents x w))"

abbreviation start :: "bool \<Rightarrow> bool \<Rightarrow> router option" where
  "start d a \<equiv> Some (NewRouter d a)"

lemma remembered_cong [simp]:
  "remembered (r\<lparr>prefs := p\<rparr>) = remembered r" "remembered (r\<lparr>has_onFailure := b\<rparr>) = remembered r"
  by (simp_all add: remembered_def)

lemma router_step_window:
  assumes "ring_inv r"
  shows "\<exists>r'. router_step op (Some r) = Some r' \<and> ring_inv r' \<and> remembered r' = fifo_run (offered op) (remembered r)"
proof (cases op)
  case (DoPublish ctx active send ev)
  then show ?thesis
    using assms remember_inv [OF assms] remember_window(1) [OF assms]
    by (simp add: Publish_def case_prod_unfold split: option.split)
qed (use assms in \<open>auto simp: SetPreferences_def SetDeliveryFailureHandler_def ring_inv_def\<close>)

lemma router_run_window:
  assumes "ring_inv r"
  shows "\<exists>r'. fold router_step ops (Some r) = Some r' \<and> ring_inv r'
    \<and> remembered r' = fifo_run (concat (map offered ops)) (remembered r)"
  using assms
proof (induction ops arbitrary: r)
  case (Cons op ops)
  then obtain r1 where "router_step op (Some r) = Some r1" "ring_inv r1"
      "remembered r1 = fifo_run (offered op) (remembered r)"
    using router_step_window by blast
  with Cons.IH [of r1] show ?case by simp
qed simp

text \<open>The ring buffer implements a first-in first-out window: after any sequence of
  publications and setting changes, the router remembers exactly the last 1024 distinct
  identifiers that reached it, oldest first, and its lookup set is that window.\<close>

theorem memory_is_window:
  "\<exists>r. fold router_step ops (start d a) = Some r
     \<and> remembered r = fifo_run (concat (map offered ops)) []
     \<and> seen r = set (remembered r) \<and> seenCount r \<le> 1024"
proof -
  obtain r where "fold router_step ops (start d a) = Some r" "ring_inv r"
      "remembered r = fifo_run (concat (map offered ops)) []"
    using router_run_window [OF NewRouter_inv, of ops d a] by auto
  then show ?thesis
    unfolding ring_inv_def by (intro exI [of _ r]) (simp add: maxRememberedEvents_def [symmetric])
qed

lemma Publish_effects:
  "snd (snd (Publish ctx active send ev (Some r))) \<noteq> [] \<Longrightarrow>
     \<exists>e. ctxErr ctx = None \<and> normalizeEvent ev = Some e \<and> snd (rememberEventLocked (ev_ID e) r)
       \<and> fst (Publish ctx active send ev (Some r)) = Some (fst (rememberEventLocked (ev_ID e) r))"
  by (auto simp: Publish_def case_prod_unfold split: option.splits if_splits)

lemma normalize_ID: "normalizeEvent ev = Some e \<Longrightarrow> ev_ID e = trim_space (ev_ID ev)"
  by (auto simp: normalizeEvent_def Let_def split: if_splits)

text \<open>(C27) No duplicate delivery: after a publication that had an effect, publishing an event
  with the same identifier has none, whatever else was published or reconfigured in
  between, as long as fewer than 1024 different identifiers were.\<close>

theorem no_duplicate_delivery:
  assumes r: "r = fold router_step ops (start d a)"
    and first: "snd (snd (Publish ctx active send ev r)) \<noteq> []"
    and between: "card (set (concat (map offered ops'))) < 1024"
    and r': "r' = fold router_step ops' (fst (Publish ctx active send ev r))"
    and same: "trim_space (ev_ID ev') = trim_space (ev_ID ev)"
  shows "snd (snd (Publish ctx' active' send' ev' r')) = []"
proof (rule ccontr)
  assume again: "snd (snd (Publish ctx' active' send' ev' r')) \<noteq> []"
  obtain s where s: "r = Some s" "ring_inv s"
    using router_run_window [OF NewRouter_inv, of ops d a] r by auto
  obtain e where e: "normalizeEvent ev = Some e" "snd (rememberEventLocked (ev_ID e) s)"
      "fst (Publish ctx active send ev r) = Some (fst (rememberEventLocked (ev_ID e) s))"
    using Publish_effects first s(1) by blast
  obtain s' where s': "r' = Some s'" "ring_inv s'"
      "remembered s' = fifo_run (concat (map offered ops')) (remembered (fst (rememberEventLocked (ev_ID e) s)))"
    using router_run_window [OF remember_inv [OF s(2)], of ops' "ev_ID e"] r' e(3) by auto
  have "\<not> snd (rememberEventLocked (ev_ID e) s')"
    using between by (intro ring.push_recent [OF s(2) e(2) _ s'(2,3)]) (simp add: maxRememberedEvents_def)
  moreover obtain e' where "normalizeEvent ev' = Some e'" "snd (rememberEventLocked (ev_ID e') s')"
    using Publish_effects again s'(1) by blast
  ultimately show False using normalize_ID [OF e(1)] normalize_ID same by metis
qed

lemma rune_count_cleanText: "rune_count (cleanText s n) \<le> n"
  by (simp add: cleanText_def Let_def rune_count_truncate)

lemma normalize_bounded:
  assumes "normalizeEvent ev = Some e"
  shows "ev_ID e \<noteq> [] \<and> rune_count (ev_ID e) \<le> 160 \<and> ev_Title e \<noteq> [] \<and> rune_count (ev_Title e) \<le> 120
    \<and> rune_count (ev_Body e) \<le> 400 \<and> rune_count (ev_Target e) \<le> 80 \<and> length (ev_Data e) \<le> 8
    \<and> (\<forall>(k, v) \<in> set (ev_Data e). rune_count v \<le> 256)"
  using assms
  by (auto simp: normalizeEvent_def validData_def list_all_iff rune_count_cleanText Let_def split: if_splits)

text \<open>The platform only ever sees bounded, wanted events: an event handed to the adapter
  has a non-empty identifier and title, texts and data within the limits in characters,
  a class the preferences allow, and is not one the focused workspace suppresses.\<close>

theorem sent_events_bounded:
  assumes "Sent e \<in> set (snd (snd (Publish ctx active send ev (Some r))))"
  shows "ev_ID e \<noteq> [] \<and> rune_count (ev_ID e) \<le> 160 \<and> ev_Title e \<noteq> [] \<and> rune_count (ev_Title e) \<le> 120
    \<and> rune_count (ev_Body e) \<le> 400 \<and> rune_count (ev_Target e) \<le> 80 \<and> length (ev_Data e) \<le> 8
    \<and> (\<forall>(k, v) \<in> set (ev_Data e). rune_count v \<le> 256)
    \<and> Allows (prefs r) (ev_Class e) \<and> \<not> (has_isActive r \<and> active \<and> suppressed_when_focused e)"
proof -
  have "normalizeEvent ev = Some e" "ev_ID e \<notin> seen r"
    "Sent e \<in> set (snd (deliver active send e (fst (rememberEventLocked (ev_ID e) r))))"
    using assms
    by (auto simp: Publish_def deliver_def rememberEventLocked_def Let_def split: option.splits if_splits)
  moreover have "prefs (fst (rememberEventLocked (ev_ID e) r)) = prefs r"
    "has_isActive (fst (rememberEventLocked (ev_ID e) r)) = has_isActive r"
    by (simp_all add: rememberEventLocked_def Let_def)
  ultimately show ?thesis
    using normalize_bounded [of ev e] by (auto simp: deliver_def split: if_splits option.splits)
qed

subsection \<open>Witnesses\<close>

definition build_failed :: event where
  "build_failed = \<lparr>ev_ID = ''task-1'', ev_Class = ClassError, ev_Title = ''Build'', ev_Body = [],
     ev_Target = [], ev_CategoryID = [], ev_Data = [], ev_AllowWhenWorkspaceFocused = True\<rparr>"

abbreviation send_ok :: "event \<Rightarrow> string option" where
  "send_ok \<equiv> \<lambda>ev. None"

lemma normalize_build_failed: "normalizeEvent build_failed = Some build_failed"
proof -
  have "trim_space ''task-1'' = ''task-1''" by (rule trim_space_graphic) simp
  moreover have "cleanText ''Build'' 120 = ''Build''" "cleanText [] n = []" "\<not> rune_count ''task-1'' > 160" for n
    by (simp_all add: cleanText_def fields_graphic rune_count_ascii)
  ultimately show ?thesis by (simp add: normalizeEvent_def build_failed_def validClass_def validData_def Let_def)
qed

lemma publish_build_failed:
  "Publish None True send_ok build_failed (start True True)
     = (Some (fst (rememberEventLocked ''task-1'' (NewRouter True True))), None, [Sent build_failed])"
proof -
  have "ev_ID build_failed = ''task-1''" by (simp add: build_failed_def)
  moreover have "snd (rememberEventLocked ''task-1'' (NewRouter True True))"
    by (simp add: rememberEventLocked_def NewRouter_def Let_def)
  moreover have "deliver True send_ok build_failed (fst (rememberEventLocked ''task-1'' (NewRouter True True)))
      = (None, [Sent build_failed])"
    by (simp add: deliver_def rememberEventLocked_def NewRouter_def Let_def Allows_def build_failed_def
        DefaultPreferences_def suppressed_when_focused_def)
  ultimately show ?thesis
    by (simp add: Publish_def ctxErr_def normalize_build_failed case_prod_unfold)
qed

theorem no_duplicate_delivery_witness:
  "snd (snd (Publish None True send_ok build_failed (start True True))) = [Sent build_failed]
   \<and> snd (snd (Publish None True send_ok build_failed
        (fold router_step [DoSetHandler True :: string router_op]
          (fst (Publish None True send_ok build_failed (start True True)))))) = []"
  using no_duplicate_delivery [where ops = "[]" and ops' = "[DoSetHandler True :: string router_op]"
      and d = True and a = True and ctx = None and active = True and send = send_ok and ev = build_failed
      and ctx' = None and active' = True and send' = send_ok and ev' = build_failed,
      OF refl _ _ refl refl] publish_build_failed
  by simp

theorem sent_events_bounded_witness:
  "Sent build_failed \<in> set (snd (snd (Publish None True send_ok build_failed (start True True))))
   \<and> rune_count (ev_Title build_failed) \<le> 120 \<and> Allows (prefs (NewRouter True True)) (ev_Class build_failed)"
proof -
  have s: "Sent build_failed \<in> set (snd (snd (Publish None True send_ok build_failed (start True True))))"
    by (simp add: publish_build_failed)
  show ?thesis using sent_events_bounded [OF s] s by blast
qed

end
