(* ===== verification/Hostevents.thy ===== *)
theory Hostevents
  imports Prelude "HOL-Library.AList" "HOL-Library.Word"
begin

text \<open>
  \<open>internal/hostevents/hub.go\<close>: state topics with their newest JSON value, one-shot
  commands that wait for a subscriber, and bounded queues of live subscribers.  Every
  method holds the hub's lock for its whole body, so it is a function on the hub; a nil
  hub is \<open>None\<close>.  The result of \<open>json.Marshal\<close> on the caller's value is an argument
  (\<open>None\<close> when the value cannot be encoded), and so is the clock, in nanoseconds.  The
  messages are values here, which is what the code's \<open>cloneMessage\<close> copies are for.

  A subscriber carries two histories besides its channel: the initial messages
  \<open>Subscribe\<close> returned to it and the messages it has received.  The lemmas show, through
  the locale \<open>change_log\<close>, that these and the channel rebuild the hub's topics.
\<close>

subsection \<open>Messages\<close>

record message =
  m_Type :: string
  m_Topic :: string
  m_Value :: string
  m_Name :: string
  m_Window :: string
  m_ExpiresAt :: int
  m_Data :: string

definition state_message :: "string \<Rightarrow> string \<Rightarrow> message" where
  "state_message topic raw = \<lparr>m_Type = ''state'', m_Topic = topic, m_Value = raw, m_Name = [],
     m_Window = [], m_ExpiresAt = 0, m_Data = []\<rparr>"

definition command_message :: "string \<Rightarrow> string \<Rightarrow> int \<Rightarrow> string \<Rightarrow> message" where
  "command_message window name expiresAt raw = \<lparr>m_Type = ''command'', m_Topic = [], m_Value = [],
     m_Name = name, m_Window = window, m_ExpiresAt = expiresAt, m_Data = raw\<rparr>"

text \<open>
  \<open>Message.MarshalJSON\<close> up to the encoder of the library: the object's members in order.
  A member marked \<open>omitempty\<close> is left out when it is empty; the window and the expiry
  are pointers, present for commands.
\<close>

datatype member = JText string | JRaw string | JInt int

definition unless_empty :: "string \<Rightarrow> (string \<Rightarrow> member) \<Rightarrow> string \<Rightarrow> (string \<times> member) list" where
  "unless_empty key mk v = (if v = [] then [] else [(key, mk v)])"

definition MarshalJSON :: "message \<Rightarrow> (string \<times> member) list" where
  "MarshalJSON m =
    [(''type'', JText (m_Type m))] @ unless_empty ''topic'' JText (m_Topic m)
    @ unless_empty ''value'' JRaw (m_Value m) @ unless_empty ''name'' JText (m_Name m)
    @ (if m_Type m = ''command'' then
         (''window'', JText (m_Window m))
         # (if m_ExpiresAt m \<noteq> 0 then [(''expiresAt'', JInt (m_ExpiresAt m))] else [])
       else [])
    @ unless_empty ''data'' JRaw (m_Data m)"

subsection \<open>The hub\<close>

definition subscriberBuffer :: nat where
  "subscriberBuffer = 256"

definition commandBuffer :: nat where
  "commandBuffer = 64"

record subscriber =
  messages :: "message list"
  taken :: "message list"
  started :: "message list"

text \<open>The map of subscribers has distinct keys; \<open>closed\<close> lists the closed \<open>Done\<close> channels.\<close>

record hub =
  topics :: "string \<rightharpoonup> string"
  topicOrder :: "string list"
  commands :: "message list"
  subscribers :: "(64 word \<times> subscriber) list"
  nextID :: "64 word"
  closed :: "64 word list"

definition NewHub :: hub where
  "NewHub = \<lparr>topics = Map.empty, topicOrder = [], commands = [], subscribers = [], nextID = 0, closed = []\<rparr>"

definition has_room :: "64 word \<times> subscriber \<Rightarrow> bool" where
  "has_room p \<longleftrightarrow> length (messages (snd p)) < subscriberBuffer"

definition enqueue :: "message \<Rightarrow> 64 word \<times> subscriber \<Rightarrow> 64 word \<times> subscriber" where
  "enqueue m p = (fst p, (snd p)\<lparr>messages := messages (snd p) @ [m]\<rparr>)"

text \<open>A send to a full channel takes the default branch: the subscriber is removed.\<close>

definition broadcastLocked :: "message \<Rightarrow> hub \<Rightarrow> hub" where
  "broadcastLocked m h =
    h\<lparr>subscribers := map (enqueue m) (filter has_room (subscribers h)),
      closed := closed h @ map fst (filter (\<lambda>p. \<not> has_room p) (subscribers h))\<rparr>"

definition set_topic :: "string \<Rightarrow> string option \<Rightarrow> hub \<Rightarrow> hub" where
  "set_topic topic raw h =
    (if topic = [] then h
     else case raw of None \<Rightarrow> h
     | Some r \<Rightarrow>
         if topics h topic = Some r then h
         else broadcastLocked (state_message topic r)
           (h\<lparr>topicOrder := (if topics h topic = None then topicOrder h @ [topic] else topicOrder h),
              topics := (topics h)(topic \<mapsto> r)\<rparr>))"

definition SetTopic :: "string \<Rightarrow> string option \<Rightarrow> hub option \<Rightarrow> hub option" where
  "SetTopic topic raw = map_option (set_topic topic raw)"

definition unix_milli :: "int \<Rightarrow> int" where
  "unix_milli ns = ns div 1000000"

definition send_command ::
    "int \<Rightarrow> string \<Rightarrow> string \<Rightarrow> int \<Rightarrow> string option \<Rightarrow> hub \<Rightarrow> hub" where
  "send_command now window name ttl raw h =
    (if name = [] then h
     else case raw of None \<Rightarrow> h
     | Some r \<Rightarrow>
         let m = command_message window name (unix_milli (now + ttl)) r in
         if subscribers h = [] then
           h\<lparr>commands := (if length (commands h) = commandBuffer then tl (commands h) else commands h) @ [m]\<rparr>
         else broadcastLocked m h)"

definition SendCommand ::
    "int \<Rightarrow> string \<Rightarrow> string \<Rightarrow> int \<Rightarrow> string option \<Rightarrow> hub option \<Rightarrow> hub option" where
  "SendCommand now window name ttl raw = map_option (send_command now window name ttl raw)"

definition send_transient :: "string \<Rightarrow> string \<Rightarrow> string option \<Rightarrow> hub \<Rightarrow> hub" where
  "send_transient window name raw h =
    (if name = [] then h
     else case raw of None \<Rightarrow> h
     | Some r \<Rightarrow>
         if subscribers h = [] then h
         else broadcastLocked (command_message window name 0 r) h)"

definition SendTransient :: "string \<Rightarrow> string \<Rightarrow> string option \<Rightarrow> hub option \<Rightarrow> hub option" where
  "SendTransient window name raw = map_option (send_transient window name raw)"

definition snapshot :: "hub \<Rightarrow> message list" where
  "snapshot h = map (\<lambda>t. state_message t (the (topics h t))) (topicOrder h)"

definition unexpired :: "int \<Rightarrow> hub \<Rightarrow> message list" where
  "unexpired now h = filter (\<lambda>m. m_ExpiresAt m > unix_milli now) (commands h)"

definition subscribe :: "int \<Rightarrow> hub \<Rightarrow> hub \<times> 64 word \<times> message list" where
  "subscribe now h =
    (let i = nextID h + 1;
         initial = snapshot h @ unexpired now h
     in (h\<lparr>nextID := i,
           subscribers := AList.update i \<lparr>messages = [], taken = [], started = initial\<rparr> (subscribers h),
           commands := []\<rparr>, i, initial))"

text \<open>A nil hub hands out a subscription whose \<open>Done\<close> is closed and no initial messages.\<close>

definition Subscribe :: "int \<Rightarrow> hub option \<Rightarrow> hub option \<times> 64 word option \<times> message list" where
  "Subscribe now ho =
    (case ho of
       None \<Rightarrow> (None, None, [])
     | Some h \<Rightarrow> (case subscribe now h of (h', i, initial) \<Rightarrow> (Some h', Some i, initial)))"

definition unsubscribe :: "64 word \<Rightarrow> hub \<Rightarrow> hub" where
  "unsubscribe i h =
    (case map_of (subscribers h) i of
       None \<Rightarrow> h
     | Some s \<Rightarrow> h\<lparr>subscribers := AList.delete i (subscribers h), closed := closed h @ [i]\<rparr>)"

definition Close :: "64 word option \<Rightarrow> hub \<Rightarrow> hub" where
  "Close sub h = (case sub of None \<Rightarrow> h | Some i \<Rightarrow> unsubscribe i h)"

text \<open>The stream writer takes the next message of its channel.\<close>

definition receive :: "64 word \<Rightarrow> hub \<Rightarrow> hub" where
  "receive i h = h\<lparr>subscribers := map (\<lambda>(j, s).
     (j, if j = i \<and> messages s \<noteq> []
         then s\<lparr>messages := tl (messages s), taken := taken s @ [hd (messages s)]\<rparr> else s)) (subscribers h)\<rparr>"

subsection \<open>Runs\<close>

datatype hub_op =
    OSetTopic string "string option"
  | OSendCommand int string string int "string option"
  | OSendTransient string string "string option"
  | OSubscribe int
  | OClose "64 word option"
  | OReceive "64 word"

fun hub_step :: "hub_op \<Rightarrow> hub \<Rightarrow> hub" where
  "hub_step (OSetTopic t raw) h = set_topic t raw h"
| "hub_step (OSendCommand now w n ttl raw) h = send_command now w n ttl raw h"
| "hub_step (OSendTransient w n raw) h = send_transient w n raw h"
| "hub_step (OSubscribe now) h = fst (subscribe now h)"
| "hub_step (OClose sub) h = Close sub h"
| "hub_step (OReceive i) h = receive i h"

text \<open>The message an operation broadcasts to the live subscribers.\<close>

fun broadcasts :: "hub_op \<Rightarrow> hub \<Rightarrow> message list" where
  "broadcasts (OSetTopic t raw) h =
    (case raw of None \<Rightarrow> [] | Some r \<Rightarrow>
       if t = [] \<or> topics h t = Some r then [] else [state_message t r])"
| "broadcasts (OSendCommand now w n ttl raw) h =
    (case raw of None \<Rightarrow> [] | Some r \<Rightarrow>
       if n = [] \<or> subscribers h = [] then [] else [command_message w n (unix_milli (now + ttl)) r])"
| "broadcasts (OSendTransient w n raw) h =
    (case raw of None \<Rightarrow> [] | Some r \<Rightarrow>
       if n = [] \<or> subscribers h = [] then [] else [command_message w n 0 r])"
| "broadcasts x h = []"

text \<open>What a client does with a message: it keeps the newest value of each topic.\<close>

definition replay_message :: "message \<Rightarrow> (string \<rightharpoonup> string) \<Rightarrow> (string \<rightharpoonup> string)" where
  "replay_message m v = (if m_Type m = ''state'' then v(m_Topic m \<mapsto> m_Value m) else v)"

lemma replay_state [simp]: "replay_message (state_message t r) v = v(t \<mapsto> r)"
  by (simp add: replay_message_def state_message_def)

lemma replay_command [simp]: "replay_message (command_message w n e r) v = v"
  by (simp add: replay_message_def command_message_def)

lemma broadcast_simps [simp]:
  "topics (broadcastLocked m h) = topics h" "topicOrder (broadcastLocked m h) = topicOrder h"
  "commands (broadcastLocked m h) = commands h" "nextID (broadcastLocked m h) = nextID h"
  by (simp_all add: broadcastLocked_def)

interpretation hub_log: change_log topics hub_step broadcasts replay_message "\<lambda>h. True"
proof
  fix h x
  show "topics (hub_step x h) = fold replay_message (broadcasts x h) (topics h)"
    by (cases x) (auto simp: set_topic_def send_command_def send_transient_def subscribe_def Close_def
        unsubscribe_def receive_def Let_def split: option.split)
qed

subsection \<open>The streams of the subscribers\<close>

definition stream :: "subscriber \<Rightarrow> message list" where
  "stream s = started s @ taken s @ messages s"

lemma broadcast_subscriber:
  "(i, s) \<in> set (subscribers (broadcastLocked m h)) \<longleftrightarrow>
     (\<exists>s0. (i, s0) \<in> set (subscribers h) \<and> length (messages s0) < subscriberBuffer
        \<and> s = s0\<lparr>messages := messages s0 @ [m]\<rparr>)"
  by (force simp: broadcastLocked_def has_room_def enqueue_def)

lemma stream_enqueue [simp]: "stream (s\<lparr>messages := messages s @ [m]\<rparr>) = stream s @ [m]"
  by (simp add: stream_def)

text \<open>A live subscriber is either the one just subscribed or had the same stream, less the broadcast.\<close>

lemma step_subscriber:
  assumes "(i, s) \<in> set (subscribers (hub_step x h))" "distinct (map fst (subscribers h))"
  shows "(\<exists>now. x = OSubscribe now \<and> i = nextID h + 1 \<and> messages s = [] \<and> taken s = []
             \<and> started s = snapshot h @ unexpired now h)
       \<or> (\<exists>s0. (i, s0) \<in> set (subscribers h) \<and> stream s = stream s0 @ broadcasts x h
             \<and> (length (messages s0) \<le> subscriberBuffer \<longrightarrow> length (messages s) \<le> subscriberBuffer)
             \<and> (\<forall>now. x = OSubscribe now \<longrightarrow> i \<noteq> nextID h + 1))"
proof (cases x)
  case (OSetTopic t raw)
  then show ?thesis
    using assms by (auto simp: set_topic_def broadcast_subscriber split: option.splits if_splits)
next
  case (OSendCommand now w n ttl raw)
  then show ?thesis
    using assms by (auto simp: send_command_def broadcast_subscriber Let_def split: option.splits if_splits)
next
  case (OSendTransient w n raw)
  then show ?thesis
    using assms by (auto simp: send_transient_def broadcast_subscriber split: option.splits if_splits)
next
  case (OSubscribe now)
  let ?new = "\<lparr>messages = [], taken = [], started = snapshot h @ unexpired now h\<rparr>"
  have "map_of (AList.update (nextID h + 1) ?new (subscribers h)) i = Some s"
    using assms OSubscribe by (simp add: subscribe_def Let_def distinct_update)
  then show ?thesis
    using OSubscribe by (auto simp: update_conv' stream_def dest: map_of_SomeD split: if_splits)
next
  case (OClose sub)
  have "(i, s) \<in> set (subscribers h)"
    using assms(1) OClose
    by (auto simp: Close_def unsubscribe_def AList.delete_eq split: option.splits)
  then show ?thesis using OClose by auto
next
  case (OReceive j)
  then obtain s0 where s0: "(i, s0) \<in> set (subscribers h)"
      "s = (if i = j \<and> messages s0 \<noteq> []
         then s0\<lparr>messages := tl (messages s0), taken := taken s0 @ [hd (messages s0)]\<rparr> else s0)"
    using assms(1) by (auto simp: receive_def)
  then have "stream s = stream s0" "length (messages s) \<le> length (messages s0)"
    by (auto simp: stream_def)
  then show ?thesis using s0(1) OReceive by auto
qed

subsection \<open>The invariant\<close>

definition topics_inv :: "hub \<Rightarrow> bool" where
  "topics_inv h \<longleftrightarrow> distinct (topicOrder h) \<and> set (topicOrder h) = dom (topics h)"

definition commands_inv :: "hub \<Rightarrow> bool" where
  "commands_inv h \<longleftrightarrow> length (commands h) \<le> commandBuffer \<and> (subscribers h \<noteq> [] \<longrightarrow> commands h = [])
     \<and> (\<forall>m \<in> set (commands h). m_Type m = ''command'')"

definition subscribers_inv :: "hub \<Rightarrow> bool" where
  "subscribers_inv h \<longleftrightarrow> distinct (map fst (subscribers h))
     \<and> (\<forall>(i, s) \<in> set (subscribers h). length (messages s) \<le> subscriberBuffer
          \<and> fold replay_message (stream s) Map.empty = topics h)"

definition hub_inv :: "hub \<Rightarrow> bool" where
  "hub_inv h \<longleftrightarrow> topics_inv h \<and> commands_inv h \<and> subscribers_inv h"

lemma topics_inv_step: "topics_inv h \<Longrightarrow> topics_inv (hub_step x h)"
  by (cases x) (auto simp: topics_inv_def set_topic_def send_command_def send_transient_def subscribe_def
      Close_def unsubscribe_def receive_def Let_def split: option.split)

lemma subscribers_broadcast_Nil [simp]:
  "subscribers h = [] \<Longrightarrow> subscribers (broadcastLocked m h) = []"
  by (simp add: broadcastLocked_def)

lemma in_set_tail: "x \<in> set (tl xs) \<Longrightarrow> x \<in> set xs"
  by (cases xs) auto

lemma commands_inv_step:
  assumes "commands_inv h"
  shows "commands_inv (hub_step x h)"
proof (cases x)
  case (OSendCommand now w n ttl raw)
  then show ?thesis
    using assms
    by (auto simp: commands_inv_def send_command_def command_message_def Let_def commandBuffer_def
        dest: in_set_tail split: option.split)
qed (use assms in \<open>auto simp: commands_inv_def set_topic_def send_transient_def subscribe_def Close_def
      unsubscribe_def receive_def AList.delete_eq Let_def split: option.split\<close>)

lemma distinct_keys_step:
  "distinct (map fst (subscribers h)) \<Longrightarrow> distinct (map fst (subscribers (hub_step x h)))"
proof (cases x)
  case (OReceive i)
  assume "distinct (map fst (subscribers h))"
  moreover have "map fst (subscribers (receive i h)) = map fst (subscribers h)"
    by (simp add: receive_def case_prod_unfold comp_def)
  ultimately show ?thesis using OReceive by simp
qed (auto simp: set_topic_def send_command_def send_transient_def subscribe_def Close_def unsubscribe_def
      broadcastLocked_def enqueue_def comp_def distinct_update distinct_delete distinct_map_filter Let_def
      split: option.split)

lemma replay_snapshot:
  "fold replay_message (map (\<lambda>t. state_message t (the (tv t))) ts) v
     = (\<lambda>x. if x \<in> set ts then Some (the (tv x)) else v x)"
  by (induction ts arbitrary: v) (auto simp: fun_eq_iff)

lemma replay_commands:
  "\<forall>m \<in> set ms. m_Type m = ''command'' \<Longrightarrow> fold replay_message ms v = v"
  by (induction ms arbitrary: v) (auto simp: replay_message_def)

lemma replay_initial:
  assumes "topics_inv h" "commands_inv h"
  shows "fold replay_message (snapshot h @ unexpired now h) Map.empty = topics h"
proof -
  have "fold replay_message (snapshot h) Map.empty = topics h"
    using assms(1) by (auto simp: snapshot_def replay_snapshot topics_inv_def fun_eq_iff domIff)
  moreover have "\<forall>m \<in> set (unexpired now h). m_Type m = ''command''"
    using assms(2) by (auto simp: commands_inv_def unexpired_def)
  ultimately show ?thesis by (simp add: replay_commands)
qed

lemma subscribers_inv_step:
  assumes "hub_inv h"
  shows "subscribers_inv (hub_step x h)"
  unfolding subscribers_inv_def
proof (intro conjI ballI)
  have inv: "topics_inv h" "commands_inv h" "subscribers_inv h" using assms by (auto simp: hub_inv_def)
  then have d: "distinct (map fst (subscribers h))" by (simp add: subscribers_inv_def)
  then show "distinct (map fst (subscribers (hub_step x h)))" by (rule distinct_keys_step)
  fix p assume p: "p \<in> set (subscribers (hub_step x h))"
  obtain i s where ps: "p = (i, s)" by (cases p)
  consider (new) now where "x = OSubscribe now" "stream s = snapshot h @ unexpired now h" "messages s = []"
    | (old) s0 where "(i, s0) \<in> set (subscribers h)" "stream s = stream s0 @ broadcasts x h"
        "length (messages s0) \<le> subscriberBuffer \<longrightarrow> length (messages s) \<le> subscriberBuffer"
    using step_subscriber [OF p [unfolded ps] d] by (auto simp: stream_def)
  then have "length (messages s) \<le> subscriberBuffer \<and> fold replay_message (stream s) Map.empty = topics (hub_step x h)"
  proof cases
    case new
    then show ?thesis
      using replay_initial [OF inv(1,2)] by (simp add: subscribe_def Let_def)
  next
    case old
    with inv(3) show ?thesis by (auto simp: subscribers_inv_def hub_log.exec_view)
  qed
  with ps show "case p of (i, s) \<Rightarrow> length (messages s) \<le> subscriberBuffer
      \<and> fold replay_message (stream s) Map.empty = topics (hub_step x h)" by simp
qed

lemma hub_inv_step [keeps_inv]: "hub_inv h \<Longrightarrow> hub_inv (hub_step x h)"
  using topics_inv_step commands_inv_step subscribers_inv_step by (simp add: hub_inv_def)

interpretation hub_sys: invariant_system NewHub hub_step hub_inv
  by unfold_locales
    (simp add: hub_inv_def topics_inv_def commands_inv_def subscribers_inv_def NewHub_def, rule hub_inv_step)

text \<open>(C25) A subscriber can always rebuild the hub: in every reachable state, replaying a live
  subscriber's initial messages, the messages it has received and those in its channel
  gives exactly the current topics; no channel holds more than 256 messages.\<close>

theorem subscriber_rebuilds_topics:
  assumes "(i, s) \<in> set (subscribers (fold hub_step ops NewHub))"
  shows "fold replay_message (started s @ taken s @ messages s) Map.empty = topics (fold hub_step ops NewHub)
    \<and> length (messages s) \<le> 256"
  using hub_sys.inv_run [of ops] assms
  by (auto simp: hub_inv_def subscribers_inv_def stream_def subscriberBuffer_def)

theorem subscriber_rebuilds_topics_witness:
  "fold replay_message ([state_message ''a'' ''1''] @ [] @ [state_message ''a'' ''2'']) Map.empty
     = topics (fold hub_step [OSetTopic ''a'' (Some ''1''), OSubscribe 0, OSetTopic ''a'' (Some ''2'')] NewHub)"
proof -
  let ?s = "\<lparr>messages = [state_message ''a'' ''2''], taken = [], started = [state_message ''a'' ''1'']\<rparr>"
  have "(1, ?s) \<in> set (subscribers
      (fold hub_step [OSetTopic ''a'' (Some ''1''), OSubscribe 0, OSetTopic ''a'' (Some ''2'')] NewHub))"
    by (simp add: NewHub_def set_topic_def subscribe_def broadcastLocked_def snapshot_def unexpired_def
        has_room_def enqueue_def subscriberBuffer_def Let_def)
  from subscriber_rebuilds_topics [OF this] show ?thesis by simp
qed

subsection \<open>No message is lost or reordered\<close>

definition subscriptions :: "hub_op list \<Rightarrow> nat" where
  "subscriptions ops = length (filter (\<lambda>x. case x of OSubscribe now \<Rightarrow> True | _ \<Rightarrow> False) ops)"

lemma fresh_id:
  assumes "Suc k < 2 ^ 64"
  shows "i + word_of_nat k + 1 \<noteq> (i :: 64 word)"
proof
  assume "i + word_of_nat k + 1 = i"
  then have "word_of_nat (Suc k) = (0 :: 64 word)" by (simp add: add.commute add.left_commute)
  then have "2 ^ LENGTH(64) dvd Suc k" by (simp only: word_of_nat_eq_0_iff)
  with assms show False by (auto dest: dvd_imp_le)
qed

lemma stream_run:
  assumes "distinct (map fst (subscribers h))" "nextID h = i + word_of_nat k"
    and "k + subscriptions ops < 2 ^ 64"
    and "\<forall>s. (i, s) \<in> set (subscribers h) \<longrightarrow> stream s = ms"
    and "(i, s') \<in> set (subscribers (fold hub_step ops h))"
  shows "stream s' = ms @ hub_log.log_of ops h"
  using assms
proof (induction ops arbitrary: h k ms)
  case (Cons x ops)
  let ?k = "if \<exists>now. x = OSubscribe now then Suc k else k"
  have k: "?k + subscriptions ops = k + subscriptions (x # ops)"
    by (cases x) (auto simp: subscriptions_def)
  have n: "nextID (hub_step x h) = i + word_of_nat ?k"
    using Cons.prems(2)
    by (cases x) (auto simp: set_topic_def send_command_def send_transient_def subscribe_def Close_def
        unsubscribe_def receive_def Let_def split: option.split)
  have "\<forall>s. (i, s) \<in> set (subscribers (hub_step x h)) \<longrightarrow> stream s = ms @ broadcasts x h"
  proof (intro allI impI)
    fix s assume "(i, s) \<in> set (subscribers (hub_step x h))"
    moreover have "x = OSubscribe now \<Longrightarrow> nextID h + 1 \<noteq> i" for now
      using fresh_id [of k i] Cons.prems(2,3) by (simp add: subscriptions_def)
    ultimately show "stream s = ms @ broadcasts x h"
      using step_subscriber [OF _ Cons.prems(1), of i s x] Cons.prems(4) by metis
  qed
  with Cons.IH [OF distinct_keys_step [OF Cons.prems(1)] n, of "ms @ broadcasts x h"] Cons.prems(3,5) k
  show ?case by simp
qed simp

text \<open>The messages broadcast by a sequence of operations, in order.\<close>

definition broadcast_log :: "hub_op list \<Rightarrow> hub \<Rightarrow> message list" where
  "broadcast_log ops h = hub_log.log_of ops h"

text \<open>(C26) Nothing is lost, duplicated or reordered on a live subscription: after a subscription
  is taken, as long as it has not been closed or dropped, its initial messages, what it
  received and what its channel holds are the initial messages followed by everything
  broadcast since, in order, commands included.  Identifiers are 64-bit counters, so
  fewer than \<open>2 ^ 64 - 1\<close> further subscriptions are assumed.\<close>

theorem live_stream_complete:
  assumes "h = fold hub_step ops0 NewHub" and "subscribe now h = (h', i, initial)"
    and "subscriptions ops < 2 ^ 64 - 1"
    and "(i, s) \<in> set (subscribers (fold hub_step ops h'))"
  shows "started s @ taken s @ messages s = initial @ broadcast_log ops h'"
proof -
  have h': "h' = hub_step (OSubscribe now) h" "i = nextID h + 1" "initial = snapshot h @ unexpired now h"
    using assms(2) by (auto simp: subscribe_def Let_def)
  have d1: "distinct (map fst (subscribers h))"
    using hub_sys.inv_run [of ops0] assms(1) by (simp add: hub_inv_def subscribers_inv_def)
  note d = d1 distinct_keys_step [OF d1, of "OSubscribe now", folded h'(1)]
  have "nextID h' = i + word_of_nat 0" using assms(2) by (auto simp: subscribe_def Let_def)
  moreover have "\<forall>s. (i, s) \<in> set (subscribers h') \<longrightarrow> stream s = initial"
    using step_subscriber [OF _ d(1), of i _ "OSubscribe now"] h' by (fastforce simp: stream_def)
  ultimately have "stream s = initial @ hub_log.log_of ops h'"
    using stream_run [OF d(2), of i 0 ops initial s] assms(3,4) by simp
  then show ?thesis by (simp add: stream_def broadcast_log_def)
qed

theorem live_stream_complete_witness:
  "[] @ [] @ [state_message ''a'' ''2''] = [] @ broadcast_log [OSetTopic ''a'' (Some ''2'')] (fst (subscribe 0 NewHub))"
proof -
  let ?h = "fst (subscribe 0 NewHub)"
  have "(1, \<lparr>messages = [state_message ''a'' ''2''], taken = [], started = []\<rparr>)
      \<in> set (subscribers (fold hub_step [OSetTopic ''a'' (Some ''2'')] ?h))"
    by (simp add: NewHub_def set_topic_def subscribe_def broadcastLocked_def snapshot_def unexpired_def
        has_room_def enqueue_def subscriberBuffer_def Let_def)
  moreover have "subscribe 0 NewHub = (?h, 1, [])"
    by (simp add: subscribe_def NewHub_def snapshot_def unexpired_def Let_def)
  ultimately show ?thesis
    using live_stream_complete [of NewHub "[]" 0 ?h 1 "[]" "[OSetTopic ''a'' (Some ''2'')]"]
    by (fastforce simp: subscriptions_def)
qed

subsection \<open>Commands\<close>

text \<open>Sending commands while nobody is subscribed.\<close>

definition staged :: "(int \<times> string \<times> string \<times> int \<times> string) list \<Rightarrow> hub \<Rightarrow> hub" where
  "staged cs h = fold (\<lambda>(now, w, n, ttl, raw). send_command now w n ttl (Some raw)) cs h"

definition as_message :: "int \<times> string \<times> string \<times> int \<times> string \<Rightarrow> message" where
  "as_message c = (case c of (now, w, n, ttl, raw) \<Rightarrow> command_message w n (unix_milli (now + ttl)) raw)"

lemma staged_commands:
  assumes "subscribers h = []" "commands h = drop (length ms - commandBuffer) ms"
    and "\<forall>(now, w, n, ttl, raw) \<in> set cs. n \<noteq> []"
  shows "subscribers (staged cs h) = [] \<and> topics (staged cs h) = topics h \<and> topicOrder (staged cs h) = topicOrder h
    \<and> commands (staged cs h) = drop (length (ms @ map as_message cs) - commandBuffer) (ms @ map as_message cs)"
  using assms
proof (induction cs arbitrary: h ms)
  case (Cons c cs)
  obtain now w n ttl raw where c: "c = (now, w, n, ttl, raw)" by (cases c)
  let ?h = "send_command now w n ttl (Some raw) h"
  have "tl (drop k ms) = drop (Suc k) ms" for k by (simp add: drop_Suc tl_drop)
  moreover have "Suc (length ms - 64) = length ms - 63" if "length ms - (length ms - 64) = 64"
    using that by linarith
  ultimately have "commands ?h = drop (length (ms @ [as_message c]) - commandBuffer) (ms @ [as_message c])"
    using Cons.prems by (auto simp: send_command_def Let_def as_message_def c Suc_diff_le commandBuffer_def)
  moreover have "subscribers ?h = []" "topics ?h = topics h" "topicOrder ?h = topicOrder h"
    using Cons.prems(1) by (auto simp: send_command_def Let_def)
  ultimately show ?case
    using Cons.IH [of ?h "ms @ [as_message c]"] Cons.prems(3) by (simp add: staged_def c)
qed (simp add: staged_def)

text \<open>Staged commands are delivered once: commands sent while nobody is subscribed wait, the
  newest 64 of them; the next subscriber receives, after the topic snapshot, exactly
  those that have not expired, in the order they were sent, and a later subscriber
  receives none of them again.\<close>

theorem staged_commands_delivered_once:
  assumes "subscribers h = []" "commands h = []"
    and "\<forall>(now, w, n, ttl, raw) \<in> set cs. n \<noteq> []"
  shows "snd (snd (subscribe t (staged cs h))) =
      snapshot h @ filter (\<lambda>m. m_ExpiresAt m > unix_milli t) (drop (length cs - 64) (map as_message cs))
    \<and> snd (snd (subscribe t' (fst (subscribe t (staged cs h))))) = snapshot h"
  using staged_commands [of h "[]" cs] assms
  by (simp add: subscribe_def snapshot_def unexpired_def commandBuffer_def Let_def)

theorem staged_commands_delivered_once_witness:
  "snd (snd (subscribe 5000000 (staged [(0, ''w'', ''open'', 9000000, ''{}''), (0, ''w'', ''late'', 1000000, ''{}'')] NewHub)))
     = [command_message ''w'' ''open'' 9 ''{}'']"
  using staged_commands_delivered_once [of NewHub "[(0, ''w'', ''open'', 9000000, ''{}''), (0, ''w'', ''late'', 1000000, ''{}'')]" 5000000]
  by (simp add: NewHub_def snapshot_def as_message_def command_message_def unix_milli_def)

end
