(* ===== verification/Interactions.thy ===== *)
theory Interactions
  imports Prelude "HOL-Library.AList"
begin

text \<open>
  \<open>internal/dshinteraction/store.go\<close>: the pending interactions reported by DSH pages.
  A surface shows one page; a page is identified by its instance and holds at most one
  interaction per session.  A method's critical section is a function on the store; it
  appends the changes it makes to the queue that \<open>dispatch\<close> drains outside the lock.

  Go maps are association lists with distinct keys where they are iterated (in the
  sorted order of their keys, as in the code) and HOL maps otherwise.  The second half
  of the theory models the threads that run \<open>dispatch\<close>: callbacks may call the store
  again, and reports arrive concurrently.
\<close>

subsection \<open>The store\<close>

record interaction =
  i_Kind :: string
  i_Key :: string
  i_ToolName :: string
  i_Reason :: string

record report =
  rp_Instance :: string
  rp_SessionID :: string
  rp_Kind :: string
  rp_Key :: string
  rp_ToolName :: string
  rp_Reason :: string
  rp_Current :: string
  rp_Visible :: bool

record page =
  p_instance :: string
  p_current :: string
  p_visible :: bool
  p_interactions :: "(string \<times> interaction) list"

record change =
  c_added :: bool
  c_surface :: string
  c_instance :: string
  c_sessionID :: string
  c_interaction :: interaction

record store =
  pages :: "(string \<times> page) list"
  owners :: "string \<rightharpoonup> string"
  changes :: "change list"

definition NewStore :: store where
  "NewStore = \<lparr>pages = [], owners = Map.empty, changes = []\<rparr>"

definition removal :: "string \<Rightarrow> string \<Rightarrow> interaction \<Rightarrow> change" where
  "removal inst sid it = \<lparr>c_added = False, c_surface = [], c_instance = inst, c_sessionID = sid,
     c_interaction = it\<rparr>"

definition addition :: "string \<Rightarrow> string \<Rightarrow> string \<Rightarrow> interaction \<Rightarrow> change" where
  "addition surface inst sid it = \<lparr>c_added = True, c_surface = surface, c_instance = inst,
     c_sessionID = sid, c_interaction = it\<rparr>"

definition removePageLocked :: "string \<Rightarrow> page \<Rightarrow> store \<Rightarrow> store" where
  "removePageLocked surface p s =
    s\<lparr>changes := changes s @ map (\<lambda>sid. removal (p_instance p) sid (the (map_of (p_interactions p) sid)))
        (sort (map fst (p_interactions p))),
      owners := (owners s)(p_instance p := None),
      pages := AList.delete surface (pages s)\<rparr>"

text \<open>The page is shared by reference in the code; storing it back is the same update.\<close>

definition store_page :: "string \<Rightarrow> page \<Rightarrow> change list \<Rightarrow> store \<Rightarrow> store" where
  "store_page surface p cs s = s\<lparr>pages := AList.update surface p (pages s), changes := changes s @ cs\<rparr>"

definition removeInteractionLocked :: "string \<Rightarrow> page \<Rightarrow> string \<Rightarrow> string \<Rightarrow> store \<Rightarrow> store" where
  "removeInteractionLocked surface p inst sid s =
    (case map_of (p_interactions p) sid of
       None \<Rightarrow> s
     | Some it \<Rightarrow> store_page surface (p\<lparr>p_interactions := AList.delete sid (p_interactions p)\<rparr>)
         [removal inst sid it] s)"

definition new_page :: "string \<Rightarrow> page" where
  "new_page inst = \<lparr>p_instance = inst, p_current = [], p_visible = False, p_interactions = []\<rparr>"

text \<open>The page of the report: an existing one of the same instance, or a new one in its place.\<close>

definition replace_page :: "string \<Rightarrow> string \<Rightarrow> store \<Rightarrow> store" where
  "replace_page surface inst s =
    (case map_of (pages s) surface of
       None \<Rightarrow> s
     | Some p \<Rightarrow> if p_instance p \<noteq> inst then removePageLocked surface p s else s)"

definition ensure_page :: "string \<Rightarrow> string \<Rightarrow> store \<Rightarrow> store" where
  "ensure_page surface inst s =
    (case map_of (pages s) surface of
       Some p \<Rightarrow> s
     | None \<Rightarrow> s\<lparr>pages := AList.update surface (new_page inst) (pages s),
                 owners := (owners s)(inst \<mapsto> surface)\<rparr>)"

definition apply_report :: "string \<Rightarrow> report \<Rightarrow> page \<Rightarrow> store \<Rightarrow> store" where
  "apply_report surface rp p s =
    (if rp_SessionID rp = [] then
       store_page surface (p\<lparr>p_current := rp_Current rp, p_visible := rp_Visible rp\<rparr>) [] s
     else if rp_Kind rp = [] then removeInteractionLocked surface p (rp_Instance rp) (rp_SessionID rp) s
     else
       let it = \<lparr>i_Kind = rp_Kind rp, i_Key = rp_Key rp, i_ToolName = rp_ToolName rp, i_Reason = rp_Reason rp\<rparr>;
           p' = p\<lparr>p_interactions := AList.update (rp_SessionID rp) it (p_interactions p)\<rparr>;
           new = addition surface (rp_Instance rp) (rp_SessionID rp) it
       in case map_of (p_interactions p) (rp_SessionID rp) of
            None \<Rightarrow> store_page surface p' [new] s
          | Some previous \<Rightarrow>
              if i_Key previous \<noteq> i_Key it
              then store_page surface p' [removal (rp_Instance rp) (rp_SessionID rp) previous, new] s
              else store_page surface p' [] s)"

definition Report :: "string \<Rightarrow> report \<Rightarrow> store \<Rightarrow> store \<times> bool" where
  "Report surface rp s =
    (case owners s (rp_Instance rp) of
       Some owner \<Rightarrow> if owner \<noteq> surface then (s, False)
         else let s' = ensure_page surface (rp_Instance rp) (replace_page surface (rp_Instance rp) s)
              in (apply_report surface rp (the (map_of (pages s') surface)) s', True)
     | None \<Rightarrow>
         let s' = ensure_page surface (rp_Instance rp) (replace_page surface (rp_Instance rp) s)
         in (apply_report surface rp (the (map_of (pages s') surface)) s', True))"

definition Reset :: "string \<Rightarrow> string \<Rightarrow> store \<Rightarrow> store" where
  "Reset surface inst s =
    (case map_of (pages s) surface of
       None \<Rightarrow> s
     | Some p \<Rightarrow> if p_instance p = inst then removePageLocked surface p s else s)"

definition ClearWindow :: "string \<Rightarrow> store \<Rightarrow> store" where
  "ClearWindow surface s =
    (case map_of (pages s) surface of None \<Rightarrow> s | Some p \<Rightarrow> removePageLocked surface p s)"

definition ClearAll :: "store \<Rightarrow> store" where
  "ClearAll s = fold ClearWindow (sort (map fst (pages s))) s"

definition Owner :: "string \<Rightarrow> store \<Rightarrow> string option" where
  "Owner inst s = owners s inst"

definition Page :: "string \<Rightarrow> store \<Rightarrow> (string \<times> string \<times> bool) option" where
  "Page surface s = map_option (\<lambda>p. (p_instance p, p_current p, p_visible p)) (map_of (pages s) surface)"

subsection \<open>Ownership and the pending set\<close>

definition store_inv :: "store \<Rightarrow> bool" where
  "store_inv s \<longleftrightarrow> distinct (map fst (pages s))
     \<and> (\<forall>surface p. map_of (pages s) surface = Some p \<longrightarrow> distinct (map fst (p_interactions p)))
     \<and> (\<forall>inst surface. owners s inst = Some surface \<longleftrightarrow>
          (\<exists>p. map_of (pages s) surface = Some p \<and> p_instance p = inst))"

text \<open>The key of the pending interaction of each instance and session.\<close>

definition pending :: "store \<Rightarrow> (string \<times> string \<rightharpoonup> string)" where
  "pending s = (\<lambda>(inst, sid). case owners s inst of None \<Rightarrow> None
     | Some surface \<Rightarrow> (case map_of (pages s) surface of None \<Rightarrow> None
         | Some p \<Rightarrow> map_option i_Key (map_of (p_interactions p) sid)))"

definition replay_change :: "change \<Rightarrow> (string \<times> string \<rightharpoonup> string) \<Rightarrow> (string \<times> string \<rightharpoonup> string)" where
  "replay_change c v = v((c_instance c, c_sessionID c) :=
     (if c_added c then Some (i_Key (c_interaction c)) else None))"

definition evolves :: "store \<Rightarrow> store \<Rightarrow> bool" where
  "evolves s s' \<longleftrightarrow> (store_inv s \<longrightarrow> store_inv s' \<and>
     (\<exists>cs. changes s' = changes s @ cs \<and> pending s' = fold replay_change cs (pending s)))"

lemma evolves_refl [simp]: "evolves s s"
  by (auto simp: evolves_def intro: exI [of _ "[]"])

lemma evolves_trans: "evolves a b \<Longrightarrow> evolves b c \<Longrightarrow> evolves a c"
  by (fastforce simp: evolves_def)

lemma replay_simps [simp]:
  "replay_change (removal inst sid it) v = v((inst, sid) := None)"
  "replay_change (addition surface inst sid it) v = v((inst, sid) \<mapsto> i_Key it)"
  by (simp_all add: replay_change_def removal_def addition_def)

lemma fold_removals:
  "fold replay_change (map (\<lambda>sid. removal inst sid (f sid)) sids) v
     = (\<lambda>(i, sid). if i = inst \<and> sid \<in> set sids then None else v (i, sid))"
  by (induction sids arbitrary: v) (auto simp: fun_eq_iff)

lemma store_inv_owners:
  "store_inv s \<Longrightarrow> owners s inst = Some surface \<longleftrightarrow>
     (\<exists>p. map_of (pages s) surface = Some p \<and> p_instance p = inst)"
  by (simp add: store_inv_def)

lemma owner_unique:
  assumes "store_inv s" "map_of (pages s) a = Some p" "map_of (pages s) b = Some q" "p_instance p = p_instance q"
  shows "a = b"
  using assms unfolding store_inv_def by (metis option.inject)

lemma removePage_evolves:
  assumes p: "map_of (pages s) surface = Some p"
  shows "evolves s (removePageLocked surface p s)"
  unfolding evolves_def
proof (intro impI conjI exI)
  assume inv: "store_inv s"
  let ?s = "removePageLocked surface p s"
  have pages: "map_of (pages ?s) = (map_of (pages s))(surface := None)"
    by (simp add: removePageLocked_def delete_conv')
  have owners: "owners ?s = (owners s)(p_instance p := None)" by (simp add: removePageLocked_def)
  have own: "owners s (p_instance p) = Some surface" using inv p by (auto simp: store_inv_def)
  have "owners ?s inst = Some x \<longleftrightarrow> (\<exists>q. map_of (pages ?s) x = Some q \<and> p_instance q = inst)" for inst x
    using p owner_unique [OF inv] own store_inv_owners [OF inv, of inst x] unfolding pages owners by auto
  moreover have "distinct (map fst (pages ?s))"
    using inv by (simp add: removePageLocked_def store_inv_def distinct_delete)
  ultimately show "store_inv ?s"
    using inv unfolding store_inv_def pages by auto
  show "changes ?s = changes s @ map (\<lambda>sid. removal (p_instance p) sid (the (map_of (p_interactions p) sid)))
        (sort (map fst (p_interactions p)))"
    by (simp add: removePageLocked_def)
  show "pending ?s = fold replay_change (map (\<lambda>sid. removal (p_instance p) sid (the (map_of (p_interactions p) sid)))
        (sort (map fst (p_interactions p)))) (pending s)"
  proof (rule ext, clarify)
    fix i sid
    show "pending ?s (i, sid) = fold replay_change (map (\<lambda>sid. removal (p_instance p) sid
        (the (map_of (p_interactions p) sid))) (sort (map fst (p_interactions p)))) (pending s) (i, sid)"
    proof (cases "i = p_instance p")
      case True
      then show ?thesis
        using own p
        by (auto simp: pending_def owners fold_removals map_of_eq_None_iff split: option.splits)
    next
      case False
      then have "owners s i \<noteq> Some surface" using inv p by (auto simp: store_inv_def)
      then show ?thesis
        using False by (auto simp: pending_def owners pages fold_removals split: option.splits)
    qed
  qed
qed

lemma ensure_page_evolves:
  assumes free: "owners s inst = None \<or> owners s inst = Some surface"
  shows "evolves s (ensure_page surface inst s)"
proof (cases "map_of (pages s) surface")
  case None
  let ?s = "ensure_page surface inst s"
  have pages: "map_of (pages ?s) = (map_of (pages s))(surface \<mapsto> new_page inst)"
    and owners: "owners ?s = (owners s)(inst \<mapsto> surface)" and ch: "changes ?s = changes s"
    using None by (simp_all add: ensure_page_def update_conv')
  show ?thesis
    unfolding evolves_def
  proof (intro impI conjI exI [of _ "[]"])
    assume inv: "store_inv s"
    have nobody: "owners s i \<noteq> Some surface" for i using inv None by (auto simp: store_inv_def)
    with free have none: "owners s inst = None" by auto
    have "owners ?s i = Some x \<longleftrightarrow> (\<exists>q. map_of (pages ?s) x = Some q \<and> p_instance q = i)" for i x
      using inv none nobody unfolding pages owners store_inv_def
      by (auto simp: new_page_def) (metis option.distinct(1))+
    moreover have "distinct (map fst (pages ?s))"
      using inv None by (simp add: ensure_page_def store_inv_def distinct_update)
    ultimately show "store_inv ?s"
      using inv unfolding store_inv_def pages by (auto simp: new_page_def)
    show "changes ?s = changes s @ []" using ch by simp
    show "pending ?s = fold replay_change [] (pending s)"
      using none nobody
      by (auto simp: pending_def pages owners fun_eq_iff new_page_def split: option.splits)
  qed
qed (simp add: ensure_page_def)

lemma store_page_evolves:
  assumes p: "map_of (pages s) surface = Some p"
    and p': "p_instance p' = p_instance p"
    and d: "distinct (map fst (p_interactions p)) \<Longrightarrow> distinct (map fst (p_interactions p'))"
    and view: "\<And>v. (\<lambda>(i, sid). if i = p_instance p then map_option i_Key (map_of (p_interactions p') sid) else v (i, sid))
      = fold replay_change cs (\<lambda>(i, sid). if i = p_instance p
          then map_option i_Key (map_of (p_interactions p) sid) else v (i, sid))"
  shows "evolves s (store_page surface p' cs s)"
  unfolding evolves_def
proof (intro impI conjI exI [of _ cs])
  assume inv: "store_inv s"
  let ?s = "store_page surface p' cs s"
  have pages: "map_of (pages ?s) = (map_of (pages s))(surface \<mapsto> p')"
    and owners: "owners ?s = owners s" by (simp_all add: store_page_def update_conv')
  have own: "owners s (p_instance p) = Some surface" using inv p by (auto simp: store_inv_def)
  have "owners ?s i = Some x \<longleftrightarrow> (\<exists>q. map_of (pages ?s) x = Some q \<and> p_instance q = i)" for i x
    using p p' store_inv_owners [OF inv, of i x] unfolding pages owners by auto
  moreover have "distinct (map fst (pages ?s))"
    using inv by (simp add: store_page_def store_inv_def distinct_update)
  ultimately show "store_inv ?s"
    using inv d p unfolding store_inv_def pages by auto
  show "changes ?s = changes s @ cs" by (simp add: store_page_def)
  have other: "i \<noteq> p_instance p \<Longrightarrow> owners s i \<noteq> Some surface" for i
    using inv p by (auto simp: store_inv_def)
  have "pending ?s = (\<lambda>(i, sid). if i = p_instance p then map_option i_Key (map_of (p_interactions p') sid) else pending s (i, sid))"
    using own other by (auto simp: pending_def pages owners fun_eq_iff split: option.splits)
  moreover have "pending s = (\<lambda>(i, sid). if i = p_instance p then map_option i_Key (map_of (p_interactions p) sid) else pending s (i, sid))"
    using own p by (auto simp: pending_def fun_eq_iff)
  ultimately show "pending ?s = fold replay_change cs (pending s)" using view [of "pending s"] by simp
qed

lemma replace_page_evolves: "evolves s (replace_page surface inst s)"
  by (auto simp: replace_page_def removePage_evolves split: option.split)

lemma ClearWindow_evolves: "evolves s (ClearWindow surface s)"
  by (auto simp: ClearWindow_def removePage_evolves split: option.split)

lemma Reset_evolves: "evolves s (Reset surface inst s)"
  by (auto simp: Reset_def removePage_evolves split: option.split)

lemma fold_evolves: "(\<And>x s. evolves s (f x s)) \<Longrightarrow> evolves s (fold f xs s)"
  by (induction xs arbitrary: s) (auto intro: evolves_trans)

lemma ClearAll_evolves: "evolves s (ClearAll s)"
  unfolding ClearAll_def by (rule fold_evolves) (rule ClearWindow_evolves)

lemma report_page:
  "\<exists>p. map_of (pages (ensure_page surface inst (replace_page surface inst s))) surface = Some p
     \<and> p_instance p = inst"
  by (auto simp: ensure_page_def replace_page_def removePageLocked_def delete_conv' update_conv' new_page_def
      split: option.split)

lemma replace_page_owner [simp]: "owners (replace_page surface inst s) inst = owners s inst"
  by (simp add: replace_page_def removePageLocked_def split: option.split)

lemma apply_report_evolves:
  assumes p: "map_of (pages s) surface = Some p" "p_instance p = rp_Instance rp"
  shows "evolves s (apply_report surface rp p s)"
proof -
  have remove: "evolves s (removeInteractionLocked surface p (rp_Instance rp) (rp_SessionID rp) s)"
    using p unfolding removeInteractionLocked_def
    by (auto intro!: store_page_evolves simp: delete_conv' distinct_delete fun_eq_iff split: option.split)
  show ?thesis
    using p remove unfolding apply_report_def
    by (auto intro!: store_page_evolves simp: update_conv' distinct_update fun_eq_iff Let_def split: option.split)
qed

lemma Report_evolves: "evolves s (fst (Report surface rp s))"
proof -
  let ?s = "ensure_page surface (rp_Instance rp) (replace_page surface (rp_Instance rp) s)"
  obtain p where "map_of (pages ?s) surface = Some p" "p_instance p = rp_Instance rp"
    using report_page by blast
  then have "evolves ?s (apply_report surface rp (the (map_of (pages ?s) surface)) ?s)"
    by (simp add: apply_report_evolves)
  moreover have "evolves s ?s" if "owners s (rp_Instance rp) = None \<or> owners s (rp_Instance rp) = Some surface"
    using that by (intro evolves_trans [OF replace_page_evolves ensure_page_evolves]) simp
  ultimately show ?thesis
    by (auto simp: Report_def Let_def intro: evolves_trans split: option.split)
qed

datatype store_op =
    SReport string report
  | SReset string string
  | SClearWindow string
  | SClearAll

fun store_step :: "store_op \<Rightarrow> store \<Rightarrow> store" where
  "store_step (SReport surface rp) s = fst (Report surface rp s)"
| "store_step (SReset surface inst) s = Reset surface inst s"
| "store_step (SClearWindow surface) s = ClearWindow surface s"
| "store_step SClearAll s = ClearAll s"

definition new_changes :: "store_op \<Rightarrow> store \<Rightarrow> change list" where
  "new_changes x s = drop (length (changes s)) (changes (store_step x s))"

lemma store_step_evolves: "evolves s (store_step x s)"
  by (cases x) (simp_all add: Report_evolves Reset_evolves ClearWindow_evolves ClearAll_evolves)

lemma changes_step: "store_inv s \<Longrightarrow> changes (store_step x s) = changes s @ new_changes x s"
  using store_step_evolves [of s x] by (auto simp: evolves_def new_changes_def)

interpretation ix_log: change_log pending store_step new_changes replay_change store_inv
proof
  fix s x assume "store_inv s"
  with store_step_evolves [of s x]
  show "pending (store_step x s) = fold replay_change (new_changes x s) (pending s)"
    and "store_inv (store_step x s)"
    by (auto simp: evolves_def new_changes_def)
qed

lemma NewStore_inv: "store_inv NewStore"
  by (simp add: store_inv_def NewStore_def)

interpretation ix_sys: invariant_system NewStore store_step store_inv
  using NewStore_inv ix_log.exec_ok by unfold_locales auto

text \<open>A page instance belongs to one surface: after any sequence of reports and clears, a
  surface owns an instance exactly when its current page is that instance, so the
  recorded owner is unique; and a report about an instance owned by another surface is
  refused without changing the store.\<close>

theorem instance_owner_unique:
  "(Owner inst (fold store_step ops NewStore) = Some surface \<longleftrightarrow>
      (\<exists>current visible. Page surface (fold store_step ops NewStore) = Some (inst, current, visible)))
   \<and> (owners s (rp_Instance rp) \<noteq> None \<and> owners s (rp_Instance rp) \<noteq> Some surface \<longleftrightarrow>
      \<not> snd (Report surface rp s))
   \<and> (snd (Report surface rp s) \<or> fst (Report surface rp s) = s)"
  using ix_sys.inv_run [of ops]
  by (auto simp: Owner_def Page_def Report_def Let_def store_inv_owners split: option.splits)

subsection \<open>Dispatching the changes\<close>

text \<open>
  A thread that has changed the store enters \<open>dispatch\<close>.  \<open>Calling c done todo\<close> is a thread
  that runs the callbacks of a change outside the lock: \<open>done\<close> were called, \<open>todo\<close> are left.
\<close>

datatype dispatch_pc = Entering | Looping | Calling change "nat list" "nat list" | Returned

record dispatcher =
  st :: store
  dispatching :: bool
  onAdded :: "nat list"
  onRemoved :: "nat list"
  pcs :: "dispatch_pc list"
  history :: "change list"
  delivered :: "(change \<times> nat list) list"
  calls :: "(nat \<times> change) list"

definition NewDispatcher :: dispatcher where
  "NewDispatcher = \<lparr>st = NewStore, dispatching = False, onAdded = [], onRemoved = [], pcs = [],
     history = [], delivered = [], calls = []\<rparr>"

abbreviation goto :: "nat \<Rightarrow> dispatch_pc \<Rightarrow> dispatcher \<Rightarrow> dispatcher" where
  "goto i p d \<equiv> d\<lparr>pcs := (pcs d)[i := p]\<rparr>"

inductive dispatch_step :: "dispatcher \<Rightarrow> dispatcher \<Rightarrow> bool" where
  OnAdded: "dispatch_step d (d\<lparr>onAdded := onAdded d @ [cb]\<rparr>)"
| OnRemoved: "dispatch_step d (d\<lparr>onRemoved := onRemoved d @ [cb]\<rparr>)"
| change_store: "(\<And>surface rp. x = SReport surface rp \<Longrightarrow> snd (Report surface rp (st d))) \<Longrightarrow>
    dispatch_step d (d\<lparr>st := store_step x (st d), history := history d @ new_changes x (st d),
      pcs := pcs d @ [Entering]\<rparr>)"
| already_dispatching: "i < length (pcs d) \<Longrightarrow> pcs d ! i = Entering \<Longrightarrow> dispatching d \<Longrightarrow>
    dispatch_step d (goto i Returned d)"
| start_dispatching: "i < length (pcs d) \<Longrightarrow> pcs d ! i = Entering \<Longrightarrow> \<not> dispatching d \<Longrightarrow>
    dispatch_step d ((goto i Looping d)\<lparr>dispatching := True\<rparr>)"
| next_change: "i < length (pcs d) \<Longrightarrow> pcs d ! i = Looping \<Longrightarrow> changes (st d) = c # cs \<Longrightarrow>
    dispatch_step d ((goto i (Calling c [] (if c_added c then onAdded d else onRemoved d)) d)
      \<lparr>st := (st d)\<lparr>changes := cs\<rparr>\<rparr>)"
| queue_empty: "i < length (pcs d) \<Longrightarrow> pcs d ! i = Looping \<Longrightarrow> changes (st d) = [] \<Longrightarrow>
    dispatch_step d ((goto i Returned d)\<lparr>dispatching := False\<rparr>)"
| callback: "i < length (pcs d) \<Longrightarrow> pcs d ! i = Calling c done (cb # todo) \<Longrightarrow>
    dispatch_step d ((goto i (Calling c (done @ [cb]) todo) d)\<lparr>calls := calls d @ [(cb, c)]\<rparr>)"
| callbacks_done: "i < length (pcs d) \<Longrightarrow> pcs d ! i = Calling c done [] \<Longrightarrow>
    dispatch_step d ((goto i Looping d)\<lparr>delivered := delivered d @ [(c, done)]\<rparr>)"

inductive dispatch_reachable :: "dispatcher \<Rightarrow> bool" where
  new: "dispatch_reachable NewDispatcher"
| step: "dispatch_reachable d \<Longrightarrow> dispatch_step d d' \<Longrightarrow> dispatch_reachable d'"

fun active :: "dispatch_pc \<Rightarrow> bool" where
  "active Looping = True"
| "active (Calling c done todo) = True"
| "active p = False"

fun inflight :: "dispatch_pc \<Rightarrow> change list" where
  "inflight (Calling c done todo) = [c]"
| "inflight p = []"

fun called :: "dispatch_pc \<Rightarrow> (nat \<times> change) list" where
  "called (Calling c done todo) = map (\<lambda>cb. (cb, c)) done"
| "called p = []"

definition delivered_calls :: "(change \<times> nat list) list \<Rightarrow> (nat \<times> change) list" where
  "delivered_calls ds = concat (map (\<lambda>(c, cbs). map (\<lambda>cb. (cb, c)) cbs) ds)"

definition dispatch_inv :: "dispatcher \<Rightarrow> bool" where
  "dispatch_inv d \<longleftrightarrow>
     store_inv (st d) \<and> pending (st d) = fold replay_change (history d) Map.empty
   \<and> length (filter active (pcs d)) = (if dispatching d then 1 else 0)
   \<and> (\<not> dispatching d \<and> changes (st d) \<noteq> [] \<longrightarrow> Entering \<in> set (pcs d))
   \<and> history d = map fst (delivered d) @ concat (map inflight (pcs d)) @ changes (st d)
   \<and> calls d = delivered_calls (delivered d) @ concat (map called (pcs d))"

lemma inactive_contributes: "\<not> active p \<Longrightarrow> inflight p = []" "\<not> active p \<Longrightarrow> called p = []"
  by (cases p; simp)+

lemma active_dispatching:
  assumes "dispatch_inv d" "i < length (pcs d)" "active (pcs d ! i)"
  shows "dispatching d" "length (filter active (pcs d)) = 1"
proof -
  have "pcs d ! i \<in> set (filter active (pcs d))" using assms(2,3) by simp
  then have "filter active (pcs d) \<noteq> []" by force
  with assms(1) show "dispatching d" "length (filter active (pcs d)) = 1"
    by (auto simp: dispatch_inv_def split: if_splits)
qed

text \<open>The threads' contribution when the only active thread moves from \<open>p\<close> to \<open>p'\<close>.\<close>

lemma active_moves:
  assumes "dispatch_inv d" "i < length (pcs d)" "active (pcs d ! i)"
  shows "concat (map inflight (pcs d)) = inflight (pcs d ! i)"
    "concat (map inflight ((pcs d)[i := p])) = inflight p"
    "concat (map called (pcs d)) = called (pcs d ! i)"
    "concat (map called ((pcs d)[i := p])) = called p"
    "length (filter active ((pcs d)[i := p])) = (if active p then 1 else 0)"
proof -
  note one = active_dispatching(2) [OF assms]
  note moved = concat_map_only [OF one assms(2,3) inactive_contributes(1)]
    concat_map_only [OF one assms(2,3) inactive_contributes(2)]
  show "concat (map inflight ((pcs d)[i := p])) = inflight p" by (rule moved(1))
  show "concat (map called ((pcs d)[i := p])) = called p" by (rule moved(2))
  show "concat (map inflight (pcs d)) = inflight (pcs d ! i)"
    using moved(1) [where y = "pcs d ! i"] by (simp only: list_update_id)
  show "concat (map called (pcs d)) = called (pcs d ! i)"
    using moved(2) [where y = "pcs d ! i"] by (simp only: list_update_id)
  show "length (filter active ((pcs d)[i := p])) = (if active p then 1 else 0)"
    using length_filter_update [OF assms(2), of active p] one assms(3) by simp
qed

lemma silent_move:
  assumes "i < length xs" "g y = g (xs ! i)"
  shows "concat (map g (xs[i := y])) = concat (map g xs)"
  using assms by (simp add: map_update) (metis list_update_id nth_map)

lemma pending_changes [simp]: "pending (s\<lparr>changes := cs\<rparr>) = pending s"
  by (simp add: pending_def fun_eq_iff split: option.split)

lemma store_inv_changes [simp]: "store_inv (s\<lparr>changes := cs\<rparr>) = store_inv s"
  by (simp add: store_inv_def)

lemma change_store_inv:
  assumes "dispatch_inv d"
  shows "dispatch_inv (d\<lparr>st := store_step x (st d), history := history d @ new_changes x (st d),
      pcs := pcs d @ [Entering]\<rparr>)"
  using assms ix_log.exec_view [of "st d" x] ix_log.exec_ok [of "st d" x] changes_step [of "st d" x]
  by (simp add: dispatch_inv_def)

lemma already_dispatching_inv:
  assumes "dispatch_inv d" "i < length (pcs d)" "pcs d ! i = Entering" "dispatching d"
  shows "dispatch_inv (goto i Returned d)"
  using assms length_filter_update [OF assms(2), of active Returned]
    silent_move [OF assms(2), of inflight Returned] silent_move [OF assms(2), of called Returned]
  by (simp add: dispatch_inv_def)

lemma start_dispatching_inv:
  assumes "dispatch_inv d" "i < length (pcs d)" "pcs d ! i = Entering" "\<not> dispatching d"
  shows "dispatch_inv ((goto i Looping d)\<lparr>dispatching := True\<rparr>)"
  using assms length_filter_update [OF assms(2), of active Looping]
    silent_move [OF assms(2), of inflight Looping] silent_move [OF assms(2), of called Looping]
  by (simp add: dispatch_inv_def)

lemma dispatch_step_inv [keeps_inv]: "dispatch_step d d' \<Longrightarrow> dispatch_inv d \<Longrightarrow> dispatch_inv d'"
proof (induction rule: dispatch_step.induct)
  case (change_store x d)
  then show ?case by (intro change_store_inv)
next
  case (already_dispatching i d)
  then show ?case by (intro already_dispatching_inv)
next
  case (start_dispatching i d)
  then show ?case by (intro start_dispatching_inv)
next
  case (next_change i d c cs)
  then have a: "active (pcs d ! i)" by simp
  show ?case
    using next_change active_moves [OF next_change(4,1) a] active_dispatching(1) [OF next_change(4,1) a]
    by (simp add: dispatch_inv_def)
next
  case (queue_empty i d)
  then have a: "active (pcs d ! i)" by simp
  show ?case
    using queue_empty active_moves [OF queue_empty(4,1) a] by (simp add: dispatch_inv_def)
next
  case (callback i d c cs' cb todo)
  then have a: "active (pcs d ! i)" by simp
  show ?case
    using callback active_moves [OF callback(3,1) a] active_dispatching(1) [OF callback(3,1) a]
    by (simp add: dispatch_inv_def)
next
  case (callbacks_done i d c cs')
  then have a: "active (pcs d ! i)" by simp
  show ?case
    using callbacks_done active_moves [OF callbacks_done(3,1) a] active_dispatching(1) [OF callbacks_done(3,1) a]
    by (simp add: dispatch_inv_def delivered_calls_def)
qed (simp_all add: dispatch_inv_def)

lemma dispatch_reachable_inv: "dispatch_reachable d \<Longrightarrow> dispatch_inv d"
proof (induction rule: dispatch_reachable.induct)
  case new
  show ?case by (simp add: dispatch_inv_def NewDispatcher_def NewStore_inv delivered_calls_def)
     (simp add: pending_def NewStore_def fun_eq_iff)
qed (rule dispatch_step_inv)

text \<open>(C24) Callbacks run in state-change order and never overlap: in every interleaving at most one
  thread dispatches, the changes whose callbacks have completed are a prefix of all
  changes ever made, and the callback invocations so far are those of the completed
  changes followed by a part of those of the next one.\<close>

theorem callbacks_in_order:
  assumes "dispatch_reachable d"
  shows "length (filter active (pcs d)) \<le> 1
    \<and> (\<exists>rest. history d = map fst (delivered d) @ rest
        \<and> (calls d = delivered_calls (delivered d)
           \<or> (\<exists>c rest' cbs. rest = c # rest' \<and> calls d = delivered_calls (delivered d) @ map (\<lambda>cb. (cb, c)) cbs)))"
proof -
  have inv: "dispatch_inv d" by (rule dispatch_reachable_inv [OF assms])
  show ?thesis
  proof (cases "\<exists>i < length (pcs d). active (pcs d ! i)")
    case True
    then obtain i where i: "i < length (pcs d)" "active (pcs d ! i)" by blast
    note moves = active_moves [OF inv i] active_dispatching [OF inv i]
    show ?thesis
      using inv moves i(2) by (cases "pcs d ! i") (auto simp: dispatch_inv_def)
  next
    case False
    then have none: "length (filter active (pcs d)) = 0"
      by (auto simp: filter_empty_conv in_set_conv_nth)
    have "concat (map called (pcs d)) = []"
      by (rule concat_map_none [OF none inactive_contributes(2)])
    then show ?thesis using inv none unfolding dispatch_inv_def by auto
  qed
qed


subsection \<open>Witnesses\<close>

definition example_report :: report where
  "example_report = \<lparr>rp_Instance = ''i'', rp_SessionID = ''s'', rp_Kind = ''approval'', rp_Key = ''k'',
     rp_ToolName = [], rp_Reason = [], rp_Current = [], rp_Visible = True\<rparr>"

definition example_interaction :: interaction where
  "example_interaction = \<lparr>i_Kind = ''approval'', i_Key = ''k'', i_ToolName = [], i_Reason = []\<rparr>"

definition example_dispatcher :: dispatcher where
  "example_dispatcher = \<lparr>
     st = \<lparr>pages = [(''w'', \<lparr>p_instance = ''i'', p_current = [], p_visible = False,
              p_interactions = [(''s'', example_interaction)]\<rparr>)],
           owners = [''i'' \<mapsto> ''w''], changes = []\<rparr>,
     dispatching = False, onAdded = [0], onRemoved = [], pcs = [Returned],
     history = [addition ''w'' ''i'' ''s'' example_interaction],
     delivered = [(addition ''w'' ''i'' ''s'' example_interaction, [0])],
     calls = [(0, addition ''w'' ''i'' ''s'' example_interaction)]\<rparr>"

lemma example_dispatcher_reachable: "dispatch_reachable example_dispatcher"
proof -
  let ?c = "addition ''w'' ''i'' ''s'' example_interaction"
  let ?s = "\<lambda>cs. \<lparr>pages = [(''w'', \<lparr>p_instance = ''i'', p_current = [], p_visible = False,
              p_interactions = [(''s'', example_interaction)]\<rparr>)], owners = [''i'' \<mapsto> ''w''], changes = cs\<rparr>"
  let ?d = "\<lambda>cs b pc ds cl. \<lparr>st = ?s cs, dispatching = b, onAdded = [0], onRemoved = [], pcs = [pc],
     history = [?c], delivered = ds, calls = cl\<rparr>"
  let ?start = "NewDispatcher\<lparr>onAdded := [0]\<rparr>"
  have rep: "Report ''w'' example_report NewStore = (?s [?c], True)"
    by (simp add: Report_def NewStore_def replace_page_def ensure_page_def new_page_def apply_report_def
        store_page_def example_report_def example_interaction_def Let_def)
  have "dispatch_step NewDispatcher ?start"
    using dispatch_step.OnAdded [of NewDispatcher 0] by (simp add: NewDispatcher_def)
  moreover have "dispatch_step ?start (?d [?c] False Entering [] [])"
    using dispatch_step.change_store [of "SReport ''w'' example_report" ?start] rep
    by (simp add: NewDispatcher_def new_changes_def) (simp add: NewStore_def)
  moreover have "dispatch_step (?d [?c] False Entering [] []) (?d [?c] True Looping [] [])"
    using dispatch_step.start_dispatching [of 0 "?d [?c] False Entering [] []"] by simp
  moreover have "dispatch_step (?d [?c] True Looping [] []) (?d [] True (Calling ?c [] [0]) [] [])"
    using dispatch_step.next_change [of 0 "?d [?c] True Looping [] []" ?c "[]"] by (simp add: addition_def)
  moreover have "dispatch_step (?d [] True (Calling ?c [] [0]) [] []) (?d [] True (Calling ?c [0] []) [] [(0, ?c)])"
    using dispatch_step.callback [of 0 "?d [] True (Calling ?c [] [0]) [] []" ?c "[]" 0 "[]"] by simp
  moreover have "dispatch_step (?d [] True (Calling ?c [0] []) [] [(0, ?c)]) (?d [] True Looping [(?c, [0])] [(0, ?c)])"
    using dispatch_step.callbacks_done [of 0 "?d [] True (Calling ?c [0] []) [] [(0, ?c)]" ?c "[0]"] by simp
  moreover have "dispatch_step (?d [] True Looping [(?c, [0])] [(0, ?c)]) example_dispatcher"
    using dispatch_step.queue_empty [of 0 "?d [] True Looping [(?c, [0])] [(0, ?c)]"]
    by (simp add: example_dispatcher_def)
  ultimately show ?thesis by (meson dispatch_reachable.intros)
qed

theorem callbacks_in_order_witness:
  "dispatch_reachable example_dispatcher \<and> length (filter active (pcs example_dispatcher)) \<le> 1
    \<and> (\<exists>rest. history example_dispatcher = map fst (delivered example_dispatcher) @ rest)"
  using callbacks_in_order [OF example_dispatcher_reachable] example_dispatcher_reachable by blast


end
