(* ===== verification/Activity_Snapshot.thy ===== *)
theory Activity_Snapshot
  imports Go_Strings "HOL-Library.Product_Lexorder" "HOL-Library.Multiset" "HOL-Library.Word"
begin

text \<open>
  The data half of \<open>internal/dshactivity/bridge.go\<close>: the activity snapshot the Worker's pet
  plugin reports, its normalization (\<open>clean\<close>, \<open>normalize\<close>, \<open>activityState\<close>,
  \<open>priority\<close>) and its projection to a pet animation (\<open>AnimationIntent\<close>).  The Go integers
  of the snapshot are only compared and clamped, so they are \<^typ>\<open>int\<close> here.

  The lemmas show that a normalized snapshot is bounded, free of control characters,
  ordered, and safe to project: \<open>AnimationIntent\<close> dereferences the interaction of the first
  session, and a normalized snapshot always has it there.
\<close>

record interaction =
  in_Key :: string
  in_Kind :: string
  in_Text :: string
  in_Count :: int

record goal =
  g_Phase :: string
  g_Objective :: string
  g_Reason :: string
  g_Rounds :: int
  g_MaxRounds :: int

record job =
  j_ID :: string
  j_Label :: string
  j_Status :: string
  j_Detail :: string

record activity =
  a_WorkPhase :: string
  a_ToolActivity :: string
  a_SessionID :: string
  a_ParentSessionID :: string
  a_Title :: string
  a_Seq :: int
  a_Turn :: int
  a_Running :: bool
  a_Outcome :: string
  a_Summary :: string
  a_LiveCompletion :: bool
  a_UpdatedAt :: int
  a_Interaction :: "interaction option"
  a_Goal :: "goal option"
  a_Queued :: int
  a_Steering :: int
  a_Jobs :: "job list"
  a_State :: string

record snapshot =
  s_SchemaVersion :: int
  s_Generation :: string
  s_Revision :: "64 word"
  s_Sessions :: "activity list"
  s_Connected :: bool
  s_NavigationError :: string

subsection \<open>Cleaning text\<close>

definition blank_control :: "nat \<Rightarrow> nat" where
  "blank_control r = (if is_control r then 0x20 else r)"

definition clean :: "string \<Rightarrow> nat \<Rightarrow> string" where
  "clean s n =
    (let r = runes (trim_space (strings_map blank_control s))
     in string_of_runes (if length r > n then take n r else r))"

subsection \<open>Normalization\<close>

fun activityState :: "activity \<Rightarrow> string" where
  "activityState a =
    (if a_Interaction a \<noteq> None then ''needs-input''
     else if (case a_Goal a of None \<Rightarrow> False | Some g \<Rightarrow> g_Phase g = ''blocked'') then ''blocked''
     else if a_Outcome a \<in> {''error'', ''blocked'', ''max-tokens'', ''interrupted''} \<and> \<not> a_Running a then a_Outcome a
     else if a_Running a then ''running''
     else if list_ex (\<lambda>j. j_Status j = ''failed'') (a_Jobs a) then ''error''
     else if list_ex (\<lambda>j. j_Status j = ''running'' \<or> j_Status j = ''stopping'') (a_Jobs a) then ''running''
     else ''idle'')"

definition priority :: "string \<Rightarrow> nat" where
  "priority s =
    (if s = ''needs-input'' then 0
     else if s \<in> {''blocked'', ''error'', ''max-tokens'', ''interrupted''} then 1
     else if s = ''running'' then 3
     else 4)"

definition clamp :: "int \<Rightarrow> int \<Rightarrow> int" where
  "clamp x hi = min (max x 0) hi"

definition clean_interaction :: "interaction \<Rightarrow> interaction option" where
  "clean_interaction it =
    (if in_Kind it \<in> {''approval'', ''question'', ''plan-review''}
     then Some (it\<lparr>in_Text := clean (in_Text it) 240, in_Key := clean (in_Key it) 256,
                   in_Count := clamp (in_Count it) 100\<rparr>)
     else None)"

definition clean_goal :: "goal \<Rightarrow> goal" where
  "clean_goal g = g\<lparr>g_Objective := clean (g_Objective g) 240, g_Reason := clean (g_Reason g) 240,
     g_Phase := clean (g_Phase g) 32\<rparr>"

definition clean_job :: "job \<Rightarrow> job" where
  "clean_job j = j\<lparr>j_Label := clean (j_Label j) 120, j_Status := clean (j_Status j) 32,
     j_Detail := clean (j_Detail j) 160\<rparr>"

definition normalize_activity :: "activity \<Rightarrow> activity" where
  "normalize_activity a0 =
    (let a = a0\<lparr>a_Title := clean (a_Title a0) 120, a_Summary := clean (a_Summary a0) 240,
        a_WorkPhase := (if a_WorkPhase a0 \<in> {''thinking'', ''working'', ''result''} then a_WorkPhase a0 else []),
        a_ToolActivity := (if a_ToolActivity a0 \<in> {''searching'', ''editing'', ''testing'', ''commanding'', ''using-tool''}
                           then a_ToolActivity a0 else []),
        a_ParentSessionID := clean (a_ParentSessionID a0) 256,
        a_Queued := clamp (a_Queued a0) 10000, a_Steering := clamp (a_Steering a0) 10000,
        a_Interaction := (case a_Interaction a0 of None \<Rightarrow> None | Some it \<Rightarrow> clean_interaction it),
        a_Goal := map_option clean_goal (a_Goal a0),
        a_Jobs := map clean_job (a_Jobs a0)\<rparr>
     in a\<lparr>a_State := activityState a\<rparr>)"

text \<open>
  The loop of \<open>normalize\<close>; \<open>ids\<close> is the set of session identifiers seen so far and \<open>None\<close> is
  the early return.  The code checks the number of jobs after it has cleaned the other
  fields of the element, which is the same since a rejected snapshot is dropped.
\<close>

fun normalize_sessions :: "activity list \<Rightarrow> string set \<Rightarrow> activity list option" where
  "normalize_sessions [] ids = Some []"
| "normalize_sessions (a # as) ids =
    (if a_SessionID a = [] \<or> length (a_SessionID a) > 256 \<or> a_SessionID a \<in> ids \<or> a_Seq a < -1 then None
     else if length (a_Jobs a) > 32 then None
     else map_option (Cons (normalize_activity a)) (normalize_sessions as (insert (a_SessionID a) ids)))"

text \<open>
  \<open>sort.SliceStable\<close> with the less function of the code: by priority, then the later
  update first, then by session identifier.
\<close>

definition activity_key :: "activity \<Rightarrow> nat \<times> int \<times> string" where
  "activity_key a = (priority (a_State a), - a_UpdatedAt a, a_SessionID a)"

definition normalize :: "snapshot \<Rightarrow> snapshot option" where
  "normalize s =
    (case normalize_sessions (s_Sessions s) {} of
       None \<Rightarrow> None
     | Some as \<Rightarrow> Some (s\<lparr>s_Sessions := sort_key activity_key as,
                         s_NavigationError := clean (s_NavigationError s) 160\<rparr>))"

subsection \<open>The animation\<close>

fun show_int :: "int \<Rightarrow> string" where
  "show_int n = (if n < 0 then ''-'' @ show_nat (nat (- n)) else show_nat (nat n))"

text \<open>\<open>None\<close> is the panic of dereferencing a nil interaction.\<close>

definition AnimationIntent :: "snapshot \<Rightarrow> (string \<times> string) option" where
  "AnimationIntent s =
    (if \<not> s_Connected s then Some (''host.offline'', ''disconnected'')
     else case s_Sessions s of
       [] \<Rightarrow> Some (''host.ready'', ''idle'')
     | a # _ \<Rightarrow>
         let key = a_SessionID a @ '':'' @ show_int (a_Turn a) @ '':'' @ a_State a @ '':'' @ a_Outcome a in
         if a_State a = ''needs-input'' then
           (case a_Interaction a of
              None \<Rightarrow> None
            | Some it \<Rightarrow> Some (if in_Kind it = ''plan-review'' then ''task.reviewing'' else ''task.waiting'',
                               key @ '':'' @ in_Key it))
         else if a_State a = ''error'' then Some (''task.failed'', key)
         else if a_State a = ''blocked'' then Some (''task.blocked'', key)
         else if a_State a = ''max-tokens'' then Some (''task.limited'', key)
         else if a_State a = ''interrupted'' then Some (''task.interrupted'', key)
         else if a_State a = ''running'' then
           (if a_WorkPhase a = ''thinking'' then Some (''task.thinking'', key @ '':thinking'')
            else if a_WorkPhase a = ''result'' then Some (''task.result'', key @ '':result'')
            else Some (''task.working'', key))
         else if a_Outcome a = ''completed'' \<and> a_LiveCompletion a then Some (''task.completed'', key)
         else if a_Outcome a = ''aborted'' then Some (''task.cancelled'', key)
         else Some (''host.ready'', key))"

subsection \<open>Cleaned text\<close>

definition trim_runes :: "nat list \<Rightarrow> nat list" where
  "trim_runes rs = rev (dropWhile is_space (rev (dropWhile is_space rs)))"

lemma chunks_string_of_runes:
  "\<forall>r \<in> set rs. valid_rune r \<Longrightarrow> chunks (string_of_runes rs) = map (\<lambda>r. (r, encode_rune r)) rs"
  by (induction rs) (auto simp: string_of_runes_def chunks_encode)

lemma trim_space_string_of_runes:
  assumes "\<forall>r \<in> set rs. valid_rune r"
  shows "trim_space (string_of_runes rs) = string_of_runes (trim_runes rs)"
  unfolding trim_space_def chunks_string_of_runes [OF assms] trim_chunks_def
  by (simp add: dropWhile_map rev_map comp_def trim_runes_def string_of_runes_def)

lemma set_trim_runes: "set (trim_runes rs) \<subseteq> set rs"
  unfolding trim_runes_def by (metis set_dropWhileD set_rev subsetI)

lemma blank_control_valid: "valid_rune r \<Longrightarrow> valid_rune (blank_control r)"
  by (simp add: blank_control_def valid_rune_def)

lemma clean_runes:
  "clean s n = string_of_runes (take n (trim_runes (map blank_control (runes s))))"
    (is "_ = string_of_runes (take n ?rs)")
  and runes_clean: "runes (clean s n) = take n (trim_runes (map blank_control (runes s)))"
proof -
  have v: "\<forall>r \<in> set (map blank_control (runes s)). valid_rune r"
    using valid_runes blank_control_valid by auto
  then have v': "\<forall>r \<in> set ?rs. valid_rune r" using set_trim_runes by blast
  have "runes (trim_space (strings_map blank_control s)) = ?rs"
    unfolding strings_map_def trim_space_string_of_runes [OF v] by (rule runes_string_of_runes [OF v'])
  then show c: "clean s n = string_of_runes (take n ?rs)" by (simp add: clean_def Let_def)
  show "runes (clean s n) = take n ?rs"
    unfolding c using v' by (intro runes_string_of_runes) (meson in_set_takeD)
qed

definition clean_text :: "nat \<Rightarrow> string \<Rightarrow> bool" where
  "clean_text n s \<longleftrightarrow> rune_count s \<le> n \<and> (\<forall>r \<in> set (runes s). \<not> is_control r)"

lemma clean_text_clean [simp]: "clean_text n (clean s n)"
proof -
  have "\<not> is_control r" if "r \<in> set (take n (trim_runes (map blank_control (runes s))))" for r
  proof -
    have "r \<in> set (map blank_control (runes s))"
      using that set_trim_runes by (meson in_set_takeD subsetD)
    then show ?thesis by (auto simp: blank_control_def is_control_def)
  qed
  then show ?thesis by (simp add: clean_text_def rune_count_def runes_clean)
qed

subsection \<open>Normalized snapshots\<close>

definition normal_interaction :: "interaction \<Rightarrow> bool" where
  "normal_interaction it \<longleftrightarrow> in_Kind it \<in> {''approval'', ''question'', ''plan-review''}
     \<and> clean_text 240 (in_Text it) \<and> clean_text 256 (in_Key it) \<and> 0 \<le> in_Count it \<and> in_Count it \<le> 100"

definition normal_goal :: "goal \<Rightarrow> bool" where
  "normal_goal g \<longleftrightarrow> clean_text 240 (g_Objective g) \<and> clean_text 240 (g_Reason g) \<and> clean_text 32 (g_Phase g)"

definition normal_job :: "job \<Rightarrow> bool" where
  "normal_job j \<longleftrightarrow> clean_text 120 (j_Label j) \<and> clean_text 32 (j_Status j) \<and> clean_text 160 (j_Detail j)"

definition acceptable :: "activity \<Rightarrow> bool" where
  "acceptable a \<longleftrightarrow> a_SessionID a \<noteq> [] \<and> length (a_SessionID a) \<le> 256 \<and> -1 \<le> a_Seq a \<and> length (a_Jobs a) \<le> 32"

definition normal_activity :: "activity \<Rightarrow> bool" where
  "normal_activity a \<longleftrightarrow> acceptable a \<and> clean_text 120 (a_Title a) \<and> clean_text 240 (a_Summary a)
     \<and> clean_text 256 (a_ParentSessionID a)
     \<and> a_WorkPhase a \<in> {''thinking'', ''working'', ''result'', []}
     \<and> a_ToolActivity a \<in> {''searching'', ''editing'', ''testing'', ''commanding'', ''using-tool'', []}
     \<and> 0 \<le> a_Queued a \<and> a_Queued a \<le> 10000 \<and> 0 \<le> a_Steering a \<and> a_Steering a \<le> 10000
     \<and> pred_option normal_interaction (a_Interaction a) \<and> pred_option normal_goal (a_Goal a)
     \<and> list_all normal_job (a_Jobs a) \<and> a_State a = activityState a"

definition normal_sessions :: "activity list \<Rightarrow> bool" where
  "normal_sessions as \<longleftrightarrow> list_all normal_activity as \<and> distinct (map a_SessionID as)
     \<and> sorted (map activity_key as)"

lemma clamp_bounds [simp]: "0 \<le> hi \<Longrightarrow> 0 \<le> clamp x hi \<and> clamp x hi \<le> hi"
  by (simp add: clamp_def)

lemma clean_interaction_normal: "clean_interaction it = Some it' \<Longrightarrow> normal_interaction it'"
  by (auto simp: clean_interaction_def normal_interaction_def clamp_def split: if_splits)

lemma clean_goal_normal: "normal_goal (clean_goal g)"
  by (simp add: clean_goal_def normal_goal_def)

lemma clean_job_normal: "normal_job (clean_job j)"
  by (simp add: clean_job_def normal_job_def)

lemma activityState_cong [simp]: "activityState (a\<lparr>a_State := s\<rparr>) = activityState a"
  by simp

declare activityState.simps [simp del]

lemma normalize_activity_ID [simp]: "a_SessionID (normalize_activity a) = a_SessionID a"
  by (simp add: normalize_activity_def Let_def)

lemma acceptable_normalize [simp]: "acceptable (normalize_activity a) = acceptable a"
  by (simp add: acceptable_def normalize_activity_def Let_def)

lemma normalize_activity_normal:
  assumes "acceptable a"
  shows "normal_activity (normalize_activity a)"
proof -
  let ?a = "normalize_activity a"
  have "pred_option normal_interaction (a_Interaction ?a)"
    using clean_interaction_normal by (auto simp: normalize_activity_def Let_def pred_option_def split: option.splits)
  moreover have "pred_option normal_goal (a_Goal ?a)" "list_all normal_job (a_Jobs ?a)"
    by (simp_all add: normalize_activity_def Let_def option.pred_map comp_def clean_goal_normal clean_job_normal
        list.pred_map option.pred_True list.pred_True)
  moreover have "a_State ?a = activityState ?a" by (simp add: normalize_activity_def Let_def)
  ultimately show ?thesis
    using assms unfolding normal_activity_def acceptable_normalize
    by (simp add: normalize_activity_def Let_def)
qed

lemma normalize_sessions_Some:
  "normalize_sessions as ids = Some bs \<longleftrightarrow>
     bs = map normalize_activity as \<and> list_all acceptable as \<and> distinct (map a_SessionID as)
     \<and> set (map a_SessionID as) \<inter> ids = {}"
proof (induction as arbitrary: ids bs)
  case (Cons a as)
  then show ?case by (auto simp: acceptable_def)
qed auto

lemma distinct_map_mset: "mset xs = mset ys \<Longrightarrow> distinct (map f xs) \<longleftrightarrow> distinct (map f ys)"
  by (metis mset_eq_imp_distinct_iff mset_map)

lemma normalize_Some:
  assumes "normalize s = Some s'"
  shows "list_all acceptable (s_Sessions s)" "distinct (map a_SessionID (s_Sessions s))"
    "s' = s\<lparr>s_Sessions := sort_key activity_key (map normalize_activity (s_Sessions s)),
            s_NavigationError := clean (s_NavigationError s) 160\<rparr>"
  using assms by (auto simp: normalize_def normalize_sessions_Some split: option.splits)

lemma normalize_normal:
  assumes "normalize s = Some s'"
  shows "normal_sessions (s_Sessions s')"
proof -
  note n = normalize_Some [OF assms]
  let ?as = "map normalize_activity (s_Sessions s)"
  have "list_all normal_activity (sort_key activity_key ?as)"
    using n(1) normalize_activity_normal by (auto simp: list_all_iff)
  moreover have "distinct (map a_SessionID (sort_key activity_key ?as))"
    using n(2) by (subst distinct_map_mset [of _ ?as]) (simp_all add: comp_def)
  ultimately show ?thesis by (simp add: normal_sessions_def n(3))
qed

text \<open>(C28) What the pet sees is well formed: a snapshot that passes normalization keeps every
  reported session exactly once, has distinct session identifiers of at most 256 bytes,
  texts within their limits and without control characters, counters within their
  ranges, known interaction kinds and phases, a state derived from its own fields, and
  sessions in order of urgency; normalizing it again, as \<open>accept\<close> does, succeeds.\<close>

theorem normalized_snapshot_wellformed:
  assumes "normalize s = Some s'"
  shows "normal_sessions (s_Sessions s') \<and> clean_text 160 (s_NavigationError s')
    \<and> mset (map a_SessionID (s_Sessions s')) = mset (map a_SessionID (s_Sessions s))
    \<and> (\<exists>s''. normalize s' = Some s'')"
proof (intro conjI)
  note n = normalize_Some [OF assms]
  show norm: "normal_sessions (s_Sessions s')" by (rule normalize_normal [OF assms])
  show "clean_text 160 (s_NavigationError s')" by (simp add: n(3))
  show "mset (map a_SessionID (s_Sessions s')) = mset (map a_SessionID (s_Sessions s))"
    by (simp add: n(3) image_mset.compositionality comp_def)
  have "list_all acceptable (s_Sessions s')" "distinct (map a_SessionID (s_Sessions s'))"
    using norm by (auto simp: normal_sessions_def normal_activity_def list_all_iff)
  then show "\<exists>s''. normalize s' = Some s''"
    by (auto simp: normalize_def normalize_sessions_Some split: option.split)
qed

lemma activityState_needs_input: "activityState a = ''needs-input'' \<Longrightarrow> a_Interaction a \<noteq> None"
  by (auto simp: activityState.simps split: if_splits)

lemma AnimationIntent_total:
  assumes "normal_sessions (s_Sessions s)"
  shows "\<exists>kind key. AnimationIntent s = Some (kind, key)"
proof (cases "s_Sessions s")
  case (Cons a as)
  with assms have "a_State a = activityState a" by (simp add: normal_sessions_def normal_activity_def)
  then have "a_State a = ''needs-input'' \<Longrightarrow> a_Interaction a \<noteq> None" using activityState_needs_input by simp
  with Cons show ?thesis by (auto simp: AnimationIntent_def Let_def)
qed (simp add: AnimationIntent_def)

lemma priority_0: "priority st = 0 \<longleftrightarrow> st = ''needs-input''"
  by (simp add: priority_def)

lemma head_most_urgent:
  assumes "sorted (map activity_key (a # as))" "b \<in> set (a # as)"
  shows "priority (a_State a) \<le> priority (a_State b)"
  using assms by (auto simp: activity_key_def less_eq_prod_def)

text \<open>The animation never crashes and shows what needs the user: projecting a normalized
  snapshot always yields an intent (the nil interaction is never dereferenced), and
  while connected with some session waiting for input the intent is a waiting or a
  reviewing one.\<close>

lemma animation_total_and_urgent:
  assumes "normalize s = Some s'"
  shows "(\<exists>kind key. AnimationIntent s' = Some (kind, key))
    \<and> (s_Connected s' \<and> (\<exists>a \<in> set (s_Sessions s'). a_State a = ''needs-input'') \<longrightarrow>
        (\<exists>key. AnimationIntent s' = Some (''task.waiting'', key) \<or> AnimationIntent s' = Some (''task.reviewing'', key)))"
proof (intro conjI impI)
  have norm: "normal_sessions (s_Sessions s')" by (rule normalize_normal [OF assms])
  then show total: "\<exists>kind key. AnimationIntent s' = Some (kind, key)" by (rule AnimationIntent_total)
  assume w: "s_Connected s' \<and> (\<exists>a \<in> set (s_Sessions s'). a_State a = ''needs-input'')"
  then obtain a as where as: "s_Sessions s' = a # as" by (cases "s_Sessions s'") auto
  obtain b where b: "b \<in> set (a # as)" "priority (a_State b) = 0"
    using w as by (auto simp: priority_0)
  have "sorted (map activity_key (a # as))" using norm as by (simp add: normal_sessions_def)
  from head_most_urgent [OF this b(1)] b(2) have "priority (a_State a) = 0" by simp
  with w total as show "\<exists>key. AnimationIntent s' = Some (''task.waiting'', key) \<or> AnimationIntent s' = Some (''task.reviewing'', key)"
    by (auto simp: priority_0 AnimationIntent_def Let_def split: option.splits)
qed

subsection \<open>Witnesses\<close>

lemma clean_graphic:
  assumes "\<forall>c \<in> set s. 0x20 < byte c \<and> byte c < 0x7F" "length s \<le> n"
  shows "clean s n = s"
proof -
  have "chunks s = map (\<lambda>c. (byte c, [c])) s" using assms(1) by (intro chunks_ascii) auto
  then have r: "runes s = map of_char s" by (simp add: runes_def comp_def)
  have b: "map blank_control (runes s) = runes s"
    using assms(1) by (auto simp: r blank_control_def is_control_def)
  have "\<forall>x \<in> set (runes s). \<not> is_space x" using assms(1) by (auto simp: r is_space_def)
  then have t: "trim_runes (runes s) = runes s" by (simp add: trim_runes_def dropWhile_none)
  have "string_of_runes (map of_char s) = s"
    using assms(1) by (intro string_of_runes_ascii) auto
  then show ?thesis using assms(2) by (simp add: clean_runes b t) (simp add: r)
qed

definition waiting_session :: activity where
  "waiting_session = \<lparr>a_WorkPhase = ''working'', a_ToolActivity = [], a_SessionID = ''s1'', a_ParentSessionID = [],
     a_Title = ''Build'', a_Seq = 4, a_Turn = 2, a_Running = True, a_Outcome = [], a_Summary = [],
     a_LiveCompletion = False, a_UpdatedAt = 9,
     a_Interaction = Some \<lparr>in_Key = ''k'', in_Kind = ''approval'', in_Text = [], in_Count = 1\<rparr>,
     a_Goal = None, a_Queued = 0, a_Steering = 0, a_Jobs = [], a_State = ''needs-input''\<rparr>"

definition waiting_snapshot :: snapshot where
  "waiting_snapshot = \<lparr>s_SchemaVersion = 1, s_Generation = ''g'', s_Revision = 1,
     s_Sessions = [waiting_session], s_Connected = True, s_NavigationError = []\<rparr>"

lemma normalize_waiting: "normalize waiting_snapshot = Some waiting_snapshot"
proof -
  have "normalize_activity waiting_session = waiting_session"
    by (simp add: normalize_activity_def waiting_session_def clean_graphic clean_interaction_def clamp_def
        activityState.simps)
  moreover have "acceptable waiting_session" by (simp add: acceptable_def waiting_session_def)
  ultimately have "normalize_sessions [waiting_session] {} = Some [waiting_session]"
    by (simp add: normalize_sessions_Some del: normalize_sessions.simps)
  then show ?thesis
    by (simp add: normalize_def waiting_snapshot_def clean_graphic del: normalize_sessions.simps)
qed

theorem normalized_snapshot_wellformed_witness:
  "normalize waiting_snapshot = Some waiting_snapshot \<and> normal_sessions (s_Sessions waiting_snapshot)"
  using normalized_snapshot_wellformed [OF normalize_waiting] normalize_waiting by blast

end
