(* ===== verification/Activity_Bridge.thy ===== *)
theory Activity_Bridge
  imports Activity_Snapshot
begin

text \<open>
  The moving half of \<open>internal/dshactivity/bridge.go\<close>: the server-sent-event reader
  (\<open>readActivityFrames\<close> over a \<open>bufio.Scanner\<close>), the frame loop of \<open>receiveActivity\<close>, and the
  bridge that owns the current snapshot and the pending navigation.  JSON decoding is an
  argument.  The bridge's critical sections are functions; the goroutines of \<open>Start\<close> and
  \<open>Open\<close> act through \<open>accept\<close>, \<open>disconnected\<close> and \<open>navigationTimedOut\<close>, which carry the
  generation they were started for (the locale \<open>generation_guarded\<close>).
\<close>

subsection \<open>Scanning lines\<close>

definition newline :: char where
  "newline = CHR 0x0A"

definition activityFrameLimit :: nat where
  "activityFrameLimit = 2 ^ 20"

datatype frame_error = EventTooLarge | ReadFailed | EndOfStream

text \<open>\<open>bufio.ScanLines\<close> drops one trailing carriage return.\<close>

definition drop_cr :: "string \<Rightarrow> string" where
  "drop_cr l = (if l \<noteq> [] \<and> last l = CHR 0x0D then butlast l else l)"

text \<open>
  \<open>Scanner.Scan\<close> until it stops: the lines, and the error after them.  A line that does not
  fit the buffer with its newline ends the scan; an unterminated last line is a line.
\<close>

function scan :: "bool \<Rightarrow> string \<Rightarrow> string list \<times> frame_error" where
  "scan read_failed s =
    (case cut_byte newline s of
       Some (l, rest) \<Rightarrow>
         if length l \<ge> activityFrameLimit then ([], ReadFailed)
         else (case scan read_failed rest of (ls, e) \<Rightarrow> (drop_cr l # ls, e))
     | None \<Rightarrow>
         if length s \<ge> activityFrameLimit then ([], ReadFailed)
         else (if s = [] then [] else [drop_cr s], if read_failed then ReadFailed else EndOfStream))"
  by pat_completeness auto
termination
  by (relation "measure (length \<circ> snd)") (auto simp: cut_byte_Some)

declare scan.simps [simp del]

subsection \<open>Server-sent events\<close>

datatype frame = Frame string string | Ping | FrameError frame_error

definition take_field :: "string \<Rightarrow> string \<times> string" where
  "take_field line =
    (case cut_byte CHR '':'' line of
       None \<Rightarrow> (line, [])
     | Some (field, v) \<Rightarrow> (field, trim_prefix v '' ''))"

fun read_lines :: "frame_error \<Rightarrow> string list \<Rightarrow> string \<Rightarrow> string \<Rightarrow> nat \<Rightarrow> frame list" where
  "read_lines end_error [] ev data frameBytes = [FrameError end_error]"
| "read_lines end_error (line # ls) ev data frameBytes =
    (let n = frameBytes + (length line + 1) in
     if n > activityFrameLimit then [FrameError EventTooLarge]
     else if line = [] then
       (if ev \<noteq> [] \<or> data \<noteq> [] then [Frame ev (trim_suffix data [newline])] else [])
       @ read_lines end_error ls [] [] 0
     else if has_prefix line '':'' then
       (if trim_space (trim_prefix line '':'') = ''ping'' then [Ping] else [])
       @ read_lines end_error ls ev data n
     else case take_field line of
       (field, v) \<Rightarrow>
         if field = ''event'' then read_lines end_error ls v data n
         else if field = ''data'' then read_lines end_error ls ev (data @ v @ [newline]) n
         else read_lines end_error ls ev data n)"

text \<open>
  The frames written to the channel.  Once the context is cancelled a write fails and the
  reader returns, so a cancelled reader has written a prefix.
\<close>

definition readActivityFrames :: "nat option \<Rightarrow> bool \<Rightarrow> string \<Rightarrow> frame list" where
  "readActivityFrames cancelled_after read_failed body =
    (case scan read_failed body of
       (ls, e) \<Rightarrow>
         let fs = read_lines e ls [] [] 0
         in case cancelled_after of None \<Rightarrow> fs | Some k \<Rightarrow> take k fs)"

subsection \<open>Receiving snapshots\<close>

datatype receive_error =
    StreamFailed frame_error | SnapshotTooLarge | SnapshotUndecodable | SnapshotInvalid | StreamSilent

datatype frame_result = Continue | Accepted snapshot | Stop receive_error

definition handle_frame :: "(string \<Rightarrow> snapshot option) \<Rightarrow> string \<Rightarrow> frame \<Rightarrow> frame_result" where
  "handle_frame decode generation f =
    (case f of
       FrameError e \<Rightarrow> Stop (StreamFailed e)
     | Ping \<Rightarrow> Continue
     | Frame ev data \<Rightarrow>
         if ev \<noteq> ''snapshot'' then Continue
         else if length data > activityFrameLimit then Stop SnapshotTooLarge
         else case decode data of
           None \<Rightarrow> Stop SnapshotUndecodable
         | Some st \<Rightarrow>
             if s_SchemaVersion st \<noteq> 1 \<or> length (s_Sessions st) > 256 \<or> s_Generation st \<noteq> generation
             then Stop SnapshotInvalid
             else case normalize st of None \<Rightarrow> Stop SnapshotInvalid | Some st' \<Rightarrow> Accepted st')"

text \<open>
  The loop of \<open>receiveActivity\<close> over the frames it receives before the context ends or the
  silence timer fires: the snapshots handed to \<open>accept\<close>, whether there was one, the error.
\<close>

fun receive_frames :: "(string \<Rightarrow> snapshot option) \<Rightarrow> string \<Rightarrow> frame list \<Rightarrow> snapshot list \<times> receive_error" where
  "receive_frames decode generation [] = ([], StreamSilent)"
| "receive_frames decode generation (f # fs) =
    (case handle_frame decode generation f of
       Stop e \<Rightarrow> ([], e)
     | Continue \<Rightarrow> receive_frames decode generation fs
     | Accepted st \<Rightarrow> (case receive_frames decode generation fs of (sts, e) \<Rightarrow> (st # sts, e)))"

subsection \<open>The bridge\<close>

record bridge =
  b_generation :: string
  b_token :: string
  b_origin :: string
  b_client :: bool
  b_cancel :: bool
  b_done :: bool
  b_state :: snapshot
  b_openWindow :: bool
  b_sendCommand :: bool
  navigationSequence :: "64 word"
  navigationID :: string
  navigationCancel :: bool

definition empty_snapshot :: "int \<Rightarrow> string \<Rightarrow> snapshot" where
  "empty_snapshot v g = \<lparr>s_SchemaVersion = v, s_Generation = g, s_Revision = 0, s_Sessions = [],
     s_Connected = False, s_NavigationError = []\<rparr>"

definition NewBridge :: bridge where
  "NewBridge = \<lparr>b_generation = [], b_token = [], b_origin = [], b_client = False, b_cancel = False,
     b_done = False, b_state = empty_snapshot 0 [], b_openWindow = False, b_sendCommand = False,
     navigationSequence = 0, navigationID = [], navigationCancel = False\<rparr>"

definition SetNavigation :: "bool \<Rightarrow> bool \<Rightarrow> bridge \<Rightarrow> bridge" where
  "SetNavigation ow sc b = b\<lparr>b_openWindow := ow, b_sendCommand := sc\<rparr>"

definition stop :: "bridge \<Rightarrow> bridge" where
  "stop b = b\<lparr>b_cancel := False, b_done := False, navigationCancel := False, navigationID := []\<rparr>"

datatype begin_error = MissingGeneration | RandomFailed

text \<open>The token is the hexadecimal text of 32 random bytes, or the error of the random source.\<close>

definition Begin :: "string \<Rightarrow> string option \<Rightarrow> bridge \<Rightarrow> bridge \<times> (begin_error + (string \<times> string) list)" where
  "Begin generation random b =
    (if generation = [] then (b, Inl MissingGeneration)
     else let b1 = stop b in
       case random of
         None \<Rightarrow> (b1, Inl RandomFailed)
       | Some token \<Rightarrow>
           (b1\<lparr>b_generation := generation, b_token := token, b_origin := [], b_client := False,
               b_state := empty_snapshot 1 generation\<rparr>,
            Inr [(''generation'', generation), (''token'', token)]))"

record parsed_url =
  u_Scheme :: string
  u_Hostname :: string
  u_Host :: string
  u_User :: bool

definition Start :: "bool \<Rightarrow> parsed_url option \<Rightarrow> bridge \<Rightarrow> bridge" where
  "Start transport url b =
    (if \<not> transport then b
     else case url of
       None \<Rightarrow> b
     | Some u \<Rightarrow>
         if u_Scheme u \<noteq> ''http'' \<or> u_Hostname u \<noteq> ''127.0.0.1'' \<or> u_User u then b
         else (stop b)\<lparr>b_cancel := True, b_done := True, b_client := True,
                b_origin := u_Scheme u @ ''://'' @ u_Host u\<rparr>)"

text \<open>The delay before the next attempt of the goroutine of \<open>Start\<close>, in milliseconds.\<close>

definition activityRetryMinimum :: nat where
  "activityRetryMinimum = 500"

definition activityRetryMaximum :: nat where
  "activityRetryMaximum = 5000"

fun retry_waits :: "bool list \<Rightarrow> nat \<Rightarrow> nat list" where
  "retry_waits [] d = []"
| "retry_waits (receivedFrame # rest) d =
    (let d' = (if receivedFrame then activityRetryMinimum else d)
     in d' # retry_waits rest (min (d' * 2) activityRetryMaximum))"

definition disconnected :: "string \<Rightarrow> bridge \<Rightarrow> bridge" where
  "disconnected generation b =
    (if b_generation b \<noteq> generation \<or> \<not> s_Connected (b_state b) then b
     else b\<lparr>b_state := (b_state b)\<lparr>s_Connected := False\<rparr>\<rparr>)"

definition accept :: "string \<Rightarrow> snapshot \<Rightarrow> bridge \<Rightarrow> bridge" where
  "accept generation st b =
    (case normalize st of
       None \<Rightarrow> disconnected generation b
     | Some st' \<Rightarrow>
         if b_generation b \<noteq> generation then b
         else b\<lparr>b_state := st'\<lparr>s_Connected := True, s_NavigationError := s_NavigationError (b_state b)\<rparr>\<rparr>)"

text \<open>The copy through JSON of \<open>Snapshot\<close> is the value itself.\<close>

definition Snapshot :: "bridge \<Rightarrow> snapshot" where
  "Snapshot b = b_state b"

datatype open_error = ActivityUnavailable | NavigationUnavailable | ContextEnded | WindowFailed string | NoWindow

definition openSessionTimeout :: nat where
  "openSessionTimeout = 15000"

record open_command =
  oc_window :: string
  oc_id :: string
  oc_sessionId :: string
  oc_parentSessionId :: string

definition find_session :: "string \<Rightarrow> bridge \<Rightarrow> activity option" where
  "find_session i b = find (\<lambda>a. a_SessionID a = i) (s_Sessions (b_state b))"

text \<open>The second critical section of \<open>Open\<close>.\<close>

definition open_commit :: "bridge \<Rightarrow> bridge" where
  "open_commit b =
    (let n = navigationSequence b + 1 in
     b\<lparr>navigationSequence := n, navigationID := show_nat (unat n), navigationCancel := True,
       b_state := (b_state b)\<lparr>s_NavigationError := []\<rparr>\<rparr>)"

definition Open ::
    "bool \<Rightarrow> (string \<Rightarrow> string + string) \<Rightarrow> bool \<Rightarrow> string \<Rightarrow> string \<Rightarrow> bridge \<Rightarrow>
     bridge \<times> (open_error + open_command)" where
  "Open ended1 openWindow ended2 i window b =
    (case find_session i b of
       None \<Rightarrow> (b, Inl ActivityUnavailable)
     | Some a \<Rightarrow>
         if \<not> (b_client b \<and> s_Connected (b_state b)) then (b, Inl ActivityUnavailable)
         else if \<not> b_openWindow b \<or> \<not> b_sendCommand b then (b, Inl NavigationUnavailable)
         else if ended1 then (b, Inl ContextEnded)
         else case openWindow (if window = [] then ''workspace'' else window) of
           Inl e \<Rightarrow> (b, Inl (WindowFailed e))
         | Inr actual \<Rightarrow>
             if actual = [] then (b, Inl NoWindow)
             else if ended2 then (b, Inl ContextEnded)
             else let b' = open_commit b in
               (b', Inr \<lparr>oc_window = actual, oc_id = navigationID b', oc_sessionId = i,
                         oc_parentSessionId = a_ParentSessionID a\<rparr>))"

definition ReportSessionOpened :: "string \<Rightarrow> string \<Rightarrow> bridge \<Rightarrow> bridge" where
  "ReportSessionOpened i reportedError b =
    (if i = [] \<or> navigationID b \<noteq> i then b
     else b\<lparr>navigationCancel := False, navigationID := [],
            b_state := (b_state b)\<lparr>s_NavigationError := clean reportedError 160\<rparr>\<rparr>)"

definition navigationTimedOut :: "string \<Rightarrow> string \<Rightarrow> bridge \<Rightarrow> bridge" where
  "navigationTimedOut generation i b =
    (if b_generation b \<noteq> generation \<or> navigationID b \<noteq> i then b
     else b\<lparr>navigationID := [], navigationCancel := False,
            b_state := (b_state b)\<lparr>s_NavigationError := ''Conversation is unavailable''\<rparr>\<rparr>)"

definition Close :: "bridge \<Rightarrow> bridge" where
  "Close b = stop b"

subsection \<open>Runs of the bridge\<close>

text \<open>What a goroutine of some generation does to the bridge.\<close>

datatype worker_op = WAccept snapshot | WDisconnected | WTimedOut string

fun worker_act :: "worker_op \<Rightarrow> string \<Rightarrow> bridge \<Rightarrow> bridge" where
  "worker_act (WAccept st) g b = accept g st b"
| "worker_act WDisconnected g b = disconnected g b"
| "worker_act (WTimedOut i) g b = navigationTimedOut g i b"

datatype bridge_op =
    BSetNavigation bool bool
  | BBegin string "string option"
  | BStart bool "parsed_url option"
  | BWorker string worker_op
  | BOpenCommit
  | BReportSessionOpened string string
  | BClose

fun bridge_step :: "bridge_op \<Rightarrow> bridge \<Rightarrow> bridge" where
  "bridge_step (BSetNavigation ow sc) b = SetNavigation ow sc b"
| "bridge_step (BBegin g random) b = fst (Begin g random b)"
| "bridge_step (BStart transport url) b = Start transport url b"
| "bridge_step (BWorker g x) b = worker_act x g b"
| "bridge_step BOpenCommit b = open_commit b"
| "bridge_step (BReportSessionOpened i e) b = ReportSessionOpened i e b"
| "bridge_step BClose b = Close b"

definition bridge_inv :: "bridge \<Rightarrow> bool" where
  "bridge_inv b \<longleftrightarrow> normal_sessions (s_Sessions (b_state b)) \<and> clean_text 160 (s_NavigationError (b_state b))
     \<and> (navigationID b = [] \<or> navigationID b = show_nat (unat (navigationSequence b)))"

lemma normal_sessions_Nil [simp]: "normal_sessions []"
  by (simp add: normal_sessions_def)

lemma clean_text_graphic:
  "\<forall>c \<in> set s. 0x20 \<le> byte c \<and> byte c < 0x7F \<Longrightarrow> length s \<le> n \<Longrightarrow> clean_text n s"
proof -
  assume a: "\<forall>c \<in> set s. 0x20 \<le> byte c \<and> byte c < 0x7F" "length s \<le> n"
  then have "chunks s = map (\<lambda>c. (byte c, [c])) s" by (intro chunks_ascii) auto
  with a show "clean_text n s" by (auto simp: clean_text_def rune_count_def runes_def is_control_def)
qed

lemma clean_text_messages [simp]:
  "clean_text 160 []" "clean_text 160 ''Conversation is unavailable''"
  by (rule clean_text_graphic; simp)+

lemma bridge_step_inv [keeps_inv]:
  assumes "bridge_inv b"
  shows "bridge_inv (bridge_step x b)"
proof (cases x)
  case (BWorker g y)
  then show ?thesis
    using assms normalize_normal
    by (cases y) (auto simp: bridge_inv_def accept_def disconnected_def navigationTimedOut_def split: option.split)
qed (use assms in \<open>auto simp: bridge_inv_def SetNavigation_def Begin_def Start_def stop_def open_commit_def
      ReportSessionOpened_def Close_def empty_snapshot_def Let_def split: option.split\<close>)

interpretation bridge_sys: invariant_system NewBridge bridge_step bridge_inv
  by unfold_locales (simp add: bridge_inv_def NewBridge_def empty_snapshot_def, rule bridge_step_inv)

interpretation bridge_gen: generation_guarded b_generation worker_act
proof
  fix g b x
  show "g \<noteq> b_generation b \<Longrightarrow> worker_act x g b = b"
    by (cases x) (auto simp: accept_def disconnected_def navigationTimedOut_def split: option.split)
  show "b_generation (worker_act x g b) = b_generation b"
    by (cases x) (auto simp: accept_def disconnected_def navigationTimedOut_def split: option.split)
qed

text \<open>The pet can always be drawn: after any interleaving of worker generations, snapshots,
  disconnections, navigations and restarts, the bridge's snapshot holds well-formed,
  ordered sessions, a bounded navigation error, and projects to an animation.\<close>

theorem pet_projection_safe:
  "normal_sessions (s_Sessions (Snapshot (fold bridge_step ops NewBridge)))
   \<and> clean_text 160 (s_NavigationError (Snapshot (fold bridge_step ops NewBridge)))
   \<and> (\<exists>kind key. AnimationIntent (Snapshot (fold bridge_step ops NewBridge)) = Some (kind, key))"
  using bridge_sys.inv_run [of ops] AnimationIntent_total by (simp add: bridge_inv_def Snapshot_def)

text \<open>A late message of an old Worker is harmless: of any interleaving of snapshots,
  disconnections and navigation time-outs of several generations, only those of the
  bridge's current generation have an effect.\<close>

theorem stale_worker_messages_ignored:
  "fold (\<lambda>(g, x). worker_act x g) xs b
     = fold (\<lambda>(g, x). worker_act x g) (filter (\<lambda>(g, x). g = b_generation b) xs) b"
  using bridge_gen.runs_drop_stale [of xs b] by (simp add: bridge_gen.runs_def)

text \<open>Only the most recent navigation commits, and once: in every reachable bridge a report
  about an opened session changes something only if it names the newest navigation
  number, and repeating a report changes nothing more.\<close>

theorem navigation_newest_only:
  "let b = fold bridge_step ops NewBridge in
     (ReportSessionOpened i e b = b \<or> i = show_nat (unat (navigationSequence b)))
     \<and> ReportSessionOpened i e' (ReportSessionOpened i e b) = ReportSessionOpened i e b"
proof -
  let ?b = "fold bridge_step ops NewBridge"
  have "navigationID ?b = [] \<or> navigationID ?b = show_nat (unat (navigationSequence ?b))"
    using bridge_sys.inv_run [of ops] by (simp add: bridge_inv_def)
  then have "ReportSessionOpened i e ?b = ?b \<or> i = show_nat (unat (navigationSequence ?b))"
    by (auto simp: ReportSessionOpened_def)
  moreover have "ReportSessionOpened i e' (ReportSessionOpened i e b) = ReportSessionOpened i e b" for b
    by (simp add: ReportSessionOpened_def)
  ultimately show ?thesis by (simp add: Let_def)
qed

lemma retry_waits_bounded:
  "activityRetryMinimum \<le> d \<Longrightarrow> d \<le> activityRetryMaximum \<Longrightarrow>
     \<forall>w \<in> set (retry_waits rs d). activityRetryMinimum \<le> w \<and> w \<le> activityRetryMaximum"
proof (induction rs arbitrary: d)
  case (Cons r rs)
  let ?d = "if r then activityRetryMinimum else d"
  have d: "activityRetryMinimum \<le> ?d" "?d \<le> activityRetryMaximum"
    using Cons.prems by (auto simp: activityRetryMinimum_def activityRetryMaximum_def)
  then have "activityRetryMinimum \<le> min (?d * 2) activityRetryMaximum" by linarith
  from Cons.IH [OF this] d show ?case by (simp add: Let_def)
qed simp

subsection \<open>Frames\<close>

lemma take_field_length: "take_field line = (field, v) \<Longrightarrow> length v \<le> length line"
  by (auto simp: take_field_def trim_prefix_def cut_byte_Some split: option.splits if_splits)

lemma read_lines_bounded:
  assumes "Frame e d \<in> set (read_lines end_error ls ev data n)" "length data \<le> n" "n \<le> activityFrameLimit"
  shows "length d \<le> activityFrameLimit"
  using assms
proof (induction ls arbitrary: ev data n)
  case (Cons line ls)
  obtain field v where f: "take_field line = (field, v)" by (cases "take_field line")
  let ?n = "n + (length line + 1)"
  have "length v \<le> length line" using take_field_length [OF f] .
  moreover have "length (trim_suffix data [newline]) \<le> n"
    using Cons.prems(2) by (auto simp: trim_suffix_def intro: le_trans [OF diff_le_self])
  ultimately show ?case
    using Cons.prems Cons.IH [of "[]" "[]" 0] Cons.IH [of ev data ?n] Cons.IH [of v data ?n]
      Cons.IH [of ev "data @ v @ [newline]" ?n]
    by (auto simp: f Let_def split: if_splits)
qed simp

lemma readActivityFrames_bounded:
  assumes "Frame e d \<in> set (readActivityFrames c rf body)"
  shows "length d \<le> activityFrameLimit"
proof -
  obtain ls err where "scan rf body = (ls, err)" by (cases "scan rf body")
  with assms have "Frame e d \<in> set (read_lines err ls [] [] 0)"
    by (auto simp: readActivityFrames_def Let_def dest: in_set_takeD split: option.splits)
  then show ?thesis by (rule read_lines_bounded) simp_all
qed

lemma receive_frames_error:
  "snd (receive_frames decode g fs) = SnapshotTooLarge \<Longrightarrow> \<exists>e d. Frame e d \<in> set fs \<and> length d > activityFrameLimit"
proof (induction fs)
  case (Cons f fs)
  then show ?case
    by (cases "handle_frame decode g f")
       (auto simp: case_prod_unfold, auto simp: handle_frame_def split: frame.splits if_splits option.splits)
qed simp

lemma receive_frames_accepted:
  "st \<in> set (fst (receive_frames decode g fs)) \<Longrightarrow>
     length (s_Sessions st) \<le> 256 \<and> s_Generation st = g \<and> normal_sessions (s_Sessions st)"
proof (induction fs)
  case (Cons f fs)
  show ?case
  proof (cases "handle_frame decode g f")
    case (Accepted st')
    then obtain st0 where "normalize st0 = Some st'" "length (s_Sessions st0) \<le> 256" "s_Generation st0 = g"
      by (auto simp: handle_frame_def split: frame.splits if_splits option.splits)
    then have "length (s_Sessions st') \<le> 256 \<and> s_Generation st' = g \<and> normal_sessions (s_Sessions st')"
      using normalize_Some(3) [of st0 st'] normalize_normal [of st0 st'] by simp
    with Accepted Cons show ?thesis by (auto simp: case_prod_unfold)
  qed (use Cons in auto)
qed simp

text \<open>The stream reader is bounded: whatever bytes the Worker sends, no frame carries more
  than \<open>2 ^ 20\<close> bytes of data, so the size check of the receiver never fires, and every
  snapshot handed to the bridge is of the expected generation, has at most 256 sessions
  and is well formed.\<close>

theorem activity_stream_bounded:
  "(\<forall>e d. Frame e d \<in> set (readActivityFrames c rf body) \<longrightarrow> length d \<le> 2 ^ 20)
   \<and> snd (receive_frames decode g (readActivityFrames c rf body)) \<noteq> SnapshotTooLarge
   \<and> (\<forall>st \<in> set (fst (receive_frames decode g (readActivityFrames c rf body))).
        length (s_Sessions st) \<le> 256 \<and> s_Generation st = g \<and> normal_sessions (s_Sessions st))"
proof (intro conjI allI impI ballI)
  show "length d \<le> 2 ^ 20" if "Frame e d \<in> set (readActivityFrames c rf body)" for e d
    using readActivityFrames_bounded [OF that] by (simp add: activityFrameLimit_def)
  show "snd (receive_frames decode g (readActivityFrames c rf body)) \<noteq> SnapshotTooLarge"
    using receive_frames_error [of decode g] readActivityFrames_bounded [of _ _ c rf body] by (meson not_le)
  fix st assume "st \<in> set (fst (receive_frames decode g (readActivityFrames c rf body)))"
  from receive_frames_accepted [OF this]
  show "length (s_Sessions st) \<le> 256" "s_Generation st = g" "normal_sessions (s_Sessions st)" by auto
qed

subsection \<open>Reading back encoded events\<close>

text \<open>An event as a server writes it.\<close>

definition event_lines :: "string \<times> string list \<Rightarrow> string list" where
  "event_lines ev = (''event: '' @ fst ev) # map (\<lambda>d. ''data: '' @ d) (snd ev) @ [[]]"

definition encode_event :: "string \<times> string list \<Rightarrow> string" where
  "encode_event ev = concat (map (\<lambda>l. l @ [newline]) (event_lines ev))"

definition plain_line :: "string \<Rightarrow> bool" where
  "plain_line l \<longleftrightarrow> newline \<notin> set l \<and> (l = [] \<or> last l \<noteq> CHR 0x0D)"

definition encodable :: "string \<times> string list \<Rightarrow> bool" where
  "encodable ev \<longleftrightarrow> fst ev \<noteq> [] \<and> plain_line (fst ev) \<and> list_all plain_line (snd ev)
     \<and> length (encode_event ev) \<le> activityFrameLimit"

lemma scan_line:
  assumes "plain_line l" "length l < activityFrameLimit"
  shows "scan rf (l @ newline # rest) = (l # fst (scan rf rest), snd (scan rf rest))"
proof -
  have "cut_byte newline (l @ newline # rest) = Some (l, rest)"
    using assms(1) by (simp add: cut_byte_Some plain_line_def)
  moreover have "drop_cr l = l" using assms(1) by (auto simp: drop_cr_def plain_line_def)
  ultimately show ?thesis
    using assms(2) by (subst scan.simps) (simp add: case_prod_unfold)
qed

lemma scan_lines:
  assumes "list_all plain_line ls" "\<forall>l \<in> set ls. length l < activityFrameLimit"
  shows "scan rf (concat (map (\<lambda>l. l @ [newline]) ls) @ rest) = (ls @ fst (scan rf rest), snd (scan rf rest))"
  using assms by (induction ls) (auto simp: scan_line)

lemma length_line_le: "l \<in> set ls \<Longrightarrow> length l < length (concat (map (\<lambda>l. l @ [newline]) ls))"
  by (induction ls) auto

lemma plain_event_lines: "encodable ev \<Longrightarrow> list_all plain_line (event_lines ev)"
  by (auto simp: encodable_def event_lines_def list_all_iff plain_line_def newline_def)

lemma scan_events:
  assumes "list_all encodable evs"
  shows "scan False (concat (map encode_event evs)) = (concat (map event_lines evs), EndOfStream)"
  using assms
proof (induction evs)
  case Nil
  show ?case by (simp add: scan.simps activityFrameLimit_def)
next
  case (Cons ev evs)
  then have ev: "encodable ev" by simp
  have "\<forall>l \<in> set (event_lines ev). length l < activityFrameLimit"
    using length_line_le [of _ "event_lines ev"] ev by (fastforce simp: encodable_def encode_event_def)
  from scan_lines [OF plain_event_lines [OF ev] this, of False "concat (map encode_event evs)"] Cons
  show ?case by (simp add: encode_event_def [of ev])
qed

lemma take_field_simps:
  "take_field (''event: '' @ v) = (''event'', v)" "take_field (''data: '' @ v) = (''data'', v)"
  by (simp_all add: take_field_def trim_prefix_def has_prefix_def)

definition data_bytes :: "string list \<Rightarrow> string" where
  "data_bytes ds = concat (map (\<lambda>d. d @ [newline]) ds)"

lemma read_data_lines:
  assumes "n + length (concat (map (\<lambda>d. ''data: '' @ d @ [newline]) ds)) + 1 \<le> activityFrameLimit" "ev \<noteq> []"
  shows "read_lines err (map (\<lambda>d. ''data: '' @ d) ds @ [] # rest) ev data n
     = Frame ev (trim_suffix (data @ data_bytes ds) [newline]) # read_lines err rest [] [] 0"
  using assms(1)
proof (induction ds arbitrary: data n)
  case Nil
  then show ?case using assms(2) by (simp add: data_bytes_def)
next
  case (Cons d ds)
  have "\<not> has_prefix (''data: '' @ d) '':''" by (simp add: has_prefix_def)
  with Cons.prems Cons.IH [of "n + (length (''data: '' @ d) + 1)" "data @ d @ [newline]"]
  show ?case using take_field_simps(2) [of d] by (simp add: Let_def data_bytes_def)
qed

lemma trim_data_bytes: "trim_suffix (data_bytes ds) [newline] = join ds [newline]"
proof (induction ds rule: rev_induct)
  case (snoc d ds)
  have "join (xs @ [d]) [newline] = data_bytes xs @ d" for xs
  proof (induction xs)
    case (Cons x xs)
    then show ?case by (cases xs) (auto simp: data_bytes_def)
  qed (simp add: data_bytes_def)
  then show ?case by (simp add: data_bytes_def trim_suffix_def has_suffix_def)
qed (simp add: data_bytes_def trim_suffix_def has_suffix_def)

lemma read_event:
  assumes "encodable ev"
  shows "read_lines err (event_lines ev @ rest) [] [] 0
     = Frame (fst ev) (join (snd ev) [newline]) # read_lines err rest [] [] 0"
proof -
  let ?l = "''event: '' @ fst ev"
  have bytes: "length (encode_event ev) = (length ?l + 1)
      + length (concat (map (\<lambda>d. ''data: '' @ d @ [newline]) (snd ev))) + 1"
    by (simp add: encode_event_def event_lines_def comp_def)
  have "\<not> has_prefix ?l '':''" by (simp add: has_prefix_def)
  moreover have "read_lines err (map (\<lambda>d. ''data: '' @ d) (snd ev) @ [] # rest) (fst ev) [] (length ?l + 1)
      = Frame (fst ev) (join (snd ev) [newline]) # read_lines err rest [] [] 0"
    using read_data_lines [of "length ?l + 1" "snd ev" "fst ev" err rest "[]"] assms bytes trim_data_bytes
    by (simp add: encodable_def)
  ultimately show ?thesis
    using assms bytes take_field_simps(1) [of "fst ev"]
    by (simp add: event_lines_def encodable_def Let_def)
qed

lemma read_encoded_events:
  assumes "list_all encodable evs"
  shows "readActivityFrames None False (concat (map encode_event evs))
    = map (\<lambda>(name, ds). Frame name (join ds [newline])) evs @ [FrameError EndOfStream]"
proof -
  have "read_lines EndOfStream (concat (map event_lines evs)) [] [] 0
      = map (\<lambda>(name, ds). Frame name (join ds [newline])) evs @ [FrameError EndOfStream]"
    using assms by (induction evs) (auto simp: read_event case_prod_unfold)
  then show ?thesis by (simp add: readActivityFrames_def scan_events [OF assms])
qed

text \<open>The reader understands what a server writes: the bytes of any sequence of events, each
  with a name, any number of data lines and at most \<open>2 ^ 20\<close> bytes, are read back as exactly
  those events in order, followed by the end of the stream.\<close>

theorem event_stream_roundtrip:
  assumes "list_all encodable evs"
  shows "readActivityFrames None False (concat (map encode_event evs))
    = map (\<lambda>(name, ds). Frame name (join ds [newline])) evs @ [FrameError EndOfStream]"
  using assms by (rule read_encoded_events)

definition example_event :: "string \<times> string list" where
  "example_event = (''snapshot'', [''{'', ''}''])"

lemma example_encodable: "list_all encodable [example_event]"
  by (simp add: example_event_def encodable_def plain_line_def newline_def encode_event_def event_lines_def
      activityFrameLimit_def)

theorem event_stream_roundtrip_witness:
  "readActivityFrames None False (concat (map encode_event [example_event]))
    = [Frame ''snapshot'' (''{'' @ newline # ''}''), FrameError EndOfStream]"
  using event_stream_roundtrip [OF example_encodable] by (simp add: example_event_def)

theorem activity_stream_bounded_witness:
  "Frame ''snapshot'' (''{'' @ newline # ''}'')
      \<in> set (readActivityFrames None False (concat (map encode_event [example_event])))
   \<and> length (''{'' @ newline # ''}'') \<le> 2 ^ 20"
proof -
  have f: "Frame ''snapshot'' (''{'' @ newline # ''}'')
      \<in> set (readActivityFrames None False (concat (map encode_event [example_event])))"
    unfolding read_encoded_events [OF example_encodable] by (simp add: example_event_def)
  then show ?thesis using activity_stream_bounded by blast
qed

end
