(* ===== verification/Trailing_Publisher.thy ===== *)
theory Trailing_Publisher
  imports Prelude "HOL-Library.Word"
begin

text \<open>
  \<open>internal/desktopapp/trailing_publisher.go\<close>: a publisher that limits a high-volume value
  stream and keeps the latest value.  Its critical sections are functions; the clock,
  the timer callbacks and the goroutine that owns \<open>drain\<close> are steps of a relation, in any
  interleaving.  A callback of a timer that was stopped too late is a \<open>flush\<close> with an old
  identifier.  Times and durations are nanoseconds.
\<close>

subsection \<open>The publisher\<close>

record 'a publisher =
  interval :: int
  has_publish :: bool
  merge :: "('a \<Rightarrow> 'a \<Rightarrow> 'a) option"
  lastPublished :: int
  hasPublished :: bool
  pending :: "'a option"
  timer :: "int option"
  timerID :: "64 word"
  outbox :: "'a list"
  draining :: bool
  closed :: bool

text \<open>The field \<open>timer\<close> holds the time at which the armed timer fires.\<close>

definition newTrailingPublisher :: "int \<Rightarrow> bool \<Rightarrow> ('a \<Rightarrow> 'a \<Rightarrow> 'a) option \<Rightarrow> 'a publisher" where
  "newTrailingPublisher d has_pub mrg = \<lparr>interval = d, has_publish = has_pub, merge = mrg, lastPublished = 0,
     hasPublished = False, pending = None, timer = None, timerID = 0, outbox = [], draining = False,
     closed = False\<rparr>"

definition setPendingLocked :: "'a \<Rightarrow> 'a publisher \<Rightarrow> 'a publisher" where
  "setPendingLocked v p = p\<lparr>pending := Some
     (case (pending p, merge p) of (Some w, Some f) \<Rightarrow> f w v | _ \<Rightarrow> v)\<rparr>"

definition clearPendingLocked :: "'a publisher \<Rightarrow> 'a publisher" where
  "clearPendingLocked p =
    (case timer p of None \<Rightarrow> p | Some t \<Rightarrow> p\<lparr>timer := None, timerID := timerID p + 1\<rparr>)\<lparr>pending := None\<rparr>"

definition enqueueLocked :: "'a \<Rightarrow> 'a publisher \<Rightarrow> 'a publisher \<times> bool" where
  "enqueueLocked v p =
    (if draining p then (p\<lparr>outbox := outbox p @ [v]\<rparr>, False)
     else (p\<lparr>outbox := outbox p @ [v], draining := True\<rparr>, True))"

definition enqueue :: "int \<Rightarrow> 'a \<Rightarrow> bool \<Rightarrow> 'a publisher \<Rightarrow> 'a publisher \<times> bool" where
  "enqueue now v throttle p =
    (if closed p \<or> \<not> has_publish p then (p, False)
     else if throttle \<and> hasPublished p \<and> now - lastPublished p < interval p then
       (let p1 = setPendingLocked v p in
        (case timer p1 of
           Some t \<Rightarrow> p1
         | None \<Rightarrow> p1\<lparr>timerID := timerID p1 + 1, timer := Some (now + (interval p1 - (now - lastPublished p1)))\<rparr>,
         False))
     else
       let w = (if throttle then (case (pending p, merge p) of (Some u, Some f) \<Rightarrow> f u v | _ \<Rightarrow> v) else v)
       in enqueueLocked w ((clearPendingLocked p)\<lparr>lastPublished := now, hasPublished := True\<rparr>))"

definition flush :: "int \<Rightarrow> 64 word \<Rightarrow> 'a publisher \<Rightarrow> 'a publisher \<times> bool" where
  "flush now i p =
    (if closed p \<or> timerID p \<noteq> i then (p, False)
     else case pending p of
       None \<Rightarrow> (p\<lparr>timer := None\<rparr>, False)
     | Some v \<Rightarrow> enqueueLocked v (p\<lparr>timer := None, pending := None, lastPublished := now, hasPublished := True\<rparr>))"

text \<open>One iteration of \<open>drain\<close>: the value to publish, or the end of the loop.\<close>

definition drain_next :: "'a publisher \<Rightarrow> 'a publisher \<times> 'a option" where
  "drain_next p =
    (if closed p then (p\<lparr>outbox := [], draining := False\<rparr>, None)
     else case outbox p of
       [] \<Rightarrow> (p\<lparr>outbox := [], draining := False\<rparr>, None)
     | v # vs \<Rightarrow> (p\<lparr>outbox := vs\<rparr>, Some v))"

definition close :: "'a publisher \<Rightarrow> 'a publisher" where
  "close p = (clearPendingLocked (p\<lparr>closed := True\<rparr>))\<lparr>outbox := []\<rparr>"

subsection \<open>Runs\<close>

text \<open>
  The history of a run: the clock, the values published, the latest value enqueued, and
  for every value that entered the outbox its time and whether it was throttled.
\<close>

record 'a run =
  pub :: "'a publisher"
  clock :: int
  published :: "'a list"
  latest :: "'a option"
  stamps :: "(int \<times> bool) list"

definition stamped :: "bool \<Rightarrow> 'a publisher \<Rightarrow> 'a run \<Rightarrow> (int \<times> bool) list" where
  "stamped throttle p' r =
    stamps r @ (if length (outbox p') > length (outbox (pub r)) then [(clock r, throttle)] else [])"

inductive pub_step :: "'a run \<Rightarrow> 'a run \<Rightarrow> bool" where
  tick: "clock r \<le> t \<Longrightarrow> pub_step r (r\<lparr>clock := t\<rparr>)"
| enqueue_value: "p' = fst (enqueue (clock r) v throttle (pub r)) \<Longrightarrow>
    pub_step r (r\<lparr>pub := p', stamps := stamped throttle p' r,
      latest := (if closed (pub r) \<or> \<not> has_publish (pub r) then latest r else Some v)\<rparr>)"
| timer_fires: "p' = fst (flush (clock r) i (pub r)) \<Longrightarrow>
    (\<And>t. i = timerID (pub r) \<Longrightarrow> timer (pub r) = Some t \<Longrightarrow> t \<le> clock r) \<Longrightarrow>
    pub_step r (r\<lparr>pub := p', stamps := stamped True p' r\<rparr>)"
| drain_value: "draining (pub r) \<Longrightarrow> drain_next (pub r) = (p', Some v) \<Longrightarrow>
    pub_step r (r\<lparr>pub := p', published := published r @ [v]\<rparr>)"
| drain_end: "draining (pub r) \<Longrightarrow> drain_next (pub r) = (p', None) \<Longrightarrow> pub_step r (r\<lparr>pub := p'\<rparr>)"
| close_publisher: "pub_step r (r\<lparr>pub := close (pub r)\<rparr>)"

inductive pub_reachable :: "int \<Rightarrow> ('a \<Rightarrow> 'a \<Rightarrow> 'a) option \<Rightarrow> 'a run \<Rightarrow> bool" for d mrg where
  new: "pub_reachable d mrg \<lparr>pub = newTrailingPublisher d has_pub mrg, clock = t, published = [], latest = None, stamps = []\<rparr>"
| step: "pub_reachable d mrg r \<Longrightarrow> pub_step r r' \<Longrightarrow> pub_reachable d mrg r'"

inductive_cases pub_stepE: "pub_step r r'"

subsection \<open>Invariants\<close>

text \<open>Who is responsible for a value that is not published yet.\<close>

definition owner_inv :: "'a publisher \<Rightarrow> bool" where
  "owner_inv p \<longleftrightarrow> (pending p \<noteq> None \<longrightarrow> timer p \<noteq> None) \<and> (outbox p \<noteq> [] \<longrightarrow> draining p)
     \<and> (closed p \<longrightarrow> pending p = None \<and> outbox p = [])"

text \<open>Consecutive stamps: a throttled one keeps its distance.\<close>

fun spaced :: "int \<Rightarrow> (int \<times> bool) list \<Rightarrow> bool" where
  "spaced d ((t, a) # (u, b) # xs) = ((b \<longrightarrow> d \<le> u - t) \<and> spaced d ((u, b) # xs))"
| "spaced d xs = True"

lemma spaced_snoc:
  "spaced d (xs @ [(t, b)]) \<longleftrightarrow> spaced d xs \<and> (xs \<noteq> [] \<longrightarrow> b \<longrightarrow> d \<le> t - fst (last xs))"
  by (induction d xs rule: spaced.induct) auto

lemma spaced_nth: "spaced d xs \<Longrightarrow> Suc i < length xs \<Longrightarrow> snd (xs ! Suc i) \<Longrightarrow> d \<le> fst (xs ! Suc i) - fst (xs ! i)"
proof (induction d xs arbitrary: i rule: spaced.induct)
  case (1 d t a u b xs)
  then show ?case by (cases i) auto
qed auto

definition rate_inv :: "int \<Rightarrow> 'a run \<Rightarrow> bool" where
  "rate_inv d r \<longleftrightarrow> interval (pub r) = d \<and> spaced d (stamps r)
     \<and> (hasPublished (pub r) \<longleftrightarrow> stamps r \<noteq> [])
     \<and> (stamps r \<noteq> [] \<longrightarrow> fst (last (stamps r)) = lastPublished (pub r))
     \<and> (\<forall>t. timer (pub r) = Some t \<longrightarrow> stamps r \<noteq> [] \<and> t = lastPublished (pub r) + d)"

definition latest_inv :: "'a run \<Rightarrow> bool" where
  "latest_inv r \<longleftrightarrow> (closed (pub r) \<or> latest r =
     (case pending (pub r) of Some v \<Rightarrow> Some v
      | None \<Rightarrow> if published r @ outbox (pub r) = [] then None else Some (last (published r @ outbox (pub r)))))"

lemmas publisher_ops = enqueue_def flush_def drain_next_def close_def setPendingLocked_def
  clearPendingLocked_def enqueueLocked_def

lemma enqueueLocked_simps [simp]:
  "outbox (fst (enqueueLocked v p)) = outbox p @ [v]" "draining (fst (enqueueLocked v p))"
  "pending (fst (enqueueLocked v p)) = pending p" "timer (fst (enqueueLocked v p)) = timer p"
  "closed (fst (enqueueLocked v p)) = closed p" "interval (fst (enqueueLocked v p)) = interval p"
  "hasPublished (fst (enqueueLocked v p)) = hasPublished p" "merge (fst (enqueueLocked v p)) = merge p"
  "lastPublished (fst (enqueueLocked v p)) = lastPublished p"
  by (simp_all add: enqueueLocked_def)

lemma clearPendingLocked_simps [simp]:
  "outbox (clearPendingLocked p) = outbox p" "draining (clearPendingLocked p) = draining p"
  "pending (clearPendingLocked p) = None" "timer (clearPendingLocked p) = None"
  "closed (clearPendingLocked p) = closed p" "interval (clearPendingLocked p) = interval p"
  "hasPublished (clearPendingLocked p) = hasPublished p" "merge (clearPendingLocked p) = merge p"
  "lastPublished (clearPendingLocked p) = lastPublished p"
  by (simp_all add: clearPendingLocked_def split: option.split)

lemma setPendingLocked_simps [simp]:
  "outbox (setPendingLocked v p) = outbox p" "draining (setPendingLocked v p) = draining p"
  "timer (setPendingLocked v p) = timer p" "closed (setPendingLocked v p) = closed p"
  "interval (setPendingLocked v p) = interval p" "hasPublished (setPendingLocked v p) = hasPublished p"
  "lastPublished (setPendingLocked v p) = lastPublished p" "merge (setPendingLocked v p) = merge p"
  "pending (setPendingLocked v p) \<noteq> None"
  by (simp_all add: setPendingLocked_def)

text \<open>The three ways \<open>enqueue\<close> ends.\<close>

lemma enqueue_cases:
  obtains (ignored) "closed p \<or> \<not> has_publish p" "fst (enqueue now v throttle p) = p"
  | (held) "\<not> closed p" "has_publish p" "throttle" "hasPublished p" "now - lastPublished p < interval p"
      "fst (enqueue now v throttle p) = (case timer p of Some t \<Rightarrow> setPendingLocked v p
         | None \<Rightarrow> (setPendingLocked v p)\<lparr>timerID := timerID (setPendingLocked v p) + 1,
                    timer := Some (lastPublished p + interval p)\<rparr>)"
  | (queued) w where "\<not> closed p" "has_publish p" "throttle \<Longrightarrow> hasPublished p \<Longrightarrow> interval p \<le> now - lastPublished p"
      "fst (enqueue now v throttle p) = fst (enqueueLocked w ((clearPendingLocked p)\<lparr>lastPublished := now, hasPublished := True\<rparr>))"
      "merge p = None \<Longrightarrow> w = v"
proof (cases "closed p \<or> \<not> has_publish p")
  case True
  then show ?thesis by (intro ignored) (auto simp: enqueue_def)
next
  case open_: False
  show ?thesis
  proof (cases "throttle \<and> hasPublished p \<and> now - lastPublished p < interval p")
    case True
    with open_ show ?thesis by (intro held) (auto simp: enqueue_def Let_def split: option.split)
  next
    case False
    with open_ show ?thesis
      by (intro queued [of "if throttle then (case (pending p, merge p) of (Some u, Some f) \<Rightarrow> f u v | _ \<Rightarrow> v) else v"])
         (auto simp: enqueue_def Let_def split: option.split)
  qed
qed

lemma flush_cases:
  obtains (ignored) "fst (flush now i p) = p"
  | (nothing) "\<not> closed p" "timerID p = i" "pending p = None" "fst (flush now i p) = p\<lparr>timer := None\<rparr>"
  | (queued) v where "\<not> closed p" "timerID p = i" "pending p = Some v"
      "fst (flush now i p) = fst (enqueueLocked v
         (p\<lparr>timer := None, pending := None, lastPublished := now, hasPublished := True\<rparr>))"
proof (cases "closed p \<or> timerID p \<noteq> i")
  case True
  then show ?thesis by (intro ignored) (auto simp: flush_def)
next
  case current: False
  show ?thesis
  proof (cases "pending p")
    case None
    show ?thesis by (rule nothing) (use current None in \<open>auto simp: flush_def\<close>)
  next
    case (Some v)
    with current show ?thesis by (intro queued [of v]) (auto simp: flush_def)
  qed
qed

lemma owner_step: "pub_step r r' \<Longrightarrow> owner_inv (pub r) \<Longrightarrow> owner_inv (pub r')"
proof (induction rule: pub_step.induct)
  case (enqueue_value p' r v throttle)
  then show ?case
    by (cases rule: enqueue_cases [of "pub r" "clock r" v throttle])
       (auto simp: owner_inv_def split: option.split)
next
  case (timer_fires p' r i)
  then show ?case
    by (cases rule: flush_cases [of "clock r" i "pub r"]) (auto simp: owner_inv_def)
next
  case (drain_value r p' v)
  then show ?case by (auto simp: owner_inv_def drain_next_def split: if_splits list.splits)
next
  case (drain_end r p')
  then show ?case by (auto simp: owner_inv_def drain_next_def split: if_splits list.splits)
qed (auto simp: owner_inv_def close_def)

lemma rate_step: "pub_step r r' \<Longrightarrow> rate_inv d r \<and> owner_inv (pub r) \<Longrightarrow> rate_inv d r'"
proof (induction rule: pub_step.induct)
  case (enqueue_value p' r v throttle)
  then show ?case
    by (cases rule: enqueue_cases [of "pub r" "clock r" v throttle])
       (auto simp: rate_inv_def stamped_def spaced_snoc split: option.split)
next
  case (timer_fires p' r i)
  then show ?case
    by (cases rule: flush_cases [of "clock r" i "pub r"])
       (auto simp: rate_inv_def owner_inv_def stamped_def spaced_snoc)
next
  case (drain_value r p' v)
  then show ?case by (auto simp: rate_inv_def drain_next_def split: if_splits list.splits)
next
  case (drain_end r p')
  then show ?case by (auto simp: rate_inv_def drain_next_def split: if_splits list.splits)
qed (auto simp: rate_inv_def close_def)

lemma latest_step:
  "pub_step r r' \<Longrightarrow> merge (pub r) = None \<Longrightarrow> latest_inv r \<Longrightarrow> owner_inv (pub r) \<Longrightarrow>
     merge (pub r') = None \<and> latest_inv r'"
proof (induction rule: pub_step.induct)
  case (enqueue_value p' r v throttle)
  have p: "pending (setPendingLocked v (pub r)) = Some v"
    using enqueue_value by (simp add: setPendingLocked_def split: option.split)
  show ?case
    using enqueue_value p
    by (cases rule: enqueue_cases [of "pub r" "clock r" v throttle])
       (auto simp: latest_inv_def split: option.split)
next
  case (timer_fires p' r i)
  then show ?case
    by (cases rule: flush_cases [of "clock r" i "pub r"]) (auto simp: latest_inv_def split: option.splits)
next
  case (drain_value r p' v)
  then show ?case by (auto simp: latest_inv_def drain_next_def split: if_splits list.splits option.splits)
next
  case (drain_end r p')
  then show ?case by (auto simp: latest_inv_def drain_next_def split: if_splits list.splits option.splits)
qed (auto simp: latest_inv_def close_def split: option.splits)

lemma pub_reachable_inv: "pub_reachable d mrg r \<Longrightarrow> owner_inv (pub r) \<and> rate_inv d r"
proof (induction rule: pub_reachable.induct)
  case (new has_pub t)
  show ?case by (simp add: owner_inv_def rate_inv_def newTrailingPublisher_def)
next
  case (step r r')
  then show ?case using owner_step rate_step by blast
qed

lemma pub_reachable_latest: "pub_reachable d None r \<Longrightarrow> merge (pub r) = None \<and> latest_inv r"
proof (induction rule: pub_reachable.induct)
  case (new has_pub t)
  show ?case by (simp add: latest_inv_def newTrailingPublisher_def)
next
  case (step r r')
  then show ?case using latest_step pub_reachable_inv by metis
qed


text \<open>The latest value is never lost: a value that is held back always has an armed timer, a
  queued value always has a drain owner, and, when values are not merged, once neither
  exists the last published value is the latest one that was enqueued.\<close>

theorem latest_value_published:
  assumes "pub_reachable d None r" and "\<not> closed (pub r)"
  shows "(pending (pub r) = None \<or> timer (pub r) \<noteq> None) \<and> (outbox (pub r) = [] \<or> draining (pub r))
    \<and> (timer (pub r) = None \<longrightarrow> \<not> draining (pub r) \<longrightarrow>
        latest r = (if published r = [] then None else Some (last (published r))))"
  using pub_reachable_inv [OF assms(1)] pub_reachable_latest [OF assms(1)] assms(2)
  by (auto simp: owner_inv_def latest_inv_def)

subsection \<open>Witnesses\<close>

text \<open>One value published at once, a second one 3 later held back until time 10.\<close>

definition example_pub :: "int \<Rightarrow> nat list \<Rightarrow> 64 word \<Rightarrow> bool \<Rightarrow> nat publisher" where
  "example_pub lp ob tid dr = \<lparr>interval = 10, has_publish = True, merge = None, lastPublished = lp,
     hasPublished = True, pending = None, timer = None, timerID = tid, outbox = ob, draining = dr, closed = False\<rparr>"

definition example_run :: "nat run" where
  "example_run = \<lparr>pub = example_pub 10 [] 1 False, clock = 10, published = [1, 2], latest = Some 2,
     stamps = [(0, True), (10, True)]\<rparr>"

lemma example_run_reachable: "pub_reachable 10 None example_run"
proof -
  let ?r0 = "\<lparr>pub = newTrailingPublisher 10 True None, clock = 0, published = [], latest = None, stamps = []\<rparr> :: nat run"
  let ?r1 = "\<lparr>pub = example_pub 0 [1] 0 True, clock = 0, published = [], latest = Some 1, stamps = [(0, True)]\<rparr>"
  let ?r2 = "?r1\<lparr>pub := example_pub 0 [] 0 True, published := [1]\<rparr>"
  let ?r3 = "?r2\<lparr>clock := 3\<rparr>"
  let ?r4 = "?r3\<lparr>pub := (example_pub 0 [] 1 True)\<lparr>pending := Some 2, timer := Some 10\<rparr>, latest := Some 2\<rparr>"
  let ?r5 = "?r4\<lparr>clock := 10\<rparr>"
  let ?r6 = "?r5\<lparr>pub := example_pub 10 [2] 1 True, stamps := [(0, True), (10, True)]\<rparr>"
  let ?r7 = "?r6\<lparr>pub := example_pub 10 [] 1 True, published := [1, 2]\<rparr>"
  have "pub_step ?r0 ?r1"
    using pub_step.enqueue_value [of _ ?r0 1 True, OF refl]
    by (simp add: publisher_ops newTrailingPublisher_def stamped_def example_pub_def)
  moreover have "pub_step ?r1 ?r2"
    using pub_step.drain_value [of ?r1 "example_pub 0 [] 0 True" 1] by (simp add: drain_next_def example_pub_def)
  moreover have "pub_step ?r2 ?r3" using pub_step.tick [of ?r2 3] by simp
  moreover have "pub_step ?r3 ?r4"
    using pub_step.enqueue_value [of _ ?r3 2 True, OF refl]
    by (simp add: publisher_ops stamped_def example_pub_def)
  moreover have "pub_step ?r4 ?r5" using pub_step.tick [of ?r4 10] by simp
  moreover have "pub_step ?r5 ?r6"
    using pub_step.timer_fires [of _ ?r5 1, OF refl]
    by (simp add: publisher_ops stamped_def example_pub_def)
  moreover have "pub_step ?r6 ?r7"
    using pub_step.drain_value [of ?r6 "example_pub 10 [] 1 True" 2] by (simp add: drain_next_def example_pub_def)
  moreover have "pub_step ?r7 example_run"
    using pub_step.drain_end [of ?r7 "example_pub 10 [] 1 False"]
    by (simp add: drain_next_def example_pub_def example_run_def)
  moreover have "pub_reachable 10 None ?r0" by (rule pub_reachable.new)
  ultimately show ?thesis by (meson pub_reachable.step)
qed


theorem latest_value_published_witness:
  "pub_reachable 10 None example_run \<and> latest example_run = Some (last (published example_run))"
  using latest_value_published [OF example_run_reachable] example_run_reachable
  by (simp add: example_run_def example_pub_def)

end
