(* ===== verification/Redact.thy ===== *)
theory Redact
  imports Go_Strings
begin

text \<open>
  \<open>internal/redact/redact.go\<close>: removal of secret-shaped values from diagnostic text.  The
  code searches for keys in the lower-cased text and uses the positions it finds there
  as positions of the original text; every index and slice expression that can be out
  of range is a panic branch of the model.  \<open>strings.ToLower\<close> is \<open>strings.Map\<close> with
  \<open>unicode.ToLower\<close>; the Unicode case table is an argument, of which only the behaviour on
  ASCII and on the replacement character is used.
\<close>

definition isWordByte :: "char \<Rightarrow> bool" where
  "isWordByte c \<longleftrightarrow> (CHR ''a'' \<le> c \<and> c \<le> CHR ''z'') \<or> (CHR ''A'' \<le> c \<and> c \<le> CHR ''Z'')
     \<or> (CHR ''0'' \<le> c \<and> c \<le> CHR ''9'') \<or> c = CHR ''_''"

definition is_blank :: "char \<Rightarrow> bool" where
  "is_blank c \<longleftrightarrow> c = CHR '' '' \<or> c = CHR 0x09"

definition ends_value :: "char \<Rightarrow> bool" where
  "ends_value c \<longleftrightarrow> is_blank c \<or> c = CHR 0x0D \<or> c = CHR 0x0A \<or> c = CHR '','' \<or> c = CHR '';''"

text \<open>\<open>strings.Index\<close>\<close>

fun find_sub :: "string \<Rightarrow> string \<Rightarrow> nat option" where
  "find_sub key [] = (if key = [] then Some 0 else None)"
| "find_sub key (x # xs) =
    (if has_prefix (x # xs) key then Some 0 else map_option Suc (find_sub key xs))"

definition skip_blank :: "string \<Rightarrow> nat \<Rightarrow> nat" where
  "skip_blank input i = i + length (takeWhile is_blank (drop i input))"

definition value_end :: "string \<Rightarrow> nat \<Rightarrow> nat" where
  "value_end input i = i + length (takeWhile (\<lambda>c. \<not> ends_value c) (drop i input))"

definition quote_end :: "string \<Rightarrow> nat \<Rightarrow> nat" where
  "quote_end input i =
    (case find (\<lambda>e. input ! e = CHR 0x22 \<and> input ! (e - 1) \<noteq> CHR 0x5C) [i..<length input] of
       Some e \<Rightarrow> e | None \<Rightarrow> length input)"

definition redacted :: string where
  "redacted = ''[REDACTED]''"

definition put_redacted :: "string \<Rightarrow> nat \<Rightarrow> nat \<Rightarrow> string" where
  "put_redacted input from until = take from input @ redacted @ drop until input"

text \<open>The authentication scheme after an \<open>authorization\<close> key is kept.\<close>

definition skip_scheme :: "(string \<Rightarrow> string) \<Rightarrow> string \<Rightarrow> string \<Rightarrow> nat \<Rightarrow> nat" where
  "skip_scheme lower key input separator =
    (if key \<noteq> ''authorization'' then separator
     else let n = length (takeWhile (\<lambda>c. \<not> is_blank c) (drop separator input)) in
       if n = length (drop separator input) \<or> n = 0 then separator
       else if lower (take n (drop separator input)) \<in> {''bearer'', ''basic'', ''digest''}
       then skip_blank input (separator + n)
       else separator)"

datatype iteration = Panics | Returns string | Continues string nat

text \<open>The value behind a separator.\<close>

definition redact_value :: "(string \<Rightarrow> string) \<Rightarrow> string \<Rightarrow> string \<Rightarrow> nat \<Rightarrow> iteration" where
  "redact_value lower key input separator =
    (if length input \<le> separator then Returns input
     else if input ! separator = CHR 0x22 then
       Continues (put_redacted input (separator + 1) (quote_end input (separator + 1)))
         (separator + 1 + length redacted)
     else
       let start = skip_scheme lower key input separator in
       Continues (put_redacted input start (value_end input start)) (start + length redacted))"

text \<open>What follows a standalone key: blanks, a closing quote and blanks, a separator.\<close>

definition find_separator :: "string \<Rightarrow> nat \<Rightarrow> nat" where
  "find_separator input after =
    (let s1 = skip_blank input after in
     if s1 < length input \<and> input ! s1 = CHR 0x22 then skip_blank input (s1 + 1) else s1)"

definition after_key :: "(string \<Rightarrow> string) \<Rightarrow> string \<Rightarrow> string \<Rightarrow> nat \<Rightarrow> iteration" where
  "after_key lower key input after =
    (let s2 = find_separator input after in
     if s2 < length input \<and> (input ! s2 = CHR '':'' \<or> input ! s2 = CHR ''='')
     then redact_value lower key input (skip_blank input (s2 + 1))
     else Continues input s2)"

definition redact_iteration :: "(string \<Rightarrow> string) \<Rightarrow> string \<Rightarrow> string \<Rightarrow> nat \<Rightarrow> iteration" where
  "redact_iteration lower key input searchFrom =
    (if searchFrom > length (lower input) then Panics
     else case find_sub key (drop searchFrom (lower input)) of
       None \<Rightarrow> Returns input
     | Some k \<Rightarrow>
         let index = k + searchFrom; after = index + length key in
         if 0 < index \<and> length input \<le> index - 1 then Panics
         else if (0 < index \<and> isWordByte (input ! (index - 1)))
              \<or> (after < length input \<and> isWordByte (input ! after)) then Continues input after
         else after_key lower key input after)"

lemma find_sub_bound: "find_sub key s = Some k \<Longrightarrow> k + length key \<le> length s"
proof (induction key s arbitrary: k rule: find_sub.induct)
  case (2 key x xs)
  show ?case
  proof (cases "has_prefix (x # xs) key")
    case True
    have "length (take (length key) (x # xs)) \<le> length (x # xs)" by simp
    with True 2 show ?thesis by (simp add: has_prefix_def)
  next
    case False
    with 2 show ?thesis by (auto split: if_splits)
  qed
qed (auto split: if_splits)

lemma skip_blank_ge: "i \<le> skip_blank input i"
  by (simp add: skip_blank_def)

lemma skip_blank_le: "i \<le> length input \<Longrightarrow> skip_blank input i \<le> length input"
  using length_takeWhile_le [of is_blank "drop i input"] by (auto simp: skip_blank_def)

lemma value_end_ge: "i \<le> value_end input i"
  by (simp add: value_end_def)

lemma value_end_le: "i \<le> length input \<Longrightarrow> value_end input i \<le> length input"
  using length_takeWhile_le [of "\<lambda>c. \<not> ends_value c" "drop i input"] by (auto simp: value_end_def)

lemma quote_end_bounds: "i \<le> length input \<Longrightarrow> i \<le> quote_end input i \<and> quote_end input i \<le> length input"
  by (auto simp: quote_end_def find_Some_iff split: option.splits)

lemma skip_scheme_bounds:
  assumes "i \<le> length input"
  shows "i \<le> skip_scheme lower key input i \<and> skip_scheme lower key input i \<le> length input"
proof -
  have "length (takeWhile (\<lambda>c. \<not> is_blank c) (drop i input)) \<le> length input - i"
    using length_takeWhile_le [of "\<lambda>c. \<not> is_blank c" "drop i input"] by simp
  then have n: "i + length (takeWhile (\<lambda>c. \<not> is_blank c) (drop i input)) \<le> length input" using assms by linarith
  show ?thesis
    using assms skip_blank_le [OF n] skip_blank_ge [of "i + length (takeWhile (\<lambda>c. \<not> is_blank c) (drop i input))" input]
    by (auto simp: skip_scheme_def Let_def)
qed

lemma length_put_redacted:
  "from \<le> length input \<Longrightarrow> until \<le> length input \<Longrightarrow>
     length (put_redacted input from until) = from + length redacted + (length input - until)"
  by (simp add: put_redacted_def)

text \<open>
  Every iteration that continues moves on: the text behind the next search position is
  shorter, also where a short value was replaced by the longer marker.
\<close>

definition moves_on :: "nat \<Rightarrow> string \<Rightarrow> string \<Rightarrow> nat \<Rightarrow> bool" where
  "moves_on i input input' sf' \<longleftrightarrow> input' = input \<and> i \<le> sf' \<and> (i \<le> length input \<longrightarrow> sf' \<le> length input)
     \<or> (\<exists>lo hi. input' = put_redacted input lo hi \<and> sf' = lo + length redacted
          \<and> i \<le> lo \<and> lo \<le> hi \<and> hi \<le> length input)"

lemma moves_on_mono: "moves_on j input input' sf' \<Longrightarrow> i \<le> j \<Longrightarrow> j \<le> length input \<Longrightarrow> moves_on i input input' sf'"
  by (auto simp: moves_on_def intro: order_trans)

lemma redact_value_moves:
  assumes "redact_value lower key input sep = Continues input' sf'"
  shows "moves_on sep input input' sf'" "sep < length input"
proof -
  let ?start = "skip_scheme lower key input sep"
  show sep: "sep < length input" using assms by (auto simp: redact_value_def split: if_splits)
  have b: "sep \<le> ?start \<and> ?start \<le> length input" using sep by (intro skip_scheme_bounds) simp
  have q: "sep + 1 \<le> quote_end input (sep + 1) \<and> quote_end input (sep + 1) \<le> length input"
    using sep by (intro quote_end_bounds) simp
  show "moves_on sep input input' sf'"
  proof (cases "input ! sep = CHR 0x22")
    case True
    with assms sep have "input' = put_redacted input (sep + 1) (quote_end input (sep + 1))"
      "sf' = sep + 1 + length redacted" by (auto simp: redact_value_def)
    with q show ?thesis
      unfolding moves_on_def by (intro disjI2 exI [of _ "sep + 1"] exI [of _ "quote_end input (sep + 1)"]) simp
  next
    case False
    with assms sep have "input' = put_redacted input ?start (value_end input ?start)"
      "sf' = ?start + length redacted" by (auto simp: redact_value_def Let_def)
    with b value_end_ge [of ?start input] value_end_le [of ?start input] show ?thesis
      unfolding moves_on_def by (intro disjI2 exI [of _ ?start] exI [of _ "value_end input ?start"]) simp
  qed
qed

lemma find_separator_bounds:
  "after \<le> find_separator input after" "after \<le> length input \<Longrightarrow> find_separator input after \<le> length input"
  using skip_blank_ge [of after input] skip_blank_ge [of "skip_blank input after + 1" input]
    skip_blank_le [of after input] skip_blank_le [of "skip_blank input after + 1" input]
  by (auto simp: find_separator_def Let_def)

lemma after_key_moves:
  assumes "after_key lower key input after = Continues input' sf'"
  shows "moves_on after input input' sf'"
proof (cases "find_separator input after < length input
    \<and> (input ! find_separator input after = CHR '':'' \<or> input ! find_separator input after = CHR ''='')")
  case True
  let ?sep = "skip_blank input (find_separator input after + 1)"
  have r: "redact_value lower key input ?sep = Continues input' sf'"
    using assms True by (auto simp: after_key_def Let_def)
  have "after \<le> ?sep" "?sep \<le> length input"
    using find_separator_bounds(1) [of after input] skip_blank_ge [of "find_separator input after + 1" input]
      redact_value_moves(2) [OF r] by linarith+
  with redact_value_moves(1) [OF r] show ?thesis by (rule moves_on_mono)
next
  case False
  then show ?thesis
    using assms find_separator_bounds [of after input] by (auto simp: after_key_def Let_def moves_on_def)
qed

lemma redact_iteration_moves:
  assumes "redact_iteration lower (c # cs) input sf = Continues input' sf'"
  obtains after where "sf < after" "sf \<le> length input" "moves_on after input input' sf'"
    "length (lower input) \<le> length input \<Longrightarrow> after \<le> length input"
proof -
  from assms obtain k where k: "find_sub (c # cs) (drop sf (lower input)) = Some k" "sf \<le> length (lower input)"
    by (auto simp: redact_iteration_def Let_def split: if_splits option.splits)
  let ?after = "k + sf + length (c # cs)"
  have np: "\<not> (0 < k + sf \<and> length input \<le> k + sf - 1)"
    using assms k by (auto simp: redact_iteration_def Let_def split: if_splits)
  have "Continues input' sf' = Continues input ?after \<or> after_key lower (c # cs) input ?after = Continues input' sf'"
    using assms k np unfolding redact_iteration_def Let_def by (auto split: if_splits)
  moreover have "moves_on ?after input input ?after" by (simp add: moves_on_def)
  ultimately have "moves_on ?after input input' sf'" using after_key_moves by auto
  moreover have "?after \<le> length (lower input)" using find_sub_bound [OF k(1)] k(2) by simp
  moreover have "sf \<le> length input" using np by linarith
  ultimately show ?thesis by (intro that [of ?after]) auto
qed

lemma redact_iteration_progress:
  assumes "redact_iteration lower (c # cs) input sf = Continues input' sf'"
  shows "length input' + 1 - sf' < length input + 1 - sf"
proof (rule redact_iteration_moves [OF assms])
  fix after assume "sf < after" "sf \<le> length input" "moves_on after input input' sf'"
  then show ?thesis by (auto simp: moves_on_def length_put_redacted)
qed

text \<open>The loop of \<open>redactKeyValue\<close>; the key is not empty.  \<open>None\<close> is a panic.\<close>

function redact_loop :: "(string \<Rightarrow> string) \<Rightarrow> char \<Rightarrow> string \<Rightarrow> string \<Rightarrow> nat \<Rightarrow> string option" where
  "redact_loop lower c cs input searchFrom =
    (case redact_iteration lower (c # cs) input searchFrom of
       Panics \<Rightarrow> None
     | Returns out \<Rightarrow> Some out
     | Continues input' searchFrom' \<Rightarrow> redact_loop lower c cs input' searchFrom')"
  by pat_completeness auto
termination
  by (relation "measure (\<lambda>(lower, c, cs, input, sf). length input + 1 - sf)")
     (auto dest: redact_iteration_progress)

declare redact_loop.simps [simp del]

definition redactKeyValue :: "(string \<Rightarrow> string) \<Rightarrow> string \<Rightarrow> string \<Rightarrow> string option" where
  "redactKeyValue lower input key = redact_loop lower (hd key) (tl key) input 0"

definition secret_keys :: "string list" where
  "secret_keys = [''api_key'', ''apikey'', ''api-key'', ''token'', ''password'', ''secret'', ''authorization'', ''cookie'']"

definition Secrets :: "(string \<Rightarrow> string) \<Rightarrow> string \<Rightarrow> string option" where
  "Secrets lower input =
    (if input = [] then Some []
     else fold (\<lambda>key r. case r of None \<Rightarrow> None | Some s \<Rightarrow> redactKeyValue lower s key) secret_keys (Some input))"

subsection \<open>Lower case\<close>

definition to_lower :: "(nat \<Rightarrow> nat) \<Rightarrow> string \<Rightarrow> string" where
  "to_lower lower_rune s = strings_map lower_rune s"

text \<open>What is used of the Unicode table.\<close>

definition lowers_ascii :: "(nat \<Rightarrow> nat) \<Rightarrow> bool" where
  "lowers_ascii lower_rune \<longleftrightarrow> (\<forall>r < 0x80. lower_rune r = (if 0x41 \<le> r \<and> r \<le> 0x5A then r + 32 else r))
     \<and> lower_rune rune_error = rune_error"

definition ascii :: "string \<Rightarrow> bool" where
  "ascii s \<longleftrightarrow> (\<forall>c \<in> set s. byte c < 0x80)"

lemma ascii_simps [simp]:
  "ascii []" "ascii (x # xs) \<longleftrightarrow> byte x < 0x80 \<and> ascii xs" "ascii (xs @ ys) \<longleftrightarrow> ascii xs \<and> ascii ys"
  by (auto simp: ascii_def)

lemma ascii_take_drop: "ascii s \<Longrightarrow> ascii (take n s)" "ascii s \<Longrightarrow> ascii (drop n s)"
  by (auto simp: ascii_def dest: in_set_takeD in_set_dropD)

lemma length_to_lower:
  assumes "lowers_ascii lr" "ascii s"
  shows "length (to_lower lr s) = length s"
proof -
  have "runes s = map of_char s" using assms(2) by (simp add: runes_def chunks_ascii ascii_def comp_def)
  moreover have "length (encode_rune (lr (byte c))) = 1" if "byte c < 0x80" for c
    using assms(1) that by (auto simp: lowers_ascii_def encode_rune_def valid_rune_def)
  moreover have "(\<Sum>x\<leftarrow>s. length (encode_rune (lr (byte x)))) = length s"
    if "ascii s" "\<And>c. byte c < 0x80 \<Longrightarrow> length (encode_rune (lr (byte c))) = 1" for s
    using that by (induction s) auto
  ultimately show ?thesis
    using assms(2) by (simp add: to_lower_def strings_map_def string_of_runes_def length_concat comp_def)
qed

lemma ascii_put_redacted: "ascii input \<Longrightarrow> ascii (put_redacted input a b)"
  by (simp add: put_redacted_def ascii_take_drop redacted_def)

subsection \<open>Totality on ASCII text\<close>

lemma redact_iteration_ascii:
  assumes "lowers_ascii lr" "ascii input" "sf \<le> length input"
  shows "redact_iteration (to_lower lr) (c # cs) input sf \<noteq> Panics"
    and "redact_iteration (to_lower lr) (c # cs) input sf = Returns out \<Longrightarrow> ascii out"
    and "redact_iteration (to_lower lr) (c # cs) input sf = Continues input' sf' \<Longrightarrow>
      ascii input' \<and> sf' \<le> length input'"
proof -
  let ?it = "redact_iteration (to_lower lr) (c # cs) input sf"
  have len: "length (to_lower lr input) = length input" by (rule length_to_lower [OF assms(1,2)])
  have val: "redact_value l k input i = Returns out \<Longrightarrow> out = input" "redact_value l k input i \<noteq> Panics" for l k i out
    by (auto simp: redact_value_def Let_def split: if_splits)
  have after: "after_key l k input i = Returns out \<Longrightarrow> out = input" "after_key l k input i \<noteq> Panics" for l k i out
    using val by (auto simp: after_key_def Let_def split: if_splits)
  show "?it \<noteq> Panics"
    using assms(3) len after(2) find_sub_bound [of "c # cs" "drop sf (to_lower lr input)"]
    by (auto simp: redact_iteration_def Let_def split: option.split)
  show "ascii out" if "?it = Returns out"
    using that assms(2) after(1) by (auto simp: redact_iteration_def Let_def split: if_splits option.splits)
  show "ascii input' \<and> sf' \<le> length input'" if "?it = Continues input' sf'"
  proof (rule redact_iteration_moves [OF that])
    fix i assume "moves_on i input input' sf'" "length (to_lower lr input) \<le> length input \<Longrightarrow> i \<le> length input"
    then show ?thesis
      using assms(2) len by (auto simp: moves_on_def length_put_redacted ascii_put_redacted)
  qed
qed

lemma redact_loop_ascii:
  assumes "lowers_ascii lr" "ascii input" "sf \<le> length input"
  shows "\<exists>out. redact_loop (to_lower lr) c cs input sf = Some out \<and> ascii out"
  using assms(2,3)
proof (induction "length input + 1 - sf" arbitrary: input sf rule: less_induct)
  case less
  note it = redact_iteration_ascii [OF assms(1) less.prems, of c cs]
  show ?case
  proof (cases "redact_iteration (to_lower lr) (c # cs) input sf")
    case Panics
    with it(1) show ?thesis by simp
  next
    case (Returns out)
    with it(2) show ?thesis by (subst redact_loop.simps) simp
  next
    case (Continues input' sf')
    with less.hyps [OF redact_iteration_progress [OF Continues]] it(3) [OF Continues] show ?thesis
      by (subst redact_loop.simps) simp
  qed
qed

lemma redact_keys_ascii:
  assumes "lowers_ascii lr" "ascii s"
  shows "\<exists>out. fold (\<lambda>key r. case r of None \<Rightarrow> None | Some s \<Rightarrow> redactKeyValue (to_lower lr) s key) keys (Some s)
    = Some out \<and> ascii out"
  using assms(2)
proof (induction keys arbitrary: s)
  case (Cons key keys)
  obtain s' where "redactKeyValue (to_lower lr) s key = Some s'" "ascii s'"
    using redact_loop_ascii [OF assms(1) Cons.prems, of 0 "hd key" "tl key"] by (auto simp: redactKeyValue_def)
  with Cons.IH [of s'] show ?case by simp
qed simp

text \<open>(C30) On ASCII text redaction always returns: the loop ends and no index is out of range,
  whatever keys, quotes and separators the text has, and the result is ASCII again.\<close>

theorem redaction_total_on_ascii:
  assumes "lowers_ascii lr" and "ascii input"
  shows "\<exists>out. Secrets (to_lower lr) input = Some out \<and> ascii out"
  using redact_keys_ascii [OF assms, of secret_keys] by (auto simp: Secrets_def)

definition ascii_table :: "nat \<Rightarrow> nat" where
  "ascii_table r = (if 0x41 \<le> r \<and> r \<le> 0x5A then r + 32 else r)"

lemma ascii_table_lowers: "lowers_ascii ascii_table"
  by (simp add: lowers_ascii_def ascii_table_def rune_error_def)

theorem redaction_total_on_ascii_witness:
  "\<exists>out. Secrets (to_lower ascii_table) ''token=abc request=ok'' = Some out \<and> ascii out"
  by (rule redaction_total_on_ascii [OF ascii_table_lowers]) simp

subsection \<open>Text that is not UTF-8\<close>

text \<open>Six bytes that are not UTF-8 followed by a key, as a program writing in a legacy code page may print.\<close>

definition legacy_output :: string where
  "legacy_output = replicate 6 (CHR 0xFF) @ ''token''"

lemma lower_legacy_output:
  assumes "lowers_ascii lr"
  shows "to_lower lr legacy_output = concat (replicate 6 (encode_rune rune_error)) @ ''token''"
proof -
  have d: "chunks (CHR 0xFF # s) = (rune_error, [CHR 0xFF]) # chunks s" for s
    by (subst chunks.simps) (simp add: decode_rune.simps)
  have "chunks legacy_output = replicate 6 (rune_error, [CHR 0xFF]) @ map (\<lambda>c. (byte c, [c])) ''token''"
    using chunks_ascii [of "''token''"] by (simp add: legacy_output_def d numeral_eq_Suc)
  then have "runes legacy_output = replicate 6 rune_error @ map of_char ''token''"
    by (simp add: runes_def numeral_eq_Suc)
  moreover have "lr rune_error = rune_error" "map lr (map of_char ''token'') = map of_char ''token''"
    using assms by (auto simp: lowers_ascii_def)
  moreover have "string_of_runes (map of_char ''token'') = ''token''" by (rule string_of_runes_ascii) simp
  ultimately show ?thesis
    by (simp add: to_lower_def strings_map_def string_of_runes_def)
qed

lemma encode_rune_error: "encode_rune rune_error = [CHR 0xEF, CHR 0xBF, CHR 0xBD]"
proof -
  have "char_of (239::nat) = CHR 0xEF" "char_of (191::nat) = CHR 0xBF" "char_of (189::nat) = CHR 0xBD"
    by code_simp+
  then show ?thesis by (simp add: encode_rune_def rune_error_def valid_rune_def)
qed

lemma lower_legacy_text:
  assumes "lowers_ascii lr"
  shows "to_lower lr legacy_output = [CHR 0xEF, CHR 0xBF, CHR 0xBD, CHR 0xEF, CHR 0xBF, CHR 0xBD,
     CHR 0xEF, CHR 0xBF, CHR 0xBD, CHR 0xEF, CHR 0xBF, CHR 0xBD, CHR 0xEF, CHR 0xBF, CHR 0xBD,
     CHR 0xEF, CHR 0xBF, CHR 0xBD] @ ''token''"
  by (simp add: lower_legacy_output [OF assms] encode_rune_error numeral_eq_Suc)

lemma legacy_iterations:
  assumes "lowers_ascii lr"
  shows "redact_loop (to_lower lr) CHR ''a'' ''pi_key'' legacy_output 0 = Some legacy_output"
    "redact_loop (to_lower lr) CHR ''a'' ''pikey'' legacy_output 0 = Some legacy_output"
    "redact_loop (to_lower lr) CHR ''a'' ''pi-key'' legacy_output 0 = Some legacy_output"
    "redact_loop (to_lower lr) CHR ''t'' ''oken'' legacy_output 0 = None"
proof -
  note it = redact_iteration_def lower_legacy_text [OF assms] has_prefix_def
  show "redact_loop (to_lower lr) CHR ''a'' ''pi_key'' legacy_output 0 = Some legacy_output"
    "redact_loop (to_lower lr) CHR ''a'' ''pikey'' legacy_output 0 = Some legacy_output"
    "redact_loop (to_lower lr) CHR ''a'' ''pi-key'' legacy_output 0 = Some legacy_output"
    by (subst redact_loop.simps; simp add: it)+
  show "redact_loop (to_lower lr) CHR ''t'' ''oken'' legacy_output 0 = None"
  proof -
    have "length legacy_output = 11" by (simp add: legacy_output_def)
    then show ?thesis by (subst redact_loop.simps) (simp add: it)
  qed
qed

text \<open>Text that is not UTF-8 makes redaction panic: lower-casing replaces each invalid byte by
  three bytes, so the position of a key in the lower-cased text can lie beyond the end
  of the text itself, where the code reads the byte before the key.\<close>

lemma redaction_panics_on_invalid_utf8:
  assumes "lowers_ascii lr"
  shows "Secrets (to_lower lr) legacy_output = None"
proof -
  have "legacy_output \<noteq> []" by (simp add: legacy_output_def)
  then show ?thesis
    by (simp add: Secrets_def secret_keys_def redactKeyValue_def legacy_iterations [OF assms])
qed

lemma redaction_panics_on_invalid_utf8_example:
  "Secrets (to_lower ascii_table) legacy_output = None"
  by (rule redaction_panics_on_invalid_utf8 [OF ascii_table_lowers])

end
