(* ===== verification/PE_Identity.thy ===== *)
theory PE_Identity
  imports Go_Strings "HOL-Library.Word"
begin

unbundle bit_operations_syntax

text \<open>
  \<open>internal/selfupdate/pe.go\<close>: reading the release identity of a downloaded executable from
  its version resource.  A Go slice is the memory from its start to its capacity and a
  length; \<open>s[a:b]\<close> is checked against the capacity and \<open>s[a:]\<close> and indexing against the
  length, and a failed check is a panic.  The 32-bit fields of the file are \<open>32 word\<close>, so
  the additions of the code wrap as they do there; \<open>int\<close> is wide enough for the sums the
  code forms of them.  \<open>strings.ToUpper\<close> is an argument.
\<close>

subsection \<open>Slices and little-endian fields\<close>

record slice =
  mem :: string
  len :: nat

definition cap :: "slice \<Rightarrow> nat" where
  "cap s = length (mem s)"

definition valid_slice :: "slice \<Rightarrow> bool" where
  "valid_slice s \<longleftrightarrow> len s \<le> cap s"

definition sub_slice :: "slice \<Rightarrow> nat \<Rightarrow> nat \<Rightarrow> slice option" where
  "sub_slice s a b = (if a \<le> b \<and> b \<le> cap s then Some \<lparr>mem = drop a (mem s), len = b - a\<rparr> else None)"

definition tail_slice :: "slice \<Rightarrow> nat \<Rightarrow> slice option" where
  "tail_slice s a = sub_slice s a (len s)"

definition bytes :: "slice \<Rightarrow> string" where
  "bytes s = take (len s) (mem s)"

definition byte_at :: "slice \<Rightarrow> nat \<Rightarrow> nat" where
  "byte_at s i = byte (mem s ! i)"

definition le16 :: "slice \<Rightarrow> nat \<Rightarrow> nat" where
  "le16 s i = byte_at s i + 256 * byte_at s (i + 1)"

definition le32 :: "slice \<Rightarrow> nat \<Rightarrow> 32 word" where
  "le32 s i = word_of_nat (le16 s i + 65536 * le16 s (i + 2))"

text \<open>\<open>Uint16(s[a:a+2])\<close> and \<open>Uint32(s[a:])\<close> with their checks.\<close>

definition uint16_at :: "slice \<Rightarrow> nat \<Rightarrow> nat option" where
  "uint16_at s a = (if a + 2 \<le> cap s then Some (le16 s a) else None)"

definition uint32_at :: "slice \<Rightarrow> nat \<Rightarrow> 32 word option" where
  "uint32_at s a = (if a + 4 \<le> len s then Some (le32 s a) else None)"

definition must :: "'a option \<Rightarrow> ('a \<Rightarrow> ('e, 'b) outcome) \<Rightarrow> ('e, 'b) outcome" where
  "must x f = (case x of None \<Rightarrow> Panic | Some a \<Rightarrow> f a)"

subsection \<open>Headers\<close>

datatype pe_error =
    NotPE | InvalidOffset | NoSignature | TruncatedHeader | UnsupportedMagic nat | EmptyRVA
  | TruncatedSections | RangeOutside | RVAUnmapped | MissingDirectory | NoResourceDirectory
  | DirectoryOutside | TruncatedDirectory | LevelOutside | DataEntryOutside | NoVersionResource
  | TruncatedVersion | NoFixedInfo

record pe_layout =
  optional_hdr :: nat
  optionalSize :: nat
  sections :: nat

definition minDosHeaderSize :: nat where
  "minDosHeaderSize = 0x40"

definition parsePELayout :: "slice \<Rightarrow> (pe_error, pe_layout) outcome" where
  "parsePELayout raw =
    (if len raw < minDosHeaderSize \<or> byte_at raw 0 \<noteq> 0x4D \<or> byte_at raw 1 \<noteq> 0x5A then Err NotPE
     else must (uint32_at raw 0x3C) (\<lambda>e_lfanew.
       let peOffset = unat e_lfanew in
       if peOffset = 0 \<or> peOffset + 24 > len raw then Err InvalidOffset
       else if byte_at raw peOffset \<noteq> 0x50 \<or> byte_at raw (peOffset + 1) \<noteq> 0x45 then Err NoSignature
       else let coff = peOffset + 4 in
         must (uint16_at raw (coff + 16)) (\<lambda>sz.
         must (uint16_at raw (coff + 2)) (\<lambda>count.
           if coff + 20 + sz > len raw then Err TruncatedHeader
           else Ok \<lparr>optional_hdr = coff + 20, optionalSize = sz, sections = count\<rparr>))))"

definition dataDirectoryOffset :: "pe_layout \<Rightarrow> slice \<Rightarrow> (pe_error, nat) outcome" where
  "dataDirectoryOffset l raw =
    must (uint16_at raw (optional_hdr l)) (\<lambda>magic.
      if magic = 0x10B then Ok (optional_hdr l + 96)
      else if magic = 0x20B then Ok (optional_hdr l + 112)
      else Err (UnsupportedMagic magic))"

text \<open>The section loop of \<open>fileOffset\<close>; \<open>n\<close> sections are left, the next at \<open>entry\<close>.\<close>

fun section_loop :: "slice \<Rightarrow> nat \<Rightarrow> nat \<Rightarrow> 32 word \<Rightarrow> 32 word \<Rightarrow> (pe_error, 32 word) outcome" where
  "section_loop raw 0 entry rva sz = Err RVAUnmapped"
| "section_loop raw (Suc n) entry rva sz =
    (if entry + 40 > len raw then Err TruncatedSections
     else
       let virtualSize = le32 raw (entry + 8); virtualAddress = le32 raw (entry + 12);
           rawSize = le32 raw (entry + 16); rawPointer = le32 raw (entry + 20);
           span = (if virtualSize = 0 then rawSize else virtualSize) in
       if rva < virtualAddress \<or> rva + sz > virtualAddress + span
       then section_loop raw n (entry + 40) rva sz
       else let offset = rawPointer + (rva - virtualAddress) in
         if unat offset + unat sz > len raw then Err RangeOutside else Ok offset)"

definition fileOffset :: "pe_layout \<Rightarrow> slice \<Rightarrow> 32 word \<Rightarrow> 32 word \<Rightarrow> (pe_error, 32 word) outcome" where
  "fileOffset l raw rva sz =
    (if rva = 0 then Err EmptyRVA
     else section_loop raw (sections l) (optional_hdr l + optionalSize l) rva sz)"

definition resourceDirectory :: "slice \<Rightarrow> (pe_error, pe_layout \<times> 32 word \<times> 32 word) outcome" where
  "resourceDirectory raw =
    outcome_bind (parsePELayout raw) (\<lambda>l.
    outcome_bind (dataDirectoryOffset l raw) (\<lambda>d.
      if d + 2 * 8 + 8 > optional_hdr l + optionalSize l then Err MissingDirectory
      else
        must (uint32_at raw (d + 2 * 8)) (\<lambda>rva.
        must (uint32_at raw (d + 2 * 8 + 4)) (\<lambda>sz.
          if rva = 0 \<or> sz = 0 then Ok (l, 0, 0)
          else outcome_bind (fileOffset l raw rva sz) (\<lambda>offset. Ok (l, offset, sz))))))"

subsection \<open>Resource directories\<close>

definition directoryEntries :: "slice \<Rightarrow> nat" where
  "directoryEntries d = (if len d < 16 then 0 else le16 d 12 + le16 d 14)"

definition directoryEntryID :: "slice \<Rightarrow> nat \<Rightarrow> (pe_error, 32 word) outcome" where
  "directoryEntryID d i =
    (let entry = 16 + i * 8 in
     if entry + 8 > len d then Err TruncatedDirectory
     else let name = le32 d entry in
       if name AND 0x80000000 \<noteq> 0 then Ok 0 else Ok (name AND 0x7FFFFFFF))"

definition directoryEntry :: "slice \<Rightarrow> nat \<Rightarrow> (pe_error, 32 word \<times> bool) outcome" where
  "directoryEntry d i =
    (let entry = 16 + i * 8 in
     if entry + 8 > len d then Err TruncatedDirectory
     else let offset = le32 d (entry + 4) in Ok (offset AND 0x7FFFFFFF, offset AND 0x80000000 \<noteq> 0))"

text \<open>A nil slice is \<open>None\<close>.\<close>

definition subdirectory :: "slice \<Rightarrow> slice \<Rightarrow> nat \<Rightarrow> (pe_error, slice option) outcome" where
  "subdirectory root level i =
    outcome_bind (directoryEntry level i) (\<lambda>(offset, isDirectory).
      if \<not> isDirectory then Ok None
      else if unat offset + 16 > len root then Err LevelOutside
      else must (tail_slice root (unat offset)) (\<lambda>s. Ok (Some s)))"

definition resourceDataEntry :: "slice \<Rightarrow> slice \<Rightarrow> nat \<Rightarrow> (pe_error, slice option) outcome" where
  "resourceDataEntry directory languages i =
    outcome_bind (directoryEntry languages i) (\<lambda>(offset, isDirectory).
      if isDirectory then Ok None
      else if unat offset + 16 > len directory then Err DataEntryOutside
      else must (sub_slice directory (unat offset) (unat offset + 16)) (\<lambda>s. Ok (Some s)))"

subsection \<open>Version blocks\<close>

record executable_version =
  fixed_info :: bool
  v_major :: nat
  v_minor :: nat
  v_build :: nat
  v_revision :: nat
  named :: "string \<rightharpoonup> string"

definition alignTo32 :: "nat \<Rightarrow> nat" where
  "alignTo32 n = (n + 3) div 4 * 4"

fun utf16_units :: "string \<Rightarrow> nat list" where
  "utf16_units (a # b # s) =
    (let u = byte a + 256 * byte b in if u = 0 then [] else u # utf16_units s)"
| "utf16_units s = []"

text \<open>\<open>utf16.Decode\<close>: surrogate pairs are combined, a lone surrogate is \<open>RuneError\<close>.\<close>

fun utf16_decode :: "nat list \<Rightarrow> nat list" where
  "utf16_decode [] = []"
| "utf16_decode [u] = [if 0xD800 \<le> u \<and> u < 0xE000 then rune_error else u]"
| "utf16_decode (u # v # us) =
    (if u < 0xD800 \<or> 0xE000 \<le> u then u # utf16_decode (v # us)
     else if 0xD800 \<le> u \<and> u < 0xDC00 \<and> 0xDC00 \<le> v \<and> v < 0xE000
     then ((u - 0xD800) * 1024 + (v - 0xDC00) + 0x10000) # utf16_decode us
     else rune_error # utf16_decode (v # us))"

definition decodeUTF16 :: "string \<Rightarrow> string" where
  "decodeUTF16 raw = trim_space (string_of_runes (utf16_decode (utf16_units raw)))"

definition mergeVersionInfo :: "executable_version \<Rightarrow> executable_version \<Rightarrow> executable_version" where
  "mergeVersionInfo d s =
    (let d1 = (if fixed_info s then d\<lparr>fixed_info := True, v_major := v_major s, v_minor := v_minor s,
                                       v_build := v_build s, v_revision := v_revision s\<rparr> else d)
     in d1\<lparr>named := named d1 ++ named s\<rparr>)"

text \<open>The position of the first aligned pair of zero bytes from \<open>k\<close> on, as the key loop finds it.\<close>

function key_end :: "slice \<Rightarrow> nat \<Rightarrow> nat" where
  "key_end b k =
    (if k + 1 < len b \<and> \<not> (byte_at b k = 0 \<and> byte_at b (k + 1) = 0) then key_end b (k + 2) else k)"
  by pat_completeness auto
termination
  by (relation "measure (\<lambda>(b, k). len b - k)") auto

function text_length :: "slice \<Rightarrow> nat \<Rightarrow> nat" where
  "text_length s i =
    (if i + 1 < len s
     then (if byte_at s i = 0 \<and> byte_at s (i + 1) = 0 then i + 2 else text_length s (i + 2))
     else len s)"
  by pat_completeness auto
termination
  by (relation "measure (\<lambda>(s, i). len s - i)") auto

definition textValueLength :: "slice \<Rightarrow> nat" where
  "textValueLength s = text_length s 0"

function childBlocks :: "slice \<Rightarrow> nat \<Rightarrow> slice list" where
  "childBlocks b i =
    (if i + 6 \<le> len b then
       (let n = le16 b i in
        if n < 6 \<or> i + n > len b then []
        else \<lparr>mem = drop i (mem b), len = n\<rparr> # childBlocks b (i + alignTo32 n))
     else [])"
  by pat_completeness auto
termination
  by (relation "measure (\<lambda>(b, i). len b + 1 - i)") (auto simp: alignTo32_def)

declare key_end.simps [simp del]
declare text_length.simps [simp del]
declare childBlocks.simps [simp del]

lemma childBlocks_smaller: "c \<in> set (childBlocks b i) \<Longrightarrow> i + len c \<le> len b"
proof (induction b i rule: childBlocks.induct)
  case (1 b i)
  then show ?case
    by (subst (asm) childBlocks.simps [of b i]) (fastforce simp: Let_def split: if_splits)
qed

definition no_version :: executable_version where
  "no_version = \<lparr>fixed_info = False, v_major = 0, v_minor = 0, v_build = 0, v_revision = 0, named = Map.empty\<rparr>"

definition versionFixedSize :: nat where
  "versionFixedSize = 13 * 4"

definition fixed_part :: "string \<Rightarrow> nat \<Rightarrow> slice \<Rightarrow> nat \<Rightarrow> (pe_error, executable_version) outcome" where
  "fixed_part key valueLength block valueStart =
    (if key = ''VS_VERSION_INFO'' \<and> valueLength \<ge> versionFixedSize \<and> valueStart + versionFixedSize \<le> len block then
       (if le32 block valueStart \<noteq> 0xFEEF04BD then Err NoFixedInfo
        else Ok (no_version\<lparr>fixed_info := True, v_major := le16 block (valueStart + 10),
               v_minor := le16 block (valueStart + 8), v_build := le16 block (valueStart + 14),
               v_revision := le16 block (valueStart + 12)\<rparr>))
     else Ok no_version)"

text \<open>The text value of a block, and where the value ends.\<close>

definition text_part ::
    "string \<Rightarrow> nat \<Rightarrow> nat \<Rightarrow> slice \<Rightarrow> nat \<Rightarrow> executable_version \<Rightarrow> executable_version \<times> nat" where
  "text_part key valueType valueLength block valueStart parsed =
    (if valueType = 1 \<and> valueLength > 0 \<and> valueStart < len block then
       (let tail = \<lparr>mem = drop valueStart (mem block), len = len block - valueStart\<rparr>;
            n = textValueLength tail;
            v = decodeUTF16 (take n (mem tail)) in
        (if v \<noteq> [] then parsed\<lparr>named := (named parsed)(key \<mapsto> v)\<rparr> else parsed, valueStart + n))
     else (parsed, valueStart + valueLength))"

text \<open>One block: what it declares itself and its children.\<close>

definition parse_block ::
    "(string \<Rightarrow> string) \<Rightarrow> slice \<Rightarrow> (pe_error, executable_version \<times> slice list) outcome" where
  "parse_block upper raw =
    (if len raw < 6 then Err TruncatedVersion
     else
       let total0 = le16 raw 0; valueLength = le16 raw 2; valueType = le16 raw 4;
           block = raw\<lparr>len := (if total0 < 6 \<or> total0 > len raw then len raw else total0)\<rparr>;
           keyEnd = key_end block 6 in
       must (sub_slice block 6 (keyEnd + 2)) (\<lambda>keySlice.
         let key = upper (decodeUTF16 (bytes keySlice));
             valueStart = alignTo32 (6 + (keyEnd + 2 - 6)) in
         if valueStart > len block then Err TruncatedVersion
         else outcome_bind (fixed_part key valueLength block valueStart) (\<lambda>parsed.
           let (parsed', valueEnd) = text_part key valueType valueLength block valueStart parsed
           in Ok (parsed', childBlocks block (alignTo32 valueEnd)))))"

lemma key_end_ge: "k \<le> key_end b k"
proof (induction b k rule: key_end.induct)
  case (1 b k)
  then show ?case by (subst key_end.simps) auto
qed

lemma key_end_le: "k \<le> len b \<Longrightarrow> key_end b k \<le> len b"
proof (induction b k rule: key_end.induct)
  case (1 b k)
  then show ?case by (subst key_end.simps) auto
qed

lemma text_part_end: "valueStart \<le> snd (text_part key ty vl block valueStart parsed)"
  by (simp add: text_part_def Let_def)

lemma alignTo32_ge: "n \<le> alignTo32 n"
  unfolding alignTo32_def by linarith

lemma parse_block_children:
  assumes "parse_block upper raw = Ok (p, cs)" "c \<in> set cs"
  shows "len c < len raw"
proof -
  from assms obtain block vs ve where c: "c \<in> set (childBlocks block (alignTo32 ve))" "len block \<le> len raw"
      "0 < vs" "vs \<le> ve"
  proof -
    let ?block = "raw\<lparr>len := (if le16 raw 0 < 6 \<or> le16 raw 0 > len raw then len raw else le16 raw 0)\<rparr>"
    let ?vs = "alignTo32 (6 + (key_end ?block 6 + 2 - 6))"
    obtain key ty vl parsed where "c \<in> set (childBlocks ?block (alignTo32 (snd (text_part key ty vl ?block ?vs parsed))))"
      using assms
      by (auto simp: parse_block_def must_def Let_def outcome_bind_Ok case_prod_unfold split: if_splits option.splits)
    moreover have "0 < ?vs" using alignTo32_ge [of "6 + (key_end ?block 6 + 2 - 6)"] by linarith
    moreover have "len ?block \<le> len raw" by simp
    ultimately show ?thesis using that text_part_end by blast
  qed
  then show ?thesis using childBlocks_smaller [OF c(1)] alignTo32_ge [of ve] by linarith
qed

definition merge_child ::
    "(pe_error, executable_version) outcome \<Rightarrow> (pe_error, executable_version) outcome \<Rightarrow>
     (pe_error, executable_version) outcome" where
  "merge_child child acc =
    outcome_bind acc (\<lambda>p. case child of Ok nested \<Rightarrow> Ok (mergeVersionInfo p nested) | Err e \<Rightarrow> Ok p | Panic \<Rightarrow> Panic)"

function parseVersionInfo :: "(string \<Rightarrow> string) \<Rightarrow> slice \<Rightarrow> (pe_error, executable_version) outcome" where
  "parseVersionInfo upper raw =
    (case parse_block upper raw of
       Err e \<Rightarrow> Err e
     | Panic \<Rightarrow> Panic
     | Ok (parsed, children) \<Rightarrow>
         fold (\<lambda>c acc. merge_child (parseVersionInfo upper c) acc) children (Ok parsed))"
  by pat_completeness auto
termination
  by (relation "measure (len \<circ> snd)") (auto dest: parse_block_children)

declare parseVersionInfo.simps [simp del]

subsection \<open>The walk to the version resource\<close>

text \<open>
  A loop over \<open>i\<close> with early returns: \<open>Ok (Some v)\<close> and \<open>Err e\<close> return from the function,
  \<open>Ok None\<close> goes on with the next \<open>i\<close>.
\<close>

fun loop :: "(nat \<Rightarrow> ('e, 'a option) outcome) \<Rightarrow> nat list \<Rightarrow> ('e, 'a option) outcome" where
  "loop body [] = Ok None"
| "loop body (i # is) = (case body i of Ok None \<Rightarrow> loop body is | r \<Rightarrow> r)"

definition language_body ::
    "(string \<Rightarrow> string) \<Rightarrow> slice \<Rightarrow> pe_layout \<Rightarrow> slice \<Rightarrow> slice \<Rightarrow> nat \<Rightarrow> (pe_error, executable_version option) outcome" where
  "language_body upper raw l directory languages k =
    outcome_bind (resourceDataEntry directory languages k) (\<lambda>e.
      case e of
        None \<Rightarrow> Ok None
      | Some dataEntry \<Rightarrow>
          (case fileOffset l raw (le32 dataEntry 0) (le32 dataEntry 4) of
             Err x \<Rightarrow> Ok None
           | Panic \<Rightarrow> Panic
           | Ok offset \<Rightarrow>
               must (tail_slice raw (unat offset)) (\<lambda>s.
                 case parseVersionInfo upper s of Ok v \<Rightarrow> Ok (Some v) | Err x \<Rightarrow> Ok None | Panic \<Rightarrow> Panic)))"

definition name_body ::
    "(string \<Rightarrow> string) \<Rightarrow> slice \<Rightarrow> pe_layout \<Rightarrow> slice \<Rightarrow> slice \<Rightarrow> nat \<Rightarrow> (pe_error, executable_version option) outcome" where
  "name_body upper raw l directory names j =
    outcome_bind (subdirectory directory names j) (\<lambda>s.
      case s of None \<Rightarrow> Ok None
      | Some languages \<Rightarrow> loop (language_body upper raw l directory languages) [0..<directoryEntries languages])"

definition type_body ::
    "(string \<Rightarrow> string) \<Rightarrow> slice \<Rightarrow> pe_layout \<Rightarrow> slice \<Rightarrow> nat \<Rightarrow> (pe_error, executable_version option) outcome" where
  "type_body upper raw l directory i =
    outcome_bind (directoryEntryID directory i) (\<lambda>t.
      if t \<noteq> 16 then Ok None
      else outcome_bind (subdirectory directory directory i) (\<lambda>s.
        case s of None \<Rightarrow> Ok None
        | Some names \<Rightarrow> loop (name_body upper raw l directory names) [0..<directoryEntries names]))"

definition versionInfoResource ::
    "(string \<Rightarrow> string) \<Rightarrow> slice \<Rightarrow> pe_layout \<Rightarrow> 32 word \<Rightarrow> 32 word \<Rightarrow> (pe_error, executable_version) outcome" where
  "versionInfoResource upper raw l resourceOffset resourceSize =
    (if unat resourceOffset + unat resourceSize > len raw then Err DirectoryOutside
     else must (sub_slice raw (unat resourceOffset) (unat (resourceOffset + resourceSize))) (\<lambda>directory.
       if len directory < 16 then Err TruncatedDirectory
       else outcome_bind (loop (type_body upper raw l directory) [0..<directoryEntries directory]) (\<lambda>r.
         case r of Some v \<Rightarrow> Ok v | None \<Rightarrow> Err NoVersionResource)))"

record payload_identity =
  fixed :: string
  fileVersion :: string
  productVersion :: string

definition versionStrings :: "payload_identity \<Rightarrow> string list" where
  "versionStrings i =
    map trim_space (filter (\<lambda>v. trim_space v \<noteq> []) [fileVersion i, productVersion i])"

definition lookup :: "(string \<rightharpoonup> string) \<Rightarrow> string \<Rightarrow> string" where
  "lookup m k = (case m k of None \<Rightarrow> [] | Some v \<Rightarrow> v)"

text \<open>\<open>readPayloadIdentity\<close> after \<open>os.ReadFile\<close>.\<close>

definition readPayloadIdentity :: "(string \<Rightarrow> string) \<Rightarrow> slice \<Rightarrow> (pe_error, payload_identity) outcome" where
  "readPayloadIdentity upper raw =
    outcome_bind (resourceDirectory raw) (\<lambda>(l, resourceOffset, resourceSize).
      if resourceOffset = 0 \<or> resourceSize = 0 then Err NoResourceDirectory
      else outcome_bind (versionInfoResource upper raw l resourceOffset resourceSize) (\<lambda>info.
        Ok \<lparr>fixed = (if fixed_info info then show_nat (v_major info) @ ''.'' @ show_nat (v_minor info) @ ''.''
                       @ show_nat (v_build info) @ ''.'' @ show_nat (v_revision info) else []),
            fileVersion = lookup (named info) ''FILEVERSION'',
            productVersion = lookup (named info) ''PRODUCTVERSION''\<rparr>))"

text \<open>\<open>readMachine\<close>: the file is its bytes; \<open>ReadAt\<close> fails when it cannot fill the buffer.\<close>

definition readMachine :: "string \<Rightarrow> pe_error + nat" where
  "readMachine contents =
    (let s = \<lparr>mem = contents, len = length contents\<rparr> in
     if length contents < minDosHeaderSize then Inl NotPE
     else if byte_at s 0 \<noteq> 0x4D \<or> byte_at s 1 \<noteq> 0x5A then Inl NotPE
     else let peOffset = unat (le32 s 0x3C) in
       if peOffset = 0 \<or> peOffset > 2 ^ 24 then Inl InvalidOffset
       else if length contents < peOffset + 4 then Inl TruncatedHeader
       else if map byte (take 4 (drop peOffset contents)) \<noteq> [0x50, 0x45, 0, 0] then Inl NoSignature
       else if length contents < peOffset + 6 then Inl TruncatedHeader
       else Inr (le16 s (peOffset + 4)))"

subsection \<open>Slices with spare capacity never panic\<close>

definition spare :: "slice \<Rightarrow> bool" where
  "spare s \<longleftrightarrow> len s + 2 \<le> cap s"

lemma must_Panic: "must x f = Panic \<longleftrightarrow> x = None \<or> (\<exists>a. x = Some a \<and> f a = Panic)"
  by (cases x) (auto simp: must_def)

lemma sub_slice_Some: "sub_slice s a b = Some t \<longleftrightarrow> a \<le> b \<and> b \<le> cap s \<and> t = \<lparr>mem = drop a (mem s), len = b - a\<rparr>"
  by (auto simp: sub_slice_def)

lemma spare_sub: "spare s \<Longrightarrow> a \<le> b \<Longrightarrow> b \<le> len s \<Longrightarrow> spare \<lparr>mem = drop a (mem s), len = b - a\<rparr>"
  by (auto simp: spare_def cap_def)

lemma spare_shorter: "spare s \<Longrightarrow> n \<le> len s \<Longrightarrow> spare (s\<lparr>len := n\<rparr>)"
  by (simp add: spare_def cap_def)

lemma childBlocks_spare: "spare b \<Longrightarrow> c \<in> set (childBlocks b i) \<Longrightarrow> spare c"
proof (induction b i rule: childBlocks.induct)
  case (1 b i)
  show ?case
  proof (cases "i + 6 \<le> len b \<and> \<not> (le16 b i < 6 \<or> i + le16 b i > len b)")
    case True
    have "spare \<lparr>mem = drop i (mem b), len = le16 b i\<rparr>"
      using spare_sub [of b i "i + le16 b i"] 1(2) True by simp
    moreover have "c = \<lparr>mem = drop i (mem b), len = le16 b i\<rparr> \<or> c \<in> set (childBlocks b (i + alignTo32 (le16 b i)))"
      using 1(3) True by (subst (asm) childBlocks.simps [of b i]) (auto simp: Let_def)
    ultimately show ?thesis using 1(1) [OF _ refl] 1(2) True by blast
  next
    case False
    with 1(3) show ?thesis by (subst (asm) childBlocks.simps [of b i]) (auto simp: Let_def split: if_splits)
  qed
qed

lemma fixed_part_no_panic: "fixed_part key vl block vs \<noteq> Panic"
  by (simp add: fixed_part_def)

lemma parse_block_spare:
  assumes "spare raw"
  shows "parse_block upper raw \<noteq> Panic"
    and "parse_block upper raw = Ok (p, cs) \<Longrightarrow> c \<in> set cs \<Longrightarrow> spare c"
proof -
  let ?block = "raw\<lparr>len := (if le16 raw 0 < 6 \<or> le16 raw 0 > len raw then len raw else le16 raw 0)\<rparr>"
  have block: "spare ?block" using assms by (intro spare_shorter) auto
  have fits: "sub_slice ?block 6 (key_end ?block 6 + 2) \<noteq> None" if "6 \<le> len raw"
  proof -
    have "key_end ?block 6 \<le> len ?block" using that by (intro key_end_le) auto
    then show ?thesis using block key_end_ge [of 6 ?block] by (simp add: sub_slice_def spare_def cap_def)
  qed
  show "parse_block upper raw \<noteq> Panic"
    using fits by (auto simp: parse_block_def Let_def must_Panic outcome_bind_Panic fixed_part_no_panic case_prod_unfold)
  show "spare c" if ok: "parse_block upper raw = Ok (p, cs)" and c: "c \<in> set cs"
  proof -
    obtain ve where "cs = childBlocks ?block ve"
      using ok by (auto simp: parse_block_def must_def Let_def outcome_bind_Ok case_prod_unfold split: if_splits option.splits)
    then show ?thesis using childBlocks_spare [OF block] c by simp
  qed
qed

lemma fold_merge_no_panic:
  "acc \<noteq> Panic \<Longrightarrow> (\<And>c. c \<in> set cs \<Longrightarrow> f c \<noteq> Panic) \<Longrightarrow> fold (\<lambda>c acc. merge_child (f c) acc) cs acc \<noteq> Panic"
proof (induction cs arbitrary: acc)
  case (Cons c cs)
  have "merge_child (f c) acc \<noteq> Panic"
    using Cons.prems by (auto simp: merge_child_def outcome_bind_Panic split: outcome.split)
  with Cons show ?case by simp
qed simp

lemma parseVersionInfo_no_panic: "spare raw \<Longrightarrow> parseVersionInfo upper raw \<noteq> Panic"
proof (induction upper raw rule: parseVersionInfo.induct)
  case (1 upper raw)
  show ?case
  proof (cases "parse_block upper raw")
    case (Ok pc)
    obtain p cs where pc: "pc = (p, cs)" by (cases pc)
    have "fold (\<lambda>c acc. merge_child (parseVersionInfo upper c) acc) cs (Ok p) \<noteq> Panic"
      using 1 Ok pc parse_block_spare(2) [of raw upper p cs] by (intro fold_merge_no_panic) auto
    then show ?thesis using Ok pc by (subst parseVersionInfo.simps) simp
  next
    case (Err e)
    then show ?thesis by (subst parseVersionInfo.simps) simp
  next
    case Panic
    with parse_block_spare(1) [OF 1(2)] show ?thesis by simp
  qed
qed

lemma section_loop_no_panic: "section_loop raw n entry rva sz \<noteq> Panic"
  by (induction n arbitrary: entry) (auto simp: Let_def)

lemma section_loop_Ok: "section_loop raw n entry rva sz = Ok off \<Longrightarrow> unat off + unat sz \<le> len raw"
  by (induction n arbitrary: entry) (auto simp: Let_def split: if_splits)

lemma fileOffset_no_panic: "fileOffset l raw rva sz \<noteq> Panic"
  by (simp add: fileOffset_def section_loop_no_panic)

lemma fileOffset_Ok: "fileOffset l raw rva sz = Ok off \<Longrightarrow> unat off + unat sz \<le> len raw"
  by (auto simp: fileOffset_def dest: section_loop_Ok split: if_splits)

lemma loop_no_panic: "(\<And>i. i \<in> set is' \<Longrightarrow> body i \<noteq> Panic) \<Longrightarrow> loop body is' \<noteq> Panic"
  by (induction is') (auto split: outcome.split option.split)

lemma directoryEntry_no_panic: "directoryEntry d i \<noteq> Panic" "directoryEntryID d i \<noteq> Panic"
  by (simp_all add: directoryEntry_def directoryEntryID_def Let_def)

lemma subdirectory_no_panic: "valid_slice root \<Longrightarrow> subdirectory root level i \<noteq> Panic"
  by (auto simp: subdirectory_def outcome_bind_Panic must_Panic directoryEntry_no_panic tail_slice_def sub_slice_def
      valid_slice_def)

lemma resourceDataEntry_no_panic: "valid_slice d \<Longrightarrow> resourceDataEntry d languages i \<noteq> Panic"
  by (auto simp: resourceDataEntry_def outcome_bind_Panic must_Panic directoryEntry_no_panic sub_slice_def valid_slice_def)

lemma language_body_no_panic:
  assumes "spare raw" "valid_slice d"
  shows "language_body upper raw l d languages k \<noteq> Panic"
proof -
  have tail: "tail_slice raw (unat off) \<noteq> None" "tail_slice raw (unat off) = Some s \<Longrightarrow> spare s"
    if "fileOffset l raw rva sz = Ok off" for off s rva sz
    using fileOffset_Ok [OF that] assms(1) spare_sub [OF assms(1), of "unat off" "len raw"]
    by (auto simp: tail_slice_def sub_slice_def spare_def split: if_splits)
  show ?thesis
    using tail parseVersionInfo_no_panic
    by (auto simp: language_body_def outcome_bind_Panic must_Panic resourceDataEntry_no_panic [OF assms(2)]
        fileOffset_no_panic split: option.splits outcome.splits)
qed

lemma name_body_no_panic:
  "spare raw \<Longrightarrow> valid_slice d \<Longrightarrow> name_body upper raw l d names j \<noteq> Panic"
  by (auto simp: name_body_def outcome_bind_Panic subdirectory_no_panic loop_no_panic language_body_no_panic
      split: option.splits)

lemma type_body_no_panic:
  "spare raw \<Longrightarrow> valid_slice d \<Longrightarrow> type_body upper raw l d i \<noteq> Panic"
  by (auto simp: type_body_def outcome_bind_Panic directoryEntry_no_panic subdirectory_no_panic loop_no_panic
      name_body_no_panic split: option.splits if_splits)

lemma versionInfoResource_no_panic:
  assumes "spare raw" "len raw < 2 ^ 32"
  shows "versionInfoResource upper raw l off sz \<noteq> Panic"
proof (cases "unat off + unat sz > len raw")
  case True
  then show ?thesis by (simp add: versionInfoResource_def)
next
  case False
  then have sum: "unat (off + sz) = unat off + unat sz"
    using assms(2) by (intro unat_add_lem [THEN iffD1]) simp
  let ?d = "\<lparr>mem = drop (unat off) (mem raw), len = unat sz\<rparr>"
  have d: "sub_slice raw (unat off) (unat (off + sz)) = Some ?d"
    using False assms(1) by (simp add: sub_slice_def sum spare_def)
  have "valid_slice ?d" using False assms(1) by (simp add: valid_slice_def spare_def cap_def)
  then have "loop (type_body upper raw l ?d) [0..<directoryEntries ?d] \<noteq> Panic"
    using assms(1) by (intro loop_no_panic type_body_no_panic)
  then show ?thesis
    using False by (auto simp: versionInfoResource_def d must_def outcome_bind_Panic split: option.splits)
qed

lemma parsePELayout_Ok:
  "parsePELayout raw = Ok l \<Longrightarrow> optional_hdr l + optionalSize l \<le> len raw"
  by (auto simp: parsePELayout_def must_def Let_def split: if_splits option.splits)

lemma parsePELayout_no_panic: "spare raw \<Longrightarrow> parsePELayout raw \<noteq> Panic"
  by (auto simp: parsePELayout_def must_Panic uint32_at_def uint16_at_def minDosHeaderSize_def spare_def Let_def)

lemma resourceDirectory_no_panic: "spare raw \<Longrightarrow> resourceDirectory raw \<noteq> Panic"
  by (auto simp: resourceDirectory_def outcome_bind_Panic parsePELayout_no_panic dataDirectoryOffset_def must_Panic
      uint16_at_def uint32_at_def spare_def fileOffset_no_panic dest: parsePELayout_Ok split: if_splits option.splits)

text \<open>Reading the identity of a downloaded file never crashes when the buffer has two spare
  bytes: for every file content below 4 GiB the walk through the headers, the three
  directory levels and the nested version blocks ends with an identity or an error.\<close>

theorem identity_total_with_spare_capacity:
  assumes "len raw + 2 \<le> cap raw" and "len raw < 2 ^ 32"
  shows "readPayloadIdentity upper raw \<noteq> Panic"
  using assms versionInfoResource_no_panic [of raw] resourceDirectory_no_panic [of raw]
  by (auto simp: readPayloadIdentity_def outcome_bind_Panic spare_def split: if_splits)

definition short_file :: slice where
  "short_file = \<lparr>mem = ''MZ'' @ replicate 510 (CHR 0x00), len = 64\<rparr>"

theorem identity_total_with_spare_capacity_witness:
  "len short_file + 2 \<le> cap short_file \<and> len short_file < 2 ^ 32 \<and> readPayloadIdentity id short_file \<noteq> Panic"
  using identity_total_with_spare_capacity [of short_file id] by (simp add: short_file_def cap_def)

text \<open>
  The buffer \<open>os.ReadFile\<close> returns: it allocates one byte more than the file has, and 512
  bytes at least.
\<close>

definition readFile :: "string \<Rightarrow> slice" where
  "readFile contents =
    \<lparr>mem = contents @ replicate (max 512 (length contents + 1) - length contents) (CHR 0x00), len = length contents\<rparr>"

lemma cap_readFile: "cap (readFile contents) = max 512 (length contents + 1)"
  by (simp add: cap_def readFile_def)

text \<open>A file of 511 bytes or more that ends where its optional header should begin crashes
  the reader: the header check accepts it, and reading the magic number runs past the
  capacity of the buffer.\<close>

lemma identity_panics_without_optional_header:
  assumes "length contents \<ge> 511" and "parsePELayout (readFile contents) = Ok l"
    and "optional_hdr l = length contents"
  shows "readPayloadIdentity upper (readFile contents) = Panic"
proof -
  have "uint16_at (readFile contents) (optional_hdr l) = None"
    using assms by (simp add: uint16_at_def cap_readFile)
  then show ?thesis
    using assms(2) by (simp add: readPayloadIdentity_def resourceDirectory_def dataDirectoryOffset_def must_def
        outcome_bind_Panic)
qed

definition header_only :: string where
  "header_only = ''MZ'' @ replicate 58 (CHR 0x00) @ [CHR 0xE8, CHR 0x01, CHR 0x00, CHR 0x00] @
    replicate 424 (CHR 0x00) @ ''PE'' @ replicate 22 (CHR 0x00)"

lemma header_only_layout:
  "parsePELayout (readFile header_only) = Ok \<lparr>optional_hdr = 512, optionalSize = 0, sections = 0\<rparr>"
  by (simp add: parsePELayout_def readFile_def header_only_def must_def uint16_at_def uint32_at_def cap_def
      minDosHeaderSize_def le16_def le32_def byte_at_def nth_append Let_def)

lemma identity_panics_without_optional_header_example:
  "length header_only = 512 \<and> readPayloadIdentity id (readFile header_only) = Panic"
  using identity_panics_without_optional_header [OF _ header_only_layout] by (simp add: header_only_def)

end
