(* ===== verification/Selfupdate.thy ===== *)
theory Selfupdate
  imports Release PE_Identity
begin

text \<open>
  \<open>internal/selfupdate\<close>: from a release of the update feed to an installer that may be started.
  \<open>digest.go\<close> and \<open>install.go\<close> decide about a feed entry and a payload on disk,
  \<open>identity_windows.go\<close> compares the identity inside the payload (\<open>PE_Identity\<close>) with the advertised
  version (\<open>Release\<close>), \<open>staging.go\<close> keeps the verified copy and checks it again before it is started.

  The file system is a map from paths to nodes.  What the code asks of the platform (path functions,
  SHA-512, case conversion, the Authenticode query, the comparison of the semver package) is a record
  of functions; which file operation of a staging fails is another.  Error texts are left out, an
  error is the sentinel it wraps.  Reading the identity can panic, so results are outcomes.
\<close>

subsection \<open>Feed releases\<close>

datatype update_error =
    ErrUnverifiedPayload | ErrUnsupportedDigest | ErrUnverifiableRelease
  | ErrPayloadNotInstaller | ErrPayloadIdentityMismatch | ErrWrongPlatform | ErrUnsupportedPlatform
  | ErrInstallerUnavailable | ErrStagedPayloadChanged | ErrStagingUnavailable | FileError

record feed_verification =
  DigestAlgo :: string
  Digest :: string

record feed_artifact =
  Filename :: string
  Filetype :: string
  Size :: int
  Platform :: string
  Arch :: string
  URL :: string

record feed_release =
  fr_Version :: string
  fr_Channel :: string
  fr_PublishedAt :: string
  fr_Artifact :: feed_artifact
  fr_Verification :: "feed_verification option"

datatype node = RegularFile string | OtherNode

type_synonym files = "string \<rightharpoonup> node"

record host =
  h_GOOS :: string
  h_GOARCH :: string
  h_Separator :: string
  h_lower :: "string \<Rightarrow> string"
  h_upper :: "string \<Rightarrow> string"
  h_semver :: "string \<Rightarrow> string \<Rightarrow> int"
  h_sha512 :: "string \<Rightarrow> string"
  h_abs :: "string \<Rightarrow> string option"
  h_isAbs :: "string \<Rightarrow> bool"
  h_clean :: "string \<Rightarrow> string"
  h_base :: "string \<Rightarrow> string"
  h_join :: "string \<Rightarrow> string \<Rightarrow> string"
  h_readable :: "string \<Rightarrow> bool"
  h_trusted :: "files \<Rightarrow> string \<Rightarrow> bool option"
  h_signer :: "files \<Rightarrow> string \<Rightarrow> string option"
  h_buildVersion :: string
  h_buildPublisher :: string

definition read_file :: "host \<Rightarrow> files \<Rightarrow> string \<Rightarrow> string option" where
  "read_file h fs p =
    (case fs p of Some (RegularFile c) \<Rightarrow> if h_readable h p then Some c else None | _ \<Rightarrow> None)"

definition RequireDigest :: "host \<Rightarrow> feed_release option \<Rightarrow> update_error option" where
  "RequireDigest h rel =
    (case rel of None \<Rightarrow> Some ErrUnverifiableRelease
     | Some r \<Rightarrow>
       (case fr_Verification r of None \<Rightarrow> Some ErrUnverifiableRelease
        | Some v \<Rightarrow>
            if Digest v = [] then Some ErrUnverifiableRelease
            else let algo = h_lower h (trim_space (DigestAlgo v)) in
              if algo \<noteq> [] \<and> algo \<noteq> ''sha512'' then Some ErrUnsupportedDigest else None))"

text \<open>The accumulating comparison of \<open>equalBytes\<close>.\<close>

definition equalBytes :: "string \<Rightarrow> string \<Rightarrow> bool" where
  "equalBytes a b =
    (if length a \<noteq> length b then False
     else foldl (\<lambda>diff (x, y). diff OR ((of_char x :: 8 word) XOR of_char y)) 0 (zip a b) = 0)"

definition VerifyDigestFile :: "host \<Rightarrow> files \<Rightarrow> string \<Rightarrow> feed_release option \<Rightarrow> update_error option" where
  "VerifyDigestFile h fs path rel =
    (case RequireDigest h rel of Some e \<Rightarrow> Some e
     | None \<Rightarrow>
       (case read_file h fs path of None \<Rightarrow> Some FileError
        | Some c \<Rightarrow>
            if \<not> equalBytes (h_sha512 h c) (Digest (the (fr_Verification (the rel))))
            then Some ErrUnverifiedPayload else None))"

subsection \<open>What may be installed\<close>

datatype kind = KindUnknown | KindInstaller | KindExecutable

record installer =
  in_Version :: string
  in_Channel :: string
  in_Path :: string
  in_Kind :: kind

record options =
  RequireOSSignature :: bool
  Publisher :: string

definition isDevelopmentBuild :: "host \<Rightarrow> bool" where
  "isDevelopmentBuild h =
    (let reported = trim_space (h_buildVersion h) in reported = [] \<or> reported = DevelopmentVersion)"

definition ProductionOptions :: "host \<Rightarrow> options" where
  "ProductionOptions h =
    \<lparr>RequireOSSignature = (\<not> isDevelopmentBuild h \<and> trim_space (h_buildPublisher h) \<noteq> []),
     Publisher = h_buildPublisher h\<rparr>"

definition normalizeArchitecture :: "host \<Rightarrow> string \<Rightarrow> string" where
  "normalizeArchitecture h arch =
    (let a = h_lower h (trim_space arch) in
     if a \<in> {''amd64'', ''x86_64'', ''x64''} then ''amd64''
     else if a \<in> {''arm64'', ''aarch64''} then ''arm64''
     else a)"

definition requireInstallerArtifact :: "host \<Rightarrow> feed_release \<Rightarrow> update_error option" where
  "requireInstallerArtifact h feed =
    (let platform = h_lower h (trim_space (Platform (fr_Artifact feed))) in
     if platform = [] \<or> platform \<noteq> ''windows'' then Some ErrWrongPlatform
     else let arch = h_lower h (trim_space (Arch (fr_Artifact feed))) in
       if arch = [] then Some ErrWrongPlatform
       else let filename = h_lower h (h_base h (trim_space (Filename (fr_Artifact feed)))) in
         if filename = [] \<or> filename = ''.'' \<or> filename = h_Separator h then Some ErrUnverifiableRelease
         else if \<not> has_suffix filename ''.exe'' then Some ErrPayloadNotInstaller
         else None)"

definition ValidateRelease :: "host \<Rightarrow> feed_release option \<Rightarrow> update_error option" where
  "ValidateRelease h rel =
    (case rel of None \<Rightarrow> Some ErrUnverifiableRelease
     | Some feed \<Rightarrow>
       (case RequireDigest h rel of Some e \<Rightarrow> Some e
        | None \<Rightarrow>
            if ValidateBuildVersion (fr_Version feed) \<noteq> None then Some ErrUnverifiableRelease
            else (case parse (fr_Version feed) of Inl _ \<Rightarrow> Some ErrUnverifiableRelease
              | Inr _ \<Rightarrow>
                  (case requireInstallerArtifact h feed of Some e \<Rightarrow> Some e
                   | None \<Rightarrow>
                       if h_GOOS h \<noteq> ''windows'' then Some ErrUnsupportedPlatform
                       else if normalizeArchitecture h (Arch (fr_Artifact feed)) \<noteq> normalizeArchitecture h (h_GOARCH h)
                       then Some ErrWrongPlatform
                       else None))))"

subsection \<open>The identity of the payload\<close>

definition hostMachines :: "string \<rightharpoonup> nat list" where
  "hostMachines = [''amd64'' \<mapsto> [0x014C, 0x8664], ''arm64'' \<mapsto> [0x014C, 0xAA64]]"

text \<open>The loop over the declared strings: whether one matched, or the contradiction.\<close>

fun match_declared :: "host \<Rightarrow> version \<Rightarrow> bool \<Rightarrow> string list \<Rightarrow> update_error + bool" where
  "match_declared h v matched [] = Inr matched"
| "match_declared h v matched (d # ds) =
    (if d = raw v then match_declared h v True ds
     else case parse d of
       Inr other \<Rightarrow> if \<not> Equal (h_semver h) other v then Inl ErrPayloadIdentityMismatch
                    else match_declared h v matched ds
     | Inl _ \<Rightarrow> match_declared h v matched ds)"

definition matchPayloadVersion :: "host \<Rightarrow> payload_identity \<Rightarrow> version \<Rightarrow> update_error option" where
  "matchPayloadVersion h identity v =
    (case WindowsFileVersion v of Inl _ \<Rightarrow> Some ErrPayloadIdentityMismatch
     | Inr expectedFile \<Rightarrow>
       let declared = versionStrings identity in
       if declared = [] then Some ErrPayloadIdentityMismatch
       else (case match_declared h v False declared of
           Inl e \<Rightarrow> Some e
         | Inr matched \<Rightarrow>
             if \<not> matched then Some ErrPayloadIdentityMismatch
             else let fx = trim_space (fixed identity) in
               if fx \<noteq> [] \<and> fx \<noteq> expectedFile then Some ErrPayloadIdentityMismatch else None))"

definition verifyAuthenticode :: "host \<Rightarrow> files \<Rightarrow> string \<Rightarrow> string \<Rightarrow> update_error option" where
  "verifyAuthenticode h fs path publisher =
    (let expected = trim_space publisher in
     if expected = [] then Some ErrUnverifiedPayload
     else (case h_trusted h fs path of None \<Rightarrow> Some ErrUnverifiedPayload
       | Some trusted \<Rightarrow>
           if \<not> trusted then Some ErrUnverifiedPayload
           else (case h_signer h fs path of None \<Rightarrow> Some ErrUnverifiedPayload
             | Some signer \<Rightarrow> if signer \<noteq> expected then Some ErrUnverifiedPayload else None)))"

definition of_check :: "update_error option \<Rightarrow> (update_error, unit) outcome" where
  "of_check e = (case e of None \<Rightarrow> Ok () | Some x \<Rightarrow> Err x)"

definition verifyInstallerIdentity ::
    "host \<Rightarrow> files \<Rightarrow> string \<Rightarrow> version \<Rightarrow> options \<Rightarrow> (update_error, unit) outcome" where
  "verifyInstallerIdentity h fs path v options =
    (case read_file h fs path of None \<Rightarrow> Err ErrPayloadNotInstaller
     | Some contents \<Rightarrow>
       (case readMachine contents of Inl _ \<Rightarrow> Err ErrPayloadNotInstaller
        | Inr machine \<Rightarrow>
          (case hostMachines (h_GOARCH h) of None \<Rightarrow> Err ErrUnsupportedPlatform
           | Some expected \<Rightarrow>
               if machine \<notin> set expected then Err ErrWrongPlatform
               else (case readPayloadIdentity (h_upper h) (readFile contents) of
                   Panic \<Rightarrow> Panic
                 | Err _ \<Rightarrow> Err ErrPayloadIdentityMismatch
                 | Ok identity \<Rightarrow>
                     (case matchPayloadVersion h identity v of Some e \<Rightarrow> Err e
                      | None \<Rightarrow>
                          if RequireOSSignature options then of_check (verifyAuthenticode h fs path (Publisher options))
                          else Ok ())))))"

definition Prepare ::
    "host \<Rightarrow> files \<Rightarrow> string \<Rightarrow> feed_release option \<Rightarrow> options \<Rightarrow> (update_error, installer) outcome" where
  "Prepare h fs payloadPath rel options =
    (case rel of None \<Rightarrow> Err ErrUnverifiableRelease
     | Some feed \<Rightarrow>
       if \<not> isDevelopmentBuild h \<and> trim_space (h_buildPublisher h) \<noteq> [] \<and> \<not> RequireOSSignature options
       then Err ErrUnverifiedPayload
       else if RequireOSSignature options \<and> trim_space (Publisher options) = [] then Err ErrUnverifiedPayload
       else if ValidateBuildVersion (h_buildVersion h) \<noteq> None then Err ErrUnverifiableRelease
       else if ValidateBuildVersion (fr_Version feed) \<noteq> None then Err ErrUnverifiableRelease
       else (case parse (fr_Version feed) of Inl _ \<Rightarrow> Err ErrUnverifiableRelease
         | Inr v \<Rightarrow>
           if h_GOOS h \<noteq> ''windows'' then Err ErrUnsupportedPlatform
           else outcome_bind (of_check (requireInstallerArtifact h feed)) (\<lambda>_.
             case h_abs h payloadPath of None \<Rightarrow> Err FileError
             | Some absolute \<Rightarrow>
               (case fs absolute of
                  None \<Rightarrow> Err ErrInstallerUnavailable
                | Some OtherNode \<Rightarrow> Err ErrInstallerUnavailable
                | Some (RegularFile c) \<Rightarrow>
                    if length c = 0 then Err ErrInstallerUnavailable
                    else if Size (fr_Artifact feed) > 0 \<and> int (length c) \<noteq> Size (fr_Artifact feed)
                    then Err ErrUnverifiedPayload
                    else outcome_bind (of_check (VerifyDigestFile h fs absolute rel)) (\<lambda>_.
                         outcome_bind (verifyInstallerIdentity h fs absolute v options) (\<lambda>_.
                         Ok \<lparr>in_Version = raw v, in_Channel = fr_Channel feed, in_Path = absolute,
                             in_Kind = KindInstaller\<rparr>))))))"

definition InstallerArgs :: "installer option \<Rightarrow> update_error + string list" where
  "InstallerArgs i =
    (case i of None \<Rightarrow> Inl ErrInstallerUnavailable
     | Some x \<Rightarrow> if in_Path x = [] then Inl ErrInstallerUnavailable else Inr [''/S''])"

definition cleanInstallDir :: "host \<Rightarrow> string \<Rightarrow> string option" where
  "cleanInstallDir h dir =
    (let cleaned = trim_space dir in
     if cleaned = [] then None
     else if list_ex (\<lambda>c. c \<in> set [CHR 0x22, CHR ''|'', CHR ''<'', CHR ''>'', CHR ''?'', CHR ''*'', CHR 0x00]) cleaned
     then None
     else if \<not> h_isAbs h cleaned then None
     else Some (h_clean h cleaned))"

subsection \<open>Staging\<close>

definition stagedFilename :: string where
  "stagedFilename = ''dsh-work-installer.exe''"

text \<open>
  How the file operations of one staging go: the name of the temporary file unless it cannot be
  created, whether its mode can be set, how many bytes were copied before the copy failed (\<open>None\<close> when
  it did not), and whether \<open>Sync\<close>, \<open>Close\<close>, \<open>Rename\<close> and \<open>Remove\<close> succeed.
\<close>

record stage_io =
  io_temp :: "string option"
  io_chmod :: bool
  io_copy_failed :: "nat option"
  io_sync :: bool
  io_close :: bool
  io_rename :: bool
  io_remove :: bool

definition discard :: "stage_io \<Rightarrow> string \<Rightarrow> files \<Rightarrow> files" where
  "discard io temporary fs = (if io_remove io then fs(temporary := None) else fs)"

text \<open>The copy under its temporary name: the files, and the error when it could not be written.\<close>

definition write_copy ::
    "stage_io \<Rightarrow> string \<Rightarrow> string \<Rightarrow> files \<Rightarrow> files \<times> update_error option" where
  "write_copy io temporary contents fs =
    (let created = fs(temporary \<mapsto> RegularFile []) in
     if \<not> io_chmod io then (discard io temporary created, Some ErrStagingUnavailable)
     else case io_copy_failed io of
       Some n \<Rightarrow> (discard io temporary (fs(temporary \<mapsto> RegularFile (take n contents))), Some ErrStagingUnavailable)
     | None \<Rightarrow>
         let written = fs(temporary \<mapsto> RegularFile contents) in
         if \<not> io_sync io \<or> \<not> io_close io then (discard io temporary written, Some ErrStagingUnavailable)
         else (written, None))"

definition Stage ::
    "host \<Rightarrow> stage_io \<Rightarrow> string option \<Rightarrow> string \<Rightarrow> feed_release option \<Rightarrow> files
     \<Rightarrow> files \<times> (update_error, installer) outcome" where
  "Stage h io staging sourcePath rel fs =
    (case staging of None \<Rightarrow> (fs, Err ErrUnverifiedPayload)
     | Some dir \<Rightarrow>
       (case VerifyDigestFile h fs sourcePath rel of Some e \<Rightarrow> (fs, Err e)
        | None \<Rightarrow>
          (case read_file h fs sourcePath of None \<Rightarrow> (fs, Err ErrInstallerUnavailable)
           | Some contents \<Rightarrow>
             (case io_temp io of None \<Rightarrow> (fs, Err ErrStagingUnavailable)
              | Some temporary \<Rightarrow>
                (case write_copy io temporary contents fs of
                   (fs1, Some e) \<Rightarrow> (fs1, Err e)
                 | (fs1, None) \<Rightarrow>
                     (case VerifyDigestFile h fs1 temporary rel of
                        Some e \<Rightarrow> (discard io temporary fs1, Err e)
                      | None \<Rightarrow>
                          let final = h_join h dir stagedFilename in
                          if \<not> io_rename io then (discard io temporary fs1, Err ErrStagingUnavailable)
                          else let fs2 = (fs1(temporary := None))(final := fs1 temporary)
                            in (fs2, Prepare h fs2 final rel (ProductionOptions h))))))))"

definition Recheck ::
    "host \<Rightarrow> string option \<Rightarrow> installer option \<Rightarrow> feed_release option \<Rightarrow> files \<Rightarrow> (update_error, unit) outcome" where
  "Recheck h staging inst rel fs =
    (case (staging, inst) of
       (Some dir, Some i) \<Rightarrow>
         (case h_abs h (h_join h dir stagedFilename) of None \<Rightarrow> Err ErrStagingUnavailable
          | Some expected \<Rightarrow>
            (case h_abs h (in_Path i) of None \<Rightarrow> Err ErrInstallerUnavailable
             | Some actual \<Rightarrow>
                 if actual \<noteq> expected then Err ErrInstallerUnavailable
                 else if VerifyDigestFile h fs actual rel \<noteq> None then Err ErrStagedPayloadChanged
                 else (case Prepare h fs actual rel (ProductionOptions h) of
                     Ok _ \<Rightarrow> Ok () | Err _ \<Rightarrow> Err ErrStagedPayloadChanged | Panic \<Rightarrow> Panic)))
     | _ \<Rightarrow> Err ErrInstallerUnavailable)"

text \<open>
  \<open>os.Remove\<close> of a path whose absence is no error; \<open>rm p\<close> says whether an existing \<open>p\<close> can be
  removed.  \<open>glob\<close> lists the left-over temporary files, \<open>None\<close> when that fails.
\<close>

definition remove_path :: "(string \<Rightarrow> bool) \<Rightarrow> string \<Rightarrow> files \<Rightarrow> files \<times> bool" where
  "remove_path rm p fs =
    (if fs p = None then (fs, True) else if rm p then (fs(p := None), True) else (fs, False))"

fun remove_leftovers :: "(string \<Rightarrow> bool) \<Rightarrow> string list \<Rightarrow> files \<Rightarrow> files \<times> bool" where
  "remove_leftovers rm [] fs = (fs, True)"
| "remove_leftovers rm (p # ps) fs =
    (case remove_path rm p fs of (fs', ok) \<Rightarrow> if ok then remove_leftovers rm ps fs' else (fs', False))"

definition Clear ::
    "host \<Rightarrow> (string \<Rightarrow> bool) \<Rightarrow> (files \<Rightarrow> string list option) \<Rightarrow> string option \<Rightarrow> files \<Rightarrow> files \<times> bool" where
  "Clear h rm glob staging fs =
    (case staging of None \<Rightarrow> (fs, True)
     | Some dir \<Rightarrow>
       (case remove_path rm (h_join h dir stagedFilename) fs of (fs1, ok) \<Rightarrow>
          if \<not> ok then (fs1, False)
          else case glob fs1 of None \<Rightarrow> (fs1, False) | Some leftovers \<Rightarrow> remove_leftovers rm leftovers fs1))"

lemma remove_leftovers_absent: "fs p = None \<Longrightarrow> fst (remove_leftovers rm ps fs) p = None"
  by (induction rm ps fs rule: remove_leftovers.induct) (auto simp: remove_path_def)

lemma Clear_removes:
  "Clear h rm glob (Some dir) fs = (fs', True) \<Longrightarrow> fs' (h_join h dir stagedFilename) = None"
  using remove_leftovers_absent [of _ "h_join h dir stagedFilename" rm]
  by (auto simp: Clear_def remove_path_def split: if_splits option.splits) (metis fst_conv fun_upd_same)+

subsection \<open>The handoff\<close>

text \<open>
  \<open>start\<close> is \<open>startDetachedProcess\<close>; the event is the case of the \<open>select\<close> that fires: the process
  has exited, the context is done, or the exit budget has passed.
\<close>

datatype 'c wait_event = ProcessExited bool | ContextDone 'c | BudgetPassed

datatype 'c handoff_error = HandoffUnavailable | InstallerFailed | InstallerTimeout | ContextCause 'c

record 'c handoff_outcome =
  InstallerExited :: bool
  InstallerExitCode :: int
  ho_Err :: "'c handoff_error option"

definition runInstaller ::
    "(string \<Rightarrow> string list \<Rightarrow> bool) \<Rightarrow> 'c wait_event \<Rightarrow> bool \<Rightarrow> installer option \<Rightarrow> 'c handoff_outcome" where
  "runInstaller start ev exiting i =
    (let failed = \<lambda>e. \<lparr>InstallerExited = False, InstallerExitCode = 0, ho_Err = Some e\<rparr> in
     case i of None \<Rightarrow> failed HandoffUnavailable
     | Some x \<Rightarrow>
       if in_Path x = [] then failed HandoffUnavailable
       else (case InstallerArgs i of Inl _ \<Rightarrow> failed HandoffUnavailable
         | Inr args \<Rightarrow>
             if \<not> start (in_Path x) (if exiting then args @ [''/NORESTART''] else args) then failed HandoffUnavailable
             else (case ev of
                 ProcessExited ok \<Rightarrow> if ok then \<lparr>InstallerExited = True, InstallerExitCode = 0, ho_Err = None\<rparr> else failed InstallerFailed
               | ContextDone c \<Rightarrow> failed (ContextCause c)
               | BudgetPassed \<Rightarrow> failed InstallerTimeout)))"

subsection \<open>Digests\<close>

lemma xor_zero_iff: "(a :: 8 word) XOR b = 0 \<longleftrightarrow> a = b"
  by (metis xor.assoc xor.left_neutral xor.right_neutral xor_self_eq)

lemma byte_xor_zero: "(of_char x :: 8 word) XOR of_char y = 0 \<longleftrightarrow> x = y"
proof -
  have "(of_char x :: 8 word) = of_char y \<longleftrightarrow> x = y"
  proof
    assume eq: "(of_char x :: 8 word) = of_char y"
    have "unat (of_char c :: 8 word) = byte c" for c
    proof -
      have "(of_char c :: 8 word) = word_of_nat (byte c)" by (simp only: of_nat_of_char)
      moreover have "byte c < 2 ^ LENGTH(8)" by simp
      ultimately show ?thesis by (simp only: unat_of_nat mod_less)
    qed
    with eq have "byte x = byte y" by metis
    then show "x = y" by simp
  qed simp
  then show ?thesis by (simp add: xor_zero_iff)
qed

lemma equal_bytes_fold:
  "foldl (\<lambda>diff (x, y). diff OR ((of_char x :: 8 word) XOR of_char y)) d ps = 0 \<longleftrightarrow> d = 0 \<and> (\<forall>(x, y) \<in> set ps. x = y)"
  by (induction ps arbitrary: d) (auto simp: byte_xor_zero or_eq_0_iff)

lemma equalBytes_iff: "equalBytes a b \<longleftrightarrow> a = b"
proof -
  have "(\<forall>(x, y) \<in> set (zip a b). x = y) \<longleftrightarrow> a = b" if "length a = length b"
    using that by (induction a b rule: list_induct2) auto
  then show ?thesis by (auto simp: equalBytes_def equal_bytes_fold)
qed


lemma RequireDigest_None:
  "RequireDigest h rel = None \<Longrightarrow> \<exists>r d. rel = Some r \<and> fr_Verification r = Some d"
  by (auto simp: RequireDigest_def split: option.splits)

lemma VerifyDigestFile_None:
  "VerifyDigestFile h fs p rel = None \<Longrightarrow>
     \<exists>r d c. rel = Some r \<and> fr_Verification r = Some d \<and> fs p = Some (RegularFile c) \<and> h_readable h p \<and> h_sha512 h c = Digest d"
  using RequireDigest_None [of h rel]
  by (auto simp: VerifyDigestFile_def read_file_def equalBytes_iff split: option.splits if_splits node.splits)

subsection \<open>What a verified payload is\<close>

definition declares :: "host \<Rightarrow> payload_identity \<Rightarrow> version \<Rightarrow> bool" where
  "declares h identity v \<longleftrightarrow> raw v \<in> set (versionStrings identity)
     \<and> (\<forall>s \<in> set (versionStrings identity). \<forall>other. s = raw v \<or> parse s \<noteq> Inr other \<or> Equal (h_semver h) other v)
     \<and> (trim_space (fixed identity) = [] \<or> WindowsFileVersion v = Inr (trim_space (fixed identity)))"

definition signed_as_required :: "host \<Rightarrow> files \<Rightarrow> string \<Rightarrow> bool" where
  "signed_as_required h fs p \<longleftrightarrow> isDevelopmentBuild h \<or> trim_space (h_buildPublisher h) = []
     \<or> h_trusted h fs p = Some True \<and> h_signer h fs p = Some (trim_space (h_buildPublisher h))"

definition verified :: "host \<Rightarrow> files \<Rightarrow> feed_release \<Rightarrow> string \<Rightarrow> bool" where
  "verified h fs feed p \<longleftrightarrow>
     (\<exists>c d v identity. fs p = Some (RegularFile c) \<and> fr_Verification feed = Some d \<and> h_sha512 h c = Digest d
        \<and> parse (fr_Version feed) = Inr v \<and> readPayloadIdentity (h_upper h) (readFile c) = Ok identity
        \<and> declares h identity v \<and> signed_as_required h fs p)"

lemma match_declared_Inr:
  "match_declared h v m ds = Inr r \<Longrightarrow>
     (r \<longrightarrow> m \<or> raw v \<in> set ds) \<and> (\<forall>s \<in> set ds. \<forall>other. s = raw v \<or> parse s \<noteq> Inr other \<or> Equal (h_semver h) other v)"
  by (induction h v m ds rule: match_declared.induct) (auto split: if_splits sum.splits)

lemma matchPayloadVersion_None: "matchPayloadVersion h identity v = None \<Longrightarrow> declares h identity v"
  using match_declared_Inr [of h v False "versionStrings identity" True]
  by (auto simp: matchPayloadVersion_def declares_def Let_def split: sum.splits if_splits)

lemma verifyAuthenticode_None:
  "verifyAuthenticode h fs p publisher = None \<Longrightarrow>
     h_trusted h fs p = Some True \<and> h_signer h fs p = Some (trim_space publisher)"
  by (auto simp: verifyAuthenticode_def Let_def split: option.splits if_splits)

lemma of_check_Ok: "of_check e = Ok u \<longleftrightarrow> e = None"
  by (simp add: of_check_def split: option.split)

lemma verifyInstallerIdentity_Ok:
  assumes "verifyInstallerIdentity h fs p v (ProductionOptions h) = Ok u"
  shows "\<exists>c identity. fs p = Some (RegularFile c) \<and> readPayloadIdentity (h_upper h) (readFile c) = Ok identity
    \<and> declares h identity v \<and> signed_as_required h fs p"
  using assms verifyAuthenticode_None [of h fs p "h_buildPublisher h"]
  by (auto simp: verifyInstallerIdentity_def read_file_def of_check_Ok ProductionOptions_def signed_as_required_def
      dest: matchPayloadVersion_None split: option.splits sum.splits if_splits outcome.splits node.splits)

lemma Prepare_Ok:
  assumes "Prepare h fs p rel (ProductionOptions h) = Ok i"
  obtains feed v where "rel = Some feed" "verified h fs feed (in_Path i)" "h_abs h p = Some (in_Path i)"
    "parse (fr_Version feed) = Inr v" "in_Version i = raw v"
proof -
  obtain feed v absolute where f: "rel = Some feed" "parse (fr_Version feed) = Inr v" "h_abs h p = Some absolute"
      "VerifyDigestFile h fs absolute rel = None" "verifyInstallerIdentity h fs absolute v (ProductionOptions h) = Ok ()"
      "in_Path i = absolute" "in_Version i = raw v"
    using assms
    by (auto simp: Prepare_def outcome_bind_Ok of_check_Ok split: option.splits if_splits sum.splits node.splits)
  have "verified h fs feed absolute"
    using VerifyDigestFile_None [OF f(4)] verifyInstallerIdentity_Ok [OF f(5)] f(1,2) by (auto simp: verified_def)
  then show thesis using that f by metis
qed

text \<open>(C10) Only a verified installer is ever kept or started: when staging succeeds, and again
  whenever the check before the start succeeds, the file at the installer's path has the digest
  of the feed, carries a version resource that names exactly the advertised release and nothing
  that contradicts it, and is signed by the publisher of the build when it has one, whatever
  bytes are in the file system and whichever file operation failed before.\<close>

theorem installer_verified_before_start:
  "(Stage h io staging sourcePath (Some feed) fs = (fs', Ok i) \<longrightarrow>
      verified h fs' feed (in_Path i) \<and> (\<exists>v. parse (fr_Version feed) = Inr v \<and> in_Version i = raw v))
   \<and> (Recheck h staging (Some i) (Some feed) fs'' = Ok () \<longrightarrow>
      (\<exists>p q. h_abs h (in_Path i) = Some p \<and> h_abs h p = Some q \<and> verified h fs'' feed q))"
proof (intro conjI impI)
  assume "Stage h io staging sourcePath (Some feed) fs = (fs', Ok i)"
  then obtain p where "Prepare h fs' p (Some feed) (ProductionOptions h) = Ok i"
    by (auto simp: Stage_def Let_def split: option.splits if_splits prod.splits)
  then show "verified h fs' feed (in_Path i)" "\<exists>v. parse (fr_Version feed) = Inr v \<and> in_Version i = raw v"
    by (auto elim: Prepare_Ok)
next
  assume r: "Recheck h staging (Some i) (Some feed) fs'' = Ok ()"
  then obtain p j where "h_abs h (in_Path i) = Some p" "Prepare h fs'' p (Some feed) (ProductionOptions h) = Ok j"
    by (auto simp: Recheck_def split: option.splits if_splits outcome.splits)
  then show "\<exists>p q. h_abs h (in_Path i) = Some p \<and> h_abs h p = Some q \<and> verified h fs'' feed q"
    by (auto elim: Prepare_Ok)
qed

text \<open>A failed staging can leave a payload behind: once the downloaded bytes have the digest of
  the feed and the file operations succeed, the payload stands under its final name, also when
  the checks that follow refuse it.\<close>

lemma refused_payload_stays_staged:
  assumes "Stage h io (Some dir) sourcePath (Some feed) fs = (fs', Err e)"
    and "VerifyDigestFile h fs sourcePath (Some feed) = None"
    and "io_temp io = Some temporary" "h_readable h temporary" "io_copy_failed io = None"
    and "io_chmod io \<and> io_sync io \<and> io_close io \<and> io_rename io"
  shows "fs' (h_join h dir stagedFilename) = fs sourcePath \<and> fs sourcePath \<noteq> None"
proof -
  obtain c d where c: "fs sourcePath = Some (RegularFile c)" "h_readable h sourcePath" "fr_Verification feed = Some d"
      "h_sha512 h c = Digest d" and req: "RequireDigest h (Some feed) = None"
    using VerifyDigestFile_None [OF assms(2)] assms(2) by (auto simp: VerifyDigestFile_def split: option.splits)
  have "VerifyDigestFile h (fs(temporary \<mapsto> RegularFile c)) temporary (Some feed) = None"
    using c(3,4) req assms(4) by (simp add: VerifyDigestFile_def read_file_def equalBytes_iff)
  with assms c(1,2) show ?thesis
    by (auto simp: Stage_def read_file_def write_copy_def Let_def)
qed

subsection \<open>Witnesses\<close>

definition bytes_of :: "nat list \<Rightarrow> string" where
  "bytes_of = map char_of"

text \<open>ASCII text in UTF-16.\<close>

definition wide :: "string \<Rightarrow> string" where
  "wide s = concat (map (\<lambda>c. [c, CHR 0x00]) s)"

definition version_block :: string where
  "version_block = bytes_of [44, 0, 6, 0, 1, 0] @ wide ''FILEVERSION'' @ [CHR 0x00, CHR 0x00, CHR 0x00, CHR 0x00] @
     wide ''0.3.0'' @ [CHR 0x00, CHR 0x00]"

text \<open>
  A 64-bit image with one section that maps the file onto itself and a version resource that
  declares \<open>FILEVERSION\<close> 0.3.0: DOS header, file header, optional header with the resource directory
  at 264, section table, the three directory levels, the data entry and one version block.
\<close>

definition example_payload :: string where
  "example_payload =
     bytes_of [0x4D, 0x5A] @ replicate 58 (CHR 0x00) @ bytes_of [64, 0, 0, 0] @
     bytes_of [0x50, 0x45, 0, 0, 0x64, 0x86, 1, 0] @ replicate 12 (CHR 0x00) @ bytes_of [136, 0, 0, 0] @
     bytes_of [0x0B, 0x02] @ replicate 126 (CHR 0x00) @ bytes_of [8, 1, 0, 0, 132, 0, 0, 0] @
     replicate 8 (CHR 0x00) @ bytes_of [140, 1, 0, 0, 0, 0, 0, 0, 140, 1, 0, 0, 0, 0, 0, 0] @ replicate 16 (CHR 0x00) @
     replicate 14 (CHR 0x00) @ bytes_of [1, 0, 16, 0, 0, 0, 24, 0, 0, 128] @
     replicate 14 (CHR 0x00) @ bytes_of [1, 0, 1, 0, 0, 0, 48, 0, 0, 128] @
     replicate 14 (CHR 0x00) @ bytes_of [1, 0, 9, 4, 0, 0, 72, 0, 0, 0] @
     bytes_of [96, 1, 0, 0, 44, 0, 0, 0] @ replicate 8 (CHR 0x00) @
     version_block"

lemma example_payload_length: "length example_payload = 396"
  by (simp add: example_payload_def version_block_def wide_def bytes_of_def)

lemma example_machine: "readMachine example_payload = Inr 0x8664"
  by (simp add: readMachine_def example_payload_def version_block_def wide_def bytes_of_def byte_at_def le16_def le32_def minDosHeaderSize_def nth_append Let_def)

definition exe_image :: string where
  "exe_image = mem (readFile example_payload)"

lemma readFile_example: "readFile example_payload = \<lparr>mem = exe_image, len = 396\<rparr>"
  by (simp add: exe_image_def readFile_def example_payload_length)

lemma image_length: "length exe_image = 512"
  by (simp add: exe_image_def readFile_def example_payload_length)

text \<open>The fields of the image, read at absolute positions.\<close>

abbreviation field16 :: "nat \<Rightarrow> nat \<Rightarrow> nat" where
  "field16 n i \<equiv> le16 \<lparr>mem = exe_image, len = n\<rparr> i"

lemma le16_drop: "a \<le> 512 \<Longrightarrow> le16 \<lparr>mem = drop a exe_image, len = n\<rparr> i = field16 0 (a + i)"
  by (simp add: le16_def byte_at_def image_length)

lemma image_fields:
  "field16 n 0 = 0x5A4D" "field16 n 60 = 64" "field16 n 62 = 0" "field16 n 64 = 0x4550" "field16 n 70 = 1" "field16 n 84 = 136"
  "field16 n 88 = 0x20B" "field16 n 216 = 264" "field16 n 218 = 0" "field16 n 220 = 132" "field16 n 222 = 0"
  "field16 n 232 = 396" "field16 n 234 = 0" "field16 n 236 = 0" "field16 n 238 = 0" "field16 n 240 = 396" "field16 n 242 = 0"
  "field16 n 244 = 0" "field16 n 246 = 0"
  "field16 n 276 = 0" "field16 n 278 = 1" "field16 n 280 = 16" "field16 n 282 = 0" "field16 n 284 = 24" "field16 n 286 = 32768"
  "field16 n 300 = 0" "field16 n 302 = 1" "field16 n 304 = 1" "field16 n 306 = 0" "field16 n 308 = 48" "field16 n 310 = 32768"
  "field16 n 324 = 0" "field16 n 326 = 1" "field16 n 328 = 1033" "field16 n 330 = 0" "field16 n 332 = 72" "field16 n 334 = 0"
  "field16 n 336 = 352" "field16 n 338 = 0" "field16 n 340 = 44" "field16 n 342 = 0"
  by (simp_all add: exe_image_def readFile_def example_payload_def version_block_def wide_def bytes_of_def le16_def byte_at_def nth_append)

lemma image_bytes:
  "byte_at \<lparr>mem = exe_image, len = n\<rparr> 0 = 0x4D" "byte_at \<lparr>mem = exe_image, len = n\<rparr> (Suc 0) = 0x5A"
  "byte_at \<lparr>mem = exe_image, len = n\<rparr> 64 = 0x50" "byte_at \<lparr>mem = exe_image, len = n\<rparr> 65 = 0x45"
  by (simp_all add: exe_image_def readFile_def example_payload_def version_block_def wide_def bytes_of_def byte_at_def nth_append)

lemmas image_eval = image_fields image_bytes image_length le16_drop le32_def cap_def must_def uint16_at_def
  uint32_at_def sub_slice_def tail_slice_def outcome_bind_def minDosHeaderSize_def

abbreviation example_layout :: pe_layout where
  "example_layout \<equiv> \<lparr>optional_hdr = 88, optionalSize = 136, sections = 1\<rparr>"

abbreviation example_directory :: slice where
  "example_directory \<equiv> \<lparr>mem = drop 264 exe_image, len = 132\<rparr>"

lemma example_layout: "parsePELayout \<lparr>mem = exe_image, len = 396\<rparr> = Ok example_layout"
  by (simp add: parsePELayout_def image_eval Let_def)

lemma example_resource: "resourceDirectory \<lparr>mem = exe_image, len = 396\<rparr> = Ok (example_layout, 264, 132)"
  by (simp add: resourceDirectory_def example_layout dataDirectoryOffset_def image_eval fileOffset_def Let_def)

lemma example_entries:
  "directoryEntries example_directory = 1" "directoryEntryID example_directory 0 = Ok 16"
  "subdirectory example_directory example_directory 0 = Ok (Some \<lparr>mem = drop 288 exe_image, len = 108\<rparr>)"
  "directoryEntries \<lparr>mem = drop 288 exe_image, len = 108\<rparr> = 1"
  "subdirectory example_directory \<lparr>mem = drop 288 exe_image, len = 108\<rparr> 0 = Ok (Some \<lparr>mem = drop 312 exe_image, len = 84\<rparr>)"
  "directoryEntries \<lparr>mem = drop 312 exe_image, len = 84\<rparr> = 1"
  "resourceDataEntry example_directory \<lparr>mem = drop 312 exe_image, len = 84\<rparr> 0 = Ok (Some \<lparr>mem = drop 336 exe_image, len = 16\<rparr>)"
  by (simp_all add: directoryEntries_def directoryEntryID_def directoryEntry_def subdirectory_def resourceDataEntry_def image_eval Let_def)

lemma example_block: "drop 352 exe_image = version_block @ replicate 116 (CHR 0x00)"
  by (simp add: exe_image_def readFile_def example_payload_length) (simp add: example_payload_def bytes_of_def)

lemma length_wide [simp]: "length (wide s) = 2 * length s"
  by (induction s) (simp_all add: wide_def)

lemma utf16_units_wide:
  "\<forall>c \<in> set s. 0 < byte c \<Longrightarrow> utf16_units (wide s @ CHR 0x00 # CHR 0x00 # t) = map of_char s"
  by (induction s) (auto simp: Let_def wide_def)

lemma utf16_decode_small: "\<forall>u \<in> set us. u < 0xD800 \<Longrightarrow> utf16_decode us = us"
  by (induction us rule: utf16_decode.induct) auto

lemma decodeUTF16_wide:
  assumes "\<forall>c \<in> set s. 0x20 < byte c \<and> byte c < 0x7F"
  shows "decodeUTF16 (wide s @ CHR 0x00 # CHR 0x00 # t) = s"
proof -
  have "utf16_units (wide s @ CHR 0x00 # CHR 0x00 # t) = map of_char s"
    using assms by (intro utf16_units_wide) fastforce
  moreover have "utf16_decode (map of_char s) = map of_char s"
    using assms by (intro utf16_decode_small) fastforce
  moreover have "string_of_runes (map of_char s) = s" using assms by (intro string_of_runes_ascii) fastforce
  ultimately show ?thesis using trim_space_graphic [OF assms] by (simp add: decodeUTF16_def)
qed

abbreviation block_slice :: slice where
  "block_slice \<equiv> \<lparr>mem = version_block @ replicate 116 (CHR 0x00), len = 44\<rparr>"

lemmas block_defs = version_block_def wide_def bytes_of_def byte_at_def

lemma block_key: "key_end block_slice 6 = 28"
  by (simp add: key_end.simps block_defs)

lemma block_fields: "le16 block_slice 0 = 44" "le16 block_slice 2 = 6" "le16 block_slice 4 = 1"
  by (simp_all add: le16_def block_defs)

lemma block_length: "length version_block = 44"
  by (simp add: version_block_def bytes_of_def)

lemma block_key_bytes: "take 24 (drop 6 (version_block @ t)) = wide ''FILEVERSION'' @ [CHR 0x00, CHR 0x00]"
  by (simp add: version_block_def bytes_of_def)

lemma block_text: "drop 32 (version_block @ t) = wide ''0.3.0'' @ CHR 0x00 # CHR 0x00 # t"
  by (simp add: version_block_def bytes_of_def)

lemma block_text_length: "text_length \<lparr>mem = wide ''0.3.0'' @ CHR 0x00 # CHR 0x00 # t, len = 12\<rparr> 0 = 12"
  by (simp add: text_length.simps byte_at_def wide_def)

lemma block_texts: "decodeUTF16 (wide ''FILEVERSION'' @ [CHR 0x00, CHR 0x00]) = ''FILEVERSION''"
    "decodeUTF16 (wide ''0.3.0'' @ [CHR 0x00, CHR 0x00]) = ''0.3.0''"
  by (rule decodeUTF16_wide, simp)+

lemma block_text_part:
  "text_part key 1 6 block_slice 32 parsed = (parsed\<lparr>named := (named parsed)(key \<mapsto> ''0.3.0'')\<rparr>, 44)"
  by (simp add: text_part_def textValueLength_def block_text block_text_length block_texts Let_def del: drop_append)

lemma example_version:
  "parseVersionInfo id block_slice = Ok (no_version\<lparr>named := [''FILEVERSION'' \<mapsto> ''0.3.0'']\<rparr>)"
proof -
  have upd: "block_slice\<lparr>len := 44\<rparr> = block_slice" by simp
  have "childBlocks block_slice 44 = []" by (simp add: childBlocks.simps)
  then have "parse_block id block_slice = Ok (no_version\<lparr>named := [''FILEVERSION'' \<mapsto> ''0.3.0'']\<rparr>, [])"
    using block_key_bytes [of "replicate 116 (CHR 0x00)"]
    by (simp add: parse_block_def block_fields block_key must_def sub_slice_def cap_def block_length bytes_def alignTo32_def
        fixed_part_def outcome_bind_def block_text_part block_texts no_version_def Let_def del: drop_append take_append One_nat_def)
  then show ?thesis by (subst parseVersionInfo.simps) simp
qed

lemma example_identity:
  "readPayloadIdentity id (readFile example_payload) = Ok \<lparr>fixed = [], fileVersion = ''0.3.0'', productVersion = []\<rparr>"
proof -
  have map: "fileOffset example_layout \<lparr>mem = exe_image, len = 396\<rparr> 352 44 = Ok 352"
    by (simp add: fileOffset_def image_eval Let_def)
  have "language_body id \<lparr>mem = exe_image, len = 396\<rparr> example_layout example_directory \<lparr>mem = drop 312 exe_image, len = 84\<rparr> 0
      = Ok (Some (no_version\<lparr>named := [''FILEVERSION'' \<mapsto> ''0.3.0'']\<rparr>))"
    using example_version by (simp add: language_body_def example_entries image_eval map example_block del: One_nat_def)
  then have "versionInfoResource id \<lparr>mem = exe_image, len = 396\<rparr> example_layout 264 132
      = Ok (no_version\<lparr>named := [''FILEVERSION'' \<mapsto> ''0.3.0'']\<rparr>)"
    by (simp add: versionInfoResource_def type_body_def name_body_def example_entries image_eval)
  then show ?thesis
    by (simp add: readPayloadIdentity_def readFile_example example_resource outcome_bind_def no_version_def lookup_def)
qed

definition example_host :: host where
  "example_host = \<lparr>h_GOOS = ''windows'', h_GOARCH = ''amd64'', h_Separator = [CHR 0x5C], h_lower = id, h_upper = id,
     h_semver = numeric_compare, h_sha512 = (\<lambda>c. ''digest''), h_abs = Some, h_isAbs = (\<lambda>p. True), h_clean = id, h_base = id,
     h_join = (\<lambda>a b. a @ ''/'' @ b), h_readable = (\<lambda>p. True), h_trusted = (\<lambda>fs p. None), h_signer = (\<lambda>fs p. None),
     h_buildVersion = ''development'', h_buildPublisher = []\<rparr>"

definition example_feed :: feed_release where
  "example_feed = \<lparr>fr_Version = ''0.3.0'', fr_Channel = ''stable'', fr_PublishedAt = [],
     fr_Artifact = \<lparr>Filename = ''setup.exe'', Filetype = [], Size = 0, Platform = ''windows'', Arch = ''amd64'', URL = []\<rparr>,
     fr_Verification = Some \<lparr>DigestAlgo = ''sha512'', Digest = ''digest''\<rparr>\<rparr>"

definition example_io :: stage_io where
  "example_io = \<lparr>io_temp = Some ''tmp'', io_chmod = True, io_copy_failed = None, io_sync = True, io_close = True,
     io_rename = True, io_remove = True\<rparr>"

abbreviation staged_path :: string where
  "staged_path \<equiv> ''app/dsh-work-installer.exe''"

abbreviation example_installer :: installer where
  "example_installer \<equiv> \<lparr>in_Version = ''0.3.0'', in_Channel = ''stable'', in_Path = staged_path, in_Kind = KindInstaller\<rparr>"

lemma trim_example: "trim_space ''sha512'' = ''sha512''" "trim_space ''development'' = ''development''"
    "trim_space ''windows'' = ''windows''" "trim_space ''amd64'' = ''amd64''" "trim_space ''setup.exe'' = ''setup.exe''"
  by (rule trim_space_graphic; simp)+

lemma example_digest: "fs p = Some (RegularFile c) \<Longrightarrow> VerifyDigestFile example_host fs p (Some example_feed) = None"
  by (simp add: VerifyDigestFile_def RequireDigest_def example_host_def example_feed_def trim_example read_file_def equalBytes_iff Let_def)

lemma example_match:
  "matchPayloadVersion example_host \<lparr>fixed = [], fileVersion = ''0.3.0'', productVersion = []\<rparr> (base_version 0) = None"
proof -
  have "raw (base_version 0) = ''0.3.0''"
    using parse_030 parse_030_base by simp
  then show ?thesis
    by (simp add: matchPayloadVersion_def WindowsFileVersion_def WindowsFields_def WindowsFieldMax_def versionStrings_def
        trim_space_030 Let_def) (simp add: base_version_def)
qed

lemma example_selectors:
  "fr_Version example_feed = ''0.3.0''" "fr_Channel example_feed = ''stable''" "Size (fr_Artifact example_feed) = 0"
  "h_GOOS example_host = ''windows''" "h_buildVersion example_host = ''development''" "h_abs example_host = Some"
  by (simp_all add: example_feed_def example_host_def)

lemma example_development: "isDevelopmentBuild example_host"
  by (simp add: isDevelopmentBuild_def example_selectors trim_example DevelopmentVersion_def)

lemma example_prepare_identity:
  assumes "fs staged_path = Some (RegularFile c)" "c \<noteq> []"
  shows "Prepare example_host fs staged_path (Some example_feed) (ProductionOptions example_host)
    = outcome_bind (verifyInstallerIdentity example_host fs staged_path (base_version 0) (ProductionOptions example_host))
        (\<lambda>_. Ok example_installer)"
proof -
  have "ValidateBuildVersion ''development'' = None" "ValidateBuildVersion ''0.3.0'' = None"
    by (simp_all add: ValidateBuildVersion_def trim_example trim_space_030 DevelopmentVersion_def ParseRelease_def parse_030_base
        base_version_def)
  moreover have "requireInstallerArtifact example_host example_feed = None"
    by (simp add: requireInstallerArtifact_def example_host_def example_feed_def trim_example has_suffix_def Let_def)
  moreover have "VerifyDigestFile example_host fs staged_path (Some example_feed) = None"
    using assms(1) by (rule example_digest)
  moreover have "raw (base_version 0) = ''0.3.0''" using parse_030 parse_030_base by simp
  ultimately show ?thesis
    using assms example_development
    by (simp add: Prepare_def ProductionOptions_def example_selectors parse_030_base of_check_def outcome_bind_def)
qed

lemma example_prepare:
  assumes "fs staged_path = Some (RegularFile example_payload)"
  shows "Prepare example_host fs staged_path (Some example_feed) (ProductionOptions example_host) = Ok example_installer"
proof -
  have "verifyInstallerIdentity example_host fs staged_path (base_version 0) (ProductionOptions example_host) = Ok ()"
    using assms example_match example_development
    by (simp add: verifyInstallerIdentity_def read_file_def example_machine hostMachines_def ProductionOptions_def)
       (simp add: example_host_def example_machine example_identity)
  moreover have "example_payload \<noteq> []" using example_payload_length by auto
  ultimately show ?thesis using example_prepare_identity [of fs] assms by (simp add: outcome_bind_def)
qed

lemma example_refused:
  assumes "fs staged_path = Some (RegularFile ''text'')"
  shows "Prepare example_host fs staged_path (Some example_feed) (ProductionOptions example_host) = Err ErrPayloadNotInstaller"
proof -
  have "verifyInstallerIdentity example_host fs staged_path (base_version 0) (ProductionOptions example_host) = Err ErrPayloadNotInstaller"
    using assms
    by (simp add: verifyInstallerIdentity_def read_file_def readMachine_def minDosHeaderSize_def)
  then show ?thesis using example_prepare_identity [of fs] assms by (simp add: outcome_bind_def)
qed

abbreviation download :: "string \<Rightarrow> files" where
  "download c \<equiv> [''download'' \<mapsto> RegularFile c]"

lemma example_stage:
  "Stage example_host example_io (Some ''app'') ''download'' (Some example_feed) (download c) =
     ([''download'' \<mapsto> RegularFile c, staged_path \<mapsto> RegularFile c],
      Prepare example_host [''download'' \<mapsto> RegularFile c, staged_path \<mapsto> RegularFile c] staged_path (Some example_feed)
        (ProductionOptions example_host))"
proof -
  have [simp]: "h_join example_host ''app'' stagedFilename = staged_path" "read_file example_host (download c) ''download'' = Some c"
    by (simp_all add: example_host_def stagedFilename_def read_file_def)
  have "VerifyDigestFile example_host (download c) ''download'' (Some example_feed) = None"
    "VerifyDigestFile example_host ((download c)(''tmp'' \<mapsto> RegularFile c)) ''tmp'' (Some example_feed) = None"
    by (rule example_digest, simp)+
  moreover have "((download c)(''tmp'' := None))(staged_path \<mapsto> RegularFile c) = [''download'' \<mapsto> RegularFile c, staged_path \<mapsto> RegularFile c]"
    by auto
  ultimately show ?thesis
    by (simp add: Stage_def write_copy_def example_io_def Let_def)
qed

lemma example_recheck:
  "fs staged_path = Some (RegularFile example_payload) \<Longrightarrow>
     Recheck example_host (Some ''app'') (Some example_installer) (Some example_feed) fs = Ok ()"
  using example_prepare [of fs] example_digest [of fs staged_path example_payload]
  by (simp add: Recheck_def example_selectors) (simp add: example_host_def stagedFilename_def)

theorem installer_verified_before_start_witness:
  "verified example_host [''download'' \<mapsto> RegularFile example_payload, staged_path \<mapsto> RegularFile example_payload] example_feed staged_path"
  using installer_verified_before_start [of example_host example_io "Some ''app''" "''download''" example_feed "download example_payload"
      "[''download'' \<mapsto> RegularFile example_payload, staged_path \<mapsto> RegularFile example_payload]" example_installer
      "[''download'' \<mapsto> RegularFile example_payload, staged_path \<mapsto> RegularFile example_payload]"]
    example_stage [of example_payload] example_prepare [of "[''download'' \<mapsto> RegularFile example_payload, staged_path \<mapsto> RegularFile example_payload]"]
    example_recheck [of "[''download'' \<mapsto> RegularFile example_payload, staged_path \<mapsto> RegularFile example_payload]"]
  by simp

lemma refused_payload_stays_staged_example:
  "[''download'' \<mapsto> RegularFile ''text'', staged_path \<mapsto> RegularFile ''text''] (h_join example_host ''app'' stagedFilename)
     = Some (RegularFile ''text'')"
proof -
  have stage: "Stage example_host example_io (Some ''app'') ''download'' (Some example_feed) (download ''text'') =
      ([''download'' \<mapsto> RegularFile ''text'', staged_path \<mapsto> RegularFile ''text''], Err ErrPayloadNotInstaller)"
    by (simp add: example_stage example_refused)
  have digest: "VerifyDigestFile example_host (download ''text'') ''download'' (Some example_feed) = None"
    by (rule example_digest) simp
  show ?thesis
    using refused_payload_stays_staged [OF stage digest, of "''tmp''"] by (simp add: example_io_def example_host_def)
qed

end
