(* ===== verification/Page_Flow.thy ===== *)
theory Page_Flow
  imports Interactions Notifications Activity_Bridge
begin

text \<open>
  The path of a pending interaction through the daemon: \<open>internal/daemon/dsh_page_service.go\<close>
  and \<open>surface.go\<close> accept the calls of a workspace page, \<open>internal/presence/tracker.go\<close>
  tracks focus, and \<open>internal/desktopapp/interaction_notify.go\<close> turns the changes of the
  interaction store into notifications and the user's answers into commands.  The labels of
  \<open>internal/nativeui/locale.go\<close> that a notification shows are included.

  A nil pointer or a nil function is \<open>None\<close> or a false flag; an error is its message.  The calls the
  notifier makes to other components are returned as a list.
\<close>

subsection \<open>Focus tracking\<close>

record tracker =
  focused :: "string set"
  lastFocused :: string

definition NewTracker :: tracker where
  "NewTracker = \<lparr>focused = {}, lastFocused = []\<rparr>"

definition SetFocused :: "string \<Rightarrow> bool \<Rightarrow> tracker option \<Rightarrow> tracker option" where
  "SetFocused surface b t =
    (if t = None \<or> surface = [] then t
     else map_option (\<lambda>t. if b then t\<lparr>focused := insert surface (focused t), lastFocused := surface\<rparr>
                          else t\<lparr>focused := focused t - {surface}\<rparr>) t)"

definition Clear :: "string \<Rightarrow> tracker option \<Rightarrow> tracker option" where
  "Clear surface t =
    (if t = None \<or> surface = [] then t
     else map_option (\<lambda>t. t\<lparr>focused := focused t - {surface},
                            lastFocused := (if lastFocused t = surface then [] else lastFocused t)\<rparr>) t)"

definition ClearAllFocus :: "tracker option \<Rightarrow> tracker option" where
  "ClearAllFocus = map_option (\<lambda>t. t\<lparr>focused := {}, lastFocused := []\<rparr>)"

definition AnyFocused :: "tracker option \<Rightarrow> bool" where
  "AnyFocused t = (case t of None \<Rightarrow> False | Some t \<Rightarrow> focused t \<noteq> {})"

definition Focused :: "string \<Rightarrow> tracker option \<Rightarrow> bool" where
  "Focused surface t = (case t of None \<Rightarrow> False | Some t \<Rightarrow> surface \<in> focused t)"

definition LastFocused :: "tracker option \<Rightarrow> string" where
  "LastFocused t =
    (case t of None \<Rightarrow> ''workspace''
     | Some t \<Rightarrow> if lastFocused t = [] then ''workspace'' else lastFocused t)"

subsection \<open>Surfaces\<close>

text \<open>A context carries the surface the transport stamped on the call, when it carries one.\<close>

type_synonym call_context = "string option option"

definition LocalClientSurface :: "call_context \<Rightarrow> string" where
  "LocalClientSurface ctx = (case ctx of None \<Rightarrow> [] | Some None \<Rightarrow> [] | Some (Some s) \<Rightarrow> s)"

definition SurfaceFrom :: "call_context \<Rightarrow> string" where
  "SurfaceFrom ctx = LocalClientSurface ctx"

text \<open>\<open>strconv.ParseUint\<close> in base 10 for 64 bits.\<close>

definition parse_uint64 :: "string \<Rightarrow> nat option" where
  "parse_uint64 s =
    (if s = [] \<or> \<not> list_all is_digit s \<or> digits_value s \<ge> 2 ^ 64 then None else Some (digits_value s))"

definition isWorkspaceSurface :: "string \<Rightarrow> bool" where
  "isWorkspaceSurface surface =
    (if surface = ''workspace'' then True
     else if \<not> has_prefix surface ''workspace-'' then False
     else let v = trim_prefix surface ''workspace-'' in
       case parse_uint64 v of None \<Rightarrow> False | Some n \<Rightarrow> n \<ge> 2 \<and> show_nat n = v)"

subsection \<open>The services of a workspace page\<close>

record window_service =
  ws_Presence :: "tracker option"
  ws_Interactions :: "store option"

definition surfaceRequired :: string where
  "surfaceRequired = ''workspace surface required''"

definition SetFocus :: "call_context \<Rightarrow> bool \<Rightarrow> window_service \<Rightarrow> window_service \<times> string option" where
  "SetFocus ctx b s =
    (let surface = SurfaceFrom ctx in
     if \<not> isWorkspaceSurface surface then (s, Some surfaceRequired)
     else (s\<lparr>ws_Presence := SetFocused surface b (ws_Presence s)\<rparr>, None))"

definition Closed :: "call_context \<Rightarrow> window_service \<Rightarrow> window_service \<times> string option" where
  "Closed ctx s =
    (let surface = SurfaceFrom ctx in
     if \<not> isWorkspaceSurface surface then (s, Some surfaceRequired)
     else (s\<lparr>ws_Presence := Clear surface (ws_Presence s),
             ws_Interactions := map_option (ClearWindow surface) (ws_Interactions s)\<rparr>, None))"

text \<open>The settings manager is reached through the function argument, \<open>None\<close> when it is nil.\<close>

definition SaveZoom :: "call_context \<Rightarrow> 'z \<Rightarrow> ('z \<Rightarrow> string option) option \<Rightarrow> string option" where
  "SaveZoom ctx zoom setZoom =
    (if \<not> isWorkspaceSurface (SurfaceFrom ctx) then Some surfaceRequired
     else case setZoom of None \<Rightarrow> Some ''settings are unavailable'' | Some f \<Rightarrow> f zoom)"

definition SaveGeometry ::
    "call_context \<Rightarrow> 'g \<Rightarrow> (string \<Rightarrow> 'g \<Rightarrow> string option) option \<Rightarrow> string option" where
  "SaveGeometry ctx geometry setGeometry =
    (let surface = SurfaceFrom ctx in
     if \<not> isWorkspaceSurface surface then Some surfaceRequired
     else if surface \<noteq> ''workspace'' then None
     else case setGeometry of None \<Rightarrow> Some ''settings are unavailable'' | Some f \<Rightarrow> f surface geometry)"

record page_service =
  ps_Activity :: "bridge option"
  ps_Interactions :: "store option"

definition PageSessionOpened ::
    "call_context \<Rightarrow> string \<Rightarrow> string \<Rightarrow> page_service option \<Rightarrow> page_service option \<times> string option" where
  "PageSessionOpened ctx i reportedError s =
    (if \<not> isWorkspaceSurface (SurfaceFrom ctx) then (s, Some surfaceRequired)
     else case s of
       None \<Rightarrow> (s, Some ''DSH activity is unavailable'')
     | Some svc \<Rightarrow>
         (case ps_Activity svc of
            None \<Rightarrow> (s, Some ''DSH activity is unavailable'')
          | Some b \<Rightarrow> (Some (svc\<lparr>ps_Activity := Some (ReportSessionOpened i reportedError b)\<rparr>), None)))"

definition validateInteractionInstance :: "string \<Rightarrow> string option" where
  "validateInteractionInstance inst =
    (if inst = [] then Some ''interaction instance is required''
     else if rune_count inst > 256 then Some ''interaction instance is too long''
     else None)"

definition validateInteractionReport :: "report \<Rightarrow> string option" where
  "validateInteractionReport rp =
    (if \<not> valid_string (rp_Reason rp) \<or> rune_count (rp_Reason rp) > 320
     then Some ''interaction reason is invalid''
     else if rp_Instance rp = [] then Some ''interaction instance is required''
     else if rune_count (rp_Instance rp) > 256 then Some ''interaction instance is too long''
     else if rune_count (rp_SessionID rp) > 256 then Some ''interaction session ID is too long''
     else if rp_Kind rp \<notin> {[], ''approval'', ''question'', ''plan-review''}
     then Some ''interaction kind is invalid''
     else if rp_Kind rp \<noteq> [] \<and> rp_Key rp = [] then Some ''interaction key is required''
     else if rune_count (rp_Key rp) > 256 then Some ''interaction key is too long''
     else if rune_count (rp_ToolName rp) > 120 then Some ''interaction tool name is too long''
     else if rune_count (rp_Current rp) > 256 then Some ''current session ID is too long''
     else None)"

definition ReportInteraction ::
    "call_context \<Rightarrow> report \<Rightarrow> page_service option \<Rightarrow> page_service option \<times> string option" where
  "ReportInteraction ctx rp s =
    (let surface = SurfaceFrom ctx in
     if \<not> isWorkspaceSurface surface then (s, Some surfaceRequired)
     else case validateInteractionReport rp of
       Some e \<Rightarrow> (s, Some e)
     | None \<Rightarrow>
         (case s of
            None \<Rightarrow> (s, Some ''DSH interaction tracking is unavailable'')
          | Some svc \<Rightarrow>
              (case ps_Interactions svc of
                 None \<Rightarrow> (s, Some ''DSH interaction tracking is unavailable'')
               | Some sto \<Rightarrow>
                   (case Report surface rp sto of
                      (sto', ok) \<Rightarrow>
                        (Some (svc\<lparr>ps_Interactions := Some sto'\<rparr>),
                         if ok then None else Some ''interaction instance belongs to another surface'')))))"

definition ResetInteractions ::
    "call_context \<Rightarrow> string \<Rightarrow> page_service option \<Rightarrow> page_service option \<times> string option" where
  "ResetInteractions ctx inst s =
    (let surface = SurfaceFrom ctx in
     if \<not> isWorkspaceSurface surface then (s, Some surfaceRequired)
     else case validateInteractionInstance inst of
       Some e \<Rightarrow> (s, Some e)
     | None \<Rightarrow>
         (case s of
            None \<Rightarrow> (s, Some ''DSH interaction tracking is unavailable'')
          | Some svc \<Rightarrow>
              (case ps_Interactions svc of
                 None \<Rightarrow> (s, Some ''DSH interaction tracking is unavailable'')
               | Some sto \<Rightarrow> (Some (svc\<lparr>ps_Interactions := Some (Reset surface inst sto)\<rparr>), None))))"

subsection \<open>Notification texts\<close>

datatype locale_tag = LocaleEnglish | LocaleChinese | LocaleJapanese | LocaleOther string

record labels =
  ApprovalRequiredTitle :: string
  ApprovalRequiredBody :: string
  AnswerNeededTitle :: string
  AnswerNeededBody :: string
  ApprovalAllowOnce :: string
  ApprovalReject :: string
  genericToolName :: string

definition english_labels :: labels where
  "english_labels = \<lparr>
    ApprovalRequiredTitle = ''Approval required'',
    ApprovalRequiredBody = ''%s is waiting for a permission decision'',
    AnswerNeededTitle = ''Answer needed'',
    AnswerNeededBody = ''A conversation is waiting for your answer'',
    ApprovalAllowOnce = ''Allow once'',
    ApprovalReject = ''Reject'',
    genericToolName = ''A tool''\<rparr>"

definition chinese_labels :: labels where
  "chinese_labels = \<lparr>
    ApprovalRequiredTitle = string_of_runes [0x9700, 0x8981, 0x6279, 0x51C6],
    ApprovalRequiredBody = ''%s '' @ string_of_runes [0x6B63, 0x5728, 0x7B49, 0x5F85, 0x6743, 0x9650,
      0x51B3, 0x5B9A],
    AnswerNeededTitle = string_of_runes [0x9700, 0x8981, 0x56DE, 0x7B54],
    AnswerNeededBody = string_of_runes [0x4E00, 0x4E2A, 0x4F1A, 0x8BDD, 0x6B63, 0x5728, 0x7B49, 0x5F85,
      0x4F60, 0x7684, 0x56DE, 0x7B54],
    ApprovalAllowOnce = string_of_runes [0x5141, 0x8BB8, 0x4E00, 0x6B21],
    ApprovalReject = string_of_runes [0x62D2, 0x7EDD],
    genericToolName = string_of_runes [0x4E00, 0x4E2A, 0x5DE5, 0x5177]\<rparr>"

definition japanese_labels :: labels where
  "japanese_labels = \<lparr>
    ApprovalRequiredTitle = string_of_runes [0x627F, 0x8A8D, 0x304C, 0x5FC5, 0x8981, 0x3067, 0x3059],
    ApprovalRequiredBody = ''%s '' @ string_of_runes [0x304C, 0x6A29, 0x9650, 0x306E, 0x5224, 0x65AD,
      0x3092, 0x5F85, 0x3063, 0x3066, 0x3044, 0x307E, 0x3059],
    AnswerNeededTitle = string_of_runes [0x56DE, 0x7B54, 0x304C, 0x5FC5, 0x8981, 0x3067, 0x3059],
    AnswerNeededBody = string_of_runes [0x4F1A, 0x8A71, 0x304C, 0x56DE, 0x7B54, 0x3092, 0x5F85, 0x3063,
      0x3066, 0x3044, 0x307E, 0x3059],
    ApprovalAllowOnce = string_of_runes [0x4E00, 0x5EA6, 0x3060, 0x3051, 0x8A31, 0x53EF],
    ApprovalReject = string_of_runes [0x62D2, 0x5426],
    genericToolName = string_of_runes [0x30C4, 0x30FC, 0x30EB]\<rparr>"

fun LabelsFor :: "locale_tag \<Rightarrow> labels" where
  "LabelsFor LocaleEnglish = english_labels"
| "LabelsFor LocaleChinese = chinese_labels"
| "LabelsFor LocaleJapanese = japanese_labels"
| "LabelsFor (LocaleOther s) = chinese_labels"

text \<open>\<open>strings.Replace(s, "%s", w, 1)\<close>.\<close>

fun replace_verb :: "string \<Rightarrow> string \<Rightarrow> string" where
  "replace_verb (a # b # s) w =
    (if a = CHR ''%'' \<and> b = CHR ''s'' then w @ s else a # replace_verb (b # s) w)"
| "replace_verb s w = s"

definition DSHApprovalNotification :: "locale_tag \<Rightarrow> string \<Rightarrow> string \<times> string" where
  "DSHApprovalNotification l toolName =
    (let ls = LabelsFor l; tool = (if toolName = [] then genericToolName ls else toolName) in
     (ApprovalRequiredTitle ls, replace_verb (ApprovalRequiredBody ls) tool))"

definition DSHAnswerNotification :: "locale_tag \<Rightarrow> string \<times> string" where
  "DSHAnswerNotification l = (AnswerNeededTitle (LabelsFor l), AnswerNeededBody (LabelsFor l))"

subsection \<open>The notifier\<close>

record notifier =
  n_page :: "(string \<Rightarrow> (string \<times> string \<times> bool) option) option"
  n_focused :: "(string \<Rightarrow> bool) option"
  n_preferences :: "preferences option"
  n_publish :: bool
  n_remove :: bool
  n_locale :: "locale_tag option"
  n_owner :: "(string \<Rightarrow> string option) option"
  n_sendCommand :: bool
  n_open :: bool
  n_showWorkspace :: bool

datatype notifier_call =
    PublishCall event
  | RemoveCall string
  | SendCommandCall string string nat "(string \<times> string) list"
  | OpenCall string string
  | ShowWorkspaceCall

definition interaction_id :: "string \<Rightarrow> string \<Rightarrow> string" where
  "interaction_id inst key = ''dsh-interaction:'' @ inst @ '':'' @ key"

text \<open>Title, body and category of a notification; \<open>None\<close> for a kind that is not announced.\<close>

definition interaction_copy :: "locale_tag \<Rightarrow> Interactions.interaction \<Rightarrow> (string \<times> string \<times> string) option" where
  "interaction_copy l it =
    (if i_Kind it = ''approval'' then
       (let (title, body) = DSHApprovalNotification l (i_ToolName it) in
        Some (title, if i_Reason it \<noteq> [] then i_Reason it else body, ''dsh-approval''))
     else if i_Kind it = ''question'' \<or> i_Kind it = ''plan-review'' then
       (let (title, body) = DSHAnswerNotification l in Some (title, body, []))
     else None)"

definition interaction_event :: "string \<Rightarrow> string \<Rightarrow> Interactions.interaction \<Rightarrow> string \<times> string \<times> string \<Rightarrow> event" where
  "interaction_event inst sid it copy =
    \<lparr>ev_ID = interaction_id inst (i_Key it), ev_Class = ClassDSHInteraction, ev_Title = fst copy,
     ev_Body = fst (snd copy), ev_Target = [], ev_CategoryID = snd (snd copy),
     ev_Data = [(''kind'', ''dsh-interaction''), (''instance'', inst), (''sessionId'', sid), (''key'', i_Key it)],
     ev_AllowWhenWorkspaceFocused = True\<rparr>"

definition added :: "notifier option \<Rightarrow> string \<Rightarrow> string \<Rightarrow> string \<Rightarrow> Interactions.interaction \<Rightarrow> notifier_call list" where
  "added nn surface inst sid it =
    (case nn of None \<Rightarrow> []
     | Some n \<Rightarrow>
       (case (n_page n, n_focused n, n_preferences n, n_locale n) of
          (Some page, Some isFocused, Some np, Some l) \<Rightarrow>
            if \<not> n_publish n then []
            else (case page surface of None \<Rightarrow> []
              | Some (pageInstance, current, visible) \<Rightarrow>
                  if pageInstance \<noteq> inst \<or> \<not> Allows np ClassDSHInteraction then []
                  else if isFocused surface \<and> visible \<and> current = sid then []
                  else (case interaction_copy l it of None \<Rightarrow> []
                    | Some copy \<Rightarrow> [PublishCall (interaction_event inst sid it copy)]))
        | _ \<Rightarrow> []))"

definition removed :: "notifier option \<Rightarrow> string \<Rightarrow> string \<Rightarrow> Interactions.interaction \<Rightarrow> notifier_call list" where
  "removed nn inst sid it =
    (case nn of None \<Rightarrow> [] | Some n \<Rightarrow> if n_remove n then [RemoveCall (interaction_id inst (i_Key it))] else [])"

text \<open>The user information of a notification response: interface values, strings or not.\<close>

datatype ui_value = UIString string | UIOther

record notification_result =
  nr_action :: string
  nr_userInfo :: "(string \<rightharpoonup> ui_value) option"

definition notificationString :: "(string \<rightharpoonup> ui_value) \<Rightarrow> string \<Rightarrow> string \<times> bool" where
  "notificationString info key =
    (case info key of Some (UIString v) \<Rightarrow> (v, v \<noteq> []) | _ \<Rightarrow> ([], False))"

definition displayWorkspace :: "notifier \<Rightarrow> notifier_call list" where
  "displayWorkspace n = (if n_showWorkspace n then [ShowWorkspaceCall] else [])"

definition respond :: "notifier \<Rightarrow> notification_result \<Rightarrow> notifier_call list \<times> bool" where
  "respond n r =
    (case nr_userInfo r of
       None \<Rightarrow> ([], False)
     | Some info \<Rightarrow>
       if info ''kind'' \<noteq> Some (UIString ''dsh-interaction'') then ([], False)
       else
         let (inst, instOK) = notificationString info ''instance'';
             (sid, sidOK) = notificationString info ''sessionId'';
             (key, keyOK) = notificationString info ''key'' in
         if \<not> instOK \<or> \<not> sidOK \<or> \<not> keyOK then (displayWorkspace n, True)
         else case n_owner n of
           None \<Rightarrow> (displayWorkspace n, True)
         | Some owner \<Rightarrow>
             (case owner inst of
                None \<Rightarrow> (displayWorkspace n, True)
              | Some window \<Rightarrow>
                  if nr_action r = ''allow-once'' \<or> nr_action r = ''reject'' then
                    ((if n_sendCommand n
                      then [SendCommandCall window ''dsh-answer-approval'' 30
                              [(''instance'', inst), (''sessionId'', sid), (''key'', key),
                               (''outcome'', if nr_action r = ''reject'' then ''rejected'' else ''allowed-once'')]]
                      else []), True)
                  else ((if n_open n then [OpenCall sid window] else []), True)))"

definition dshApprovalNotificationCategory :: "locale_tag \<Rightarrow> string \<times> (string \<times> string) list" where
  "dshApprovalNotificationCategory l =
    (''dsh-approval'', [(''allow-once'', ApprovalAllowOnce (LabelsFor l)), (''reject'', ApprovalReject (LabelsFor l))])"

text \<open>How \<open>desktopapp/daemon.go\<close> connects the notifier to a store, a tracker and the preferences.\<close>

definition daemon_notifier :: "store \<Rightarrow> tracker option \<Rightarrow> preferences \<Rightarrow> locale_tag \<Rightarrow> notifier" where
  "daemon_notifier sto t np l =
    \<lparr>n_page = Some (\<lambda>surface. Page surface sto), n_focused = Some (\<lambda>surface. Focused surface t),
     n_preferences = Some np, n_publish = True, n_remove = True, n_locale = Some l,
     n_owner = Some (\<lambda>inst. Owner inst sto), n_sendCommand = True, n_open = True, n_showWorkspace = True\<rparr>"

subsection \<open>Surfaces are canonical names\<close>

lemma has_prefix_iff: "has_prefix s p \<longleftrightarrow> (\<exists>v. s = p @ v)"
  by (metis append_eq_conv_conj has_prefix_def append_take_drop_id)

lemma trim_prefix_append [simp]: "trim_prefix (p @ v) p = v"
  by (simp add: trim_prefix_def has_prefix_iff)

lemma parse_uint64_show: "n < 2 ^ 64 \<Longrightarrow> parse_uint64 (show_nat n) = Some n"
  using show_nat_digits [of n] by (simp add: parse_uint64_def show_nat_value list_all_iff)

lemma parse_uint64_bound: "parse_uint64 s = Some n \<Longrightarrow> n < 2 ^ 64"
  by (auto simp: parse_uint64_def split: if_splits)

text \<open>The surface check decides the language of window names: the first window, and the
  decimal numbers from 2 up to the largest 64-bit number without sign or leading zeros.\<close>

lemma workspace_surface_canonical:
  "isWorkspaceSurface surface \<longleftrightarrow>
     surface = ''workspace'' \<or> (\<exists>n. 2 \<le> n \<and> n < 2 ^ 64 \<and> surface = ''workspace-'' @ show_nat n)"
proof (cases "\<exists>v. surface = ''workspace-'' @ v")
  case True
  then obtain v where v: "surface = ''workspace-'' @ v" by blast
  have "trim_prefix surface ''workspace-'' = v" unfolding v by (rule trim_prefix_append)
  moreover have "surface \<noteq> ''workspace''" "has_prefix surface ''workspace-''" using v by (auto simp: has_prefix_iff)
  ultimately show ?thesis
    using parse_uint64_show parse_uint64_bound
    by (auto simp: isWorkspaceSurface_def v Let_def split: option.splits)
next
  case False
  then show ?thesis by (auto simp: isWorkspaceSurface_def has_prefix_iff)
qed

subsection \<open>From a report to a notification\<close>

lemma trim_interaction_id: "trim_space (interaction_id inst key) = interaction_id inst (trim_right key)"
proof -
  have "interaction_id inst k = CHR ''d'' # (''sh-interaction:'' @ inst) @ CHR '':'' # k" for k
    by (simp add: interaction_id_def)
  then show ?thesis using trim_space_around [of "CHR ''d''" "CHR '':''" "''sh-interaction:'' @ inst" key] by (simp add: is_space_def)
qed

lemma rune_count_interaction_id: "rune_count (interaction_id inst key) = 17 + rune_count inst + rune_count key"
proof -
  have "rune_count ((''dsh-interaction'' @ CHR '':'' # inst) @ CHR '':'' # key) =
      rune_count ''dsh-interaction'' + rune_count inst + rune_count key + 2"
    by (simp add: rune_count_before_ascii del: append.simps append_assoc)
  moreover have "rune_count ''dsh-interaction'' = 15" by (simp add: rune_count_ascii)
  ultimately show ?thesis by (simp add: interaction_id_def)
qed

lemma cleanText_visible:
  assumes "x \<in> set (chunks s)" "\<not> is_space (fst x)" "0 < n"
  shows "cleanText s n \<noteq> []"
proof -
  let ?w = "join (Go_Strings.fields s) '' ''"
  have w: "?w \<noteq> []" using join_fields_nonempty [OF assms(1,2)] by simp
  have "truncate_runes n ?w \<noteq> []"
  proof
    assume "truncate_runes n ?w = []"
    then have "rune_count ?w = 0 \<or> n = 0" using rune_count_truncate [of n ?w] by (simp add: rune_count_def runes_def min_def split: if_splits)
    then show False using w assms(3) by (simp add: rune_count_def runes_def)
  qed
  with w show ?thesis by (simp add: cleanText_def Let_def)
qed

lemma visible_text: "list_ex (\<lambda>r. \<not> is_space r) (runes s) \<Longrightarrow> 0 < n \<Longrightarrow> cleanText s n \<noteq> []"
  using cleanText_visible by (auto simp: list_ex_iff runes_def)

lemma label_titles:
  "cleanText (ApprovalRequiredTitle (LabelsFor l)) 120 \<noteq> []" "cleanText (AnswerNeededTitle (LabelsFor l)) 120 \<noteq> []"
proof -
  have "cleanText (ApprovalRequiredTitle ls) 120 \<noteq> [] \<and> cleanText (AnswerNeededTitle ls) 120 \<noteq> []"
    if "ls \<in> {chinese_labels, japanese_labels}" for ls
    using that
    by (auto simp: visible_text chinese_labels_def japanese_labels_def runes_string_of_runes valid_rune_def is_space_def)
  moreover have "cleanText (ApprovalRequiredTitle english_labels) 120 \<noteq> [] \<and> cleanText (AnswerNeededTitle english_labels) 120 \<noteq> []"
    by (simp add: visible_text english_labels_def runes_def chunks_ascii is_space_def)
  ultimately show "cleanText (ApprovalRequiredTitle (LabelsFor l)) 120 \<noteq> []" "cleanText (AnswerNeededTitle (LabelsFor l)) 120 \<noteq> []"
    by (cases l; simp)+
qed

lemma interaction_copy_title: "interaction_copy l it = Some (title, body, cat) \<Longrightarrow> cleanText title 120 \<noteq> []"
  using label_titles [of l]
  by (auto simp: interaction_copy_def DSHApprovalNotification_def DSHAnswerNotification_def Let_def split: if_splits)

lemma interaction_event_accepted:
  assumes "interaction_copy l it = Some copy" "rune_count inst \<le> 256" "rune_count sid \<le> 256" "rune_count (i_Key it) \<le> 256"
  shows "normalizeEvent (interaction_event inst sid it copy) \<noteq> None \<longleftrightarrow>
    rune_count inst + rune_count (trim_right (i_Key it)) \<le> 143"
proof -
  obtain title body cat where copy: "copy = (title, body, cat)" by (cases copy)
  have "rune_count ''dsh-interaction'' \<le> 256" by (simp add: rune_count_ascii)
  then have "validData (ev_Data (interaction_event inst sid it copy))"
    using assms(2-4) by (simp add: validData_def interaction_event_def)
  moreover have "interaction_id inst k \<noteq> []" for k by (simp add: interaction_id_def)
  moreover have "validClass ClassDSHInteraction" by (simp add: validClass_def)
  ultimately show ?thesis
    using interaction_copy_title assms(1) copy
    by (auto simp: normalizeEvent_def Let_def interaction_event_def trim_interaction_id rune_count_interaction_id)
qed

lemma added_calls:
  "added nn surface inst sid it = [] \<or>
     (\<exists>l copy. interaction_copy l it = Some copy \<and>
        added nn surface inst sid it = [PublishCall (interaction_event inst sid it copy)])"
  by (auto simp: added_def split: option.split prod.split)

lemma added_publish:
  "PublishCall ev \<in> set (added nn surface inst sid it) \<Longrightarrow>
     \<exists>l copy. interaction_copy l it = Some copy \<and> ev = interaction_event inst sid it copy"
  using added_calls [of nn surface inst sid it] by (metis empty_iff empty_set list.set(2) notifier_call.inject(1) singletonD)

lemma store_page_changes [simp]: "changes (store_page surface p cs s) = changes s @ cs"
  by (simp add: store_page_def)

lemma no_addition [simp]: "\<not> c_added (removal inst sid it)"
  by (simp add: removal_def)

lemma replace_page_changes: "\<exists>cs. changes (replace_page surface inst s) = changes s @ cs \<and> (\<forall>c \<in> set cs. \<not> c_added c)"
  by (auto simp: replace_page_def removePageLocked_def split: option.split)

lemma ensure_page_changes [simp]: "changes (ensure_page surface inst s) = changes s"
  by (auto simp: ensure_page_def split: option.split)

lemma apply_report_changes:
  "\<exists>cs. changes (apply_report surface rp p s) = changes s @ cs \<and>
     (\<forall>c \<in> set cs. c_added c \<longrightarrow> c_instance c = rp_Instance rp \<and> c_sessionID c = rp_SessionID rp
        \<and> i_Key (c_interaction c) = rp_Key rp)"
  by (auto simp: apply_report_def removeInteractionLocked_def addition_def Let_def split: option.split)

lemma Report_changes:
  "\<exists>cs. changes (fst (Report surface rp s)) = changes s @ cs \<and>
     (\<forall>c \<in> set cs. c_added c \<longrightarrow> c_instance c = rp_Instance rp \<and> c_sessionID c = rp_SessionID rp
        \<and> i_Key (c_interaction c) = rp_Key rp)"
proof -
  let ?s = "ensure_page surface (rp_Instance rp) (replace_page surface (rp_Instance rp) s)"
  obtain cs where "changes ?s = changes s @ cs" "\<forall>c \<in> set cs. \<not> c_added c"
    using replace_page_changes by fastforce
  moreover note apply_report_changes [of surface rp "the (map_of (pages ?s) surface)" ?s]
  ultimately have "\<exists>cs. changes (apply_report surface rp (the (map_of (pages ?s) surface)) ?s) = changes s @ cs \<and>
     (\<forall>c \<in> set cs. c_added c \<longrightarrow> c_instance c = rp_Instance rp \<and> c_sessionID c = rp_SessionID rp
        \<and> i_Key (c_interaction c) = rp_Key rp)"
    by (metis (no_types, lifting) UnE append.assoc set_append)
  then show ?thesis by (auto simp: Report_def Let_def split: option.split)
qed

text \<open>Of the interactions a page may report, the notification router accepts exactly the
  short ones: a report is accepted with an instance and a key of up to 256 characters each, but
  its notification is only accepted when the instance and the key without trailing blanks have
  at most 143 characters together.\<close>

theorem interaction_notification_accepted_iff:
  assumes "ReportInteraction ctx rp (Some svc) = (Some svc', None)"
    and "ps_Interactions svc = Some sto" "ps_Interactions svc' = Some sto'"
    and "c \<in> set (drop (length (changes sto)) (changes sto'))" "c_added c"
    and "PublishCall ev \<in> set (added n (c_surface c) (c_instance c) (c_sessionID c) (c_interaction c))"
  shows "normalizeEvent ev \<noteq> None \<longleftrightarrow>
    rune_count (rp_Instance rp) + rune_count (trim_right (rp_Key rp)) \<le> 143"
proof -
  have valid: "validateInteractionReport rp = None" and sto': "sto' = fst (Report (SurfaceFrom ctx) rp sto)"
    using assms(1-3) by (auto simp: ReportInteraction_def Let_def split: if_splits option.splits prod.splits)
  have c: "c_instance c = rp_Instance rp" "c_sessionID c = rp_SessionID rp" "i_Key (c_interaction c) = rp_Key rp"
    using assms(4,5) Report_changes [of "SurfaceFrom ctx" rp sto] by (auto simp: sto')
  obtain l copy where "interaction_copy l (c_interaction c) = Some copy"
      "ev = interaction_event (c_instance c) (c_sessionID c) (c_interaction c) copy"
    using added_publish [OF assms(6)] by blast
  moreover have "rune_count (rp_Instance rp) \<le> 256" "rune_count (rp_SessionID rp) \<le> 256" "rune_count (rp_Key rp) \<le> 256"
    using valid by (auto simp: validateInteractionReport_def split: if_splits)
  ultimately show ?thesis using interaction_event_accepted c by simp
qed

subsection \<open>Answers\<close>

text \<open>
  What the notifier relies on: the owner of an instance is the window whose current page is that
  instance.
\<close>

locale page_ownership =
  fixes owner :: "string \<Rightarrow> 's \<Rightarrow> string option"
    and page :: "string \<Rightarrow> 's \<Rightarrow> (string \<times> string \<times> bool) option"
    and inv :: "'s \<Rightarrow> bool"
  assumes owner_page: "inv s \<Longrightarrow> owner inst s = Some window \<longleftrightarrow> (\<exists>current visible. page window s = Some (inst, current, visible))"
begin

lemma command_reaches_asker:
  assumes "inv s" "n_owner n = Some (\<lambda>inst. owner inst s)"
    and "SendCommandCall window name ttl payload \<in> set (fst (respond n r))"
  shows "\<exists>info inst sid key current visible. nr_userInfo r = Some info
    \<and> info ''instance'' = Some (UIString inst) \<and> info ''sessionId'' = Some (UIString sid) \<and> info ''key'' = Some (UIString key)
    \<and> page window s = Some (inst, current, visible)
    \<and> (nr_action r = ''allow-once'' \<and> payload = [(''instance'', inst), (''sessionId'', sid), (''key'', key), (''outcome'', ''allowed-once'')]
       \<or> nr_action r = ''reject'' \<and> payload = [(''instance'', inst), (''sessionId'', sid), (''key'', key), (''outcome'', ''rejected'')])"
proof -
  obtain info inst sid key where i: "nr_userInfo r = Some info" "info ''instance'' = Some (UIString inst)"
      "info ''sessionId'' = Some (UIString sid)" "info ''key'' = Some (UIString key)" "owner inst s = Some window"
    and act: "nr_action r = ''allow-once'' \<or> nr_action r = ''reject''"
    and pl: "payload = [(''instance'', inst), (''sessionId'', sid), (''key'', key),
      (''outcome'', if nr_action r = ''reject'' then ''rejected'' else ''allowed-once'')]"
    using assms(2,3)
    by (auto simp: respond_def displayWorkspace_def notificationString_def Let_def
        split: option.splits if_splits ui_value.splits)
  from i(5) have "\<exists>current visible. page window s = Some (inst, current, visible)"
    using owner_page [OF assms(1)] by simp
  with i act pl show ?thesis by auto
qed

lemma conversation_opens_at_asker:
  assumes "inv s" "n_owner n = Some (\<lambda>inst. owner inst s)"
    and "OpenCall sid window \<in> set (fst (respond n r))"
  shows "\<exists>inst current visible. page window s = Some (inst, current, visible)"
proof -
  obtain inst where "owner inst s = Some window"
    using assms(2,3)
    by (auto simp: respond_def displayWorkspace_def notificationString_def Let_def
        split: option.splits if_splits ui_value.splits)
  then show ?thesis using owner_page [OF assms(1)] by blast
qed

end

interpretation asking_page: page_ownership Owner Page store_inv
  by unfold_locales (auto simp: Owner_def Page_def store_inv_owners)

text \<open>(C31) An answer goes to the page that asked: a command sent for a notification response
  carries an allowed or rejected outcome, goes to the window whose current page is the instance
  named by the notification, and names its session and key.\<close>

theorem answers_reach_the_asking_page:
  assumes "sto = fold store_step ops NewStore"
    and "SendCommandCall window name ttl payload \<in> set (fst (respond (daemon_notifier sto t np l) r))"
  shows "\<exists>info inst sid key current visible. nr_userInfo r = Some info
    \<and> info ''instance'' = Some (UIString inst) \<and> info ''sessionId'' = Some (UIString sid) \<and> info ''key'' = Some (UIString key)
    \<and> Page window sto = Some (inst, current, visible)
    \<and> (nr_action r = ''allow-once'' \<and> payload = [(''instance'', inst), (''sessionId'', sid), (''key'', key), (''outcome'', ''allowed-once'')]
       \<or> nr_action r = ''reject'' \<and> payload = [(''instance'', inst), (''sessionId'', sid), (''key'', key), (''outcome'', ''rejected'')])"
proof (rule asking_page.command_reaches_asker [OF _ _ assms(2)])
  show "store_inv sto" using ix_sys.inv_run [of ops] assms(1) by simp
  show "n_owner (daemon_notifier sto t np l) = Some (\<lambda>inst. Owner inst sto)" by (simp add: daemon_notifier_def)
qed

subsection \<open>Closing a window\<close>

text \<open>A closed window leaves nothing behind: it is not focused, has no page and owns no
  instance, and no other window is affected.\<close>

lemma closed_window_leaves_nothing:
  assumes "isWorkspaceSurface (SurfaceFrom ctx)" "ws_Interactions s = Some (fold store_step ops NewStore)"
    and "Closed ctx s = (s', err)"
  shows "\<exists>sto. ws_Interactions s' = Some sto \<and> \<not> Focused (SurfaceFrom ctx) (ws_Presence s')
    \<and> Page (SurfaceFrom ctx) sto = None \<and> (\<nexists>inst. Owner inst sto = Some (SurfaceFrom ctx))
    \<and> (\<forall>other. other = SurfaceFrom ctx \<or>
         Page other sto = Page other (fold store_step ops NewStore) \<and>
         Focused other (ws_Presence s') = Focused other (ws_Presence s))"
proof -
  let ?surface = "SurfaceFrom ctx" and ?old = "fold store_step ops NewStore"
  let ?new = "ClearWindow ?surface ?old"
  have s': "s' = s\<lparr>ws_Presence := Clear ?surface (ws_Presence s), ws_Interactions := Some ?new\<rparr>"
    using assms by (auto simp: Closed_def Let_def)
  have inv: "store_inv ?new"
    using ix_sys.inv_run [of "ops @ [SClearWindow ?surface]"] by simp
  have page: "map_of (pages ?new) a = (if a = ?surface then None else map_of (pages ?old) a)" for a
    by (auto simp: ClearWindow_def removePageLocked_def delete_conv' split: option.split)
  have "?surface \<noteq> []" using assms(1) by (auto simp: isWorkspaceSurface_def has_prefix_def)
  then have "Focused a (Clear ?surface t) = (a \<noteq> ?surface \<and> Focused a t)" for a t
    by (cases t) (auto simp: Focused_def Clear_def)
  then show ?thesis
    using page store_inv_owners [OF inv] by (auto simp: s' Page_def Owner_def)
qed


subsection \<open>Witnesses\<close>

definition asking_report :: report where
  "asking_report = \<lparr>rp_Instance = ''page-1'', rp_SessionID = ''s1'', rp_Kind = ''question'', rp_Key = ''q1'',
     rp_ToolName = [], rp_Reason = [], rp_Current = [], rp_Visible = True\<rparr>"

definition asking_service :: page_service where
  "asking_service = \<lparr>ps_Activity = None, ps_Interactions = Some NewStore\<rparr>"

definition asking_change :: change where
  "asking_change = addition ''workspace'' ''page-1'' ''s1''
     \<lparr>i_Kind = ''question'', i_Key = ''q1'', i_ToolName = [], i_Reason = []\<rparr>"

definition asked_store :: store where
  "asked_store = fold store_step [SReport ''workspace'' asking_report] NewStore"

lemmas asking_defs = asking_report_def asking_service_def asking_change_def asked_store_def NewStore_def addition_def

lemma asked_changes: "changes asked_store = [asking_change]" "Page ''workspace'' asked_store = Some (''page-1'', [], False)"
    "Owner ''page-1'' asked_store = Some ''workspace''"
  by (simp_all add: asking_defs Report_def replace_page_def ensure_page_def apply_report_def store_page_def new_page_def
      Let_def Page_def Owner_def)

lemma asking_accepted:
  "ReportInteraction (Some (Some ''workspace'')) asking_report (Some asking_service)
     = (Some (asking_service\<lparr>ps_Interactions := Some asked_store\<rparr>), None)"
  by (simp add: ReportInteraction_def SurfaceFrom_def LocalClientSurface_def isWorkspaceSurface_def
      validateInteractionReport_def asking_report_def asking_service_def asked_store_def valid_string_def rune_count_ascii
      rune_count_def runes_def Report_def NewStore_def Let_def chunks_ascii)

abbreviation asking_event :: event where
  "asking_event \<equiv> interaction_event ''page-1'' ''s1'' (c_interaction asking_change)
     (AnswerNeededTitle english_labels, AnswerNeededBody english_labels, [])"

lemma asking_published:
  "PublishCall asking_event \<in> set (added (Some (daemon_notifier asked_store None DefaultPreferences LocaleEnglish))
     (c_surface asking_change) (c_instance asking_change) (c_sessionID asking_change) (c_interaction asking_change))"
  using asked_changes(2)
  by (simp add: added_def daemon_notifier_def asking_change_def addition_def Allows_def DefaultPreferences_def Focused_def
      interaction_copy_def DSHAnswerNotification_def)

theorem interaction_notification_accepted_iff_witness:
  "normalizeEvent asking_event \<noteq> None \<longleftrightarrow> rune_count ''page-1'' + rune_count (trim_right ''q1'') \<le> 143"
  using interaction_notification_accepted_iff [OF asking_accepted, of NewStore asked_store asking_change, OF _ _ _ _ asking_published]
  by (simp add: asked_changes asking_service_def asking_change_def addition_def asking_report_def NewStore_def)

definition allow_response :: notification_result where
  "allow_response = \<lparr>nr_action = ''allow-once'', nr_userInfo = Some [''kind'' \<mapsto> UIString ''dsh-interaction'',
     ''instance'' \<mapsto> UIString ''page-1'', ''sessionId'' \<mapsto> UIString ''s1'', ''key'' \<mapsto> UIString ''q1'']\<rparr>"

lemma allow_sends:
  "SendCommandCall ''workspace'' ''dsh-answer-approval'' 30
     [(''instance'', ''page-1''), (''sessionId'', ''s1''), (''key'', ''q1''), (''outcome'', ''allowed-once'')]
   \<in> set (fst (respond (daemon_notifier asked_store None DefaultPreferences LocaleEnglish) allow_response))"
  using asked_changes(3)
  by (simp add: respond_def allow_response_def daemon_notifier_def notificationString_def Let_def)

theorem answers_reach_the_asking_page_witness:
  "\<exists>inst current visible. Page ''workspace'' asked_store = Some (inst, current, visible)"
  using answers_reach_the_asking_page [OF asked_store_def allow_sends] by blast

end
