(* ===== verification/Acquisition.thy ===== *)
theory Acquisition
  imports Go_Strings
begin

text \<open>
  \<open>internal/acquisition/acquisition.go\<close>: one artifact operation across an ordered list of
  sources.  Errors are trees, so that \<open>errors.Is\<close> and \<open>errors.As\<close> can be written out.  What
  the operation calls (the context, the file system, the adapter of a source) is a record of
  functions on a state of the world; the calls it makes are logged in order.
\<close>

subsection \<open>Errors\<close>

datatype failure_kind =
    FailureReachability | FailureNotFound | FailureAuthentication | FailureAuthorization
  | FailureIntegrity | FailureSemantic | FailureCanceled | FailureLocalIO
  | FailureUnset | FailureOther string

text \<open>
  \<open>Wrapped\<close> is any error with an \<open>Unwrap\<close> method, \<open>Joined\<close> one with several, \<open>FailureErr\<close> the
  type \<open>Failure\<close> of the package.
\<close>

datatype gerror =
    CanceledErr
  | DeadlineErr
  | PlainErr string
  | Wrapped string gerror
  | Joined "gerror list"
  | FailureErr failure_kind string "gerror option"

fun is_context_error :: "gerror \<Rightarrow> bool" where
  "is_context_error CanceledErr = True"
| "is_context_error DeadlineErr = True"
| "is_context_error (PlainErr s) = False"
| "is_context_error (Wrapped s e) = is_context_error e"
| "is_context_error (Joined es) = list_ex is_context_error es"
| "is_context_error (FailureErr k s None) = False"
| "is_context_error (FailureErr k s (Some e)) = is_context_error e"

fun first_some :: "('a \<Rightarrow> 'b option) \<Rightarrow> 'a list \<Rightarrow> 'b option" where
  "first_some f [] = None"
| "first_some f (x # xs) = (case f x of None \<Rightarrow> first_some f xs | Some y \<Rightarrow> Some y)"

lemma first_some_cong [fundef_cong]:
  "xs = ys \<Longrightarrow> (\<And>x. x \<in> set ys \<Longrightarrow> f x = g x) \<Longrightarrow> first_some f xs = first_some g ys"
  by (induction ys arbitrary: xs) (auto split: option.split)

fun as_failure :: "gerror \<Rightarrow> (failure_kind \<times> string \<times> gerror option) option" where
  "as_failure CanceledErr = None"
| "as_failure DeadlineErr = None"
| "as_failure (PlainErr s) = None"
| "as_failure (Wrapped s e) = as_failure e"
| "as_failure (Joined es) = first_some as_failure es"
| "as_failure (FailureErr k s c) = Some (k, s, c)"

record failure =
  f_Kind :: failure_kind
  f_Summary :: string
  f_Cause :: "gerror option"

definition canceledFailure :: "gerror \<Rightarrow> failure" where
  "canceledFailure cause = \<lparr>f_Kind = FailureCanceled, f_Summary = ''acquisition was canceled'', f_Cause = Some cause\<rparr>"

definition classifyFailure :: "gerror option \<Rightarrow> gerror \<Rightarrow> failure" where
  "classifyFailure ctxErr err =
    (if is_context_error err \<or> ctxErr \<noteq> None then canceledFailure err
     else case as_failure err of
       Some (k, s, c) \<Rightarrow> \<lparr>f_Kind = (if k = FailureUnset then FailureSemantic else k), f_Summary = s, f_Cause = c\<rparr>
     | None \<Rightarrow> \<lparr>f_Kind = FailureSemantic, f_Summary = ''acquisition attempt failed'', f_Cause = Some err\<rparr>)"

subsection \<open>Requests and results\<close>

datatype route = RouteOfficial | RouteMirror | RouteLocal | RouteUnset | RouteOther string

record artifact_identity =
  id_Kind :: string
  id_Name :: string
  id_Version :: string
  id_Platform :: string
  id_Architecture :: string
  id_Filename :: string

record source_candidate =
  sc_Route :: route
  sc_Location :: string

record request =
  rq_OperationID :: string
  rq_Identity :: artifact_identity
  rq_Candidates :: "source_candidate list"
  rq_StagingRoot :: string
  rq_StagePrefix :: string

record attempt_request =
  ar_OperationID :: string
  ar_Identity :: artifact_identity
  ar_Candidate :: source_candidate
  ar_StagingPath :: string

record integrity_evidence =
  ie_Algorithm :: string
  ie_Digest :: string

record attempt_result =
  ResolvedIdentity :: artifact_identity
  ar_PayloadPath :: string
  ar_Integrity :: integrity_evidence

record progress =
  pr_OperationID :: string
  pr_Identity :: artifact_identity
  pr_Route :: route
  pr_Attempt :: nat

record attempt =
  at_Route :: route
  at_Succeeded :: bool
  at_Failure :: failure_kind
  at_Summary :: string

record acquisition_result =
  rs_Identity :: artifact_identity
  rs_Route :: route
  rs_FallbackUsed :: bool
  rs_Attempts :: "attempt list"
  rs_Integrity :: integrity_evidence
  rs_StagingPath :: string
  rs_PayloadPath :: string

record 'w environment =
  env_ctxErr :: "'w \<Rightarrow> gerror option"
  env_Abs :: "string \<Rightarrow> gerror + string"
  env_MkdirTemp :: "string \<Rightarrow> string \<Rightarrow> 'w \<Rightarrow> (gerror + string) \<times> 'w"
  env_Attempt :: "attempt_request \<Rightarrow> 'w \<Rightarrow> (gerror + attempt_result) \<times> 'w"
  env_RemoveAll :: "string \<Rightarrow> 'w \<Rightarrow> gerror option \<times> 'w"

datatype acquisition_call =
    Staged string
  | Observed progress
  | Attempted attempt_request
  | Cleaned string

definition semanticFailure :: "string \<Rightarrow> failure" where
  "semanticFailure s = \<lparr>f_Kind = FailureSemantic, f_Summary = s, f_Cause = None\<rparr>"

subsection \<open>Validation\<close>

fun invalid_source :: "nat \<Rightarrow> source_candidate list \<Rightarrow> failure option" where
  "invalid_source i [] = None"
| "invalid_source i (c # cs) =
    (if sc_Route c \<noteq> RouteOfficial \<and> sc_Route c \<noteq> RouteMirror \<and> sc_Route c \<noteq> RouteLocal
     then Some (semanticFailure (''acquisition source '' @ show_nat (i + 1) @ '' is invalid''))
     else if sc_Route c = RouteMirror \<and> i = 0
     then Some (semanticFailure ''a mirror cannot be the first acquisition source'')
     else invalid_source (i + 1) cs)"

text \<open>\<open>hasAdapter\<close> is false when the adapter is nil.\<close>

definition validateRequest :: "'w environment \<Rightarrow> bool \<Rightarrow> request \<Rightarrow> failure option" where
  "validateRequest env hasAdapter rq =
    (if \<not> hasAdapter then Some (semanticFailure ''acquisition adapter is unavailable'')
     else if trim_space (rq_OperationID rq) = [] \<or> id_Kind (rq_Identity rq) = [] \<or> trim_space (id_Name (rq_Identity rq)) = []
     then Some (semanticFailure ''acquisition request is invalid'')
     else
       let unavailable = \<lambda>cause. Some \<lparr>f_Kind = FailureLocalIO, f_Summary = ''acquisition staging is unavailable'', f_Cause = cause\<rparr> in
       case env_Abs env (rq_StagingRoot rq) of
         Inl e \<Rightarrow> unavailable (Some e)
       | Inr root \<Rightarrow>
           if trim_space root = [] then unavailable None
           else case rq_Candidates rq of
             [] \<Rightarrow> Some (semanticFailure ''acquisition must start with the official source'')
           | c # cs \<Rightarrow>
               if sc_Route c \<noteq> RouteOfficial then Some (semanticFailure ''acquisition must start with the official source'')
               else invalid_source 0 (c # cs))"

subsection \<open>The operation\<close>

definition hasEligibleMirror :: "source_candidate list \<Rightarrow> nat \<Rightarrow> bool" where
  "hasEligibleMirror cs start \<longleftrightarrow> start < length cs \<and> sc_Route (cs ! start) = RouteMirror"

definition failed_attempt :: "route \<Rightarrow> failure \<Rightarrow> attempt" where
  "failed_attempt r f = \<lparr>at_Route = r, at_Succeeded = False, at_Failure = f_Kind f, at_Summary = f_Summary f\<rparr>"

text \<open>What one iteration of the loop does: return, or go on with the next candidate.\<close>

datatype 'w iteration_end =
    Return acquisition_result "failure option" 'w "acquisition_call list"
  | Continue acquisition_result 'w "acquisition_call list"

definition accept_attempt ::
    "'w environment \<Rightarrow> request \<Rightarrow> source_candidate \<Rightarrow> string \<Rightarrow> attempt_result \<Rightarrow> acquisition_result \<Rightarrow> 'w
     \<Rightarrow> 'w iteration_end" where
  "accept_attempt env rq c stage ar res w =
    (let resolved = (if id_Kind (ResolvedIdentity ar) = [] then rq_Identity rq else ResolvedIdentity ar) in
     if resolved \<noteq> rq_Identity rq then
       (let f = \<lparr>f_Kind = FailureIntegrity,
                 f_Summary = ''the acquired artifact identity did not match the request'', f_Cause = None\<rparr> in
        Return (res\<lparr>rs_Attempts := rs_Attempts res @ [failed_attempt (sc_Route c) f]\<rparr>) (Some f)
          (snd (env_RemoveAll env stage w)) [Cleaned stage])
     else
       Return (res\<lparr>rs_Identity := resolved, rs_Route := sc_Route c, rs_FallbackUsed := (sc_Route c = RouteMirror),
                   rs_Integrity := ar_Integrity ar, rs_StagingPath := stage, rs_PayloadPath := ar_PayloadPath ar,
                   rs_Attempts := rs_Attempts res @
                     [\<lparr>at_Route = sc_Route c, at_Succeeded = True, at_Failure = FailureUnset, at_Summary = []\<rparr>]\<rparr>)
         None w [])"

definition reject_attempt ::
    "'w environment \<Rightarrow> request \<Rightarrow> nat \<Rightarrow> source_candidate \<Rightarrow> string \<Rightarrow> gerror \<Rightarrow> acquisition_result \<Rightarrow> 'w
     \<Rightarrow> 'w iteration_end" where
  "reject_attempt env rq index c stage err res w =
    (let f = classifyFailure (env_ctxErr env w) err;
         res' = res\<lparr>rs_Attempts := rs_Attempts res @ [failed_attempt (sc_Route c) f]\<rparr> in
     case env_RemoveAll env stage w of
       (Some cleanupErr, w') \<Rightarrow>
         Return res' (Some \<lparr>f_Kind = FailureLocalIO, f_Summary = ''acquisition staging could not be cleaned'',
                            f_Cause = Some cleanupErr\<rparr>) w' [Cleaned stage]
     | (None, w') \<Rightarrow>
         if f_Kind f = FailureReachability \<and> hasEligibleMirror (rq_Candidates rq) (index + 1)
         then Continue res' w' [Cleaned stage]
         else Return res' (Some f) w' [Cleaned stage])"

definition log_more :: "acquisition_call list \<Rightarrow> 'w iteration_end \<Rightarrow> 'w iteration_end" where
  "log_more before x =
    (case x of Return r f w l \<Rightarrow> Return r f w (before @ l) | Continue r w l \<Rightarrow> Continue r w (before @ l))"

definition try_candidate ::
    "'w environment \<Rightarrow> bool \<Rightarrow> request \<Rightarrow> nat \<Rightarrow> source_candidate \<Rightarrow> acquisition_result \<Rightarrow> 'w \<Rightarrow> 'w iteration_end" where
  "try_candidate env observes rq index c res w =
    (case env_ctxErr env w of
       Some e \<Rightarrow> Return res (Some (canceledFailure e)) w []
     | None \<Rightarrow>
       (case env_MkdirTemp env (rq_StagingRoot rq) (rq_StagePrefix rq) w of
          (Inl e, w1) \<Rightarrow>
            Return res (Some \<lparr>f_Kind = FailureLocalIO, f_Summary = ''acquisition staging could not be prepared'',
                              f_Cause = Some e\<rparr>) w1 []
        | (Inr stage, w1) \<Rightarrow>
            let seen = (if observes then [Observed \<lparr>pr_OperationID = rq_OperationID rq, pr_Identity = rq_Identity rq,
                                                    pr_Route = sc_Route c, pr_Attempt = index + 1\<rparr>] else []);
                ar = \<lparr>ar_OperationID = rq_OperationID rq, ar_Identity = rq_Identity rq, ar_Candidate = c, ar_StagingPath = stage\<rparr>
            in log_more (Staged stage # seen @ [Attempted ar])
                 (case env_Attempt env ar w1 of
                    (Inr result, w2) \<Rightarrow> accept_attempt env rq c stage result res w2
                  | (Inl err, w2) \<Rightarrow> reject_attempt env rq index c stage err res w2)))"

fun acquire_loop ::
    "'w environment \<Rightarrow> bool \<Rightarrow> request \<Rightarrow> nat \<Rightarrow> source_candidate list \<Rightarrow> acquisition_result \<Rightarrow> 'w
     \<Rightarrow> acquisition_result \<times> failure option \<times> 'w \<times> acquisition_call list" where
  "acquire_loop env observes rq index [] res w =
    (res, Some (semanticFailure ''acquisition did not produce an artifact''), w, [])"
| "acquire_loop env observes rq index (c # cs) res w =
    (case try_candidate env observes rq index c res w of
       Return res' f w' l \<Rightarrow> (res', f, w', l)
     | Continue res' w' l \<Rightarrow>
         (case acquire_loop env observes rq (index + 1) cs res' w' of (r, f, w'', l') \<Rightarrow> (r, f, w'', l @ l')))"

definition empty_result :: "artifact_identity \<Rightarrow> acquisition_result" where
  "empty_result i = \<lparr>rs_Identity = i, rs_Route = RouteUnset, rs_FallbackUsed = False, rs_Attempts = [],
     rs_Integrity = \<lparr>ie_Algorithm = [], ie_Digest = []\<rparr>, rs_StagingPath = [], rs_PayloadPath = []\<rparr>"

definition Acquire ::
    "'w environment \<Rightarrow> bool \<Rightarrow> bool \<Rightarrow> request \<Rightarrow> 'w
     \<Rightarrow> acquisition_result \<times> failure option \<times> 'w \<times> acquisition_call list" where
  "Acquire env hasAdapter observes rq w =
    (case validateRequest env hasAdapter rq of
       Some f \<Rightarrow> (empty_result (rq_Identity rq), Some f, w, [])
     | None \<Rightarrow> acquire_loop env observes rq 0 (rq_Candidates rq) (empty_result (rq_Identity rq)) w)"

subsection \<open>Staging directories\<close>

fun staged :: "acquisition_call list \<Rightarrow> string list" where
  "staged [] = []"
| "staged (Staged p # l) = p # staged l"
| "staged (_ # l) = staged l"

fun cleaned :: "acquisition_call list \<Rightarrow> string list" where
  "cleaned [] = []"
| "cleaned (Cleaned p # l) = p # cleaned l"
| "cleaned (_ # l) = cleaned l"

lemma staged_append [simp]: "staged (a @ b) = staged a @ staged b"
  by (induction a rule: staged.induct) auto

lemma cleaned_append [simp]: "cleaned (a @ b) = cleaned a @ cleaned b"
  by (induction a rule: cleaned.induct) auto

fun balanced :: "acquisition_result \<Rightarrow> failure option \<Rightarrow> acquisition_call list \<Rightarrow> bool" where
  "balanced res None l \<longleftrightarrow> staged l = cleaned l @ [rs_StagingPath res]"
| "balanced res (Some f) l \<longleftrightarrow> staged l = cleaned l"

lemma try_candidate_staging:
  "case try_candidate env observes rq index c res w of
     Return res' f w' l \<Rightarrow> balanced res' f l
   | Continue res' w' l \<Rightarrow> staged l = cleaned l"
  by (simp add: try_candidate_def log_more_def accept_attempt_def reject_attempt_def Let_def
      split: option.split sum.split prod.split)

lemma acquire_loop_staging:
  "acquire_loop env observes rq index cs res w = (res', f, w', l) \<Longrightarrow> balanced res' f l"
proof (induction cs arbitrary: index res w l)
  case (Cons c cs)
  show ?case
  proof (cases "try_candidate env observes rq index c res w")
    case (Return a b d e)
    then show ?thesis using Cons.prems try_candidate_staging [of env observes rq index c res w] by simp
  next
    case (Continue a b d)
    with Cons.prems obtain l' where "acquire_loop env observes rq (index + 1) cs a b = (res', f, w', l')" "l = d @ l'"
      by (auto split: prod.splits)
    then show ?thesis
      using Cons.IH Continue try_candidate_staging [of env observes rq index c res w] by (cases f) fastforce+
  qed
qed auto

text \<open>(C32) Staging is cleaned up: however the sources, the file system and cancellation behave,
  every staging directory an acquisition creates is handed to \<open>RemoveAll\<close> before the next one is
  created, except the one that holds the payload of a successful acquisition, which the result
  names.\<close>

theorem staging_balanced:
  "case Acquire env hasAdapter observes rq w of (res, err, w', calls) \<Rightarrow>
     staged calls = cleaned calls @ (if err = None then [rs_StagingPath res] else [])"
  by (cases "Acquire env hasAdapter observes rq w") (auto simp: Acquire_def dest!: acquire_loop_staging split: option.splits)

subsection \<open>The order of the sources\<close>

text \<open>
  The attempts made so far: one for each source from the first on, all of them unreachable and
  each followed by a mirror.
\<close>

definition walked :: "source_candidate list \<Rightarrow> attempt list \<Rightarrow> bool" where
  "walked cs as \<longleftrightarrow> length as \<le> length cs \<and>
     (\<forall>i < length as. at_Route (as ! i) = sc_Route (cs ! i) \<and> at_Failure (as ! i) = FailureReachability
        \<and> \<not> at_Succeeded (as ! i) \<and> hasEligibleMirror cs (i + 1))"

text \<open>How the attempts of an operation look when it returns.\<close>

definition finished :: "request \<Rightarrow> acquisition_result \<Rightarrow> failure option \<Rightarrow> bool" where
  "finished rq res err \<longleftrightarrow>
     (if rs_Attempts res = [] then err \<noteq> None
      else (let as = rs_Attempts res; tried = rq_Candidates rq ! (length as - 1) in
          length as \<le> length (rq_Candidates rq) \<and> at_Route (last as) = sc_Route tried
          \<and> (walked (rq_Candidates rq) as \<and> err \<noteq> None
             \<or> walked (rq_Candidates rq) (butlast as) \<and> at_Succeeded (last as) = (err = None)
               \<and> (err = None \<longrightarrow> rs_Identity res = rq_Identity rq \<and> rs_Route res = sc_Route tried
                    \<and> rs_FallbackUsed res = (sc_Route tried = RouteMirror)))))"

lemma walked_snoc:
  "walked cs as \<Longrightarrow> length as < length cs \<Longrightarrow> at_Route a = sc_Route (cs ! length as) \<Longrightarrow> at_Failure a = FailureReachability \<Longrightarrow>
     \<not> at_Succeeded a \<Longrightarrow> hasEligibleMirror cs (length as + 1) \<Longrightarrow> walked cs (as @ [a])"
  by (auto simp: walked_def nth_append less_Suc_eq)

lemma walked_finished: "walked (rq_Candidates rq) (rs_Attempts res) \<Longrightarrow> finished rq res (Some f)"
  by (auto simp: finished_def walked_def Let_def last_conv_nth)

lemma snoc_finished:
  assumes "walked (rq_Candidates rq) as" "rs_Attempts res = as @ [a]" "length as < length (rq_Candidates rq)"
    and "at_Route a = sc_Route (rq_Candidates rq ! length as)" "at_Succeeded a = (err = None)"
    and "err = None \<Longrightarrow> rs_Identity res = rq_Identity rq \<and> rs_Route res = sc_Route (rq_Candidates rq ! length as)
           \<and> rs_FallbackUsed res = (sc_Route (rq_Candidates rq ! length as) = RouteMirror)"
  shows "finished rq res err"
  using assms by (auto simp: finished_def Let_def)

lemma failed_attempt_simps [simp]:
  "at_Route (failed_attempt r f) = r" "\<not> at_Succeeded (failed_attempt r f)" "at_Failure (failed_attempt r f) = f_Kind f"
  by (simp_all add: failed_attempt_def)

fun in_order :: "request \<Rightarrow> nat \<Rightarrow> 'w iteration_end \<Rightarrow> bool" where
  "in_order rq n (Return res f w l) \<longleftrightarrow> finished rq res f"
| "in_order rq n (Continue res w l) \<longleftrightarrow> walked (rq_Candidates rq) (rs_Attempts res)
     \<and> length (rs_Attempts res) = n + 1 \<and> n + 1 < length (rq_Candidates rq)"

lemma in_order_log [simp]: "in_order rq n (log_more l x) = in_order rq n x"
  by (cases x) (simp_all add: log_more_def)

lemma try_candidate_order:
  assumes "walked (rq_Candidates rq) (rs_Attempts res)" "length (rs_Attempts res) < length (rq_Candidates rq)"
    and "c = rq_Candidates rq ! length (rs_Attempts res)"
  shows "in_order rq (length (rs_Attempts res)) (try_candidate env observes rq (length (rs_Attempts res)) c res w)"
proof -
  have fin: "finished rq (res\<lparr>rs_Attempts := rs_Attempts res @ [failed_attempt (sc_Route c) f]\<rparr>) (Some f')" for f f'
    by (rule snoc_finished [OF assms(1)]) (use assms in auto)
  have acc: "in_order rq (length (rs_Attempts res)) (accept_attempt env rq c stage ar res w)" for stage ar w
    using assms fin by (auto simp: accept_attempt_def Let_def intro!: snoc_finished)
  have rej: "in_order rq (length (rs_Attempts res)) (reject_attempt env rq (length (rs_Attempts res)) c stage err res w)"
    for stage err w
    using assms fin
    by (auto simp: reject_attempt_def Let_def hasEligibleMirror_def intro!: walked_snoc split: option.split prod.split)
  show ?thesis
    using acc rej walked_finished [OF assms(1)]
    by (simp add: try_candidate_def Let_def split: option.split sum.split prod.split)
qed

lemma acquire_loop_order:
  assumes "walked (rq_Candidates rq) (rs_Attempts res)" "cs = drop (length (rs_Attempts res)) (rq_Candidates rq)"
    and "acquire_loop env observes rq (length (rs_Attempts res)) cs res w = (res', f, w', l)"
  shows "finished rq res' f"
  using assms
proof (induction cs arbitrary: res w l)
  case Nil
  then show ?case by (auto intro: walked_finished)
next
  case (Cons c cs)
  let ?n = "length (rs_Attempts res)"
  have d: "drop ?n (rq_Candidates rq) = c # cs" using Cons.prems(2) by simp
  then have n: "?n < length (rq_Candidates rq)" by (metis drop_all list.distinct(1) not_le)
  have c: "c = rq_Candidates rq ! ?n" using d by (simp add: nth_via_drop)
  have cs: "cs = drop (?n + 1) (rq_Candidates rq)" using d by (metis Suc_eq_plus1 drop_Suc drop_tl list.sel(3))
  note step = try_candidate_order [OF Cons.prems(1) n c, of env observes w]
  show ?case
  proof (cases "try_candidate env observes rq ?n c res w")
    case (Return a b d e)
    then show ?thesis using Cons.prems(3) step by simp
  next
    case (Continue a b d)
    with Cons.prems(3) obtain l' where "acquire_loop env observes rq (?n + 1) cs a b = (res', f, w', l')"
      by (auto split: prod.splits)
    then show ?thesis using Cons.IH [of a b l'] Continue step cs by simp
  qed
qed

text \<open>Sources are tried in order and only as long as that makes sense: every attempt but the
  last failed because the source was unreachable and was followed by a mirror; the last one
  decides, an operation succeeds exactly when it did, and then the result names the requested
  artifact, the route of the source that delivered it and whether that was a mirror.\<close>

theorem sources_tried_in_order:
  "case Acquire env hasAdapter observes rq w of (res, err, w', calls) \<Rightarrow> finished rq res err"
proof (cases "validateRequest env hasAdapter rq")
  case None
  have "walked (rq_Candidates rq) (rs_Attempts (empty_result (rq_Identity rq)))"
    by (simp add: walked_def empty_result_def)
  from acquire_loop_order [OF this, of "rq_Candidates rq" env observes w] show ?thesis
    using None by (auto simp: Acquire_def empty_result_def split: prod.split)
qed (auto simp: Acquire_def empty_result_def finished_def)

end
