(* ===== verification/Automation_Policy.thy ===== *)
theory Automation_Policy
  imports Go_Strings "HOL-Library.AList"
begin

text \<open>
  \<open>internal/settings/browser_policy.go\<close>, \<open>computer_policy.go\<close> and
  \<open>internal/automation/browser_classify.go\<close>: what an automated browser or desktop session may do
  without asking.  A policy is normalized whenever it is loaded or saved; the classifier names the
  risk of an action, and the empty category needs no confirmation.

  A Go map is an association list with distinct keys.  Address parsing, case conversion and the
  internationalized domain names package are functions of an environment record, as is the table of risk
  keywords, which the program embeds as data.
\<close>

subsection \<open>Addresses\<close>

record url =
  u_Scheme :: string
  u_User :: bool
  u_Hostname :: string
  u_Host :: string

record ip =
  ip_String :: string
  ip_v4 :: bool

record net_env =
  url_Parse :: "string \<Rightarrow> url option"
  ParseIP :: "string \<Rightarrow> ip option"
  idna_ToASCII :: "string \<Rightarrow> string option"
  ToLower :: "string \<Rightarrow> string"
  EqualFold :: "string \<Rightarrow> string \<Rightarrow> bool"

fun contains :: "string \<Rightarrow> string \<Rightarrow> bool" where
  "contains [] p = (p = [])"
| "contains (c # s) p = (has_prefix (c # s) p \<or> contains s p)"

text \<open>The characters of a host label; the runes of the code are compared with ASCII characters only.\<close>

definition host_char :: "char \<Rightarrow> bool" where
  "host_char c \<longleftrightarrow> 97 \<le> byte c \<and> byte c \<le> 122 \<or> is_digit c \<or> c = CHR ''-''"

definition valid_label :: "string \<Rightarrow> bool" where
  "valid_label l \<longleftrightarrow> \<not> (length l = 0 \<or> length l > 63 \<or> hd l = CHR ''-'' \<or> last l = CHR ''-'') \<and> list_all host_char l"

definition normalizeBrowserHost :: "net_env \<Rightarrow> string \<Rightarrow> bool \<Rightarrow> string option" where
  "normalizeBrowserHost env v0 siteRule =
    (let v1 = trim_space v0;
         v = (if \<not> contains v1 ''://'' then ''https://'' @ v1 else v1) in
     case url_Parse env v of None \<Rightarrow> None
     | Some u \<Rightarrow>
       if u_User u \<or> u_Scheme u \<noteq> ''http'' \<and> u_Scheme u \<noteq> ''https'' then None
       else
         let h0 = trim_suffix (ToLower env (u_Hostname u)) ''.'';
             h1 = trim_prefix (trim_prefix h0 ''*.'') ''www.'' in
         case ParseIP env h1 of
           Some i \<Rightarrow> if siteRule \<and> \<not> ip_v4 i then None else Some (ip_String i)
         | None \<Rightarrow>
           (case idna_ToASCII env h1 of None \<Rightarrow> None
            | Some h \<Rightarrow>
                if h = [] \<or> length h > 253 then None
                else if h = ''localhost'' \<or> (case ParseIP env h of None \<Rightarrow> False | Some i \<Rightarrow> ip_v4 i) then Some h
                else if siteRule \<and> \<not> contains h ''.'' then None
                else if list_all valid_label (split_byte (CHR ''.'') h) then Some h
                else None))"

definition NormalizeBrowserHost :: "net_env \<Rightarrow> string \<Rightarrow> string option" where
  "NormalizeBrowserHost env v = normalizeBrowserHost env v True"

definition BrowserAddressHost :: "net_env \<Rightarrow> string \<Rightarrow> string option" where
  "BrowserAddressHost env v = normalizeBrowserHost env v False"

subsection \<open>Browser policies\<close>

definition BrowserRiskCategories :: "string list" where
  "BrowserRiskCategories =
    [''payment'', ''send'', ''publish'', ''delete'', ''install'', ''settings'', ''submit'', ''upload'', ''script'', ''unknown'']"

record site_rule =
  sr_Host :: string
  sr_Rule :: string

record browser_policy =
  AskEachConversation :: bool
  NewSites :: string
  Sites :: "site_rule list"
  bp_Confirm :: "(string \<times> string) list"
  bp_GrantLasts :: string

definition DefaultBrowserPolicy :: browser_policy where
  "DefaultBrowserPolicy =
    \<lparr>AskEachConversation = True, NewSites = ''allow'', Sites = [],
     bp_Confirm = map (\<lambda>c. (c, ''ask'')) BrowserRiskCategories, bp_GrantLasts = ''conversation''\<rparr>"

text \<open>A lookup in a Go map: the empty string when the key is missing.\<close>

definition look :: "(string \<times> string) list \<Rightarrow> string \<Rightarrow> string" where
  "look m k = (case map_of m k of None \<Rightarrow> [] | Some v \<Rightarrow> v)"

text \<open>The confirmation of a category after normalization.\<close>

definition confirm_choice :: "(string \<times> string) list \<Rightarrow> string \<Rightarrow> string" where
  "confirm_choice given c =
    (let v = look given c in if v = ''block'' \<or> v = ''allow'' \<and> c \<noteq> ''payment'' then v else ''ask'')"

text \<open>One site of the input: \<open>seen\<close> maps a host to its position in the result.\<close>

definition add_site ::
    "net_env \<Rightarrow> site_rule \<Rightarrow> (string \<rightharpoonup> nat) \<times> site_rule list \<Rightarrow> (string \<rightharpoonup> nat) \<times> site_rule list" where
  "add_site env s = (\<lambda>(seen, sites).
    (case NormalizeBrowserHost env (sr_Host s) of
       None \<Rightarrow> (seen, sites)
     | Some host \<Rightarrow>
         if sr_Rule s \<noteq> ''allow'' \<and> sr_Rule s \<noteq> ''block'' then (seen, sites)
         else (case seen host of
             Some i \<Rightarrow> (seen, if sr_Rule s = ''block'' then sites[i := (sites ! i)\<lparr>sr_Rule := ''block''\<rparr>] else sites)
           | None \<Rightarrow> (seen(host \<mapsto> length sites), sites @ [\<lparr>sr_Host = host, sr_Rule = sr_Rule s\<rparr>]))))"

definition NormalizeBrowserPolicy :: "net_env \<Rightarrow> browser_policy option \<Rightarrow> browser_policy" where
  "NormalizeBrowserPolicy env inp =
    (case inp of None \<Rightarrow> DefaultBrowserPolicy
     | Some p \<Rightarrow>
       \<lparr>AskEachConversation = AskEachConversation p,
        NewSites = (if NewSites p = ''ask'' then ''ask'' else ''allow''),
        Sites = sort_key sr_Host (snd (fold (add_site env) (Sites p) (Map.empty, []))),
        bp_Confirm = map (\<lambda>c. (c, confirm_choice (bp_Confirm p) c)) BrowserRiskCategories,
        bp_GrantLasts = (if bp_GrantLasts p = ''turn'' then ''turn'' else ''conversation'')\<rparr>)"

definition BrowserPolicy_UnmarshalJSON :: "net_env \<Rightarrow> browser_policy option \<Rightarrow> browser_policy" where
  "BrowserPolicy_UnmarshalJSON env decoded =
    (case decoded of None \<Rightarrow> DefaultBrowserPolicy | Some v \<Rightarrow> NormalizeBrowserPolicy env (Some v))"

definition site_matches :: "string \<Rightarrow> site_rule \<Rightarrow> bool" where
  "site_matches host s \<longleftrightarrow> host = sr_Host s \<or> has_suffix host (''.'' @ sr_Host s)"

definition better_rule :: "string \<Rightarrow> site_rule \<Rightarrow> nat \<times> string \<Rightarrow> nat \<times> string" where
  "better_rule host s = (\<lambda>(best, result).
    (if site_matches host s \<and> (length (sr_Host s) > best \<or> length (sr_Host s) = best \<and> sr_Rule s = ''block'')
     then (length (sr_Host s), sr_Rule s) else (best, result)))"

definition SiteRule :: "browser_policy \<Rightarrow> string \<Rightarrow> string" where
  "SiteRule p host = snd (fold (better_rule host) (Sites p) (0, []))"

fun check_sites :: "net_env \<Rightarrow> string set \<Rightarrow> site_rule list \<Rightarrow> string option" where
  "check_sites env seen [] = None"
| "check_sites env seen (s # ss) =
    (case NormalizeBrowserHost env (sr_Host s) of
       None \<Rightarrow> Some ''BROWSER_SITE_INVALID''
     | Some host \<Rightarrow>
         if host \<in> seen then Some ''BROWSER_SITE_DUPLICATE''
         else if sr_Rule s \<noteq> ''allow'' \<and> sr_Rule s \<noteq> ''block'' then Some ''BROWSER_POLICY_INVALID''
         else check_sites env (insert host seen) ss)"

text \<open>
  \<open>SetBrowserPolicy\<close> on the stored policy: the context may be done, saving may fail; in both cases
  and for an invalid policy the stored one stays.
\<close>

definition valid_confirm :: "string list \<Rightarrow> (string \<times> string) list \<Rightarrow> bool" where
  "valid_confirm cats m \<longleftrightarrow>
     list_all (\<lambda>(c, v). c \<in> set cats \<and> (v = ''ask'' \<or> v = ''allow'' \<or> v = ''block'') \<and> \<not> (c = ''payment'' \<and> v = ''allow'')) m"

definition SetBrowserPolicy ::
    "net_env \<Rightarrow> string option \<Rightarrow> string option \<Rightarrow> browser_policy \<Rightarrow> browser_policy \<Rightarrow> browser_policy \<times> string option" where
  "SetBrowserPolicy env ctxErr saveErr p old =
    (if ctxErr \<noteq> None then (old, ctxErr)
     else if NewSites p \<noteq> ''allow'' \<and> NewSites p \<noteq> ''ask'' \<or> bp_GrantLasts p \<noteq> ''turn'' \<and> bp_GrantLasts p \<noteq> ''conversation''
       \<or> length (Sites p) > 256 then (old, Some ''BROWSER_POLICY_INVALID'')
     else if \<not> valid_confirm BrowserRiskCategories (bp_Confirm p) then (old, Some ''BROWSER_POLICY_INVALID'')
     else (case check_sites env {} (Sites p) of Some e \<Rightarrow> (old, Some e)
       | None \<Rightarrow> if saveErr \<noteq> None then (old, saveErr) else (NormalizeBrowserPolicy env (Some p), None)))"

subsection \<open>Computer policies\<close>

definition ComputerRiskCategories :: "string list" where
  "ComputerRiskCategories =
    [''payment'', ''send'', ''publish'', ''delete'', ''install'', ''settings'', ''command'', ''close'', ''submit'', ''save'', ''unknown'']"

record app_rule =
  app_ID :: string
  app_Name :: string
  app_Level :: string

record computer_policy =
  NewApps :: string
  cp_GrantLasts :: string
  Apps :: "app_rule list"
  cp_Confirm :: "(string \<times> string) list"

definition DefaultComputerPolicy :: computer_policy where
  "DefaultComputerPolicy =
    \<lparr>NewApps = ''ask'', cp_GrantLasts = ''conversation'', Apps = [],
     cp_Confirm = map (\<lambda>c. (c, ''ask'')) ComputerRiskCategories\<rparr>"

definition app_levels :: "string list" where
  "app_levels = [''view'', ''click'', ''full'', ''blocked'']"

fun keep_apps :: "string set \<Rightarrow> app_rule list \<Rightarrow> app_rule list" where
  "keep_apps seen [] = []"
| "keep_apps seen (a # as) =
    (if app_ID a \<noteq> [] \<and> app_ID a \<notin> seen \<and> app_Level a \<in> set app_levels
     then a # keep_apps (insert (app_ID a) seen) as else keep_apps seen as)"

definition NormalizeComputerPolicy :: "computer_policy option \<Rightarrow> computer_policy" where
  "NormalizeComputerPolicy inp =
    (case inp of None \<Rightarrow> DefaultComputerPolicy
     | Some p \<Rightarrow>
       \<lparr>NewApps = (if NewApps p = ''allow'' then ''allow'' else ''ask''),
        cp_GrantLasts = (if cp_GrantLasts p = ''turn'' then ''turn'' else ''conversation''),
        Apps = sort_key app_ID (keep_apps {} (Apps p)),
        cp_Confirm = map (\<lambda>c. (c, confirm_choice (cp_Confirm p) c)) ComputerRiskCategories\<rparr>)"

definition SetComputerPolicy ::
    "string option \<Rightarrow> string option \<Rightarrow> computer_policy \<Rightarrow> computer_policy \<Rightarrow> computer_policy \<times> string option" where
  "SetComputerPolicy ctxErr saveErr p old =
    (if ctxErr \<noteq> None then (old, ctxErr)
     else if NewApps p \<noteq> ''allow'' \<and> NewApps p \<noteq> ''ask'' \<or> cp_GrantLasts p \<noteq> ''turn'' \<and> cp_GrantLasts p \<noteq> ''conversation''
       \<or> length (Apps p) > 256 then (old, Some ''COMPUTER_POLICY_INVALID'')
     else let normalized = NormalizeComputerPolicy (Some p) in
       if length (Apps normalized) \<noteq> length (Apps p) then (old, Some ''COMPUTER_POLICY_INVALID'')
       else if \<not> valid_confirm (map fst (cp_Confirm normalized)) (cp_Confirm p) then (old, Some ''COMPUTER_POLICY_INVALID'')
       else if saveErr \<noteq> None then (old, saveErr)
       else (normalized, None))"

subsection \<open>The risk of a browser action\<close>

record browser_element =
  be_Name :: string
  be_Tag :: string
  be_Role :: string
  be_Type :: string
  be_Autocomplete :: string
  be_Multiline :: bool
  be_InForm :: bool
  be_Submit :: bool
  be_SubmitName :: string

record browser_evidence =
  ev_URL :: string
  ev_Elements :: "browser_element list"
  ev_Tabs :: "(int \<times> string) list"

text \<open>
  The arguments of a request the classifier reads: a boolean or string argument of another type
  reads as its zero value, \<open>arg_paths\<close> is the number of paths when the argument is a list.
\<close>

record browser_request =
  br_Tool :: string
  arg_submit :: bool
  arg_key :: string
  arg_paths :: nat
  arg_accept :: bool

definition zero_element :: browser_element where
  "zero_element = \<lparr>be_Name = [], be_Tag = [], be_Role = [], be_Type = [], be_Autocomplete = [], be_Multiline = False,
     be_InForm = False, be_Submit = False, be_SubmitName = []\<rparr>"

definition browserHost :: "net_env \<Rightarrow> string \<Rightarrow> bool \<Rightarrow> string + string" where
  "browserHost env address navigate =
    (case url_Parse env address of None \<Rightarrow> Inl ''BROWSER_URL_BLOCKED''
     | Some u \<Rightarrow>
       if address = ''about:blank'' then Inr []
       else if \<not> navigate \<and> (u_Scheme u = ''blob'' \<or> u_Scheme u = ''data'') then Inr []
       else if u_Scheme u \<noteq> ''http'' \<and> u_Scheme u \<noteq> ''https'' \<or> u_User u then Inl ''BROWSER_URL_BLOCKED''
       else (case BrowserAddressHost env (u_Scheme u @ ''://'' @ u_Host u) of
           None \<Rightarrow> Inl ''BROWSER_URL_BLOCKED'' | Some h \<Rightarrow> Inr h))"

type_synonym risk_keywords = "(string \<times> string list) list"

fun keyword_hit :: "risk_keywords \<Rightarrow> string \<Rightarrow> string option" where
  "keyword_hit [] name = None"
| "keyword_hit ((cat, ws) # ks) name = (if list_ex (contains name) ws then Some cat else keyword_hit ks name)"

definition save_words :: "string list" where
  "save_words = [''save'', ''apply'', string_of_runes [0x4FDD, 0x5B58], string_of_runes [0x9069, 0x7528]]"

definition keywordCategory :: "net_env \<Rightarrow> risk_keywords \<Rightarrow> string \<Rightarrow> string \<Rightarrow> string" where
  "keywordCategory env ks name0 address =
    (let name = ToLower env name0 in
     case keyword_hit ks name of
       Some cat \<Rightarrow> cat
     | None \<Rightarrow>
         if contains (ToLower env address) ''settings'' \<and> list_ex (contains name) save_words then ''settings'' else [])"

definition secret_words :: "string list" where
  "secret_words = [string_of_runes [0x9A8C, 0x8BC1, 0x7801], ''otp'', ''code'',
     string_of_runes [0x8A8D, 0x8A3C, 0x30B3, 0x30FC, 0x30C9]]"

definition secretElement :: "net_env \<Rightarrow> browser_element \<Rightarrow> bool" where
  "secretElement env e \<longleftrightarrow>
     EqualFold env (be_Type e) ''password'' \<or> contains (ToLower env (be_Autocomplete e)) ''one-time-code''
     \<or> list_ex (contains (ToLower env (be_Name e))) secret_words"

definition click_category :: "net_env \<Rightarrow> risk_keywords \<Rightarrow> string \<Rightarrow> browser_element \<Rightarrow> string" where
  "click_category env ks address v =
    (if be_Tag v = [] then ''unknown''
     else let c = keywordCategory env ks (be_Name v) address in
       if c \<noteq> [] then c else if be_Submit v then ''submit'' else [])"

definition search_words :: "string list" where
  "search_words = [''search'', string_of_runes [0x641C, 0x7D22], string_of_runes [0x691C, 0x7D22]]"

definition enter_category :: "net_env \<Rightarrow> risk_keywords \<Rightarrow> string \<Rightarrow> browser_element \<Rightarrow> string" where
  "enter_category env ks address v =
    (if be_Tag v = [] then ''unknown''
     else if be_Tag v = ''button'' \<or> be_Tag v = ''a'' \<or> be_Role v = ''button'' \<or> be_Role v = ''link''
     then click_category env ks address v
     else if be_Multiline v then ''send''
     else if be_Type v = ''search'' \<or> be_Role v = ''searchbox'' \<or> list_ex (contains (ToLower env (be_Name v))) search_words
     then []
     else if be_InForm v then
       (let c = keywordCategory env ks (be_SubmitName v) address in if c \<noteq> [] then c else ''submit'')
     else [])"

definition frame_tag :: "browser_element \<Rightarrow> bool" where
  "frame_tag v \<longleftrightarrow> be_Tag v = [] \<or> be_Tag v = ''iframe'' \<or> be_Tag v = ''frame''"

datatype browser_error = TargetUnverified | SecretInputBlocked

text \<open>The checks of the elements text is entered into, in order.\<close>

fun check_targets :: "net_env \<Rightarrow> browser_element list \<Rightarrow> browser_error option" where
  "check_targets env [] = None"
| "check_targets env (v # vs) =
    (if frame_tag v then Some TargetUnverified
     else if secretElement env v then Some SecretInputBlocked
     else check_targets env vs)"

definition drag_category :: "net_env \<Rightarrow> risk_keywords \<Rightarrow> string \<Rightarrow> browser_element list \<Rightarrow> string" where
  "drag_category env ks address es =
    (if list_ex (\<lambda>v. be_Tag v = []) es then ''unknown''
     else let c = keywordCategory env ks (join (map be_Name es) '' '') address in
       if c \<noteq> [] then c else if list_ex be_Submit es then ''submit'' else [])"

definition quiet_tools :: "string list" where
  "quiet_tools = [''snapshot'', ''tabs'', ''take_screenshot'', ''navigate'', ''navigate_back'', ''wait_for'',
     ''console_messages'', ''network_requests'', ''network_request'', ''hover'', ''resize'', ''find'', ''close'']"

definition browserCategory ::
    "net_env \<Rightarrow> risk_keywords \<Rightarrow> browser_request \<Rightarrow> browser_evidence \<Rightarrow> browser_error + string" where
  "browserCategory env ks r e =
    (let tool = trim_prefix (br_Tool r) ''browser_'';
         target = (case ev_Elements e of [] \<Rightarrow> zero_element | v # _ \<Rightarrow> v) in
     if tool = ''type'' \<or> tool = ''fill_form'' then
       (if ev_Elements e = [] then Inl TargetUnverified
        else case check_targets env (ev_Elements e) of
          Some err \<Rightarrow> Inl err
        | None \<Rightarrow> if arg_submit r then Inr (enter_category env ks (ev_URL e) target) else Inr [])
     else if tool = ''press_key'' then
       (if frame_tag target then Inl TargetUnverified
        else if secretElement env target then Inl SecretInputBlocked
        else if EqualFold env (last (split_byte (CHR ''+'') (arg_key r))) ''Enter''
        then Inr (enter_category env ks (ev_URL e) target) else Inr [])
     else if tool = ''drag'' then Inr (drag_category env ks (ev_URL e) (ev_Elements e))
     else if tool = ''click'' \<or> tool = ''select_option'' then Inr (click_category env ks (ev_URL e) target)
     else if tool = ''file_upload'' then Inr ''upload''
     else if tool = ''drop'' then
       (if arg_paths r > 0 then Inr ''upload''
        else if secretElement env target then Inl SecretInputBlocked else Inr [])
     else if tool = ''handle_dialog'' then Inr (if arg_accept r then ''unknown'' else [])
     else if tool = ''evaluate'' \<or> tool = ''run_code_unsafe'' then Inr ''script''
     else if tool \<in> set quiet_tools then Inr []
     else Inr ''unknown'')"

subsection \<open>Normalized policies\<close>

text \<open>What the input says about a host, and the rule that follows: a block wins.\<close>

definition said :: "net_env \<Rightarrow> site_rule list \<Rightarrow> string \<Rightarrow> string list" where
  "said env ss h = map sr_Rule (filter (\<lambda>s. NormalizeBrowserHost env (sr_Host s) = Some h \<and> sr_Rule s \<in> {''allow'', ''block''}) ss)"

definition verdict :: "string list \<Rightarrow> string option" where
  "verdict rs = (if rs = [] then None else if ''block'' \<in> set rs then Some ''block'' else Some ''allow'')"

definition sites_inv :: "net_env \<Rightarrow> site_rule list \<Rightarrow> (string \<rightharpoonup> nat) \<times> site_rule list \<Rightarrow> bool" where
  "sites_inv env ss = (\<lambda>(seen, sites).
     (\<forall>h i. seen h = Some i \<longleftrightarrow> i < length sites \<and> sr_Host (sites ! i) = h)
     \<and> (\<forall>h. map_option (\<lambda>i. sr_Rule (sites ! i)) (seen h) = verdict (said env ss h)))"

lemma said_snoc: "said env (ss @ [s]) h =
    said env ss h @ (if NormalizeBrowserHost env (sr_Host s) = Some h \<and> sr_Rule s \<in> {''allow'', ''block''} then [sr_Rule s] else [])"
  by (simp add: said_def)

lemma sites_invD:
  assumes "sites_inv env ss (seen, sites)"
  shows "seen h = Some i \<longleftrightarrow> i < length sites \<and> sr_Host (sites ! i) = h"
    and "map_option (\<lambda>i. sr_Rule (sites ! i)) (seen h) = verdict (said env ss h)"
  using assms by (simp_all add: sites_inv_def)

lemma add_new_site:
  assumes inv: "sites_inv env ss (seen, sites)" and s: "NormalizeBrowserHost env (sr_Host s) = Some host"
    "sr_Rule s \<in> {''allow'', ''block''}" and new: "seen host = None"
  shows "sites_inv env (ss @ [s]) (seen(host \<mapsto> length sites), sites @ [\<lparr>sr_Host = host, sr_Rule = sr_Rule s\<rparr>])"
proof -
  note pos = sites_invD(1) [OF inv] and rule = sites_invD(2) [OF inv]
  let ?sites = "sites @ [\<lparr>sr_Host = host, sr_Rule = sr_Rule s\<rparr>]"
  have fresh: "\<not> (i < length sites \<and> sr_Host (sites ! i) = host)" for i using new pos [of host i] by simp
  have empty: "said env ss host = []" using rule [of host] new by (auto simp: verdict_def split: if_splits)
  have "(seen(host \<mapsto> length sites)) h = Some i \<longleftrightarrow> i < length ?sites \<and> sr_Host (?sites ! i) = h" for h i
    using fresh [of i] pos [of h i] by (auto simp: nth_append)
  moreover have "map_option (\<lambda>i. sr_Rule (?sites ! i)) ((seen(host \<mapsto> length sites)) h) = verdict (said env (ss @ [s]) h)" for h
  proof (cases "h = host")
    case True
    then show ?thesis using s empty by (auto simp: said_snoc verdict_def)
  next
    case False
    have "map_option (\<lambda>i. sr_Rule (?sites ! i)) (seen h) = map_option (\<lambda>i. sr_Rule (sites ! i)) (seen h)"
      using pos [of h] by (cases "seen h") (auto simp: nth_append)
    then show ?thesis using False rule [of h] by (simp add: said_snoc s)
  qed
  ultimately show ?thesis unfolding sites_inv_def by simp
qed

lemma repeat_site:
  assumes inv: "sites_inv env ss (seen, sites)" and s: "NormalizeBrowserHost env (sr_Host s) = Some host"
    "sr_Rule s \<in> {''allow'', ''block''}" and old: "seen host = Some i"
    and sites': "sites' = (if sr_Rule s = ''block'' then sites[i := (sites ! i)\<lparr>sr_Rule := ''block''\<rparr>] else sites)"
  shows "sites_inv env (ss @ [s]) (seen, sites')"
proof -
  note pos = sites_invD(1) [OF inv] and rule = sites_invD(2) [OF inv]
  have i: "i < length sites" "sr_Host (sites ! i) = host" using old pos by auto
  have said: "verdict (said env ss host) = Some (sr_Rule (sites ! i))" using rule [of host] old by simp
  have host_kept: "sr_Host (sites' ! j) = sr_Host (sites ! j)" for j
    using i(1) by (cases "j = i") (auto simp: sites')
  have "map_option (\<lambda>j. sr_Rule (sites' ! j)) (seen h) = verdict (said env (ss @ [s]) h)" for h
  proof (cases "h = host")
    case True
    then show ?thesis using s old i said by (auto simp: sites' said_snoc verdict_def split: if_splits)
  next
    case False
    then have "j \<noteq> i" if "seen h = Some j" for j using that pos i by auto
    then have "map_option (\<lambda>j. sr_Rule (sites' ! j)) (seen h) = map_option (\<lambda>j. sr_Rule (sites ! j)) (seen h)"
      by (cases "seen h") (auto simp: sites')
    then show ?thesis using False rule [of h] by (simp add: said_snoc s)
  qed
  moreover have "length sites' = length sites" by (simp add: sites')
  ultimately show ?thesis using pos host_kept unfolding sites_inv_def by simp
qed

lemma add_site_inv:
  assumes "sites_inv env ss st"
  shows "sites_inv env (ss @ [s]) (add_site env s st)"
proof -
  obtain seen sites where st: "st = (seen, sites)" by (cases st)
  show ?thesis
  proof (cases "\<exists>host. NormalizeBrowserHost env (sr_Host s) = Some host \<and> sr_Rule s \<in> {''allow'', ''block''}")
    case False
    then show ?thesis using assms by (auto simp: st add_site_def sites_inv_def said_snoc split: option.split)
  next
    case True
    then obtain host where s: "NormalizeBrowserHost env (sr_Host s) = Some host" "sr_Rule s \<in> {''allow'', ''block''}" by blast
    show ?thesis
    proof (cases "seen host")
      case None
      have "add_site env s st = (seen(host \<mapsto> length sites), sites @ [\<lparr>sr_Host = host, sr_Rule = sr_Rule s\<rparr>])"
        using s None by (auto simp: st add_site_def)
      then show ?thesis using add_new_site [OF assms [unfolded st] s None] by simp
    next
      case (Some i)
      have "add_site env s st = (seen, if sr_Rule s = ''block'' then sites[i := (sites ! i)\<lparr>sr_Rule := ''block''\<rparr>] else sites)"
        using s Some by (auto simp: st add_site_def)
      then show ?thesis using repeat_site [OF assms [unfolded st] s Some refl] by (simp only:)
    qed
  qed
qed

lemma sites_inv_fold: "sites_inv env ss (fold (add_site env) ss (Map.empty, []))"
proof (induction ss rule: rev_induct)
  case Nil
  show ?case by (simp add: sites_inv_def said_def verdict_def)
qed (simp add: add_site_inv)

lemma normalized_sites:
  fixes env ss
  defines "sites \<equiv> snd (fold (add_site env) ss (Map.empty, []))"
  shows "distinct (map sr_Host sites)" "s \<in> set sites \<longleftrightarrow> verdict (said env ss (sr_Host s)) = Some (sr_Rule s)"
proof -
  obtain seen where f: "fold (add_site env) ss (Map.empty, []) = (seen, sites)"
    by (metis prod.collapse sites_def)
  have pos: "seen h = Some i \<longleftrightarrow> i < length sites \<and> sr_Host (sites ! i) = h" for h i
    using sites_inv_fold [of env ss] by (simp add: f sites_inv_def)
  have rule: "map_option (\<lambda>i. sr_Rule (sites ! i)) (seen h) = verdict (said env ss h)" for h
    using sites_inv_fold [of env ss] by (simp add: f sites_inv_def)
  show "distinct (map sr_Host sites)"
    unfolding distinct_conv_nth using pos by (metis length_map nth_map option.inject)
  show "s \<in> set sites \<longleftrightarrow> verdict (said env ss (sr_Host s)) = Some (sr_Rule s)"
  proof
    assume "s \<in> set sites"
    then obtain i where i: "i < length sites" "sites ! i = s" by (auto simp: in_set_conv_nth)
    then have "seen (sr_Host s) = Some i" using pos by simp
    then show "verdict (said env ss (sr_Host s)) = Some (sr_Rule s)" using rule [of "sr_Host s"] i by simp
  next
    assume "verdict (said env ss (sr_Host s)) = Some (sr_Rule s)"
    then obtain i where "seen (sr_Host s) = Some i" "sr_Rule (sites ! i) = sr_Rule s"
      using rule [of "sr_Host s"] by (auto simp: map_option_eq_Some)
    then have "i < length sites" "sites ! i = s" using pos by (auto intro: site_rule.equality)
    then show "s \<in> set sites" by auto
  qed
qed

text \<open>
  The shape of a policy the code stores: every category has a confirmation, payments are never
  allowed without asking, and hosts and applications are listed once and in order.
\<close>

definition confirm_ok :: "string list \<Rightarrow> (string \<times> string) list \<Rightarrow> bool" where
  "confirm_ok cats m \<longleftrightarrow> map fst m = cats \<and> snd ` set m \<subseteq> {''ask'', ''allow'', ''block''} \<and> (''payment'', ''allow'') \<notin> set m"

definition browser_policy_ok :: "browser_policy \<Rightarrow> bool" where
  "browser_policy_ok p \<longleftrightarrow> NewSites p \<in> {''allow'', ''ask''} \<and> bp_GrantLasts p \<in> {''turn'', ''conversation''}
     \<and> confirm_ok BrowserRiskCategories (bp_Confirm p)
     \<and> distinct (map sr_Host (Sites p)) \<and> sorted (map sr_Host (Sites p)) \<and> sr_Rule ` set (Sites p) \<subseteq> {''allow'', ''block''}"

definition computer_policy_ok :: "computer_policy \<Rightarrow> bool" where
  "computer_policy_ok p \<longleftrightarrow> NewApps p \<in> {''allow'', ''ask''} \<and> cp_GrantLasts p \<in> {''turn'', ''conversation''}
     \<and> confirm_ok ComputerRiskCategories (cp_Confirm p)
     \<and> distinct (map app_ID (Apps p)) \<and> sorted (map app_ID (Apps p)) \<and> app_Level ` set (Apps p) \<subseteq> set app_levels"

lemma confirm_choice_ok: "confirm_ok cats (map (\<lambda>c. (c, confirm_choice m c)) cats)"
  by (auto simp: confirm_ok_def confirm_choice_def Let_def comp_def split: if_splits)

lemma default_confirm_ok: "confirm_ok cats (map (\<lambda>c. (c, ''ask'')) cats)"
  by (auto simp: confirm_ok_def comp_def)

lemma distinct_sort_key: "distinct (map f xs) \<Longrightarrow> distinct (map f (sort_key f xs))"
  by (metis distinct_map distinct_sort set_sort)

lemma NormalizeBrowserPolicy_ok: "browser_policy_ok (NormalizeBrowserPolicy env inp)"
proof (cases inp)
  case None
  then show ?thesis
    by (simp add: NormalizeBrowserPolicy_def browser_policy_ok_def DefaultBrowserPolicy_def default_confirm_ok)
next
  case (Some p)
  let ?sites = "snd (fold (add_site env) (Sites p) (Map.empty, []))"
  have "sr_Rule ` set ?sites \<subseteq> {''allow'', ''block''}"
    using normalized_sites(2) [of _ env "Sites p"] by (auto simp: verdict_def split: if_splits)
  moreover have "distinct (map sr_Host (sort_key sr_Host ?sites))"
    using normalized_sites(1) by (rule distinct_sort_key)
  ultimately show ?thesis
    by (simp add: NormalizeBrowserPolicy_def Some browser_policy_ok_def confirm_choice_ok)
qed

lemma keep_apps_ok:
  "distinct (map app_ID (keep_apps seen as)) \<and> app_ID ` set (keep_apps seen as) \<inter> seen = {}
     \<and> app_Level ` set (keep_apps seen as) \<subseteq> set app_levels"
  by (induction seen as rule: keep_apps.induct) auto

lemma NormalizeComputerPolicy_ok: "computer_policy_ok (NormalizeComputerPolicy inp)"
proof (cases inp)
  case None
  then show ?thesis
    by (simp add: NormalizeComputerPolicy_def computer_policy_ok_def DefaultComputerPolicy_def default_confirm_ok)
next
  case (Some p)
  have "distinct (map app_ID (sort_key app_ID (keep_apps {} (Apps p))))"
    using keep_apps_ok [of "{}"] by (intro distinct_sort_key) simp
  then show ?thesis
    using keep_apps_ok [of "{}" "Apps p"]
    by (simp add: NormalizeComputerPolicy_def Some computer_policy_ok_def confirm_choice_ok)
qed

text \<open>The stored policies and what changes them: loading decodes JSON that may be invalid.\<close>

datatype policy_op =
    LoadBrowser "browser_policy option"
  | LoadComputer "computer_policy option"
  | SaveBrowser "string option" "string option" browser_policy
  | SaveComputer "string option" "string option" computer_policy

fun policy_step :: "net_env \<Rightarrow> policy_op \<Rightarrow> browser_policy \<times> computer_policy \<Rightarrow> browser_policy \<times> computer_policy" where
  "policy_step env (LoadBrowser d) (b, c) = (BrowserPolicy_UnmarshalJSON env d, c)"
| "policy_step env (LoadComputer d) (b, c) = (b, NormalizeComputerPolicy d)"
| "policy_step env (SaveBrowser ctx sv p) (b, c) = (fst (SetBrowserPolicy env ctx sv p b), c)"
| "policy_step env (SaveComputer ctx sv p) (b, c) = (b, fst (SetComputerPolicy ctx sv p c))"

definition policies_ok :: "browser_policy \<times> computer_policy \<Rightarrow> bool" where
  "policies_ok = (\<lambda>(b, c). browser_policy_ok b \<and> computer_policy_ok c)"

lemma defaults_normalized: "NormalizeBrowserPolicy env None = DefaultBrowserPolicy" "NormalizeComputerPolicy None = DefaultComputerPolicy"
  by (simp_all add: NormalizeBrowserPolicy_def NormalizeComputerPolicy_def)

lemma policy_step_ok [keeps_inv]:
  assumes "policies_ok s"
  shows "policies_ok (policy_step env x s)"
proof -
  obtain b c where s: "s = (b, c)" by (cases s)
  have d: "browser_policy_ok DefaultBrowserPolicy" using NormalizeBrowserPolicy_ok [of env None] by (simp add: defaults_normalized)
  show ?thesis
    using assms d NormalizeBrowserPolicy_ok NormalizeComputerPolicy_ok unfolding s
    by (cases x)
      (simp_all add: policies_ok_def BrowserPolicy_UnmarshalJSON_def SetBrowserPolicy_def SetComputerPolicy_def Let_def split: option.split)
qed

interpretation policies: invariant_system "(DefaultBrowserPolicy, DefaultComputerPolicy)" "policy_step env" policies_ok
proof
  show "policies_ok (DefaultBrowserPolicy, DefaultComputerPolicy)"
    using NormalizeBrowserPolicy_ok [of env None] NormalizeComputerPolicy_ok [of None] by (simp add: policies_ok_def defaults_normalized)
qed (rule policy_step_ok)

text \<open>Whatever is loaded or saved, the stored automation policies are well formed: every risk
  category has a confirmation, a payment is never allowed without asking, each site and each
  application has one rule.\<close>

theorem stored_policies_wellformed:
  "policies_ok (fold (policy_step env) ops (DefaultBrowserPolicy, DefaultComputerPolicy))"
  by (rule policies.inv_run)

text \<open>Of contradicting rules for the same site the block wins: a normalized policy blocks a host
  exactly when some rule of the input that normalizes to this host does, allows it exactly when only
  allowing rules do, and has no other rules.\<close>

theorem block_wins:
  "s \<in> set (Sites (NormalizeBrowserPolicy env (Some p))) \<longleftrightarrow> verdict (said env (Sites p) (sr_Host s)) = Some (sr_Rule s)"
  using normalized_sites(2) [of s env "Sites p"] by (simp add: NormalizeBrowserPolicy_def)

subsection \<open>The most specific rule\<close>

lemma has_suffix_iff: "has_suffix s p \<longleftrightarrow> (\<exists>u. s = u @ p)"
  by (auto simp: has_suffix_def) (metis append_take_drop_id)

lemma same_length_same_host:
  assumes "site_matches host s" "site_matches host t" "length (sr_Host s) = length (sr_Host t)"
  shows "sr_Host s = sr_Host t"
proof -
  have "\<exists>u. host = u @ sr_Host x" if "site_matches host x" for x
    using that by (auto simp: site_matches_def has_suffix_iff)
  with assms show ?thesis by (metis append_eq_append_conv)
qed

definition most_specific :: "string \<Rightarrow> site_rule list \<Rightarrow> nat \<times> string \<Rightarrow> bool" where
  "most_specific host ss = (\<lambda>(best, result).
     (best = 0 \<and> result = [] \<and> (\<forall>s \<in> set ss. \<not> site_matches host s))
     \<or> (\<exists>s \<in> set ss. site_matches host s \<and> sr_Rule s = result \<and> length (sr_Host s) = best
          \<and> (\<forall>t \<in> set ss. site_matches host t \<longrightarrow> length (sr_Host t) \<le> best)))"

lemma better_rule_specific:
  assumes "most_specific host ss st" "distinct (map sr_Host (ss @ [s]))" "sr_Host s \<noteq> []"
  shows "most_specific host (ss @ [s]) (better_rule host s st)"
proof -
  obtain best result where st: "st = (best, result)" by (cases st)
  show ?thesis
  proof (cases "site_matches host s")
    case False
    then show ?thesis using assms(1) by (auto simp: st most_specific_def better_rule_def)
  next
    case True
    have "length (sr_Host s) \<noteq> best"
      if "t \<in> set ss" "site_matches host t" "length (sr_Host t) = best" for t
      using same_length_same_host [OF True that(2)] that assms(2) by auto
    with True assms(1,3) show ?thesis
      by (fastforce simp: st most_specific_def better_rule_def)
  qed
qed

lemma SiteRule_specific:
  assumes "distinct (map sr_Host ss)" "\<forall>s \<in> set ss. sr_Host s \<noteq> []"
  shows "most_specific host ss (fold (better_rule host) ss (0, []))"
  using assms
proof (induction ss rule: rev_induct)
  case Nil
  show ?case by (simp add: most_specific_def)
next
  case (snoc s ss)
  then show ?case using better_rule_specific [of host ss _ s] by simp
qed

text \<open>Documented of \<open>net.IP.String\<close>: an address never prints as the empty string.\<close>

definition ip_prints :: "net_env \<Rightarrow> bool" where
  "ip_prints env \<longleftrightarrow> (\<forall>h i. ParseIP env h = Some i \<longrightarrow> ip_String i \<noteq> [])"

lemma normalized_host_nonempty:
  "ip_prints env \<Longrightarrow> normalizeBrowserHost env v site = Some h \<Longrightarrow> h \<noteq> []"
  by (auto simp: normalizeBrowserHost_def ip_prints_def Let_def split: option.splits if_splits)

lemma verdict_said: "verdict (said env ss h) = Some r \<Longrightarrow> \<exists>v. NormalizeBrowserHost env v = Some h"
  by (auto simp: verdict_def said_def filter_empty_conv split: if_splits)

lemma normalized_sites_nonempty:
  assumes "ip_prints env" "s \<in> set (Sites (NormalizeBrowserPolicy env q))"
  shows "sr_Host s \<noteq> []"
proof (cases q)
  case None
  then show ?thesis using assms(2) by (simp add: NormalizeBrowserPolicy_def DefaultBrowserPolicy_def)
next
  case (Some p)
  have "s \<in> set (snd (fold (add_site env) (Sites p) (Map.empty, [])))"
    using assms(2) by (simp add: Some NormalizeBrowserPolicy_def)
  then obtain v where "NormalizeBrowserHost env v = Some (sr_Host s)"
    using normalized_sites(2) verdict_said by blast
  then show ?thesis using normalized_host_nonempty [OF assms(1)] by (simp add: NormalizeBrowserHost_def)
qed

text \<open>(C33) The loop over the sites finds the most specific rule: the rule of a host is that of the
  longest site of the normalized policy that is the host or a parent domain of it, and there is no
  rule exactly when no site is.\<close>

theorem site_rule_most_specific:
  fixes env q host
  defines "p \<equiv> NormalizeBrowserPolicy env q"
  assumes "ip_prints env"
  shows "(SiteRule p host = r \<and> r \<noteq> []) \<longleftrightarrow>
    (\<exists>s \<in> set (Sites p). site_matches host s \<and> sr_Rule s = r \<and>
       (\<forall>t \<in> set (Sites p). site_matches host t \<longrightarrow> length (sr_Host t) \<le> length (sr_Host s)))"
proof -
  have ok: "browser_policy_ok p" unfolding p_def by (rule NormalizeBrowserPolicy_ok)
  have "\<forall>s \<in> set (Sites p). sr_Host s \<noteq> []"
    using normalized_sites_nonempty [OF assms(2)] by (simp add: p_def)
  then have spec: "most_specific host (Sites p) (fold (better_rule host) (Sites p) (0, []))"
    using ok by (intro SiteRule_specific) (auto simp: browser_policy_ok_def)
  have rules: "s \<in> set (Sites p) \<Longrightarrow> sr_Rule s \<noteq> []" for s using ok by (auto simp: browser_policy_ok_def)
  have unique: "sr_Rule s = sr_Rule t" if "s \<in> set (Sites p)" "t \<in> set (Sites p)" "site_matches host s" "site_matches host t"
    "length (sr_Host s) = length (sr_Host t)" for s t
    using same_length_same_host [OF that(3-5)] that(1,2) ok by (auto simp: browser_policy_ok_def distinct_map inj_on_def)
  obtain best res where f: "fold (better_rule host) (Sites p) (0, []) = (best, res)" by fastforce
  show ?thesis
  proof (cases "\<exists>s \<in> set (Sites p). site_matches host s")
    case False
    then show ?thesis using spec by (auto simp: SiteRule_def f most_specific_def)
  next
    case True
    then obtain s where s: "s \<in> set (Sites p)" "site_matches host s" "sr_Rule s = res"
        "\<forall>t \<in> set (Sites p). site_matches host t \<longrightarrow> length (sr_Host t) \<le> length (sr_Host s)"
      using spec by (auto simp: f most_specific_def)
    have "sr_Rule t = res" if "t \<in> set (Sites p)" "site_matches host t"
      "\<forall>t' \<in> set (Sites p). site_matches host t' \<longrightarrow> length (sr_Host t') \<le> length (sr_Host t)" for t
      using unique [of s t] s that by (metis le_antisym)
    then show ?thesis using s rules [OF s(1)] by (auto simp: SiteRule_def f)
  qed
qed

subsection \<open>Actions without confirmation\<close>

lemma check_targets_None: "check_targets env vs = None \<longleftrightarrow> list_all (\<lambda>v. \<not> frame_tag v \<and> \<not> secretElement env v) vs"
  by (induction vs) auto

lemma keywordCategory_empty:
  "keywordCategory env ks name address = [] \<Longrightarrow> keyword_hit ks (ToLower env name) \<in> {None, Some []}"
  by (auto simp: keywordCategory_def Let_def split: option.splits)

lemma click_category_empty:
  "click_category env ks address v = [] \<Longrightarrow>
     be_Tag v \<noteq> [] \<and> \<not> be_Submit v \<and> keyword_hit ks (ToLower env (be_Name v)) \<in> {None, Some []}"
  using keywordCategory_empty by (auto simp: click_category_def Let_def split: if_splits)


subsection \<open>Witnesses\<close>

definition example_net :: net_env where
  "example_net = \<lparr>url_Parse = (\<lambda>s. Some \<lparr>u_Scheme = ''https'', u_User = False, u_Hostname = drop 8 s, u_Host = drop 8 s\<rparr>),
     ParseIP = (\<lambda>s. None), idna_ToASCII = Some, ToLower = id, EqualFold = (=)\<rparr>"

lemma example_ip_prints: "ip_prints example_net"
  by (simp add: ip_prints_def example_net_def)

text \<open>
  Normalizing is not idempotent: a policy is normalized when it is saved and again when it is loaded,
  and each time one more \<open>www.\<close> is dropped, so the rule moves to a parent domain.
\<close>

lemma normalization_drifts:
  "NormalizeBrowserHost example_net ''www.www.example.com'' = Some ''www.example.com''"
  "NormalizeBrowserHost example_net ''www.example.com'' = Some ''example.com''"
proof -
  have t: "trim_space ''www.www.example.com'' = ''www.www.example.com''" "trim_space ''www.example.com'' = ''www.example.com''"
    by (rule trim_space_graphic; simp)+
  show "NormalizeBrowserHost example_net ''www.www.example.com'' = Some ''www.example.com''"
    "NormalizeBrowserHost example_net ''www.example.com'' = Some ''example.com''"
    by (simp_all add: NormalizeBrowserHost_def normalizeBrowserHost_def t example_net_def has_prefix_def trim_prefix_def trim_suffix_def
        has_suffix_def valid_label_def host_char_def is_digit_def)
qed

definition example_sites :: browser_policy where
  "example_sites = DefaultBrowserPolicy\<lparr>Sites := [\<lparr>sr_Host = ''www.example.com'', sr_Rule = ''allow''\<rparr>]\<rparr>"

lemma example_sites_normalized:
  "Sites (NormalizeBrowserPolicy example_net (Some example_sites)) = [\<lparr>sr_Host = ''example.com'', sr_Rule = ''allow''\<rparr>]"
  by (simp add: NormalizeBrowserPolicy_def example_sites_def add_site_def normalization_drifts)

theorem site_rule_most_specific_witness:
  "SiteRule (NormalizeBrowserPolicy example_net (Some example_sites)) ''mail.example.com'' = ''allow''"
  using site_rule_most_specific [OF example_ip_prints, of "Some example_sites" "''mail.example.com''" "''allow''"]
  by (simp add: example_sites_normalized site_matches_def has_suffix_def)

definition example_click :: browser_request where
  "example_click = \<lparr>br_Tool = ''browser_click'', arg_submit = False, arg_key = [], arg_paths = 0, arg_accept = False\<rparr>"

definition example_page :: browser_evidence where
  "example_page = \<lparr>ev_URL = ''https://example.com'',
     ev_Elements = [zero_element\<lparr>be_Name := ''details'', be_Tag := ''a''\<rparr>], ev_Tabs = []\<rparr>"

lemma example_click_quiet: "browserCategory example_net [(''payment'', [''pay'', ''buy''])] example_click example_page = Inr []"
  by (simp add: browserCategory_def example_click_def example_page_def trim_prefix_def has_prefix_def click_category_def
      keywordCategory_def zero_element_def example_net_def Let_def)


end
