(* ===== verification/Manager_State.thy ===== *)
theory Manager_State
  imports Go_Strings Lifecycle
begin

text \<open>
  \<open>internal/dshmanager/model.go\<close>, \<open>storage.go\<close> and \<open>profile_records.go\<close>: the data of the DSH
  manager, the validation every saved state has to pass, and how the state is split over the
  application file and two record files per profile.  Enumerations of the code are string types
  whose values come from files, so they are strings here.  What the manager takes from the platform
  (path functions, the size of an encoded input) is the record \<open>mgr_env\<close>.  A record file on disk
  holds a value or something that does not decode; JSON coding is not represented.
\<close>

subsection \<open>Catalogue data\<close>

record node_selection =
  ns_Kind :: string
  ns_InstallationID :: string

record profile_ref =
  pr_DataDirectoryID :: string
  pr_Name :: string

record run_context =
  rc_RuntimeID :: string
  rc_Node :: node_selection
  rc_Profile :: profile_ref

record data_directory =
  dd_ID :: string
  dd_Name :: string
  dd_Path :: string
  dd_Ownership :: string

record runtime_info =
  ri_ID :: string
  ri_Version :: string
  ri_Path :: string
  ri_Source :: string
  ri_Toolchain :: string
  ri_InstallSource :: string
  ri_ToolchainPath :: string
  ri_Installed :: bool
  ri_Removable :: bool

record node_installation =
  ni_ID :: string
  ni_Version :: string
  ni_Platform :: string
  ni_Architecture :: string
  ni_NodePath :: string
  ni_NPMPath :: string
  ni_PNPMPath :: string
  ni_Ownership :: string
  ni_InstallSource :: string
  ni_SHA256 :: string
  ni_Installed :: bool
  ni_Removable :: bool
  ni_Verified :: bool

record node_release =
  nr_Version :: string
  nr_Platform :: string
  nr_Architecture :: string
  nr_Filename :: string
  nr_SHA256 :: string
  nr_Source :: string
  nr_FallbackUsed :: bool
  nr_ObservedAt :: string

record dsh_release =
  dr_Version :: string
  dr_Tags :: "string list"
  dr_PublishedAt :: string
  dr_Source :: string
  dr_FallbackUsed :: bool
  dr_ObservedAt :: string

record plugin_provenance =
  pp_Profile :: profile_ref
  pp_Package :: string
  pp_RequestedSpec :: string
  pp_SourceKind :: string
  pp_SuccessfulRoute :: string
  pp_RecordedAt :: string

record switch_attempt =
  sa_Target :: run_context
  sa_Stage :: string
  sa_Failure :: failure
  sa_AutomaticRollback :: bool
  sa_Rollback :: string
  sa_RollbackFailure :: "failure option"
  sa_CompletedAt :: string

definition OwnershipDSHWork :: string where "OwnershipDSHWork = ''dsh-work''"
definition OwnershipUser :: string where "OwnershipUser = ''user''"

definition toolchain_valid :: "string \<Rightarrow> bool" where
  "toolchain_valid t \<longleftrightarrow> t = ''none'' \<or> t = ''system-pnpm'' \<or> t = ''system-npm'' \<or> t = ''managed-node-npm''"

definition artifact_source_valid :: "string \<Rightarrow> bool" where
  "artifact_source_valid s \<longleftrightarrow> s = ''none'' \<or> s = ''local'' \<or> s = ''official'' \<or> s = ''mirror''"

subsection \<open>Restore point data\<close>

record version_plugin =
  vp_Name :: string
  vp_Version :: string
  vp_Source :: string
  vp_Group :: string

text \<open>The identities of the automation dependencies (\<open>automation.VersionInputs\<close>).\<close>

record version_inputs =
  vi_SchemaVersion :: int
  vi_BrowserLock :: string
  vi_ComputerLock :: string
  vi_AUVLock :: string
  vi_DriverVersion :: string
  vi_DriverArchive :: string
  vi_DriverSHA256 :: string
  vi_ExtensionSource :: string

record version_input =
  in_Automation :: "version_inputs option"
  in_Bundles :: "string list"
  in_Lock :: string
  in_Workspace :: string
  in_Plugins :: "version_plugin list"
  in_PackageManager :: string
  in_Unavailable :: string

record restore_point =
  pt_ID :: string
  pt_Kind :: string
  pt_Label :: string
  pt_CreatedAt :: string
  pt_LastVerifiedAt :: string
  pt_Target :: run_context
  pt_DSHVersion :: string
  pt_NodeVersion :: string
  pt_PackageManager :: string
  pt_Platform :: string
  pt_Plugins :: "version_plugin list"
  pt_Digest :: string
  pt_Lockfile :: string
  pt_Unavailable :: string

record stored_point = restore_point +
  pt_Input :: version_input

record recovery_operation =
  ro_PointID :: string
  ro_Stage :: string
  ro_Status :: string
  ro_Error :: string
  ro_ResumeCount :: int

record version_recovery =
  vr_SchemaVersion :: int
  vr_Points :: "stored_point list"
  vr_LastByProfile :: "string \<rightharpoonup> string"
  vr_LastRunning :: string
  vr_Pending :: "recovery_operation option"

text \<open>A missing map entry reads as the empty string.\<close>

definition last_of :: "(string \<rightharpoonup> string) \<Rightarrow> string \<Rightarrow> string" where
  "last_of m k = (case m k of None \<Rightarrow> [] | Some v \<Rightarrow> v)"

definition profilePointKey :: "profile_ref \<Rightarrow> string" where
  "profilePointKey ref = pr_DataDirectoryID ref @ ''/'' @ pr_Name ref"

definition empty_recovery :: version_recovery where
  "empty_recovery = \<lparr>vr_SchemaVersion = 1, vr_Points = [], vr_LastByProfile = Map.empty, vr_LastRunning = [], vr_Pending = None\<rparr>"

definition cloneVersionRecovery :: "version_recovery option \<Rightarrow> version_recovery" where
  "cloneVersionRecovery s = (case s of None \<Rightarrow> empty_recovery | Some r \<Rightarrow> r)"

definition point :: "version_recovery \<Rightarrow> string \<Rightarrow> stored_point option" where
  "point s ident = find (\<lambda>p. pt_ID p = ident) (vr_Points s)"

record mgr_state =
  st_VersionRecovery :: "version_recovery option"
  st_LastSwitchAttempt :: "switch_attempt option"
  st_DataDirectories :: "data_directory list"
  st_Runtimes :: "runtime_info list"
  st_Nodes :: "node_installation list"
  st_LatestNode :: "node_release option"
  st_DSHReleases :: "dsh_release list"
  st_PluginProvenance :: "plugin_provenance list"
  st_Configured :: "run_context option"

subsection \<open>Validation\<close>

text \<open>The codes of the failures the manager builds; other errors carry their text.\<close>

datatype mgr_error =
    ManagerStateInvalid | ManagerOperationBusy | RuntimeInstallUnavailable | RuntimeInstallFailed | DSHRuntimeNotFound
  | RuntimeInUse | ProfileRequired | ProfileNotFound | ProfileInvalid | ProfileInUse | ProfileRenameFailed
  | ProfileDeleteFailed | Cancelled | Plain string | External string

record mgr_env =
  me_input_size :: "version_input \<Rightarrow> nat"
  me_base :: "string \<Rightarrow> string"
  me_isAbs :: "string \<Rightarrow> bool"
  me_abs :: "string \<Rightarrow> string option"
  me_clean :: "string \<Rightarrow> string"
  me_equalFold :: "string \<Rightarrow> string \<Rightarrow> bool"
  me_lower :: "string \<Rightarrow> string"

definition or_else :: "'e option \<Rightarrow> 'e option \<Rightarrow> 'e option" where
  "or_else a b = (case a of None \<Rightarrow> b | Some e \<Rightarrow> Some e)"

lemma or_else_None [simp]: "or_else a b = None \<longleftrightarrow> a = None \<and> b = None"
  by (simp add: or_else_def split: option.splits)

definition fail_if :: "bool \<Rightarrow> 'e \<Rightarrow> 'e option" where
  "fail_if b e = (if b then Some e else None)"

lemma fail_if_None [simp]: "fail_if b e = None \<longleftrightarrow> \<not> b"
  by (simp add: fail_if_def)

definition ascii_letter :: "char \<Rightarrow> bool" where
  "ascii_letter c \<longleftrightarrow> CHR ''A'' \<le> c \<and> c \<le> CHR ''Z'' \<or> CHR ''a'' \<le> c \<and> c \<le> CHR ''z''"

text \<open>\<open>^[0-9]+.[0-9]+.[0-9]+(?:-[0-9A-Za-z.-]+)?$\<close>\<close>

definition validRuntimeVersion :: "string \<Rightarrow> bool" where
  "validRuntimeVersion v =
    (let core = takeWhile (\<lambda>c. c \<noteq> CHR ''-'') v; rest = dropWhile (\<lambda>c. c \<noteq> CHR ''-'') v;
         parts = split_byte CHR ''.'' core
     in length parts = 3 \<and> list_all (\<lambda>p. p \<noteq> [] \<and> list_all is_digit p) parts \<and>
        (rest = [] \<or> tl rest \<noteq> [] \<and> list_all (\<lambda>c. is_digit c \<or> ascii_letter c \<or> c = CHR ''.'' \<or> c = CHR ''-'') (tl rest)))"

definition validProfileName :: "mgr_env \<Rightarrow> string \<Rightarrow> bool" where
  "validProfileName env name \<longleftrightarrow> name \<noteq> [] \<and> name \<noteq> ''.'' \<and> name \<noteq> ''..'' \<and> name \<noteq> ''node_modules'' \<and>
     CHR 0x00 \<notin> set name \<and> me_base env name = name \<and> CHR ''/'' \<notin> set name \<and> CHR 0x5C \<notin> set name"

definition validateProfileRef :: "mgr_env \<Rightarrow> profile_ref \<Rightarrow> mgr_error option" where
  "validateProfileRef env ref =
    (if pr_DataDirectoryID ref = [] \<or> pr_Name ref = [] then Some ProfileRequired
     else if \<not> validProfileName env (pr_Name ref) then Some ProfileInvalid else None)"

definition normalizeNodeSelection :: "node_selection \<Rightarrow> node_selection option" where
  "normalizeNodeSelection selection =
    (let selection = (if ns_Kind selection = [] then selection\<lparr>ns_Kind := ''system''\<rparr> else selection)
     in if ns_Kind selection = ''system'' then (if ns_InstallationID selection \<noteq> [] then None else Some selection)
        else if ns_Kind selection = ''managed'' then (if ns_InstallationID selection = [] then None else Some selection)
        else None)"

definition validateRunContext :: "mgr_env \<Rightarrow> run_context \<Rightarrow> mgr_error option" where
  "validateRunContext env target =
    (if rc_RuntimeID target = [] then Some (Plain ''Run context runtime identity is required'')
     else if normalizeNodeSelection (rc_Node target) = None then Some ManagerStateInvalid
     else validateProfileRef env (rc_Profile target))"

definition validateDataDirectory :: "data_directory \<Rightarrow> mgr_error option" where
  "validateDataDirectory d =
    (if dd_ID d = [] \<or> dd_Path d = [] then Some ManagerStateInvalid
     else fail_if (dd_Ownership d \<noteq> [] \<and> dd_Ownership d \<noteq> OwnershipDSHWork \<and> dd_Ownership d \<noteq> OwnershipUser) ManagerStateInvalid)"

definition validateNodeRelease :: "node_release \<Rightarrow> mgr_error option" where
  "validateNodeRelease r =
    (if nr_Version r = [] \<or> nr_Platform r = [] \<or> nr_Architecture r = [] \<or> nr_Filename r = [] \<or> nr_SHA256 r = []
     then Some ManagerStateInvalid
     else fail_if (nr_Source r \<noteq> ''official'' \<and> nr_Source r \<noteq> ''mirror'') ManagerStateInvalid)"

definition validateDSHRelease :: "dsh_release \<Rightarrow> mgr_error option" where
  "validateDSHRelease r =
    (if \<not> validRuntimeVersion (dr_Version r) \<or> trim_space (dr_ObservedAt r) = [] then Some ManagerStateInvalid
     else if dr_Source r \<noteq> ''official'' \<and> dr_Source r \<noteq> ''mirror'' then Some ManagerStateInvalid
     else fail_if (\<not> list_all (\<lambda>tag. trim_space tag \<noteq> []) (dr_Tags r)) ManagerStateInvalid)"

definition validateNodeInstallation :: "node_installation \<Rightarrow> mgr_error option" where
  "validateNodeInstallation n =
    (if ni_ID n = [] \<or> ni_Version n = [] \<or> ni_Platform n = [] \<or> ni_Architecture n = [] \<or> ni_NodePath n = [] \<or> ni_NPMPath n = []
     then Some ManagerStateInvalid
     else if ni_Ownership n \<noteq> ''system'' \<and> ni_Ownership n \<noteq> ''managed'' then Some ManagerStateInvalid
     else if \<not> artifact_source_valid (ni_InstallSource n) then Some ManagerStateInvalid
     else fail_if (ni_Ownership n = ''managed'' \<and> ni_SHA256 n = []) ManagerStateInvalid)"

definition validPackageName :: "mgr_env \<Rightarrow> string \<Rightarrow> bool" where
  "validPackageName env name \<longleftrightarrow> name \<noteq> [] \<and> CHR 0x00 \<notin> set name \<and> \<not> me_isAbs env name \<and>
     list_all (\<lambda>part. part \<noteq> ''.'' \<and> part \<noteq> ''..'')
       (filter (\<lambda>part. part \<noteq> []) (split_byte CHR ''/'' (map (\<lambda>c. if c = CHR 0x5C then CHR ''/'' else c) name))) \<and>
     CHR 0x0D \<notin> set name \<and> CHR 0x0A \<notin> set name \<and> CHR 0x09 \<notin> set name"

text \<open>The loop over a catalogue: every entry is checked and its identity must not have occurred.\<close>

fun check_each :: "('a \<Rightarrow> 'e option) \<Rightarrow> ('a \<Rightarrow> 'k) \<Rightarrow> 'e \<Rightarrow> 'k set \<Rightarrow> 'a list \<Rightarrow> 'e option" where
  "check_each check key duplicate seen [] = None"
| "check_each check key duplicate seen (x # xs) =
    (case check x of Some e \<Rightarrow> Some e
     | None \<Rightarrow> if key x \<in> seen then Some duplicate else check_each check key duplicate (insert (key x) seen) xs)"

lemma check_each_None:
  "check_each check key dup seen xs = None \<longleftrightarrow>
     (\<forall>x \<in> set xs. check x = None) \<and> distinct (map key xs) \<and> key ` set xs \<inter> seen = {}"
  by (induction xs arbitrary: seen) (auto split: option.splits)

text \<open>The loop over the restore points, with the running size of their inputs.\<close>

fun check_points :: "mgr_env \<Rightarrow> string set \<Rightarrow> nat \<Rightarrow> stored_point list \<Rightarrow> mgr_error option" where
  "check_points env seen used [] = None"
| "check_points env seen used (p # ps) =
    (let size = me_input_size env (pt_Input p); used = used + size
     in if used > 32 * 2 ^ 20 then Some (Plain ''version snapshot inputs exceed the total size limit'')
        else if pt_ID p = [] \<or> pt_ID p \<in> seen \<or> validateRunContext env (pt_Target p) \<noteq> None \<or> size > 12 * 2 ^ 20
        then Some (Plain ''invalid version snapshot record'')
        else check_points env (insert (pt_ID p) seen) used ps)"

abbreviation point_ids :: "version_recovery \<Rightarrow> string set" where
  "point_ids s \<equiv> pt_ID ` set (vr_Points s)"

definition validateVersionRecovery :: "mgr_env \<Rightarrow> version_recovery option \<Rightarrow> mgr_error option" where
  "validateVersionRecovery env r =
    (case r of None \<Rightarrow> None
     | Some s \<Rightarrow>
        if vr_SchemaVersion s \<noteq> 1 \<or> length (vr_Points s) > 1024 then Some (Plain ''unsupported version snapshot state'')
        else or_else (check_points env {} 0 (vr_Points s))
          (or_else (fail_if (\<not> ran (vr_LastByProfile s) \<subseteq> point_ids s) (Plain ''missing last-successful snapshot''))
            (or_else (fail_if (vr_LastRunning s \<noteq> [] \<and> vr_LastRunning s \<notin> point_ids s) (Plain ''missing last-running snapshot''))
              (fail_if (case vr_Pending s of None \<Rightarrow> False | Some p \<Rightarrow> ro_PointID p \<notin> point_ids s \<or> ro_ResumeCount p < 0)
                (Plain ''invalid pending snapshot recovery'')))))"

definition validateProvenance :: "mgr_env \<Rightarrow> plugin_provenance \<Rightarrow> mgr_error option" where
  "validateProvenance env r =
    (if validateProfileRef env (pp_Profile r) \<noteq> None \<or> \<not> validPackageName env (pp_Package r) \<or> pp_SourceKind r = [] \<or>
        trim_space (pp_RecordedAt r) = [] then Some (Plain ''plugin provenance record is invalid'')
     else fail_if (pp_SuccessfulRoute r \<noteq> [] \<and> \<not> artifact_source_valid (pp_SuccessfulRoute r))
       (Plain ''plugin provenance route is invalid''))"

definition validateConfigured :: "mgr_env \<Rightarrow> node_installation list \<Rightarrow> run_context option \<Rightarrow> mgr_error option" where
  "validateConfigured env nodes c =
    (case c of None \<Rightarrow> None
     | Some target \<Rightarrow> or_else (validateRunContext env target)
         (case normalizeNodeSelection (rc_Node target) of None \<Rightarrow> None
          | Some selection \<Rightarrow> fail_if (ns_Kind selection = ''managed'' \<and> ns_InstallationID selection \<notin> ni_ID ` set nodes)
              (Plain ''configured managed Node installation is missing'')))"

text \<open>The part of the validation that the application file has to pass on its own (\<open>validateAppState\<close>).\<close>

definition validate_catalogues :: "mgr_env \<Rightarrow> mgr_state \<Rightarrow> mgr_error option" where
  "validate_catalogues env s =
    or_else (check_each validateDataDirectory dd_ID (Plain ''duplicate DSH data-directory identity'') {} (st_DataDirectories s))
      (or_else (check_each validateNodeInstallation ni_ID (Plain ''duplicate Node installation identity'') {} (st_Nodes s))
        (or_else (case st_LatestNode s of None \<Rightarrow> None | Some r \<Rightarrow> validateNodeRelease r)
          (check_each validateDSHRelease dr_Version (Plain ''duplicate DSH release identity'') {} (st_DSHReleases s))))"

fun first_error :: "('a \<Rightarrow> 'e option) \<Rightarrow> 'a list \<Rightarrow> 'e option" where
  "first_error check [] = None"
| "first_error check (x # xs) = or_else (check x) (first_error check xs)"

lemma first_error_None [simp]: "first_error check xs = None \<longleftrightarrow> (\<forall>x \<in> set xs. check x = None)"
  by (induction xs) auto

definition validateState :: "mgr_env \<Rightarrow> mgr_state \<Rightarrow> mgr_error option" where
  "validateState env s =
    or_else (validateVersionRecovery env (st_VersionRecovery s))
      (or_else (validate_catalogues env s)
        (or_else (fail_if (length (st_PluginProvenance s) > 256) (Plain ''plugin provenance exceeds bounded capacity''))
          (or_else (first_error (validateProvenance env) (st_PluginProvenance s))
            (validateConfigured env (st_Nodes s) (st_Configured s)))))"

definition validateAppState :: "mgr_env \<Rightarrow> mgr_state \<Rightarrow> mgr_error option" where
  "validateAppState env s =
    or_else (case st_VersionRecovery s of None \<Rightarrow> None
       | Some r \<Rightarrow> or_else (fail_if (vr_SchemaVersion r \<noteq> 1) (Plain ''unsupported version snapshot state''))
           (fail_if (case vr_Pending r of None \<Rightarrow> False | Some p \<Rightarrow> ro_ResumeCount p < 0) (Plain ''invalid pending snapshot recovery'')))
      (or_else (validate_catalogues env s) (validateConfigured env (st_Nodes s) (st_Configured s)))"

definition sizes :: "mgr_env \<Rightarrow> stored_point list \<Rightarrow> nat" where
  "sizes env ps = sum_list (map (\<lambda>p. me_input_size env (pt_Input p)) ps)"

text \<open>One restore point on its own.\<close>

definition point_ok :: "mgr_env \<Rightarrow> stored_point \<Rightarrow> bool" where
  "point_ok env p \<longleftrightarrow> pt_ID p \<noteq> [] \<and> validateRunContext env (pt_Target p) = None \<and> me_input_size env (pt_Input p) \<le> 12 * 2 ^ 20"

text \<open>The loop does not depend on the order of the points.\<close>

lemma check_points_None:
  "check_points env seen used ps = None \<longleftrightarrow>
     distinct (map pt_ID ps) \<and> pt_ID ` set ps \<inter> seen = {} \<and> (\<forall>p \<in> set ps. point_ok env p) \<and>
     (ps = [] \<or> used + sizes env ps \<le> 32 * 2 ^ 20)"
proof (induction ps arbitrary: seen used)
  case Nil
  show ?case by (simp add: sizes_def)
next
  case (Cons p ps)
  have "used + sizes env (p # ps) = used + me_input_size env (pt_Input p) + sizes env ps"
    by (simp add: sizes_def)
  then show ?case
    using Cons.IH [of "insert (pt_ID p) seen" "used + me_input_size env (pt_Input p)"]
    by (auto simp: Let_def point_ok_def sizes_def split: if_splits)
qed

lemma valid_recovery_iff:
  "validateVersionRecovery env (Some s) = None \<longleftrightarrow>
     vr_SchemaVersion s = 1 \<and> length (vr_Points s) \<le> 1024 \<and> distinct (map pt_ID (vr_Points s)) \<and>
     (\<forall>p \<in> set (vr_Points s). point_ok env p) \<and> sizes env (vr_Points s) \<le> 32 * 2 ^ 20 \<and>
     ran (vr_LastByProfile s) \<subseteq> point_ids s \<and> (vr_LastRunning s = [] \<or> vr_LastRunning s \<in> point_ids s) \<and>
     (\<forall>p. vr_Pending s = Some p \<longrightarrow> ro_PointID p \<in> point_ids s \<and> 0 \<le> ro_ResumeCount p)"
proof -
  have "sizes env [] = 0" by (simp add: sizes_def)
  then have points: "check_points env {} 0 (vr_Points s) = None \<longleftrightarrow> distinct (map pt_ID (vr_Points s)) \<and>
      (\<forall>p \<in> set (vr_Points s). point_ok env p) \<and> sizes env (vr_Points s) \<le> 32 * 2 ^ 20"
    unfolding check_points_None by (cases "vr_Points s") simp_all
  show ?thesis
    unfolding validateVersionRecovery_def by (cases "vr_Pending s") (auto simp: points not_less)
qed

text \<open>Keys of profiles with valid names are distinct: a name has no slash.\<close>

lemma profilePointKey_inject:
  assumes "CHR ''/'' \<notin> set (pr_Name r)" "CHR ''/'' \<notin> set (pr_Name r')" "profilePointKey r = profilePointKey r'"
  shows "r = r'"
proof -
  have split: "rev (profilePointKey x) = rev (pr_Name x) @ CHR ''/'' # rev (pr_DataDirectoryID x)" for x
    by (simp add: profilePointKey_def)
  have "cut_byte CHR ''/'' (rev (profilePointKey x)) = Some (rev (pr_Name x), rev (pr_DataDirectoryID x))"
    if "CHR ''/'' \<notin> set (pr_Name x)" for x
    using that by (simp add: cut_byte_Some split)
  from this [OF assms(1)] this [OF assms(2)] have "pr_Name r = pr_Name r'" "pr_DataDirectoryID r = pr_DataDirectoryID r'"
    unfolding assms(3) by simp_all
  then show ?thesis by (simp add: profile_ref.equality)
qed

end
