(* ===== verification/Manager_Records.thy ===== *)
theory Manager_Records
  imports Manager_State
begin

text \<open>
  \<open>internal/dshmanager/profile_records.go\<close> and the store of \<open>storage.go\<close>: the application file keeps
  the catalogues and the references into the restore points, every profile directory keeps its own
  points and the provenance of its plugins.  \<open>saveState\<close> writes all of it, \<open>loadRecords\<close> reads it
  back.  A write either replaces a file or fails and leaves it; which writes fail is an argument.
  The record \<open>disk\<close> is what the manager reads and writes: the application file, the profile
  directories below each data directory (\<open>None\<close> when listing them fails) and the record files.
\<close>

record recovery_file =
  rf_SchemaVersion :: int
  rf_Last :: string
  rf_Points :: "stored_point list"

datatype record_kind = RecoveryJSON | ProvenanceJSON

datatype record_value = Recovery recovery_file | Provenance "plugin_provenance list"

datatype record_content = Content record_value | Corrupt

text \<open>Data directory path, profile name, file.\<close>

type_synonym record_path = "string \<times> string \<times> record_kind"

record disk =
  dk_app :: "mgr_state option"
  dk_profiles :: "string \<Rightarrow> string list option"
  dk_records :: "record_path \<rightharpoonup> record_content"

record save_io =
  io_cancelled :: bool
  io_record_fails :: "record_path \<Rightarrow> bool"
  io_store_fails :: bool

record record_profile =
  rpf_ref :: profile_ref
  rpf_dir :: string

definition path_of :: "record_profile \<Rightarrow> record_kind \<Rightarrow> record_path" where
  "path_of p kind = (rpf_dir p, pr_Name (rpf_ref p), kind)"

fun recordProfiles :: "mgr_env \<Rightarrow> disk \<Rightarrow> data_directory list \<Rightarrow> record_profile list \<times> bool" where
  "recordProfiles env d [] = ([], False)"
| "recordProfiles env d (directory # directories) =
    (let (profiles, readError) = recordProfiles env d directories
     in case dk_profiles d (dd_Path directory) of
          None \<Rightarrow> (profiles, True)
        | Some names \<Rightarrow>
            (map (\<lambda>name. \<lparr>rpf_ref = \<lparr>pr_DataDirectoryID = dd_ID directory, pr_Name = name\<rparr>, rpf_dir = dd_Path directory\<rparr>)
               (filter (\<lambda>name. \<not> me_equalFold env name ''node_modules'') names) @ profiles, readError))"

subsection \<open>Loading\<close>

record loaded =
  ld_points :: "stored_point list"
  ld_last :: "string \<rightharpoonup> string"
  ld_provenance :: "plugin_provenance list"
  ld_unreadable :: "record_path set"

definition own_point :: "profile_ref \<Rightarrow> stored_point \<Rightarrow> stored_point" where
  "own_point ref p = p\<lparr>pt_Target := (pt_Target p)\<lparr>rc_Profile := ref\<rparr>\<rparr>"

definition own_provenance :: "profile_ref \<Rightarrow> plugin_provenance \<Rightarrow> plugin_provenance" where
  "own_provenance ref r = r\<lparr>pp_Profile := ref\<rparr>"

text \<open>
  \<open>readProfileRecord\<close>: a missing file gives nothing, one that does not decode is remembered as
  unreadable.  A provenance file read as a recovery file has no schema version, a recovery file
  read as a provenance file has no records.
\<close>

definition readProfileRecord :: "disk \<Rightarrow> record_path \<Rightarrow> record_path set \<Rightarrow> record_value option \<times> record_path set" where
  "readProfileRecord d path unreadable =
    (case dk_records d path of
       None \<Rightarrow> (None, unreadable)
     | Some (Content v) \<Rightarrow> (Some v, unreadable)
     | Some Corrupt \<Rightarrow> (None, insert path unreadable))"

definition load_recovery :: "disk \<Rightarrow> record_profile \<Rightarrow> loaded \<Rightarrow> loaded" where
  "load_recovery d p l =
    (let path = path_of p RecoveryJSON; (v, unreadable) = readProfileRecord d path (ld_unreadable l);
         l = l\<lparr>ld_unreadable := unreadable\<rparr>
     in case v of
          None \<Rightarrow> l
        | Some (Provenance _) \<Rightarrow> l\<lparr>ld_unreadable := insert path unreadable\<rparr>
        | Some (Recovery f) \<Rightarrow>
            if rf_SchemaVersion f \<noteq> 1 then l\<lparr>ld_unreadable := insert path unreadable\<rparr>
            else l\<lparr>ld_points := ld_points l @ map (own_point (rpf_ref p)) (rf_Points f),
                   ld_last := (if rf_Last f \<noteq> [] then (ld_last l)(profilePointKey (rpf_ref p) \<mapsto> rf_Last f) else ld_last l)\<rparr>)"

definition load_provenance :: "disk \<Rightarrow> record_profile \<Rightarrow> loaded \<Rightarrow> loaded" where
  "load_provenance d p l =
    (let (v, unreadable) = readProfileRecord d (path_of p ProvenanceJSON) (ld_unreadable l);
         l = l\<lparr>ld_unreadable := unreadable\<rparr>
     in case v of
          Some (Provenance records) \<Rightarrow> l\<lparr>ld_provenance := ld_provenance l @ map (own_provenance (rpf_ref p)) records\<rparr>
        | _ \<Rightarrow> l)"

definition nothing_loaded :: loaded where
  "nothing_loaded = \<lparr>ld_points = [], ld_last = Map.empty, ld_provenance = [], ld_unreadable = {}\<rparr>"

definition loadProfileRecords :: "mgr_env \<Rightarrow> disk \<Rightarrow> data_directory list \<Rightarrow> loaded" where
  "loadProfileRecords env d directories =
    fold (\<lambda>p l. load_provenance d p (load_recovery d p l)) (fst (recordProfiles env d directories)) nothing_loaded"

definition pruneRecordReferences :: "version_recovery \<Rightarrow> version_recovery" where
  "pruneRecordReferences r =
    r\<lparr>vr_LastRunning := (if vr_LastRunning r \<in> point_ids r then vr_LastRunning r else []),
      vr_Pending := (case vr_Pending r of None \<Rightarrow> None | Some p \<Rightarrow> if ro_PointID p \<in> point_ids r then Some p else None),
      vr_LastByProfile := (\<lambda>k. case vr_LastByProfile r k of None \<Rightarrow> None | Some i \<Rightarrow> if i \<in> point_ids r then Some i else None)\<rparr>"

subsection \<open>Saving\<close>

text \<open>\<open>persistState\<close>: what the application file keeps, as \<open>decodeState\<close> gives it back.\<close>

definition persistState :: "mgr_state \<Rightarrow> mgr_state" where
  "persistState s =
    s\<lparr>st_VersionRecovery := map_option (\<lambda>r. r\<lparr>vr_Points := [], vr_LastByProfile := Map.empty\<rparr>) (st_VersionRecovery s),
      st_PluginProvenance := []\<rparr>"

type_synonym record_cache = "record_path \<rightharpoonup> record_value"

definition writeProfileRecord ::
    "save_io \<Rightarrow> record_path set \<Rightarrow> record_path \<Rightarrow> record_value \<Rightarrow> bool \<Rightarrow> record_cache \<times> (record_path \<rightharpoonup> record_content) \<Rightarrow>
     (record_cache \<times> (record_path \<rightharpoonup> record_content)) \<times> mgr_error option" where
  "writeProfileRecord io unreadable path value hasRecords st =
    (let (cache, records) = st
     in if path \<in> unreadable then (st, None)
        else if \<not> hasRecords \<and> records path = None then (st, None)
        else if cache path = Some value then (st, None)
        else if io_record_fails io path then (st, Some (External ''write''))
        else ((cache(path \<mapsto> value), records(path \<mapsto> Content value)), None))"

definition has_points :: "recovery_file \<Rightarrow> bool" where
  "has_points f \<longleftrightarrow> rf_Points f \<noteq> [] \<or> rf_Last f \<noteq> []"

definition recovery_of :: "mgr_state \<Rightarrow> profile_ref \<Rightarrow> recovery_file" where
  "recovery_of s ref =
    \<lparr>rf_SchemaVersion = 1,
     rf_Last = (case st_VersionRecovery s of None \<Rightarrow> [] | Some r \<Rightarrow> last_of (vr_LastByProfile r) (profilePointKey ref)),
     rf_Points = (case st_VersionRecovery s of None \<Rightarrow> []
        | Some r \<Rightarrow> filter (\<lambda>p. rc_Profile (pt_Target p) = ref) (vr_Points r))\<rparr>"

definition provenance_of :: "mgr_state \<Rightarrow> profile_ref \<Rightarrow> plugin_provenance list" where
  "provenance_of s ref = filter (\<lambda>r. pp_Profile r = ref) (st_PluginProvenance s)"

fun save_profiles ::
    "save_io \<Rightarrow> record_path set \<Rightarrow> mgr_state \<Rightarrow> record_profile list \<Rightarrow> record_cache \<times> (record_path \<rightharpoonup> record_content) \<Rightarrow>
     (record_cache \<times> (record_path \<rightharpoonup> record_content)) \<times> mgr_error option" where
  "save_profiles io unreadable s [] st = (st, None)"
| "save_profiles io unreadable s (p # ps) st =
    (let f = recovery_of s (rpf_ref p); records = provenance_of s (rpf_ref p)
     in case writeProfileRecord io unreadable (path_of p RecoveryJSON) (Recovery f) (has_points f) st of
          (st, Some e) \<Rightarrow> (st, Some e)
        | (st, None) \<Rightarrow>
           (case writeProfileRecord io unreadable (path_of p ProvenanceJSON) (Provenance records) (records \<noteq> []) st of
              (st, Some e) \<Rightarrow> (st, Some e)
            | (st, None) \<Rightarrow> save_profiles io unreadable s ps st))"

text \<open>The store writes the application file last; it validates its part again.\<close>

definition saveState ::
    "mgr_env \<Rightarrow> save_io \<Rightarrow> record_path set \<Rightarrow> mgr_state \<Rightarrow> record_cache \<Rightarrow> disk \<Rightarrow> record_cache \<times> disk \<times> mgr_error option" where
  "saveState env io unreadable s cache d =
    (case validateState env s of Some e \<Rightarrow> (cache, d, Some e)
     | None \<Rightarrow>
        if io_cancelled io then (cache, d, Some Cancelled)
        else let (profiles, bad) = recordProfiles env d (st_DataDirectories s)
         in if bad then (cache, d, Some (External ''profiles''))
            else case save_profiles io unreadable s profiles (cache, dk_records d) of
                ((cache, records), Some e) \<Rightarrow> (cache, d\<lparr>dk_records := records\<rparr>, Some e)
              | ((cache, records), None) \<Rightarrow>
                  let d = d\<lparr>dk_records := records\<rparr>
                  in case validateAppState env (persistState s) of
                       Some e \<Rightarrow> (cache, d, Some e)
                     | None \<Rightarrow> if io_store_fails io then (cache, d, Some ManagerStateInvalid)
                               else (cache, d\<lparr>dk_app := Some (persistState s)\<rparr>, None))"

declare split_paired_All [simp del]

subsection \<open>What a save leaves on disk\<close>

definition cache_ok :: "record_cache \<Rightarrow> (record_path \<rightharpoonup> record_content) \<Rightarrow> bool" where
  "cache_ok cache records \<longleftrightarrow> (\<forall>path v. cache path = Some v \<longrightarrow> records path = Some (Content v))"

definition holds :: "(record_path \<rightharpoonup> record_content) \<Rightarrow> record_path \<Rightarrow> record_value \<Rightarrow> bool \<Rightarrow> bool" where
  "holds records path v hasRecords \<longleftrightarrow> records path = Some (Content v) \<or> \<not> hasRecords \<and> records path = None"

lemma write_holds:
  assumes "writeProfileRecord io U path v h (cache, records) = ((cache', records'), None)" "cache_ok cache records" "path \<notin> U"
  shows "cache_ok cache' records' \<and> holds records' path v h \<and> (\<forall>k. k \<noteq> path \<longrightarrow> records' k = records k)"
  using assms by (auto simp: writeProfileRecord_def cache_ok_def holds_def split: if_splits)

lemma write_keeps:
  "writeProfileRecord io U path v h st = ((cache', records'), e) \<Longrightarrow> k \<in> U \<or> k \<noteq> path \<Longrightarrow> records' k = snd st k"
  by (cases st) (auto simp: writeProfileRecord_def split: if_splits)

definition stored :: "mgr_state \<Rightarrow> (record_path \<rightharpoonup> record_content) \<Rightarrow> record_profile \<Rightarrow> bool" where
  "stored s records p \<longleftrightarrow>
     holds records (path_of p RecoveryJSON) (Recovery (recovery_of s (rpf_ref p)))
       (has_points (recovery_of s (rpf_ref p))) \<and>
     holds records (path_of p ProvenanceJSON) (Provenance (provenance_of s (rpf_ref p))) (provenance_of s (rpf_ref p) \<noteq> [])"

definition profile_dir :: "record_profile \<Rightarrow> string \<times> string" where
  "profile_dir p = (rpf_dir p, pr_Name (rpf_ref p))"

lemma path_of_eq: "path_of p kind = path_of q kind' \<longleftrightarrow> profile_dir p = profile_dir q \<and> kind = kind'"
  by (auto simp: path_of_def profile_dir_def)

text \<open>A successful pass over profiles in different directories stores every one of them.\<close>

lemma save_profiles_stored:
  assumes "save_profiles io U s ps (cache, records) = ((cache', records'), None)" "cache_ok cache records"
    and "distinct (map profile_dir ps)" "\<forall>p \<in> set ps. \<forall>kind. path_of p kind \<notin> U"
  shows "cache_ok cache' records' \<and> (\<forall>p \<in> set ps. stored s records' p) \<and>
    (\<forall>k. (\<forall>p \<in> set ps. \<forall>kind. k \<noteq> path_of p kind) \<longrightarrow> records' k = records k)"
  using assms
proof (induction ps arbitrary: cache records)
  case Nil
  then show ?case by simp
next
  case (Cons p ps)
  let ?f = "recovery_of s (rpf_ref p)" and ?r = "provenance_of s (rpf_ref p)"
  obtain c1 r1 c2 r2 where
    w1: "writeProfileRecord io U (path_of p RecoveryJSON) (Recovery ?f) (has_points ?f) (cache, records) = ((c1, r1), None)"
    and w2: "writeProfileRecord io U (path_of p ProvenanceJSON) (Provenance ?r) (?r \<noteq> []) (c1, r1) = ((c2, r2), None)"
    and rest: "save_profiles io U s ps (c2, r2) = ((cache', records'), None)"
    using Cons.prems(1) by (auto simp: Let_def split: prod.splits option.splits)
  have fresh: "path_of p RecoveryJSON \<notin> U" "path_of p ProvenanceJSON \<notin> U" using Cons.prems(4) by auto
  note one = write_holds [OF w1 Cons.prems(2) fresh(1)]
  note two = write_holds [OF w2 _ fresh(2)]
  have "stored s r2 p"
    using one two by (auto simp: stored_def holds_def path_of_eq)
  moreover have c2: "cache_ok c2 r2" using one two by blast
  moreover note IH = Cons.IH [OF rest c2]
  moreover have "records' (path_of p kind) = r2 (path_of p kind)" for kind
    using IH Cons.prems(3,4) by (auto simp: path_of_eq image_iff)
  ultimately have "stored s records' p" "\<forall>q \<in> set ps. stored s records' q" "cache_ok cache' records'"
    using Cons.prems(3,4) by (auto simp: stored_def holds_def)
  moreover have "records' k = records k" if "\<forall>q \<in> set (p # ps). \<forall>kind. k \<noteq> path_of q kind" for k
    using that IH one two c2 Cons.prems(3,4) by auto
  ultimately show ?case by auto
qed

text \<open>A file that could not be read is never written.\<close>

lemma save_profiles_keeps:
  "save_profiles io U s ps st = ((cache', records'), e) \<Longrightarrow> k \<in> U \<Longrightarrow> records' k = snd st k"
proof (induction ps arbitrary: st)
  case Nil
  then show ?case by auto
next
  case (Cons p ps)
  let ?f = "recovery_of s (rpf_ref p)" and ?r = "provenance_of s (rpf_ref p)"
  obtain c1 r1 e1 where
    w1: "writeProfileRecord io U (path_of p RecoveryJSON) (Recovery ?f) (has_points ?f) st = ((c1, r1), e1)"
    by (metis prod.exhaust)
  obtain c2 r2 e2 where w2: "writeProfileRecord io U (path_of p ProvenanceJSON) (Provenance ?r) (?r \<noteq> []) (c1, r1) = ((c2, r2), e2)"
    by (metis prod.exhaust)
  have "r1 k = snd st k" "r2 k = r1 k" using write_keeps [OF w1] write_keeps [OF w2] Cons.prems(2) by auto
  then show ?case
    using Cons.prems Cons.IH [of "(c2, r2)"] by (auto simp: Let_def w1 w2 split: option.splits)
qed

subsection \<open>Reading it back\<close>

lemma own_point_id: "rc_Profile (pt_Target p) = ref \<Longrightarrow> own_point ref p = p"
  by (auto simp: own_point_def)

lemma own_provenance_id: "pp_Profile r = ref \<Longrightarrow> own_provenance ref r = r"
  by (auto simp: own_provenance_def)

lemma own_points: "map (own_point ref) (rf_Points (recovery_of s ref)) = rf_Points (recovery_of s ref)"
  by (auto simp: recovery_of_def own_point_id intro!: map_idI split: option.splits)

lemma own_provenances: "map (own_provenance ref) (provenance_of s ref) = provenance_of s ref"
  by (auto simp: provenance_of_def own_provenance_id intro!: map_idI)

definition note_last :: "mgr_state \<Rightarrow> profile_ref \<Rightarrow> (string \<rightharpoonup> string) \<Rightarrow> (string \<rightharpoonup> string)" where
  "note_last s ref m =
    (if rf_Last (recovery_of s ref) \<noteq> [] then m(profilePointKey ref \<mapsto> rf_Last (recovery_of s ref)) else m)"

lemma load_stored:
  assumes "stored s (dk_records d) p"
  shows "load_provenance d p (load_recovery d p l) =
    l\<lparr>ld_points := ld_points l @ rf_Points (recovery_of s (rpf_ref p)),
      ld_last := note_last s (rpf_ref p) (ld_last l),
      ld_provenance := ld_provenance l @ provenance_of s (rpf_ref p)\<rparr>"
proof -
  have version: "rf_SchemaVersion (recovery_of s (rpf_ref p)) = 1" by (simp add: recovery_of_def)
  have "load_recovery d p l = l\<lparr>ld_points := ld_points l @ rf_Points (recovery_of s (rpf_ref p)),
      ld_last := note_last s (rpf_ref p) (ld_last l)\<rparr>"
    using assms by (auto simp: load_recovery_def readProfileRecord_def stored_def holds_def has_points_def note_last_def own_points version)
  moreover have "load_provenance d p l' = l'\<lparr>ld_provenance := ld_provenance l' @ provenance_of s (rpf_ref p)\<rparr>" for l'
    using assms by (auto simp: load_provenance_def readProfileRecord_def stored_def holds_def own_provenances)
  ultimately show ?thesis by simp
qed

lemma load_all_stored:
  assumes "\<forall>p \<in> set ps. stored s (dk_records d) p"
  shows "fold (\<lambda>p l. load_provenance d p (load_recovery d p l)) ps l =
    l\<lparr>ld_points := ld_points l @ concat (map (\<lambda>p. rf_Points (recovery_of s (rpf_ref p))) ps),
      ld_last := fold (\<lambda>p. note_last s (rpf_ref p)) ps (ld_last l),
      ld_provenance := ld_provenance l @ concat (map (\<lambda>p. provenance_of s (rpf_ref p)) ps)\<rparr>"
  using assms by (induction ps arbitrary: l) (auto simp: load_stored)

definition last_value :: "mgr_state \<Rightarrow> string \<Rightarrow> string" where
  "last_value s k = (case st_VersionRecovery s of None \<Rightarrow> [] | Some r \<Rightarrow> last_of (vr_LastByProfile r) k)"

lemma fold_note_last:
  "fold (\<lambda>p. note_last s (rpf_ref p)) ps m k =
    (if k \<in> (profilePointKey \<circ> rpf_ref) ` set ps \<and> last_value s k \<noteq> [] then Some (last_value s k) else m k)"
proof (induction ps arbitrary: m)
  case (Cons p ps)
  have "note_last s (rpf_ref p) m k =
      (if k = profilePointKey (rpf_ref p) \<and> last_value s k \<noteq> [] then Some (last_value s k) else m k)"
    by (auto simp: note_last_def recovery_of_def last_value_def split: option.splits)
  then show ?case using Cons.IH [of "note_last s (rpf_ref p) m"] by auto
qed simp

lemma recordProfiles_dir:
  "p \<in> set (fst (recordProfiles env d dirs)) \<Longrightarrow> rpf_dir p \<in> dd_Path ` set dirs"
  by (induction dirs) (auto simp: Let_def split: option.splits prod.splits)

lemma recordProfiles_distinct:
  assumes "distinct (map dd_Path dirs)" "\<forall>path names. dk_profiles d path = Some names \<longrightarrow> distinct names"
  shows "distinct (map profile_dir (fst (recordProfiles env d dirs)))"
  using assms(1)
proof (induction dirs)
  case (Cons dir dirs)
  then have "\<forall>p \<in> set (fst (recordProfiles env d dirs)). rpf_dir p \<noteq> dd_Path dir"
    by (metis distinct.simps(2) list.map(2) recordProfiles_dir set_map)
  with Cons assms(2) show ?case
    by (force simp: Let_def distinct_map inj_on_def profile_dir_def split: option.splits prod.splits)
qed simp

lemma recordProfiles_records: "recordProfiles env (d\<lparr>dk_records := r\<rparr>) dirs = recordProfiles env d dirs"
    "recordProfiles env (d\<lparr>dk_app := a\<rparr>) dirs = recordProfiles env d dirs"
  by (induction dirs) auto

lemma saveState_success:
  assumes "saveState env io U s cache d = (cache', d', None)"
  obtains profiles records where
    "validateState env s = None" "recordProfiles env d (st_DataDirectories s) = (profiles, False)"
    "save_profiles io U s profiles (cache, dk_records d) = ((cache', records), None)"
    "d' = d\<lparr>dk_records := records, dk_app := Some (persistState s)\<rparr>"
  using assms by (auto simp: saveState_def Let_def split: option.splits if_splits prod.splits)


text \<open>A record file that could not be read is never overwritten, whether the save succeeds or not.\<close>

lemma unreadable_never_overwritten:
  "saveState env io U s cache d = (cache', d', e) \<Longrightarrow> path \<in> U \<Longrightarrow> dk_records d' path = dk_records d path"
  by (auto simp: saveState_def Let_def split: option.splits if_splits prod.splits dest: save_profiles_keeps)

subsection \<open>A valid state is saved\<close>

lemma save_profiles_succeeds: "(\<And>path. \<not> io_record_fails io path) \<Longrightarrow> snd (save_profiles io U s ps st) = None"
proof (induction ps arbitrary: st)
  case (Cons p ps)
  have "snd (writeProfileRecord io U path v h st) = None" for path v h st
    using Cons.prems by (simp add: writeProfileRecord_def split: prod.splits)
  then have succeeds: "writeProfileRecord io U path v h st = (fst (writeProfileRecord io U path v h st), None)" for path v h st
    by (metis prod.collapse)
  show ?case
    by (simp add: Let_def, subst succeeds, simp, subst succeeds, simp add: Cons)
qed simp

text \<open>The part of a valid state that goes to the application file passes the store's own check.\<close>

lemma valid_app_part: "validateState env s = None \<Longrightarrow> validateAppState env (persistState s) = None"
proof -
  assume valid: "validateState env s = None"
  have "case st_VersionRecovery s of None \<Rightarrow> True | Some r \<Rightarrow> vr_SchemaVersion r = 1 \<and> (\<forall>p. vr_Pending r = Some p \<longrightarrow> 0 \<le> ro_ResumeCount p)"
    using valid by (cases "st_VersionRecovery s") (auto simp: validateState_def valid_recovery_iff)
  with valid show ?thesis
    by (auto simp: validateAppState_def validateState_def persistState_def validate_catalogues_def split: option.splits)
qed

text \<open>A state that passes the validation is saved whenever the profile directories can be listed and no
  write fails: no check after the validation refuses it, and the application file then holds it.\<close>

theorem valid_state_is_saved:
  assumes "validateState env s = None" "\<not> io_cancelled io" "\<not> io_store_fails io" "\<forall>path. \<not> io_record_fails io path"
    and "\<not> snd (recordProfiles env d (st_DataDirectories s))"
  shows "\<exists>cache' d'. saveState env io U s cache d = (cache', d', None) \<and> dk_app d' = Some (persistState s)"
proof -
  obtain profiles where profiles: "recordProfiles env d (st_DataDirectories s) = (profiles, False)"
    using assms(5) by (cases "recordProfiles env d (st_DataDirectories s)") auto
  obtain cache' records where "save_profiles io U s profiles (cache, dk_records d) = ((cache', records), None)"
    using save_profiles_succeeds [of io U s profiles "(cache, dk_records d)"] assms(4) by (metis prod.collapse)
  with profiles show ?thesis
    using assms(1,2,3) valid_app_part [OF assms(1)] by (simp add: saveState_def)
qed

end
