(* ===== verification/Manager_Ops.thy ===== *)
theory Manager_Ops
  imports Manager_Records
begin

text \<open>
  \<open>internal/dshmanager/manager.go\<close> (and \<open>DeleteProfile\<close> of \<open>profile_operations.go\<close>): the selection of a
  run context and the catalogues of runtimes, Node installations and data directories.  An operation
  holds the operation gate from its first check to its return, so it is one step on the manager and
  the disk; it validates and saves the state it wants before it changes the manager.  The operations
  that do not take the gate (\<open>RecordSwitchAttempt\<close>, \<open>ClearSwitchAttempt\<close>) are split where another
  operation can come between.  Adapters and file checks are functions in \<open>launch_env\<close>.
\<close>

subsection \<open>State\<close>

record manager =
  mg_DataDirectories :: "data_directory list"
  mg_Runtimes :: "runtime_info list"
  mg_Nodes :: "node_installation list"
  mg_configured :: "run_context option"
  mg_current :: "run_context option"
  mg_knownGood :: "run_context option"
  mg_versionRecovery :: "version_recovery option"
  mg_verifiedPoint :: "stored_point option"
  mg_restoreSaveError :: string
  mg_latestNode :: "node_release option"
  mg_dshReleases :: "dsh_release list"
  mg_pluginProvenance :: "plugin_provenance list"
  mg_lastSwitchAttempt :: "switch_attempt option"
  mg_switching :: bool
  mg_recordCache :: record_cache
  mg_unreadableRecords :: "record_path set"

type_synonym world = "manager \<times> disk"

definition stateLocked :: "manager \<Rightarrow> mgr_state" where
  "stateLocked m =
    \<lparr>st_VersionRecovery = Some (cloneVersionRecovery (mg_versionRecovery m)), st_LastSwitchAttempt = mg_lastSwitchAttempt m,
     st_DataDirectories = mg_DataDirectories m, st_Runtimes = mg_Runtimes m, st_Nodes = mg_Nodes m,
     st_LatestNode = mg_latestNode m, st_DSHReleases = mg_dshReleases m, st_PluginProvenance = mg_pluginProvenance m,
     st_Configured = mg_configured m\<rparr>"

text \<open>The end of every operation: the wanted state is saved, and only then the manager changes.\<close>

definition save_then ::
    "mgr_env \<Rightarrow> save_io \<Rightarrow> mgr_state \<Rightarrow> (manager \<Rightarrow> manager) \<Rightarrow> world \<Rightarrow> world \<times> mgr_error option" where
  "save_then env io s upd w =
    (case saveState env io (mg_unreadableRecords (fst w)) s (mg_recordCache (fst w)) (snd w) of
       (cache, d, None) \<Rightarrow> ((upd ((fst w)\<lparr>mg_recordCache := cache\<rparr>), d), None)
     | (cache, d, Some e) \<Rightarrow> (((fst w)\<lparr>mg_recordCache := cache\<rparr>, d), Some e))"

definition replace_by :: "('a \<Rightarrow> 'k) \<Rightarrow> 'a \<Rightarrow> 'a list \<Rightarrow> 'a list" where
  "replace_by key x xs =
    (if \<exists>y \<in> set xs. key y = key x
     then takeWhile (\<lambda>y. key y \<noteq> key x) xs @ x # tl (dropWhile (\<lambda>y. key y \<noteq> key x) xs)
     else xs @ [x])"

definition remove_first :: "('a \<Rightarrow> bool) \<Rightarrow> 'a list \<Rightarrow> 'a list" where
  "remove_first P xs = takeWhile (\<lambda>y. \<not> P y) xs @ tl (dropWhile (\<lambda>y. \<not> P y) xs)"

subsection \<open>Resolving a launch\<close>

record resolved_node =
  rn_Selection :: node_selection
  rn_Version :: string
  rn_NodePath :: string
  rn_NPMPath :: string
  rn_PNPMPath :: string
  rn_ChildEnvironment :: "string \<rightharpoonup> string"

record resolved_launch =
  rl_VersionUninitialized :: bool
  rl_VersionSeed :: "stored_point option"
  rl_VersionError :: string
  rl_Target :: run_context
  rl_Runtime :: runtime_info
  rl_Node :: resolved_node
  rl_DataDirectory :: data_directory

record launch_env =
  le_resolver :: "(node_selection \<Rightarrow> node_installation list \<Rightarrow> mgr_error + resolved_node) option"
  le_present :: "string \<Rightarrow> bool"
  le_isDir :: "string \<Rightarrow> bool"
  le_isPlainDir :: "string \<Rightarrow> bool"
  le_installation :: "runtime_info \<Rightarrow> bool"
  le_verify :: "runtime_info \<Rightarrow> (string \<rightharpoonup> string) \<Rightarrow> mgr_error + string"
  le_compatible :: "string \<Rightarrow> string \<Rightarrow> mgr_error option"
  le_verifyProfile :: "runtime_info \<Rightarrow> data_directory \<Rightarrow> profile_ref \<Rightarrow> mgr_error option"
  le_builtIn :: "string list"
  le_join :: "string list \<Rightarrow> string"
  le_dir :: "string \<Rightarrow> string"
  le_PATH :: string
  le_ListSeparator :: string

definition AppProfileName :: string where "AppProfileName = ''dsh-work''"

definition isAppProfile :: "data_directory \<Rightarrow> string \<Rightarrow> bool" where
  "isAppProfile d name \<longleftrightarrow> dd_Ownership d = OwnershipDSHWork \<and> name = AppProfileName"

definition isBuiltInProfile :: "launch_env \<Rightarrow> string \<Rightarrow> bool" where
  "isBuiltInProfile le name \<longleftrightarrow> name \<in> set (le_builtIn le)"

definition profilePath :: "launch_env \<Rightarrow> data_directory \<Rightarrow> string \<Rightarrow> string" where
  "profilePath le d name = le_join le [dd_Path d, ''profiles'', name]"

definition profileExists :: "mgr_env \<Rightarrow> launch_env \<Rightarrow> data_directory \<Rightarrow> string \<Rightarrow> bool" where
  "profileExists env le d name \<longleftrightarrow> isBuiltInProfile le name \<or>
     dd_Ownership d = OwnershipDSHWork \<and> me_equalFold env name AppProfileName \<or> le_isDir le (profilePath le d name)"

definition findDataDirectory :: "data_directory list \<Rightarrow> string \<Rightarrow> data_directory option" where
  "findDataDirectory ds ident = find (\<lambda>d. dd_ID d = ident) ds"

definition findRuntime :: "runtime_info list \<Rightarrow> string \<Rightarrow> runtime_info option" where
  "findRuntime rs ident = find (\<lambda>r. ri_ID r = ident) rs"

definition childEnvironmentForNode :: "launch_env \<Rightarrow> string \<Rightarrow> (string \<rightharpoonup> string)" where
  "childEnvironmentForNode le nodePath =
    (if trim_space nodePath = [] then Map.empty
     else if le_PATH le = [] then [''PATH'' \<mapsto> le_dir le nodePath]
     else [''PATH'' \<mapsto> le_dir le nodePath @ le_ListSeparator le @ le_PATH le])"

definition resolveNode :: "launch_env \<Rightarrow> node_selection \<Rightarrow> node_installation list \<Rightarrow> mgr_error + resolved_node" where
  "resolveNode le selection nodes =
    (case le_resolver le of
       Some resolve \<Rightarrow> (case resolve selection nodes of Inl e \<Rightarrow> Inl e | Inr n \<Rightarrow> Inr (n\<lparr>rn_Selection := selection\<rparr>))
     | None \<Rightarrow>
        if ns_Kind selection = ''system''
        then Inr \<lparr>rn_Selection = selection, rn_Version = [], rn_NodePath = [], rn_NPMPath = [], rn_PNPMPath = [], rn_ChildEnvironment = Map.empty\<rparr>
        else case find (\<lambda>n. ni_ID n = ns_InstallationID selection) nodes of
            None \<Rightarrow> Inl RuntimeInstallUnavailable
          | Some n \<Rightarrow>
              if \<not> le_present le (ni_NodePath n) \<or> \<not> le_present le (ni_NPMPath n) then Inl RuntimeInstallUnavailable
              else Inr \<lparr>rn_Selection = selection, rn_Version = ni_Version n, rn_NodePath = ni_NodePath n, rn_NPMPath = ni_NPMPath n,
                        rn_PNPMPath = ni_PNPMPath n, rn_ChildEnvironment = childEnvironmentForNode le (ni_NodePath n)\<rparr>)"

definition resolveDataDirectoryProfile ::
    "mgr_env \<Rightarrow> launch_env \<Rightarrow> data_directory list \<Rightarrow> profile_ref \<Rightarrow> bool \<Rightarrow> mgr_error + data_directory" where
  "resolveDataDirectoryProfile env le ds ref allowCreate =
    (case validateProfileRef env ref of Some e \<Rightarrow> Inl e
     | None \<Rightarrow>
        (case findDataDirectory ds (pr_DataDirectoryID ref) of
           None \<Rightarrow> Inl ProfileNotFound
         | Some d \<Rightarrow>
             if dd_Ownership d = OwnershipUser \<and> \<not> le_isDir le (dd_Path d) then Inl ProfileNotFound
             else if \<not> allowCreate \<and> \<not> profileExists env le d (pr_Name ref) \<and> \<not> isBuiltInProfile le (pr_Name ref) then Inl ProfileNotFound
             else Inr d))"

subsection \<open>Catalogues\<close>

definition validateRuntime :: "runtime_info \<Rightarrow> mgr_error option" where
  "validateRuntime r =
    (if ri_ID r = [] \<or> ri_Version r = [] \<or> ri_Path r = [] then Some ManagerStateInvalid
     else if ri_Source r \<notin> {[], ''managed'', ''development-fixture'', ''system''} then Some ManagerStateInvalid
     else if \<not> toolchain_valid (ri_Toolchain r) then Some ManagerStateInvalid
     else fail_if (\<not> artifact_source_valid (ri_InstallSource r)) ManagerStateInvalid)"

definition normalizeRuntime :: "mgr_env \<Rightarrow> runtime_info \<Rightarrow> mgr_error + runtime_info" where
  "normalizeRuntime env r =
    (let r = r\<lparr>ri_Toolchain := (if ri_Toolchain r = [] then ''none'' else ri_Toolchain r),
               ri_InstallSource := (if ri_InstallSource r = [] then ''none'' else ri_InstallSource r)\<rparr>
     in case validateRuntime r of Some e \<Rightarrow> Inl e
      | None \<Rightarrow>
         (case me_abs env (ri_Path r) of None \<Rightarrow> Inl ManagerStateInvalid
          | Some path \<Rightarrow>
             (let r = r\<lparr>ri_Path := me_clean env path\<rparr>;
                  tool = (if ri_ToolchainPath r = [] then Some [] else map_option (me_clean env) (me_abs env (ri_ToolchainPath r)))
              in case tool of None \<Rightarrow> Inl ManagerStateInvalid
               | Some t \<Rightarrow>
                  let r = r\<lparr>ri_ToolchainPath := t, ri_Source := (if ri_Source r = [] then ''managed'' else ri_Source r)\<rparr>
                  in Inr (if ri_Source r = ''managed'' then r\<lparr>ri_Removable := True\<rparr> else r))))"

definition normalizeDataDirectory :: "mgr_env \<Rightarrow> launch_env \<Rightarrow> data_directory \<Rightarrow> mgr_error + data_directory" where
  "normalizeDataDirectory env le d =
    (case validateDataDirectory d of Some e \<Rightarrow> Inl e
     | None \<Rightarrow>
        (case me_abs env (dd_Path d) of None \<Rightarrow> Inl ManagerStateInvalid
         | Some path \<Rightarrow>
            let d = d\<lparr>dd_Path := me_clean env path, dd_Ownership := (if dd_Ownership d = [] then OwnershipUser else dd_Ownership d)\<rparr>
            in if dd_Ownership d = OwnershipUser \<and> \<not> le_isDir le (dd_Path d) then Inl ProfileNotFound else Inr d))"

text \<open>An operation that takes the gate and is refused while the run context is switching.\<close>

definition guarded ::
    "save_io \<Rightarrow> (world \<Rightarrow> world \<times> mgr_error option) \<Rightarrow> world \<Rightarrow> world \<times> mgr_error option" where
  "guarded io f w =
    (if io_cancelled io then (w, Some Cancelled)
     else if mg_switching (fst w) then (w, Some ManagerOperationBusy) else f w)"

definition RefreshDSHReleases ::
    "mgr_env \<Rightarrow> save_io \<Rightarrow> (mgr_error + dsh_release list) option \<Rightarrow> world \<Rightarrow> world \<times> mgr_error option" where
  "RefreshDSHReleases env io catalog w =
    (case catalog of None \<Rightarrow> (w, Some RuntimeInstallUnavailable)
     | Some (Inl e) \<Rightarrow> (w, Some e)
     | Some (Inr releases) \<Rightarrow>
        (case first_error validateDSHRelease releases of Some e \<Rightarrow> (w, Some e)
         | None \<Rightarrow>
            if io_cancelled io then (w, Some Cancelled)
            else save_then env io ((stateLocked (fst w))\<lparr>st_DSHReleases := releases\<rparr>) (\<lambda>m. m\<lparr>mg_dshReleases := releases\<rparr>) w))"

definition RefreshLatestNode ::
    "mgr_env \<Rightarrow> save_io \<Rightarrow> (mgr_error + node_release) option \<Rightarrow> world \<Rightarrow> world \<times> mgr_error option" where
  "RefreshLatestNode env io catalog = guarded io (\<lambda>w.
    (case catalog of None \<Rightarrow> (w, Some RuntimeInstallUnavailable)
     | Some (Inl e) \<Rightarrow> (w, Some e)
     | Some (Inr latest) \<Rightarrow>
        (case validateNodeRelease latest of Some e \<Rightarrow> (w, Some e)
         | None \<Rightarrow> save_then env io ((stateLocked (fst w))\<lparr>st_LatestNode := Some latest\<rparr>) (\<lambda>m. m\<lparr>mg_latestNode := Some latest\<rparr>) w)))"

text \<open>
  \<open>InstallLatestNode\<close>: the installed candidate is removed again when a later step fails, unless it was
  in the catalogue before.  The last component tells whether the candidate was handed to \<open>Remove\<close>.
\<close>

definition InstallLatestNode ::
    "mgr_env \<Rightarrow> save_io \<Rightarrow> (mgr_error + node_release) option \<Rightarrow> (node_release \<Rightarrow> mgr_error + node_installation) option \<Rightarrow> bool \<Rightarrow> bool \<Rightarrow>
     world \<Rightarrow> (world \<times> mgr_error option) \<times> bool" where
  "InstallLatestNode env io catalog installer cancelled removeFails w =
    (if io_cancelled io then ((w, Some Cancelled), False)
     else if mg_switching (fst w) then ((w, Some ManagerOperationBusy), False)
     else case (catalog, installer) of
       (None, _) \<Rightarrow> ((w, Some RuntimeInstallUnavailable), False)
     | (_, None) \<Rightarrow> ((w, Some RuntimeInstallUnavailable), False)
     | (Some (Inl e), _) \<Rightarrow> ((w, Some e), False)
     | (Some (Inr latest), Some install) \<Rightarrow>
        (case validateNodeRelease latest of Some e \<Rightarrow> ((w, Some e), False)
         | None \<Rightarrow>
          (case install latest of Inl e \<Rightarrow> ((w, Some e), False)
           | Inr installed \<Rightarrow>
              let wasKnown = (\<exists>n \<in> set (mg_Nodes (fst w)). ni_ID n = ni_ID installed);
                  cleanup = (\<lambda>w e. if wasKnown then ((w, Some e), False)
                       else ((w, Some (if removeFails then RuntimeInstallFailed else e)), True))
              in if cancelled then cleanup w Cancelled
                 else (case validateNodeInstallation installed of Some e \<Rightarrow> cleanup w e
                  | None \<Rightarrow>
                     if ni_Version installed \<noteq> nr_Version latest \<or> ni_Platform installed \<noteq> nr_Platform latest \<or>
                        ni_Architecture installed \<noteq> nr_Architecture latest \<or> \<not> me_equalFold env (ni_SHA256 installed) (nr_SHA256 latest)
                     then cleanup w RuntimeInstallFailed
                     else let nodes = replace_by ni_ID installed (mg_Nodes (fst w))
                       in case save_then env io ((stateLocked (fst w))\<lparr>st_Nodes := nodes, st_LatestNode := Some latest\<rparr>)
                                (\<lambda>m. m\<lparr>mg_Nodes := nodes, mg_latestNode := Some latest\<rparr>) w of
                            (w, None) \<Rightarrow> ((w, None), False)
                          | (w, Some e) \<Rightarrow> cleanup w e))))"

definition selects_node :: "string \<Rightarrow> run_context option \<Rightarrow> bool" where
  "selects_node ident c = (case c of None \<Rightarrow> False
     | Some t \<Rightarrow> ns_Kind (rc_Node t) = ''managed'' \<and> ns_InstallationID (rc_Node t) = ident)"

definition RemoveNode :: "mgr_env \<Rightarrow> save_io \<Rightarrow> bool \<Rightarrow> bool \<Rightarrow> string \<Rightarrow> world \<Rightarrow> world \<times> mgr_error option" where
  "RemoveNode env io hasInstaller removeFails ident = guarded io (\<lambda>w.
    (let m = fst w
     in if list_ex (selects_node ident) [mg_configured m, mg_current m, mg_knownGood m] then (w, Some RuntimeInUse)
        else (case find (\<lambda>n. ni_ID n = ident) (mg_Nodes m) of
          None \<Rightarrow> (w, Some DSHRuntimeNotFound)
        | Some node \<Rightarrow>
            if ni_Ownership node \<noteq> ''managed'' \<or> \<not> ni_Removable node then (w, Some RuntimeInUse)
            else if \<not> hasInstaller then (w, Some RuntimeInstallUnavailable)
            else if removeFails then (w, Some RuntimeInstallFailed)
            else let nodes = remove_first (\<lambda>n. ni_ID n = ident) (mg_Nodes m)
              in save_then env io ((stateLocked m)\<lparr>st_Nodes := nodes\<rparr>) (\<lambda>m. m\<lparr>mg_Nodes := nodes\<rparr>) w)))"

definition registerRuntime :: "mgr_env \<Rightarrow> save_io \<Rightarrow> runtime_info \<Rightarrow> world \<Rightarrow> world \<times> mgr_error option" where
  "registerRuntime env io r w =
    (if io_cancelled io then (w, Some Cancelled)
     else case normalizeRuntime env r of Inl e \<Rightarrow> (w, Some e)
      | Inr r \<Rightarrow> let runtimes = replace_by ri_ID r (mg_Runtimes (fst w))
          in save_then env io ((stateLocked (fst w))\<lparr>st_Runtimes := runtimes\<rparr>) (\<lambda>m. m\<lparr>mg_Runtimes := runtimes\<rparr>) w)"

definition RegisterRuntime :: "mgr_env \<Rightarrow> save_io \<Rightarrow> runtime_info \<Rightarrow> world \<Rightarrow> world \<times> mgr_error option" where
  "RegisterRuntime env io r = guarded io (registerRuntime env io r)"

definition observeRuntimeVersion ::
    "mgr_env \<Rightarrow> save_io \<Rightarrow> runtime_info \<Rightarrow> string \<Rightarrow> world \<Rightarrow> world \<times> (mgr_error + runtime_info)" where
  "observeRuntimeVersion env io r observed w =
    (if observed = [] \<or> observed = ri_Version r then (w, Inr r)
     else let r = r\<lparr>ri_Version := observed\<rparr>
       in case registerRuntime env io r w of (w, Some e) \<Rightarrow> (w, Inl e) | (w, None) \<Rightarrow> (w, Inr r))"

definition selects_runtime :: "string \<Rightarrow> run_context option \<Rightarrow> bool" where
  "selects_runtime ident c = (case c of None \<Rightarrow> False | Some t \<Rightarrow> rc_RuntimeID t = ident)"

definition RemoveRuntime :: "mgr_env \<Rightarrow> save_io \<Rightarrow> bool \<Rightarrow> bool \<Rightarrow> string \<Rightarrow> world \<Rightarrow> world \<times> mgr_error option" where
  "RemoveRuntime env io hasRemover removeFails ident = guarded io (\<lambda>w.
    (let m = fst w
     in case findRuntime (mg_Runtimes m) ident of
          None \<Rightarrow> (w, Some DSHRuntimeNotFound)
        | Some r \<Rightarrow>
            if list_ex (selects_runtime ident) [mg_configured m, mg_current m, mg_knownGood m] then (w, Some RuntimeInUse)
            else if \<not> ri_Removable r then (w, Some RuntimeInUse)
            else if ri_Source r = ''managed'' \<and> (\<not> hasRemover \<or> removeFails) then (w, Some RuntimeInstallFailed)
            else let runtimes = remove_first (\<lambda>r. ri_ID r = ident) (mg_Runtimes m)
              in save_then env io ((stateLocked m)\<lparr>st_Runtimes := runtimes\<rparr>) (\<lambda>m. m\<lparr>mg_Runtimes := runtimes\<rparr>) w))"

definition RegisterDataDirectory :: "mgr_env \<Rightarrow> launch_env \<Rightarrow> save_io \<Rightarrow> data_directory \<Rightarrow> world \<Rightarrow> world \<times> mgr_error option" where
  "RegisterDataDirectory env le io d = guarded io (\<lambda>w.
    (case normalizeDataDirectory env le d of Inl e \<Rightarrow> (w, Some e)
     | Inr d \<Rightarrow> let ds = replace_by dd_ID d (mg_DataDirectories (fst w))
         in save_then env io ((stateLocked (fst w))\<lparr>st_DataDirectories := ds\<rparr>) (\<lambda>m. m\<lparr>mg_DataDirectories := ds\<rparr>) w))"

definition selects_directory :: "string \<Rightarrow> run_context option \<Rightarrow> bool" where
  "selects_directory ident c = (case c of None \<Rightarrow> False | Some t \<Rightarrow> pr_DataDirectoryID (rc_Profile t) = ident)"

definition RemoveDataDirectory :: "mgr_env \<Rightarrow> save_io \<Rightarrow> string \<Rightarrow> world \<Rightarrow> world \<times> mgr_error option" where
  "RemoveDataDirectory env io ident = guarded io (\<lambda>w.
    (let m = fst w
     in case findDataDirectory (mg_DataDirectories m) ident of
          None \<Rightarrow> (w, Some ProfileNotFound)
        | Some d \<Rightarrow>
            if list_ex (selects_directory ident) [mg_configured m, mg_current m, mg_knownGood m] then (w, Some ProfileInUse)
            else if dd_Ownership d = OwnershipDSHWork then (w, Some ProfileInUse)
            else let ds = remove_first (\<lambda>d. dd_ID d = ident) (mg_DataDirectories m)
              in save_then env io ((stateLocked m)\<lparr>st_DataDirectories := ds\<rparr>) (\<lambda>m. m\<lparr>mg_DataDirectories := ds\<rparr>) w))"

subsection \<open>Selecting a run context\<close>

definition ResolveLaunch ::
    "mgr_env \<Rightarrow> launch_env \<Rightarrow> save_io \<Rightarrow> run_context \<Rightarrow> world \<Rightarrow> world \<times> (mgr_error + resolved_launch)" where
  "ResolveLaunch env le io request w =
    (if io_cancelled io then (w, Inl Cancelled)
     else case normalizeNodeSelection (rc_Node request) of None \<Rightarrow> (w, Inl ManagerStateInvalid)
      | Some selection \<Rightarrow>
       (case resolveNode le selection (mg_Nodes (fst w)) of Inl e \<Rightarrow> (w, Inl e)
        | Inr node \<Rightarrow>
          if rc_RuntimeID request = [] then (w, Inl DSHRuntimeNotFound)
          else case findRuntime (mg_Runtimes (fst w)) (rc_RuntimeID request) of None \<Rightarrow> (w, Inl DSHRuntimeNotFound)
           | Some r \<Rightarrow>
              if \<not> le_installation le r then (w, Inl DSHRuntimeNotFound)
              else case le_verify le r (rn_ChildEnvironment node) of Inl e \<Rightarrow> (w, Inl e)
               | Inr observed \<Rightarrow>
                  let ds = mg_DataDirectories (fst w)
                  in case observeRuntimeVersion env io r observed w of (w, Inl e) \<Rightarrow> (w, Inl e)
                   | (w, Inr r) \<Rightarrow>
                      (case le_compatible le (ri_Version r) (rn_Version node) of Some e \<Rightarrow> (w, Inl e)
                       | None \<Rightarrow>
                          let r = r\<lparr>ri_Installed := True\<rparr>
                          in case resolveDataDirectoryProfile env le ds (rc_Profile request) False of Inl e \<Rightarrow> (w, Inl e)
                           | Inr d \<Rightarrow>
                              (case le_verifyProfile le r d (rc_Profile request) of Some e \<Rightarrow> (w, Inl e)
                               | None \<Rightarrow> (w, Inr \<lparr>rl_VersionUninitialized = False, rl_VersionSeed = None, rl_VersionError = [],
                                   rl_Target = \<lparr>rc_RuntimeID = rc_RuntimeID request, rc_Node = selection, rc_Profile = rc_Profile request\<rparr>,
                                   rl_Runtime = r, rl_Node = node, rl_DataDirectory = d\<rparr>)))))"

definition SetConfigured :: "mgr_env \<Rightarrow> launch_env \<Rightarrow> save_io \<Rightarrow> run_context \<Rightarrow> world \<Rightarrow> world \<times> mgr_error option" where
  "SetConfigured env le io target w =
    (if io_cancelled io then (w, Some Cancelled)
     else if mg_switching (fst w) \<or> mg_current (fst w) \<noteq> None then (w, Some ManagerOperationBusy)
     else case ResolveLaunch env le io target w of (w, Inl e) \<Rightarrow> (w, Some e)
      | (w, Inr resolved) \<Rightarrow>
         save_then env io ((stateLocked (fst w))\<lparr>st_Configured := Some (rl_Target resolved)\<rparr>)
           (\<lambda>m. m\<lparr>mg_configured := Some (rl_Target resolved)\<rparr>) w)"

definition ClearCurrent :: "save_io \<Rightarrow> world \<Rightarrow> world \<times> mgr_error option" where
  "ClearCurrent io w =
    (if io_cancelled io then (w, Some Cancelled) else (((fst w)\<lparr>mg_current := None\<rparr>, snd w), None))"

text \<open>
  \<open>BeginRunContextSwitch\<close> sets the flag first and then waits for the gate; when the wait is cancelled
  (second argument) the flag is cleared again.
\<close>

definition BeginRunContextSwitch :: "save_io \<Rightarrow> bool \<Rightarrow> world \<Rightarrow> world \<times> mgr_error option" where
  "BeginRunContextSwitch io waitCancelled w =
    (if io_cancelled io then (w, Some Cancelled)
     else if mg_switching (fst w) then (w, Some ManagerOperationBusy)
     else if waitCancelled then (((fst w)\<lparr>mg_switching := False\<rparr>, snd w), Some Cancelled)
     else (((fst w)\<lparr>mg_switching := True\<rparr>, snd w), None))"

definition EndRunContextSwitch :: "save_io \<Rightarrow> world \<Rightarrow> world \<times> mgr_error option" where
  "EndRunContextSwitch io w =
    (if io_cancelled io then (w, Some Cancelled) else (((fst w)\<lparr>mg_switching := False\<rparr>, snd w), None))"

text \<open>\<open>RecordSwitchAttempt\<close> without the gate: what it reads first, and what it does with it later.\<close>

definition attempt_state :: "switch_attempt \<Rightarrow> bool \<Rightarrow> manager \<Rightarrow> mgr_error + switch_attempt \<times> mgr_state" where
  "attempt_state attempt configureTarget m =
    (case normalizeNodeSelection (rc_Node (sa_Target attempt)) of None \<Rightarrow> Inl ManagerStateInvalid
     | Some selection \<Rightarrow>
        let attempt = attempt\<lparr>sa_Target := (sa_Target attempt)\<lparr>rc_Node := selection\<rparr>\<rparr>; s = stateLocked m
        in if configureTarget \<and> mg_current m \<noteq> None then Inl ManagerOperationBusy
           else Inr (attempt, (if configureTarget then s\<lparr>st_Configured := Some (sa_Target attempt)\<rparr> else s)
             \<lparr>st_LastSwitchAttempt := Some attempt\<rparr>))"

definition commit_attempt ::
    "mgr_env \<Rightarrow> save_io \<Rightarrow> switch_attempt \<Rightarrow> bool \<Rightarrow> mgr_state \<Rightarrow> world \<Rightarrow> world \<times> mgr_error option" where
  "commit_attempt env io attempt configureTarget s =
    save_then env io s (\<lambda>m. (if configureTarget then m\<lparr>mg_configured := Some (sa_Target attempt)\<rparr> else m)
      \<lparr>mg_lastSwitchAttempt := Some attempt\<rparr>)"

definition RecordSwitchAttempt ::
    "mgr_env \<Rightarrow> save_io \<Rightarrow> switch_attempt \<Rightarrow> bool \<Rightarrow> world \<Rightarrow> world \<times> mgr_error option" where
  "RecordSwitchAttempt env io attempt configureTarget w =
    (if io_cancelled io then (w, Some Cancelled)
     else case attempt_state attempt configureTarget (fst w) of Inl e \<Rightarrow> (w, Some e)
      | Inr (attempt, s) \<Rightarrow> commit_attempt env io attempt configureTarget s w)"

definition ClearSwitchAttempt :: "mgr_env \<Rightarrow> save_io \<Rightarrow> world \<Rightarrow> world \<times> mgr_error option" where
  "ClearSwitchAttempt env io w =
    (if io_cancelled io then (w, Some Cancelled)
     else save_then env io ((stateLocked (fst w))\<lparr>st_LastSwitchAttempt := None\<rparr>) (\<lambda>m. m\<lparr>mg_lastSwitchAttempt := None\<rparr>) w)"

subsection \<open>Profiles\<close>

definition profileRefMatches :: "run_context option \<Rightarrow> profile_ref \<Rightarrow> bool" where
  "profileRefMatches c ref = (case c of None \<Rightarrow> False | Some t \<Rightarrow> rc_Profile t = ref)"

definition drop_profile :: "string \<Rightarrow> string \<Rightarrow> disk \<Rightarrow> disk" where
  "drop_profile path name d =
    d\<lparr>dk_profiles := (dk_profiles d)(path := map_option (filter (\<lambda>n. n \<noteq> name)) (dk_profiles d path)),
      dk_records := (\<lambda>(p, n, k). if p = path \<and> n = name then None else dk_records d (p, n, k))\<rparr>"

definition move_profile :: "string \<Rightarrow> string \<Rightarrow> string \<Rightarrow> disk \<Rightarrow> disk" where
  "move_profile path old new d =
    d\<lparr>dk_profiles := (dk_profiles d)(path := map_option (map (\<lambda>n. if n = old then new else n)) (dk_profiles d path)),
      dk_records := (\<lambda>(p, n, k). if p = path \<and> n = new then dk_records d (p, old, k)
         else if p = path \<and> n = old then None else dk_records d (p, n, k))\<rparr>"

text \<open>
  \<open>DeleteProfile\<close>: \<open>prepared\<close> is the error of preparing the backup folder; \<open>partial\<close> is what is left of
  the profiles and their records when removing the directory fails half way.
\<close>

type_synonym partial_removal = "(string \<Rightarrow> string list option) \<times> (record_path \<rightharpoonup> record_content)"

definition DeleteProfile ::
    "mgr_env \<Rightarrow> launch_env \<Rightarrow> save_io \<Rightarrow> mgr_error option \<Rightarrow> partial_removal option \<Rightarrow> profile_ref \<Rightarrow> world \<Rightarrow>
     world \<times> mgr_error option" where
  "DeleteProfile env le io prepared partial ref = guarded io (\<lambda>w.
    (let m = fst w
     in case validateProfileRef env ref of Some e \<Rightarrow> (w, Some e)
      | None \<Rightarrow>
         (case findDataDirectory (mg_DataDirectories m) (pr_DataDirectoryID ref) of None \<Rightarrow> (w, Some ProfileNotFound)
          | Some d \<Rightarrow>
             if dd_Ownership d = OwnershipUser \<and> \<not> le_isDir le (dd_Path d) then (w, Some ProfileNotFound)
             else if isBuiltInProfile le (pr_Name ref) then (w, Some ProfileInvalid)
             else if profileRefMatches (mg_current m) ref \<or> profileRefMatches (mg_configured m) ref \<or>
                     profileRefMatches (mg_knownGood m) ref \<or>
                     (case mg_lastSwitchAttempt m of None \<Rightarrow> False | Some a \<Rightarrow> rc_Profile (sa_Target a) = ref)
             then (w, Some ProfileInUse)
             else if \<not> le_isPlainDir le (profilePath le d (pr_Name ref)) then (w, Some ProfileNotFound)
             else case prepared of Some e \<Rightarrow> (w, Some e)
              | None \<Rightarrow>
                 (case partial of Some (profiles, records) \<Rightarrow>
                      ((m, (snd w)\<lparr>dk_profiles := profiles, dk_records := records\<rparr>), Some ProfileDeleteFailed)
                  | None \<Rightarrow> ((m, drop_profile (dd_Path d) (pr_Name ref) (snd w)), None)))))"

definition rename_recovery :: "profile_ref \<Rightarrow> profile_ref \<Rightarrow> version_recovery \<Rightarrow> version_recovery" where
  "rename_recovery old new r =
    (let ident = last_of (vr_LastByProfile r) (profilePointKey old)
     in r\<lparr>vr_LastByProfile := (if ident \<noteq> [] then (vr_LastByProfile r)(profilePointKey old := None, profilePointKey new := Some ident)
            else vr_LastByProfile r),
          vr_Points := map (\<lambda>p. if rc_Profile (pt_Target p) = old then own_point new p else p) (vr_Points r)\<rparr>)"

definition rename_context :: "profile_ref \<Rightarrow> string \<Rightarrow> run_context option \<Rightarrow> run_context option" where
  "rename_context old newName c = (case c of None \<Rightarrow> None
     | Some t \<Rightarrow> Some (if rc_Profile t = old then t\<lparr>rc_Profile := old\<lparr>pr_Name := newName\<rparr>\<rparr> else t))"

text \<open>\<open>RenameProfile\<close>: the directory moves first and moves back when the save fails.\<close>

definition RenameProfile ::
    "mgr_env \<Rightarrow> launch_env \<Rightarrow> save_io \<Rightarrow> mgr_error option \<Rightarrow> bool \<Rightarrow> bool \<Rightarrow> profile_ref \<Rightarrow> string \<Rightarrow> world \<Rightarrow> world \<times> mgr_error option" where
  "RenameProfile env le io prepared moveFails backFails ref requested w =
    (let m = fst w; newName = trim_space requested; newRef = ref\<lparr>pr_Name := newName\<rparr>
     in if io_cancelled io then (w, Some Cancelled)
        else case validateProfileRef env ref of Some e \<Rightarrow> (w, Some e)
         | None \<Rightarrow>
          if \<not> validProfileName env newName then (w, Some ProfileInvalid)
          else if newName = pr_Name ref then (w, Some ProfileInvalid)
          else if mg_switching m then (w, Some ManagerOperationBusy)
          else (case findDataDirectory (mg_DataDirectories m) (pr_DataDirectoryID ref) of None \<Rightarrow> (w, Some ProfileNotFound)
           | Some d \<Rightarrow>
              if dd_Ownership d = OwnershipUser \<and> \<not> le_isDir le (dd_Path d) then (w, Some ProfileNotFound)
              else if isBuiltInProfile le (pr_Name ref) then (w, Some ProfileInvalid)
              else if profileRefMatches (mg_current m) ref then (w, Some ProfileInUse)
              else if \<not> le_isDir le (profilePath le d (pr_Name ref)) then (w, Some ProfileNotFound)
              else if profileExists env le d newName then (w, Some ProfileInvalid)
              else case prepared of Some e \<Rightarrow> (w, Some e)
               | None \<Rightarrow>
                  if moveFails then (w, Some ProfileRenameFailed)
                  else
                   let moved = move_profile (dd_Path d) (pr_Name ref) newName (snd w); s = stateLocked m;
                       configured = rename_context ref newName (mg_configured m);
                       recovery = map_option (rename_recovery ref newRef) (st_VersionRecovery s);
                       provenance = map (\<lambda>r. if pp_Profile r = ref then r\<lparr>pp_Profile := newRef\<rparr> else r) (mg_pluginProvenance m);
                       s = s\<lparr>st_Configured := configured, st_VersionRecovery := recovery, st_PluginProvenance := provenance\<rparr>
                   in case save_then env io s (\<lambda>m. m\<lparr>mg_versionRecovery := recovery, mg_pluginProvenance := provenance,
                              mg_configured := configured, mg_knownGood := rename_context ref newName (mg_knownGood m)\<rparr>) (m, moved) of
                        (w, None) \<Rightarrow> (w, None)
                      | ((m, d'), Some e) \<Rightarrow>
                          ((m, if backFails then d' else move_profile (dd_Path d) newName (pr_Name ref) d'), Some e)))"

subsection \<open>Provenance of plugins\<close>

definition range_char :: "char \<Rightarrow> bool" where
  "range_char c \<longleftrightarrow> c \<in> set ''~^<>=*xX.v|+-'' \<or> is_digit c"

definition publicPluginTag :: "string \<Rightarrow> bool" where
  "publicPluginTag v \<longleftrightarrow> v \<noteq> [] \<and> ascii_letter (hd v) \<and>
     list_all (\<lambda>c. ascii_letter c \<or> is_digit c \<or> c = CHR ''_'' \<or> c = CHR ''-'') (tl v)"

definition classifyPluginSource :: "mgr_env \<Rightarrow> string \<Rightarrow> string" where
  "classifyPluginSource env spec =
    (let value = me_lower env (trim_space spec)
     in if value = [] then ''unknown''
        else if list_ex (\<lambda>p. has_prefix value p) [''file:'', ''link:'', ''workspace:'', ''./'', ''../''] \<or> me_isAbs env spec then ''local''
        else if list_ex (\<lambda>p. has_prefix value p) [''git+'', ''git://'', ''github:'', ''gitlab:'', ''bitbucket:''] then ''git''
        else if has_prefix value ''http://'' \<or> has_prefix value ''https://'' then ''url''
        else if has_suffix value ''.tgz'' \<or> has_suffix value ''.tar.gz'' then ''url''
        else if has_prefix value ''registry:'' then ''private-registry''
        else if has_prefix value ''npm:'' \<or> validRuntimeVersion (dropWhile (\<lambda>c. c \<in> set ''~^<>=v'') value) \<or>
                value \<noteq> [] \<and> list_all range_char value \<or> publicPluginTag value then ''public-registry''
        else ''unknown'')"

text \<open>The part before and after the last \<open>@\<close>, when that is not the first character.\<close>

definition last_at :: "string \<Rightarrow> (string \<times> string) option" where
  "last_at v = (case cut_byte CHR ''@'' (rev v) of None \<Rightarrow> None
     | Some (after, before) \<Rightarrow> if before = [] then None else Some (rev before, rev after))"

definition pluginPackageName :: "string \<Rightarrow> string" where
  "pluginPackageName spec = (case last_at (trim_space spec) of None \<Rightarrow> trim_space spec | Some (name, _) \<Rightarrow> name)"

definition classifyRequestedPluginSource :: "mgr_env \<Rightarrow> string \<Rightarrow> string" where
  "classifyRequestedPluginSource env spec =
    (if classifyPluginSource env spec \<noteq> ''unknown'' then classifyPluginSource env spec
     else let value = trim_space spec;
              after = (case last_at value of None \<Rightarrow> ''unknown'' | Some (_, a) \<Rightarrow> classifyPluginSource env a)
       in if after \<noteq> ''unknown'' then after
          else if validPackageName env value then ''public-registry'' else ''unknown'')"

definition boundedPluginSpec :: "mgr_env \<Rightarrow> string \<Rightarrow> string" where
  "boundedPluginSpec env spec =
    (let spec = trim_space spec
     in if classifyRequestedPluginSource env spec = ''public-registry'' \<and> length spec \<le> 256 then spec else [])"

definition recordPluginProvenance ::
    "mgr_env \<Rightarrow> save_io \<Rightarrow> plugin_provenance \<Rightarrow> world \<Rightarrow> world \<times> mgr_error option" where
  "recordPluginProvenance env io r w =
    (let r = r\<lparr>pp_RequestedSpec := (if pp_SourceKind r \<noteq> ''public-registry'' then [] else boundedPluginSpec env (pp_RequestedSpec r)),
               pp_SuccessfulRoute := (if pp_SuccessfulRoute r \<noteq> ''official'' \<and> pp_SuccessfulRoute r \<noteq> ''mirror'' then ''none''
                  else pp_SuccessfulRoute r)\<rparr>;
         records = filter (\<lambda>x. pp_Profile x \<noteq> pp_Profile r \<or> pp_Package x \<noteq> pp_Package r) (mg_pluginProvenance (fst w)) @ [r];
         records = drop (length records - 256) records
     in save_then env io ((stateLocked (fst w))\<lparr>st_PluginProvenance := records\<rparr>) (\<lambda>m. m\<lparr>mg_pluginProvenance := records\<rparr>) w)"

subsection \<open>Sequences of operations\<close>

datatype mgr_op =
    OpRefreshDSHReleases "(mgr_error + dsh_release list) option"
  | OpRefreshLatestNode "(mgr_error + node_release) option"
  | OpInstallLatestNode "(mgr_error + node_release) option" "(node_release \<Rightarrow> mgr_error + node_installation) option" bool bool
  | OpRemoveNode bool bool string
  | OpRegisterRuntime runtime_info
  | OpRemoveRuntime bool bool string
  | OpRegisterDataDirectory data_directory
  | OpRemoveDataDirectory string
  | OpResolveLaunch run_context
  | OpSetConfigured run_context
  | OpClearCurrent
  | OpBeginRunContextSwitch bool
  | OpEndRunContextSwitch
  | OpRecordSwitchAttempt switch_attempt bool
  | OpClearSwitchAttempt
  | OpDeleteProfile "mgr_error option" "partial_removal option" profile_ref
  | OpRenameProfile "mgr_error option" bool bool profile_ref string
  | OpRecordPluginProvenance plugin_provenance

fun mgr_step :: "mgr_env \<Rightarrow> launch_env \<Rightarrow> save_io \<times> mgr_op \<Rightarrow> world \<Rightarrow> world" where
  "mgr_step env le (io, OpRefreshDSHReleases catalog) w = fst (RefreshDSHReleases env io catalog w)"
| "mgr_step env le (io, OpRefreshLatestNode catalog) w = fst (RefreshLatestNode env io catalog w)"
| "mgr_step env le (io, OpInstallLatestNode catalog installer c f) w = fst (fst (InstallLatestNode env io catalog installer c f w))"
| "mgr_step env le (io, OpRemoveNode h f ident) w = fst (RemoveNode env io h f ident w)"
| "mgr_step env le (io, OpRegisterRuntime r) w = fst (RegisterRuntime env io r w)"
| "mgr_step env le (io, OpRemoveRuntime h f ident) w = fst (RemoveRuntime env io h f ident w)"
| "mgr_step env le (io, OpRegisterDataDirectory d) w = fst (RegisterDataDirectory env le io d w)"
| "mgr_step env le (io, OpRemoveDataDirectory ident) w = fst (RemoveDataDirectory env io ident w)"
| "mgr_step env le (io, OpResolveLaunch t) w = fst (ResolveLaunch env le io t w)"
| "mgr_step env le (io, OpSetConfigured t) w = fst (SetConfigured env le io t w)"
| "mgr_step env le (io, OpClearCurrent) w = fst (ClearCurrent io w)"
| "mgr_step env le (io, OpBeginRunContextSwitch c) w = fst (BeginRunContextSwitch io c w)"
| "mgr_step env le (io, OpEndRunContextSwitch) w = fst (EndRunContextSwitch io w)"
| "mgr_step env le (io, OpRecordSwitchAttempt a c) w = fst (RecordSwitchAttempt env io a c w)"
| "mgr_step env le (io, OpClearSwitchAttempt) w = fst (ClearSwitchAttempt env io w)"
| "mgr_step env le (io, OpDeleteProfile e p ref) w = fst (DeleteProfile env le io e p ref w)"
| "mgr_step env le (io, OpRenameProfile e f b ref n) w = fst (RenameProfile env le io e f b ref n w)"
| "mgr_step env le (io, OpRecordPluginProvenance r) w = fst (recordPluginProvenance env io r w)"

subsection \<open>The manager and the disk agree\<close>

definition kept :: "mgr_env \<Rightarrow> world \<Rightarrow> world \<Rightarrow> bool" where
  "kept env start w \<longleftrightarrow> (validateState env (stateLocked (fst start)) = None \<longrightarrow> validateState env (stateLocked (fst w)) = None) \<and>
     (dk_app (snd w) = Some (persistState (stateLocked (fst w))) \<or>
      stateLocked (fst w) = stateLocked (fst start) \<and> dk_app (snd w) = dk_app (snd start))"

lemma stateLocked_cache [simp]: "stateLocked (m\<lparr>mg_recordCache := c\<rparr>) = stateLocked m"
  by (simp add: stateLocked_def)

lemma kept_refl: "kept env w w"
  by (simp add: kept_def)

lemma kept_same: "kept env start w \<Longrightarrow> stateLocked m = stateLocked (fst w) \<Longrightarrow> dk_app d = dk_app (snd w) \<Longrightarrow> kept env start (m, d)"
  by (simp add: kept_def)

lemma saveState_failure: "saveState env io U s cache d = (cache', d', Some e) \<Longrightarrow> dk_app d' = dk_app d"
  by (auto simp: saveState_def Let_def split: option.splits if_splits prod.splits)

text \<open>An operation that saves exactly the state it then has keeps the agreement.\<close>

lemma save_then_kept:
  assumes "kept env start w" "\<And>c. stateLocked (upd ((fst w)\<lparr>mg_recordCache := c\<rparr>)) = s"
  shows "kept env start (fst (save_then env io s upd w))"
proof -
  obtain c d e where save: "saveState env io (mg_unreadableRecords (fst w)) s (mg_recordCache (fst w)) (snd w) = (c, d, e)"
    by (metis prod.exhaust)
  show ?thesis
  proof (cases e)
    case None
    have "validateState env s = None \<and> dk_app d = Some (persistState s)"
      by (rule saveState_success [OF save [unfolded None]]) simp
    then show ?thesis using assms(2) [of c] save None by (simp add: save_then_def kept_def)
  next
    case (Some x)
    then show ?thesis
      using saveState_failure [OF save [unfolded Some]] assms(1) save by (simp add: save_then_def kept_def)
  qed
qed

lemma guarded_kept:
  "kept env start w \<Longrightarrow> (kept env start w \<Longrightarrow> kept env start (fst (f w))) \<Longrightarrow> kept env start (fst (guarded io f w))"
  by (simp add: guarded_def)

lemma registerRuntime_kept: "kept env start w \<Longrightarrow> kept env start (fst (registerRuntime env io r w))"
  by (auto simp: registerRuntime_def Let_def stateLocked_def split: sum.splits intro!: save_then_kept)

lemma observeRuntimeVersion_kept:
  assumes "kept env start w"
  shows "kept env start (fst (observeRuntimeVersion env io r v w))"
  using registerRuntime_kept [OF assms, of io "r\<lparr>ri_Version := v\<rparr>"] assms
  by (cases "registerRuntime env io (r\<lparr>ri_Version := v\<rparr>) w") (auto simp: observeRuntimeVersion_def Let_def split: option.splits)

lemma ResolveLaunch_kept:
  assumes "kept env start w"
  shows "kept env start (fst (ResolveLaunch env le io t w))"
proof -
  have observe: "kept env start w'" if "observeRuntimeVersion env io r v w = (w', x)" for r v w' x
    using observeRuntimeVersion_kept [OF assms, of io r v] that by simp
  show ?thesis
    using assms by (auto simp: ResolveLaunch_def Let_def split: option.splits sum.splits prod.splits dest: observe)
qed

lemma SetConfigured_kept:
  assumes "kept env start w"
  shows "kept env start (fst (SetConfigured env le io t w))"
proof -
  obtain w' x where resolved: "ResolveLaunch env le io t w = (w', x)" by (metis prod.exhaust)
  then have "kept env start w'" using ResolveLaunch_kept [OF assms, of le io t] by simp
  with assms show ?thesis
    by (auto simp: SetConfigured_def resolved stateLocked_def split: sum.splits intro!: save_then_kept)
qed

lemma RecordSwitchAttempt_kept: "kept env start w \<Longrightarrow> kept env start (fst (RecordSwitchAttempt env io a c w))"
  by (auto simp: RecordSwitchAttempt_def attempt_state_def commit_attempt_def Let_def stateLocked_def
      split: option.splits if_splits intro!: save_then_kept)

lemma InstallLatestNode_kept:
  assumes "kept env start w"
  shows "kept env start (fst (fst (InstallLatestNode env io catalog installer c f w)))"
proof -
  have save: "kept env start w'"
    if "save_then env io ((stateLocked (fst w))\<lparr>st_Nodes := nodes, st_LatestNode := Some latest\<rparr>)
      (\<lambda>m. m\<lparr>mg_Nodes := nodes, mg_latestNode := Some latest\<rparr>) w = (w', e)" for nodes latest w' e
    using save_then_kept [OF assms, of "\<lambda>m. m\<lparr>mg_Nodes := nodes, mg_latestNode := Some latest\<rparr>"
        "(stateLocked (fst w))\<lparr>st_Nodes := nodes, st_LatestNode := Some latest\<rparr>" io] that
    by (simp add: stateLocked_def)
  show ?thesis
    using assms by (auto simp: InstallLatestNode_def Let_def split: option.splits sum.splits prod.splits dest: save)
qed

lemma RenameProfile_kept:
  assumes "kept env start w"
  shows "kept env start (fst (RenameProfile env le io e f b ref n w))"
proof -
  let ?n = "trim_space n"
  let ?s = "(stateLocked (fst w))\<lparr>st_Configured := rename_context ref ?n (mg_configured (fst w)),
     st_VersionRecovery := map_option (rename_recovery ref (ref\<lparr>pr_Name := ?n\<rparr>)) (st_VersionRecovery (stateLocked (fst w))),
     st_PluginProvenance := map (\<lambda>r. if pp_Profile r = ref then r\<lparr>pp_Profile := ref\<lparr>pr_Name := ?n\<rparr>\<rparr> else r) (mg_pluginProvenance (fst w))\<rparr>"
  let ?upd = "\<lambda>m. m\<lparr>mg_versionRecovery := st_VersionRecovery ?s, mg_pluginProvenance := st_PluginProvenance ?s,
     mg_configured := st_Configured ?s, mg_knownGood := rename_context ref ?n (mg_knownGood m)\<rparr>"
  have moved: "kept env start (fst w, move_profile p o' n' (snd w))" for p o' n'
    using assms by (simp add: kept_def move_profile_def)
  have locked: "stateLocked (?upd ((fst w)\<lparr>mg_recordCache := c\<rparr>)) = ?s" for c
    by (simp add: stateLocked_def cloneVersionRecovery_def)
  have save: "kept env start (m', d')" if "save_then env io ?s ?upd (fst w, move_profile p o' n' (snd w)) = ((m', d'), x)" for p o' n' m' d' x
    using save_then_kept [OF moved [of p o' n'], of ?upd ?s io] locked that by simp
  have returned: "kept env start (m', move_profile p o' n' d')" if "kept env start (m', d')" for p o' n' m' d'
    using that by (simp add: kept_def move_profile_def)
  show ?thesis
    using assms by (auto simp: RenameProfile_def Let_def split: option.splits prod.splits dest: save [simplified] intro!: returned)
qed


lemmas manager_kept = guarded_kept registerRuntime_kept ResolveLaunch_kept SetConfigured_kept RecordSwitchAttempt_kept
  InstallLatestNode_kept RenameProfile_kept

lemma RemoveNode_kept: "kept env start w \<Longrightarrow> kept env start (fst (RemoveNode env io h f i w))"
  unfolding RemoveNode_def
  by (erule guarded_kept) (auto simp: Let_def stateLocked_def split: option.splits intro!: save_then_kept)

lemma RemoveRuntime_kept: "kept env start w \<Longrightarrow> kept env start (fst (RemoveRuntime env io h f i w))"
  unfolding RemoveRuntime_def
  by (erule guarded_kept) (auto simp: Let_def stateLocked_def split: option.splits intro!: save_then_kept)

lemma RemoveDataDirectory_kept: "kept env start w \<Longrightarrow> kept env start (fst (RemoveDataDirectory env io i w))"
  unfolding RemoveDataDirectory_def
  by (erule guarded_kept) (auto simp: Let_def stateLocked_def split: option.splits intro!: save_then_kept)

lemma kept_files: "kept env start (fst w, (snd w)\<lparr>dk_profiles := a, dk_records := b\<rparr>) \<longleftrightarrow> kept env start w"
  by (simp add: kept_def)

lemma DeleteProfile_kept: "kept env start w \<Longrightarrow> kept env start (fst (DeleteProfile env le io e p ref w))"
  unfolding DeleteProfile_def
  by (erule guarded_kept) (auto simp: Let_def drop_profile_def kept_files split: option.splits)

lemma recordPluginProvenance_kept: "kept env start w \<Longrightarrow> kept env start (fst (recordPluginProvenance env io r w))"
  unfolding recordPluginProvenance_def Let_def by (erule save_then_kept) (simp add: stateLocked_def)

lemma mgr_step_kept [keeps_inv]: "kept env start w \<Longrightarrow> kept env start (mgr_step env le x w)"
proof (induction env le x w rule: mgr_step.induct)
  case (1 env le io catalog w)
  then show ?case
    by (auto simp: RefreshDSHReleases_def stateLocked_def split: option.splits sum.splits intro!: save_then_kept)
next
  case (2 env le io catalog w)
  then show ?case
    by (auto simp: RefreshLatestNode_def stateLocked_def split: option.splits sum.splits intro!: guarded_kept save_then_kept)
next
  case (7 env le io d w)
  then show ?case
    by (auto simp: RegisterDataDirectory_def Let_def stateLocked_def split: sum.splits intro!: guarded_kept save_then_kept)
next
  case (18 env le io r w)
  then show ?case
    by (simp add: recordPluginProvenance_kept)
qed (simp_all add: RegisterRuntime_def manager_kept RemoveNode_kept RemoveRuntime_kept RemoveDataDirectory_kept DeleteProfile_kept,
  auto simp: ClearCurrent_def BeginRunContextSwitch_def EndRunContextSwitch_def ClearSwitchAttempt_def stateLocked_def
    intro: kept_same intro!: save_then_kept)

interpretation catalogue: invariant_system start "mgr_step env le" "kept env start" for env le start
  by unfold_locales (auto intro: kept_refl mgr_step_kept)


subsection \<open>What is selected stays in the catalogues\<close>

text \<open>Catalogues only grow, and a version recovery that is pending stays as it is.\<close>

definition pending_recovery :: "manager \<Rightarrow> recovery_operation option" where
  "pending_recovery m = vr_Pending (cloneVersionRecovery (mg_versionRecovery m))"

definition grows :: "manager \<Rightarrow> manager \<Rightarrow> bool" where
  "grows m m' \<longleftrightarrow> pending_recovery m' = pending_recovery m \<and> ri_ID ` set (mg_Runtimes m) \<subseteq> ri_ID ` set (mg_Runtimes m') \<and>
     dd_ID ` set (mg_DataDirectories m) \<subseteq> dd_ID ` set (mg_DataDirectories m') \<and>
     ni_ID ` set (mg_Nodes m) \<subseteq> ni_ID ` set (mg_Nodes m')"

text \<open>The catalogue entries of a selected run context that are there before are there after.\<close>

definition context_kept :: "manager \<Rightarrow> manager \<Rightarrow> run_context \<Rightarrow> bool" where
  "context_kept m m' t \<longleftrightarrow>
     (rc_RuntimeID t \<in> ri_ID ` set (mg_Runtimes m) \<longrightarrow> rc_RuntimeID t \<in> ri_ID ` set (mg_Runtimes m')) \<and>
     (pr_DataDirectoryID (rc_Profile t) \<in> dd_ID ` set (mg_DataDirectories m) \<longrightarrow>
        pr_DataDirectoryID (rc_Profile t) \<in> dd_ID ` set (mg_DataDirectories m')) \<and>
     (ns_Kind (rc_Node t) = ''managed'' \<and> ns_InstallationID (rc_Node t) \<in> ni_ID ` set (mg_Nodes m) \<longrightarrow>
        ns_InstallationID (rc_Node t) \<in> ni_ID ` set (mg_Nodes m'))"

lemma grows_context: "grows m m' \<Longrightarrow> context_kept m m' t"
  by (auto simp: grows_def context_kept_def)

lemma grows_trans: "grows m m' \<Longrightarrow> grows m' m'' \<Longrightarrow> grows m m''"
  unfolding grows_def by (metis subset_trans)

lemma key_replace_by: "key ` set (replace_by key x xs) = insert (key x) (key ` set xs)"
proof (induction xs)
  case Nil
  show ?case by (simp add: replace_by_def)
next
  case (Cons y ys)
  show ?case
  proof (cases "key y = key x")
    case False
    then have "replace_by key x (y # ys) = y # replace_by key x ys" by (auto simp: replace_by_def)
    then show ?thesis using Cons by auto
  qed (simp add: replace_by_def)
qed

lemma remove_first_keeps: "y \<in> set xs \<Longrightarrow> \<not> P y \<Longrightarrow> y \<in> set (remove_first P xs)"
  by (induction xs) (auto simp: remove_first_def)

lemma save_then_manager:
  "\<exists>c. fst (fst (save_then env io s upd w)) \<in> {(fst w)\<lparr>mg_recordCache := c\<rparr>, upd ((fst w)\<lparr>mg_recordCache := c\<rparr>)}"
  by (auto simp: save_then_def split: prod.splits option.splits)

lemma grows_refl [simp]: "grows m m"
  by (simp add: grows_def)

lemma grows_cache [simp]: "grows m (m'\<lparr>mg_recordCache := c\<rparr>) = grows m m'"
  by (simp add: grows_def pending_recovery_def)

lemma save_then_grows:
  "(\<And>c. grows (fst w) (upd ((fst w)\<lparr>mg_recordCache := c\<rparr>))) \<Longrightarrow> grows (fst w) (fst (fst (save_then env io s upd w)))"
  using save_then_manager [of env io s upd w] by auto

lemma guarded_grows:
  "grows (fst w) (fst (fst (f w))) \<Longrightarrow> grows (fst w) (fst (fst (guarded io f w)))"
  by (simp add: guarded_def)

lemma grows_runtime: "grows m (m\<lparr>mg_recordCache := c, mg_Runtimes := replace_by ri_ID r (mg_Runtimes m)\<rparr>)"
  by (auto simp: grows_def pending_recovery_def key_replace_by)

lemma grows_directory: "grows m (m\<lparr>mg_recordCache := c, mg_DataDirectories := replace_by dd_ID r (mg_DataDirectories m)\<rparr>)"
  by (auto simp: grows_def pending_recovery_def key_replace_by)

lemma grows_node: "grows m (m\<lparr>mg_recordCache := c, mg_Nodes := replace_by ni_ID r (mg_Nodes m)\<rparr>)"
  by (auto simp: grows_def pending_recovery_def key_replace_by)

lemma grows_other [simp]:
  "grows m (m'\<lparr>mg_configured := x\<rparr>) = grows m m'"
  "grows m (m'\<lparr>mg_knownGood := x\<rparr>) = grows m m'"
  "grows m (m'\<lparr>mg_current := x\<rparr>) = grows m m'"
  "grows m (m'\<lparr>mg_switching := b\<rparr>) = grows m m'"
  "grows m (m'\<lparr>mg_lastSwitchAttempt := a\<rparr>) = grows m m'"
  "grows m (m'\<lparr>mg_latestNode := n\<rparr>) = grows m m'"
  "grows m (m'\<lparr>mg_dshReleases := rs\<rparr>) = grows m m'"
  "grows m (m'\<lparr>mg_pluginProvenance := ps\<rparr>) = grows m m'"
  by (simp_all add: grows_def pending_recovery_def)

lemma registerRuntime_grows: "grows (fst w) (fst (fst (registerRuntime env io r w)))"
  unfolding registerRuntime_def Let_def
  by (auto split: sum.splits intro!: save_then_grows grows_runtime)

lemma observeRuntimeVersion_grows: "grows (fst w) (fst (fst (observeRuntimeVersion env io r v w)))"
  using registerRuntime_grows [of w env io "r\<lparr>ri_Version := v\<rparr>"]
  by (cases "registerRuntime env io (r\<lparr>ri_Version := v\<rparr>) w") (auto simp: observeRuntimeVersion_def Let_def split: option.splits)

lemma ResolveLaunch_grows: "grows (fst w) (fst (fst (ResolveLaunch env le io t w)))"
proof -
  have "grows (fst w) m" if "observeRuntimeVersion env io r v w = ((m, d), x)" for r v m d x
    using observeRuntimeVersion_grows [of w env io r v] that by simp
  then show ?thesis by (auto simp: ResolveLaunch_def Let_def split: option.splits sum.splits prod.splits)
qed

lemma SetConfigured_grows: "grows (fst w) (fst (fst (SetConfigured env le io t w)))"
proof -
  obtain w' x where resolved: "ResolveLaunch env le io t w = (w', x)" by (metis prod.exhaust)
  then have "grows (fst w) (fst w')" using ResolveLaunch_grows [of w env le io t] by simp
  then show ?thesis
    by (auto simp: SetConfigured_def resolved split: sum.splits intro!: grows_trans [OF _ save_then_grows])
qed

lemma InstallLatestNode_grows: "grows (fst w) (fst (fst (fst (InstallLatestNode env io catalog installer c f w))))"
proof -
  have "grows (fst w) m" if "save_then env io s (\<lambda>m. m\<lparr>mg_Nodes := replace_by ni_ID n (mg_Nodes (fst w)), mg_latestNode := l\<rparr>) w = ((m, d), e)"
    for s n l m d e
    using save_then_grows [of w "\<lambda>m. m\<lparr>mg_Nodes := replace_by ni_ID n (mg_Nodes (fst w)), mg_latestNode := l\<rparr>" env io s] that
    by (simp add: grows_node)
  then show ?thesis
    by (auto simp: InstallLatestNode_def Let_def split: option.splits sum.splits prod.splits)
qed

lemma RenameProfile_grows: "grows (fst w) (fst (fst (RenameProfile env le io e f b ref n w)))"
proof -
  let ?r = "map_option (rename_recovery ref (ref\<lparr>pr_Name := trim_space n\<rparr>)) (st_VersionRecovery (stateLocked (fst w)))"
  have "grows (fst w) (upd ((fst w)\<lparr>mg_recordCache := cc\<rparr>))" if "upd = (\<lambda>m. m\<lparr>mg_versionRecovery := ?r, mg_pluginProvenance := p,
      mg_configured := c, mg_knownGood := g (mg_knownGood m)\<rparr>)" for upd cc p c g
    unfolding that by (simp add: grows_def pending_recovery_def stateLocked_def cloneVersionRecovery_def rename_recovery_def Let_def)
  then have "grows (fst w) m'" if "save_then env io s (\<lambda>m. m\<lparr>mg_versionRecovery := ?r, mg_pluginProvenance := p, mg_configured := c,
      mg_knownGood := g (mg_knownGood m)\<rparr>) (fst w, d) = ((m', d'), x)" for s p c g d m' d' x
    using save_then_grows [of "(fst w, d)" "\<lambda>m. m\<lparr>mg_versionRecovery := ?r, mg_pluginProvenance := p, mg_configured := c,
      mg_knownGood := g (mg_knownGood m)\<rparr>" env io s] that by simp
  then show ?thesis
    by (auto simp: RenameProfile_def Let_def split: option.splits prod.splits)
qed

lemma mgr_step_grows:
  assumes "case snd x of OpRemoveNode _ _ _ \<Rightarrow> False | OpRemoveRuntime _ _ _ \<Rightarrow> False | OpRemoveDataDirectory _ \<Rightarrow> False | _ \<Rightarrow> True"
  shows "grows (fst w) (fst (mgr_step env le x w))"
  using assms
proof (induction env le x w rule: mgr_step.induct)
  case (1 env le io catalog w)
  then show ?case
    by (auto simp: RefreshDSHReleases_def split: option.splits sum.splits intro!: save_then_grows)
next
  case (2 env le io catalog w)
  then show ?case
    by (auto simp: RefreshLatestNode_def split: option.splits sum.splits intro!: guarded_grows save_then_grows)
next
  case (7 env le io d w)
  then show ?case
    by (auto simp: RegisterDataDirectory_def Let_def split: sum.splits intro!: guarded_grows save_then_grows grows_directory)
next
  case (14 env le io a c w)
  then show ?case
    by (auto simp: RecordSwitchAttempt_def commit_attempt_def split: sum.splits intro!: save_then_grows)
next
  case (16 env le io e p ref w)
  then show ?case
    by (auto simp: DeleteProfile_def Let_def split: option.splits intro!: guarded_grows)
qed (simp_all add: RegisterRuntime_def guarded_grows registerRuntime_grows ResolveLaunch_grows SetConfigured_grows
    InstallLatestNode_grows RenameProfile_grows recordPluginProvenance_def Let_def save_then_grows,
  auto simp: ClearCurrent_def BeginRunContextSwitch_def EndRunContextSwitch_def ClearSwitchAttempt_def
    intro!: save_then_grows)

text \<open>A removal that passes its guard drops an entry that none of the three contexts selects.\<close>

lemma context_kept_refl [simp]: "context_kept m m t"
  by (simp add: context_kept_def)

lemma context_kept_cache [simp]: "context_kept m (m'\<lparr>mg_recordCache := c\<rparr>) t = context_kept m m' t"
  by (simp add: context_kept_def)

lemma save_then_context:
  "(\<And>c. context_kept (fst w) (upd ((fst w)\<lparr>mg_recordCache := c\<rparr>)) t) \<Longrightarrow> context_kept (fst w) (fst (fst (save_then env io s upd w))) t"
  using save_then_manager [of env io s upd w] by auto

lemma remove_first_key: "k \<noteq> ident \<Longrightarrow> k \<in> key ` set xs \<Longrightarrow> k \<in> key ` set (remove_first (\<lambda>y. key y = ident) xs)"
  using remove_first_keeps by fastforce

lemma save_then_pending:
  "(\<And>c. pending_recovery (upd ((fst w)\<lparr>mg_recordCache := c\<rparr>)) = pending_recovery (fst w)) \<Longrightarrow> pending_recovery (fst (fst (save_then env io s upd w))) = pending_recovery (fst w)"
  using save_then_manager [of env io s upd w] by (auto simp: pending_recovery_def)

lemma removal_pending:
  "pending_recovery (fst (fst (RemoveNode env io h f i w))) = pending_recovery (fst w)"
  "pending_recovery (fst (fst (RemoveRuntime env io h f i w))) = pending_recovery (fst w)"
  "pending_recovery (fst (fst (RemoveDataDirectory env io i w))) = pending_recovery (fst w)"
  by (auto simp: RemoveNode_def RemoveRuntime_def RemoveDataDirectory_def guarded_def Let_def split: option.splits
      intro!: save_then_pending) (auto simp: pending_recovery_def)

lemma mgr_step_pending: "pending_recovery (fst (mgr_step env le x w)) = pending_recovery (fst w)"
proof (cases "snd x")
  case (OpRemoveNode h f i)
  then show ?thesis by (cases x) (simp add: removal_pending)
next
  case (OpRemoveRuntime h f i)
  then show ?thesis by (cases x) (simp add: removal_pending)
next
  case (OpRemoveDataDirectory i)
  then show ?thesis by (cases x) (simp add: removal_pending)
qed (use mgr_step_grows [of x w env le] in \<open>simp_all add: grows_def\<close>)

definition selected :: "manager \<Rightarrow> run_context \<Rightarrow> bool" where
  "selected m t \<longleftrightarrow> Some t \<in> {mg_configured m, mg_current m, mg_knownGood m}"

lemma RemoveNode_context:
  assumes "selected (fst w) t"
  shows "context_kept (fst w) (fst (fst (RemoveNode env io h f i w))) t"
proof -
  let ?m = "\<lambda>c. (fst w)\<lparr>mg_recordCache := c, mg_Nodes := remove_first (\<lambda>n. ni_ID n = i) (mg_Nodes (fst w))\<rparr>"
  have "context_kept (fst w) (?m c) t" if "\<not> list_ex (selects_node i) [mg_configured (fst w), mg_current (fst w), mg_knownGood (fst w)]" for c
    using assms that by (auto simp: context_kept_def selected_def selects_node_def intro!: remove_first_key split: option.splits)
  then show ?thesis
    by (auto simp: RemoveNode_def guarded_def Let_def split: option.splits intro!: save_then_context)
qed

lemma RemoveRuntime_context:
  assumes "selected (fst w) t"
  shows "context_kept (fst w) (fst (fst (RemoveRuntime env io h f i w))) t"
proof -
  let ?m = "\<lambda>c. (fst w)\<lparr>mg_recordCache := c, mg_Runtimes := remove_first (\<lambda>n. ri_ID n = i) (mg_Runtimes (fst w))\<rparr>"
  have "context_kept (fst w) (?m c) t" if "\<not> list_ex (selects_runtime i) [mg_configured (fst w), mg_current (fst w), mg_knownGood (fst w)]" for c
    using assms that by (auto simp: context_kept_def selected_def selects_runtime_def intro!: remove_first_key split: option.splits)
  then show ?thesis
    by (auto simp: RemoveRuntime_def guarded_def Let_def split: option.splits intro!: save_then_context)
qed

lemma RemoveDataDirectory_context:
  assumes "selected (fst w) t"
  shows "context_kept (fst w) (fst (fst (RemoveDataDirectory env io i w))) t"
proof -
  let ?m = "\<lambda>c. (fst w)\<lparr>mg_recordCache := c, mg_DataDirectories := remove_first (\<lambda>n. dd_ID n = i) (mg_DataDirectories (fst w))\<rparr>"
  have "context_kept (fst w) (?m c) t" if "\<not> list_ex (selects_directory i) [mg_configured (fst w), mg_current (fst w), mg_knownGood (fst w)]" for c
    using assms that by (auto simp: context_kept_def selected_def selects_directory_def intro!: remove_first_key split: option.splits)
  then show ?thesis
    by (auto simp: RemoveDataDirectory_def guarded_def Let_def split: option.splits intro!: save_then_context)
qed

text \<open>(C35) No operation takes from the catalogues what a selected run context needs: the runtime, the data
  directory and the managed Node installation of the configured, the current and the known-good run
  context that are there before any operation are there after it.\<close>

theorem selected_entries_kept:
  assumes "selected m t"
  shows "context_kept m (fst (mgr_step env le x (m, d))) t"
proof (cases "snd x")
  case (OpRemoveNode h f i)
  then show ?thesis using RemoveNode_context [of "(m, d)" t env "fst x" h f i] assms by (cases x) auto
next
  case (OpRemoveRuntime h f i)
  then show ?thesis using RemoveRuntime_context [of "(m, d)" t env "fst x" h f i] assms by (cases x) auto
next
  case (OpRemoveDataDirectory i)
  then show ?thesis using RemoveDataDirectory_context [of "(m, d)" t env "fst x" i] assms by (cases x) auto
qed (use mgr_step_grows [of x "(m, d)" env le] in \<open>simp_all add: grows_context\<close>)

end
