(* ===== verification/Restore_Points.thy ===== *)
theory Restore_Points
  imports Manager_Ops "HOL-Library.Multiset"
begin

text \<open>
  \<open>internal/dshmanager/restore_points.go\<close> and \<open>loadRecords\<close> of \<open>profile_records.go\<close>: restore points of
  the installed versions.  A healthy start records the versions it ran with, old automatic points are
  pruned, a manual point is saved, edited or removed, and a point is installed again, with the stage
  of that recovery saved at every step so that it can be resumed once after a crash.  The captured
  manifest, the package managers and the clock are arguments; the digest (a hash of the encoded
  inputs) and how errors print are functions in \<open>point_env\<close>.  The snapshots the operations return are left out.
\<close>

subsection \<open>Reading the installed versions\<close>

record point_env =
  pe_hasAdapter :: bool
  pe_automation :: "version_inputs option"
  pe_currentInputs :: version_inputs
  pe_platform :: string
  pe_text :: "mgr_error \<Rightarrow> string"
  pe_digest :: "string \<times> string \<times> string \<times> string \<times> version_input \<Rightarrow> string"

text \<open>What \<open>CaptureVersions\<close> returns; an error carries its text and whether a file did not exist.\<close>

datatype capture = Captured version_input | CaptureError string bool

definition finishVersionPoint :: "point_env \<Rightarrow> stored_point \<Rightarrow> stored_point" where
  "finishVersionPoint pe p =
    p\<lparr>pt_Digest := pe_digest pe (pt_DSHVersion p, pt_NodeVersion p, pt_PackageManager p, pt_Platform p, pt_Input p)\<rparr>"

definition readVersionPoint :: "point_env \<Rightarrow> capture \<Rightarrow> resolved_launch \<Rightarrow> (string \<times> bool) + stored_point" where
  "readVersionPoint pe c launch =
    (if \<not> pe_hasAdapter pe then Inl (''version snapshot adapter is unavailable'', False)
     else case c of CaptureError e missing \<Rightarrow> Inl (e, missing)
      | Captured input \<Rightarrow>
        let input = (if pe_automation pe \<noteq> None \<and> isAppProfile (rl_DataDirectory launch) (pr_Name (rc_Profile (rl_Target launch)))
               then input\<lparr>in_Automation := pe_automation pe\<rparr> else input);
            version = ri_Version (rl_Runtime launch)
        in Inr (finishVersionPoint pe
          \<lparr>pt_ID = [], pt_Kind = [], pt_Label = [], pt_CreatedAt = [], pt_LastVerifiedAt = [], pt_Target = rl_Target launch,
           pt_DSHVersion = version, pt_NodeVersion = rn_Version (rl_Node launch), pt_PackageManager = in_PackageManager input,
           pt_Platform = pe_platform pe, pt_Plugins = in_Plugins input, pt_Digest = [],
           pt_Lockfile = (if in_Lock input \<noteq> [] then ''pnpm-lock.yaml'' else []),
           pt_Unavailable = (if \<not> validRuntimeVersion version then ''DSH has no exact installable version'' else in_Unavailable input),
           pt_Input = input\<rparr>))"

definition CaptureLaunchVersions :: "point_env \<Rightarrow> save_io \<Rightarrow> capture \<Rightarrow> resolved_launch \<Rightarrow> resolved_launch" where
  "CaptureLaunchVersions pe io c launch =
    (if io_cancelled io then launch\<lparr>rl_VersionError := pe_text pe Cancelled\<rparr>
     else case readVersionPoint pe c launch of
       Inl (e, missing) \<Rightarrow> launch\<lparr>rl_VersionError := e, rl_VersionUninitialized := missing\<rparr>
     | Inr p \<Rightarrow> launch\<lparr>rl_VersionSeed := Some p\<rparr>)"

subsection \<open>Pruning\<close>

text \<open>\<open>sort.SliceStable\<close> by the time of the last verification, newest first.\<close>

definition newest_first :: "stored_point list \<Rightarrow> stored_point list" where
  "newest_first ps = rev (sort_key pt_LastVerifiedAt (rev ps))"

definition point_key :: "stored_point \<Rightarrow> string" where
  "point_key p = profilePointKey (rc_Profile (pt_Target p))"

definition unfinished :: "version_recovery \<Rightarrow> string \<Rightarrow> bool" where
  "unfinished s ident = (case vr_Pending s of None \<Rightarrow> False | Some o' \<Rightarrow> ro_Status o' \<noteq> ''completed'' \<and> ident = ro_PointID o')"

definition referenced :: "version_recovery \<Rightarrow> stored_point \<Rightarrow> bool" where
  "referenced s p \<longleftrightarrow> pt_ID p = vr_LastRunning s \<or> pt_ID p = last_of (vr_LastByProfile s) (point_key p) \<or> unfinished s (pt_ID p)"

fun prune_loop :: "version_recovery \<Rightarrow> (string \<Rightarrow> nat) \<Rightarrow> stored_point list \<Rightarrow> stored_point list" where
  "prune_loop s counts [] = []"
| "prune_loop s counts (p # ps) =
    (let k = point_key p;
         keep = pt_Kind p = ''manual'' \<or> counts k < 2 \<or> referenced s p;
         counts = (if pt_Kind p = ''automatic'' then counts(k := counts k + 1) else counts)
     in if keep then p # prune_loop s counts ps else prune_loop s counts ps)"

definition pruneVersionPoints :: "version_recovery \<Rightarrow> version_recovery" where
  "pruneVersionPoints s =
    (let s = s\<lparr>vr_Points := prune_loop s (\<lambda>_. 0) (newest_first (vr_Points s))\<rparr>
     in case vr_Pending s of
          None \<Rightarrow> s
        | Some o' \<Rightarrow> if ro_Status o' = ''completed'' \<and> point s (ro_PointID o') = None then s\<lparr>vr_Pending := None\<rparr> else s)"

subsection \<open>A healthy start\<close>

fun update_first :: "('a \<Rightarrow> bool) \<Rightarrow> ('a \<Rightarrow> 'a) \<Rightarrow> 'a list \<Rightarrow> 'a list" where
  "update_first P f [] = []"
| "update_first P f (x # xs) = (if P x then f x # xs else x # update_first P f xs)"

definition update_point :: "string \<Rightarrow> (stored_point \<Rightarrow> stored_point) \<Rightarrow> version_recovery \<Rightarrow> version_recovery" where
  "update_point ident f s = s\<lparr>vr_Points := update_first (\<lambda>p. pt_ID p = ident) f (vr_Points s)\<rparr>"

text \<open>A profile without plugins that did not exist before the start has its versions read after it.\<close>

definition late_seed :: "point_env \<Rightarrow> capture \<Rightarrow> resolved_launch \<Rightarrow> resolved_launch" where
  "late_seed pe c launch =
    (if rl_VersionSeed launch = None \<and> rl_VersionUninitialized launch
     then (case readVersionPoint pe c launch of
             Inr p \<Rightarrow> if pt_Plugins p = [] then launch\<lparr>rl_VersionSeed := Some p, rl_VersionError := []\<rparr> else launch
           | Inl _ \<Rightarrow> launch)
     else launch)"

definition point_to_refresh :: "resolved_launch \<Rightarrow> version_recovery \<Rightarrow> string" where
  "point_to_refresh launch s =
    (case vr_Pending s of
       Some o' \<Rightarrow> if ro_Status o' = ''running'' then ro_PointID o' else last_of (vr_LastByProfile s) (profilePointKey (rc_Profile (rl_Target launch)))
     | None \<Rightarrow> last_of (vr_LastByProfile s) (profilePointKey (rc_Profile (rl_Target launch))))"

text \<open>The versions that ran are recorded: in the point they came from, or in a new automatic one.\<close>

definition record_versions ::
    "resolved_launch \<Rightarrow> string \<Rightarrow> string \<Rightarrow> stored_point \<Rightarrow> version_recovery \<Rightarrow> version_recovery \<times> stored_point" where
  "record_versions launch now newID actual s =
    (let key = profilePointKey (rc_Profile (rl_Target launch));
         fresh = actual\<lparr>pt_ID := newID, pt_Kind := ''automatic'', pt_Label := [], pt_CreatedAt := now, pt_LastVerifiedAt := now\<rparr>;
         refresh = (\<lambda>p. p\<lparr>pt_LastVerifiedAt := now, pt_Target := rl_Target launch\<rparr>);
         (s, verified) =
           (case point s (point_to_refresh launch s) of
              Some existing \<Rightarrow> if pt_Digest existing = pt_Digest actual
                then (update_point (point_to_refresh launch s) refresh s, refresh existing)
                else (s\<lparr>vr_Points := vr_Points s @ [fresh]\<rparr>, fresh)
            | None \<Rightarrow> (s\<lparr>vr_Points := vr_Points s @ [fresh]\<rparr>, fresh))
     in (s\<lparr>vr_LastByProfile := (vr_LastByProfile s)(key \<mapsto> pt_ID verified), vr_LastRunning := pt_ID verified\<rparr>, verified))"

definition finish_pending :: "version_recovery \<Rightarrow> version_recovery" where
  "finish_pending s = s\<lparr>vr_Pending := map_option (\<lambda>o'. o'\<lparr>ro_Status := ''completed'', ro_Stage := ''ready'', ro_Error := []\<rparr>) (vr_Pending s)\<rparr>"

definition verify_versions ::
    "point_env \<Rightarrow> capture \<Rightarrow> string \<Rightarrow> string \<Rightarrow> resolved_launch \<Rightarrow> version_recovery \<Rightarrow> version_recovery \<times> stored_point option \<times> string" where
  "verify_versions pe c now newID launch s =
    (case rl_VersionSeed launch of
       None \<Rightarrow> (s, None, if rl_VersionError launch = [] then ''No verified startup version record is available'' else rl_VersionError launch)
     | Some seed \<Rightarrow>
        (case readVersionPoint pe c launch of
           Inl (e, _) \<Rightarrow> (s, None, e)
         | Inr actual \<Rightarrow>
             if pt_Digest actual \<noteq> pt_Digest seed
             then (s, None, ''Dependencies changed during startup; restart to record this environment'')
             else let (s, verified) = record_versions launch now newID actual s
               in (finish_pending s, Some verified, rl_VersionError launch)))"

definition commitVersionHealthy ::
    "mgr_env \<Rightarrow> point_env \<Rightarrow> save_io \<Rightarrow> capture \<Rightarrow> capture \<Rightarrow> string \<Rightarrow> string \<Rightarrow> resolved_launch \<Rightarrow> world \<Rightarrow> world \<times> mgr_error option" where
  "commitVersionHealthy env pe io c1 c2 now newID launch w =
    (if io_cancelled io then (w, Some Cancelled)
     else if mg_current (fst w) \<noteq> None \<and> mg_current (fst w) \<noteq> Some (rl_Target launch) then (w, Some ManagerOperationBusy)
     else
       let m = fst w; launch = late_seed pe c1 launch; state = stateLocked m;
           (s, verified, saveErr) = verify_versions pe c2 now newID launch (cloneVersionRecovery (st_VersionRecovery state));
           s = pruneVersionPoints s; target = rl_Target launch;
           attempt = (case st_LastSwitchAttempt state of Some a \<Rightarrow> if sa_Target a = target then None else Some a | None \<Rightarrow> None);
           state = state\<lparr>st_Configured := Some target, st_VersionRecovery := Some s, st_LastSwitchAttempt := attempt\<rparr>;
           commit = (\<lambda>m. m\<lparr>mg_current := Some target, mg_configured := Some target\<rparr>)
       in case saveState env io (mg_unreadableRecords m) state (mg_recordCache m) (snd w) of
            (cache, d, Some e) \<Rightarrow>
              (((commit m)\<lparr>mg_recordCache := cache, mg_restoreSaveError := ''The version record could not be saved'', mg_verifiedPoint := None\<rparr>, d), None)
          | (cache, d, None) \<Rightarrow>
              (((commit m)\<lparr>mg_recordCache := cache, mg_restoreSaveError := saveErr, mg_verifiedPoint := verified,
                  mg_versionRecovery := Some s, mg_lastSwitchAttempt := attempt, mg_DataDirectories := st_DataDirectories state,
                  mg_knownGood := (if verified \<noteq> None then Some target else mg_knownGood m)\<rparr>, d), None))"

subsection \<open>Manual points\<close>

definition saveVersionState :: "mgr_env \<Rightarrow> save_io \<Rightarrow> version_recovery \<Rightarrow> world \<Rightarrow> world \<times> mgr_error option" where
  "saveVersionState env io s w =
    save_then env io ((stateLocked (fst w))\<lparr>st_VersionRecovery := Some s\<rparr>) (\<lambda>m. m\<lparr>mg_versionRecovery := Some s\<rparr>) w"

definition SaveRestorePoint ::
    "mgr_env \<Rightarrow> launch_env \<Rightarrow> point_env \<Rightarrow> save_io \<Rightarrow> capture \<Rightarrow> string \<Rightarrow> string \<Rightarrow> string \<Rightarrow> world \<Rightarrow> world \<times> mgr_error option" where
  "SaveRestorePoint env le pe io c now newID label = guarded io (\<lambda>w.
    (let s = cloneVersionRecovery (mg_versionRecovery (fst w))
     in case (mg_verifiedPoint (fst w), mg_current (fst w)) of
       (Some p, Some current) \<Rightarrow>
         if current \<noteq> pt_Target p then (w, Some (Plain ''start the normal environment before saving a snapshot''))
         else (case ResolveLaunch env le io current w of
            (w, Inl e) \<Rightarrow> (w, Some e)
          | (w, Inr launch) \<Rightarrow>
             (case readVersionPoint pe c launch of
                Inl (e, _) \<Rightarrow> (w, Some (External e))
              | Inr actual \<Rightarrow>
                  if pt_Digest actual \<noteq> pt_Digest p then (w, Some (Plain ''apply changes and restart before saving a snapshot''))
                  else if length (vr_Points s) \<ge> 128 then (w, Some (Plain ''delete an older manual snapshot first''))
                  else if length (trim_space label) > 120 then (w, Some (Plain ''snapshot name is too long''))
                  else saveVersionState env io (s\<lparr>vr_Points := vr_Points s @
                      [actual\<lparr>pt_ID := newID, pt_Kind := ''manual'', pt_Label := trim_space label, pt_CreatedAt := now,
                         pt_LastVerifiedAt := pt_LastVerifiedAt p\<rparr>]\<rparr>) w))
     | _ \<Rightarrow> (w, Some (Plain ''start the normal environment before saving a snapshot''))))"

definition EditRestorePoint :: "mgr_env \<Rightarrow> save_io \<Rightarrow> string \<Rightarrow> string \<Rightarrow> bool \<Rightarrow> world \<Rightarrow> world \<times> mgr_error option" where
  "EditRestorePoint env io ident label remove = guarded io (\<lambda>w.
    (let s = cloneVersionRecovery (mg_versionRecovery (fst w))
     in case point s ident of
       None \<Rightarrow> (w, Some (Plain ''manual snapshot not found''))
     | Some p \<Rightarrow>
         if pt_Kind p \<noteq> ''manual'' then (w, Some (Plain ''manual snapshot not found''))
         else if remove then
           (if vr_LastRunning s = ident \<or> last_of (vr_LastByProfile s) (point_key p) = ident \<or> unfinished s ident
            then (w, Some (Plain ''snapshot is in use''))
            else saveVersionState env io (s\<lparr>vr_Points := remove_first (\<lambda>p. pt_ID p = ident) (vr_Points s),
                vr_Pending := (case vr_Pending s of Some o' \<Rightarrow> if ro_PointID o' = ident then None else Some o' | None \<Rightarrow> None)\<rparr>) w)
         else if length label > 120 then (w, Some (Plain ''snapshot name is too long''))
         else saveVersionState env io (update_point ident (\<lambda>p. p\<lparr>pt_Label := trim_space label\<rparr>) s) w))"

definition RecoveryPointID :: "manager \<Rightarrow> run_context \<Rightarrow> bool \<Rightarrow> string" where
  "RecoveryPointID m target startup =
    (case mg_versionRecovery m of None \<Rightarrow> []
     | Some s \<Rightarrow> if startup then last_of (vr_LastByProfile s) (profilePointKey (rc_Profile target)) else vr_LastRunning s)"

subsection \<open>Installing a point again\<close>

text \<open>What the adapters of a recovery do; \<open>rx_saves\<close> are the attempts to save its stages in order.\<close>

record recover_io =
  rx_profileOk :: "data_directory \<Rightarrow> string \<Rightarrow> bool"
  rx_hasRunner :: bool
  rx_install :: "(string \<Rightarrow> resolved_node \<Rightarrow> mgr_error + runtime_info) option"
  rx_reset :: "mgr_error + string list"
  rx_remove :: "string list \<Rightarrow> mgr_error option"
  rx_apply :: "mgr_error option"
  rx_forceInstall :: "bool \<Rightarrow> mgr_error option"
  rx_capture :: capture
  rx_saves :: "nat \<Rightarrow> save_io"

definition PreviewRestorePoint ::
    "mgr_env \<Rightarrow> launch_env \<Rightarrow> point_env \<Rightarrow> recover_io \<Rightarrow> string \<Rightarrow> manager \<Rightarrow> mgr_error + stored_point" where
  "PreviewRestorePoint env le pe rx ident m =
    (let s = cloneVersionRecovery (mg_versionRecovery m)
     in case point s ident of
       None \<Rightarrow> Inl (Plain ''snapshot not found'')
     | Some p \<Rightarrow>
        if validateRunContext env (pt_Target p) \<noteq> None \<or> \<not> validRuntimeVersion (pt_DSHVersion p) then Inl (Plain ''invalid snapshot target'')
        else if pt_Digest (finishVersionPoint pe p) \<noteq> pt_Digest p then Inl (Plain ''snapshot contents failed integrity verification'')
        else if \<not> pe_hasAdapter pe \<or> \<not> rx_hasRunner rx then Inl (Plain ''snapshot installation adapter is unavailable'')
        else if in_Automation (pt_Input p) \<noteq> None \<and> in_Automation (pt_Input p) \<noteq> Some (pe_currentInputs pe)
        then Inl (Plain ''automation dependencies require the recorded host version'')
        else if in_Automation (pt_Input p) \<noteq> None \<and> pe_automation pe \<noteq> in_Automation (pt_Input p)
        then Inl (Plain ''automation dependencies require the host version recorded with this point'')
        else if pt_Unavailable p \<noteq> [] then Inl (Plain (pt_Unavailable p))
        else if vr_SchemaVersion s \<noteq> 1 \<or> pt_Platform p \<noteq> pe_platform pe then Inl (Plain ''snapshot format or platform is incompatible'')
        else if rx_install rx = None then Inl (Plain ''forced DSH installation is unavailable on this platform'')
        else (case resolveNode le (rc_Node (pt_Target p)) (mg_Nodes m) of
           Inl e \<Rightarrow> Inl e
         | Inr node \<Rightarrow>
            if rn_Version node \<noteq> pt_NodeVersion p then Inl (Plain ''select the Node version recorded in the snapshot before restoring'')
            else let ds = filter (\<lambda>d. dd_ID d = pr_DataDirectoryID (rc_Profile (pt_Target p))) (mg_DataDirectories m)
              in if \<exists>d \<in> set ds. \<not> rx_profileOk rx d (pr_Name (rc_Profile (pt_Target p)))
                 then Inl (Plain ''snapshot profile manifest is unavailable'')
                 else if ds = [] then Inl (Plain ''snapshot data directory is unavailable'') else Inr p))"

text \<open>Legacy points have no record of the host's automation dependencies; they are compared without.\<close>

definition matchesRestoredVersions :: "point_env \<Rightarrow> stored_point \<Rightarrow> stored_point \<Rightarrow> bool" where
  "matchesRestoredVersions pe expected actual \<longleftrightarrow>
     pt_Digest (if in_Automation (pt_Input expected) = None
       then finishVersionPoint pe (actual\<lparr>pt_Input := (pt_Input actual)\<lparr>in_Automation := None\<rparr>\<rparr>) else actual) = pt_Digest expected"

definition setRecoveryStage :: "mgr_env \<Rightarrow> save_io \<Rightarrow> string \<Rightarrow> string \<Rightarrow> string \<Rightarrow> world \<Rightarrow> world \<times> mgr_error option" where
  "setRecoveryStage env io stage status detail w =
    (let s = cloneVersionRecovery (mg_versionRecovery (fst w))
     in case vr_Pending s of
       None \<Rightarrow> (w, None)
     | Some o' \<Rightarrow> saveVersionState env io
         (s\<lparr>vr_Pending := Some (o'\<lparr>ro_Stage := stage, ro_Status := status, ro_Error := take 1000 detail\<rparr>)\<rparr>) w)"

text \<open>The end of every failing path: the failure is saved with the recovery, without the cancellation.\<close>

definition recovery_failed :: "mgr_env \<Rightarrow> point_env \<Rightarrow> recover_io \<Rightarrow> mgr_error \<Rightarrow> world \<Rightarrow> world \<times> (mgr_error + resolved_launch)" where
  "recovery_failed env pe rx e w =
    (fst (setRecoveryStage env ((rx_saves rx 4)\<lparr>io_cancelled := False\<rparr>) ''failed'' ''failed'' (pe_text pe e) w), Inl e)"

definition reinstall_plugins :: "recover_io \<Rightarrow> stored_point \<Rightarrow> mgr_error option" where
  "reinstall_plugins rx p =
    (case rx_reset rx of Inl e \<Rightarrow> Some e
     | Inr names \<Rightarrow>
        or_else (if names \<noteq> [] then rx_remove rx names else None)
          (or_else (rx_apply rx)
            (if in_Plugins (pt_Input p) \<noteq> [] \<or> in_Lock (pt_Input p) \<noteq> [] then rx_forceInstall rx (in_Lock (pt_Input p) \<noteq> []) else None)))"

definition install_point ::
    "mgr_env \<Rightarrow> launch_env \<Rightarrow> point_env \<Rightarrow> recover_io \<Rightarrow> stored_point \<Rightarrow> manager \<Rightarrow> world \<Rightarrow> world \<times> (mgr_error + resolved_launch)" where
  "install_point env le pe rx p config w =
    (case resolveNode le (rc_Node (pt_Target p)) (mg_Nodes config) of
       Inl e \<Rightarrow> recovery_failed env pe rx e w
     | Inr node \<Rightarrow>
       (case (case rx_install rx of None \<Rightarrow> Inl RuntimeInstallUnavailable | Some install \<Rightarrow> install (pt_DSHVersion p) node) of
          Inl e \<Rightarrow> recovery_failed env pe rx e w
        | Inr installed \<Rightarrow>
          if ri_Version installed \<noteq> pt_DSHVersion p
          then recovery_failed env pe rx (Plain ''installed DSH version does not match the snapshot'') w
          else let runtimes = replace_by ri_ID installed (mg_Runtimes (fst w))
           in case save_then env (rx_saves rx 1) ((stateLocked (fst w))\<lparr>st_Runtimes := runtimes\<rparr>) (\<lambda>m. m\<lparr>mg_Runtimes := runtimes\<rparr>) w of
             (w, Some e) \<Rightarrow> recovery_failed env pe rx e w
           | (w, None) \<Rightarrow>
             (case setRecoveryStage env (rx_saves rx 2) ''install-plugins'' ''running'' [] w of
                (w, Some e) \<Rightarrow> recovery_failed env pe rx e w
              | (w, None) \<Rightarrow>
                let directories = filter (\<lambda>d. dd_ID d = pr_DataDirectoryID (rc_Profile (pt_Target p))) (mg_DataDirectories config);
                    launch = \<lparr>rl_VersionUninitialized = False, rl_VersionSeed = None, rl_VersionError = [],
                      rl_Target = (pt_Target p)\<lparr>rc_RuntimeID := ri_ID installed\<rparr>, rl_Runtime = installed, rl_Node = node,
                      rl_DataDirectory = (if directories = [] then \<lparr>dd_ID = [], dd_Name = [], dd_Path = [], dd_Ownership = []\<rparr> else last directories)\<rparr>
                in case reinstall_plugins rx p of
                     Some e \<Rightarrow> recovery_failed env pe rx e w
                   | None \<Rightarrow>
                     (case readVersionPoint pe (rx_capture rx) launch of
                        Inl (e, _) \<Rightarrow> recovery_failed env pe rx (External e) w
                      | Inr actual \<Rightarrow>
                        if \<not> matchesRestoredVersions pe p actual
                        then recovery_failed env pe rx (Plain ''installed dependency versions or lockfile do not match the snapshot'') w
                        else case setRecoveryStage env (rx_saves rx 3) ''starting'' ''running'' [] w of
                            (w, Some e) \<Rightarrow> recovery_failed env pe rx e w
                          | (w, None) \<Rightarrow> (w, Inr launch)))))"

definition RecoverVersionPoint ::
    "mgr_env \<Rightarrow> launch_env \<Rightarrow> point_env \<Rightarrow> recover_io \<Rightarrow> bool \<Rightarrow> string \<Rightarrow> world \<Rightarrow> world \<times> (mgr_error + resolved_launch)" where
  "RecoverVersionPoint env le pe rx resumed ident w =
    (case PreviewRestorePoint env le pe rx ident (fst w) of
       Inl e \<Rightarrow> (w, Inl e)
     | Inr _ \<Rightarrow>
        let m = fst w; s = cloneVersionRecovery (mg_versionRecovery m)
        in if io_cancelled (rx_saves rx 0) then (w, Inl Cancelled)
           else if mg_current m \<noteq> None then (w, Inl (Plain ''stop the Worker before restoring''))
           else case point s ident of
             None \<Rightarrow> (w, Inl (Plain ''snapshot not found''))
           | Some p \<Rightarrow>
              let count = (case vr_Pending s of Some o' \<Rightarrow> if resumed \<and> ro_PointID o' = ident then ro_ResumeCount o' else 0 | None \<Rightarrow> 0);
                  pending = \<lparr>ro_PointID = ident, ro_Stage = ''install-dsh'', ro_Status = ''running'', ro_Error = [], ro_ResumeCount = count\<rparr>
              in case saveVersionState env (rx_saves rx 0) (s\<lparr>vr_Pending := Some pending\<rparr>) w of
                   (w, Some e) \<Rightarrow> (w, Inl e)
                 | (w, None) \<Rightarrow> install_point env le pe rx p m w)"

definition PendingVersionRecovery :: "manager \<Rightarrow> recovery_operation option" where
  "PendingVersionRecovery m = vr_Pending (cloneVersionRecovery (mg_versionRecovery m))"

definition FailVersionRecovery :: "mgr_env \<Rightarrow> save_io \<Rightarrow> world \<Rightarrow> world" where
  "FailVersionRecovery env io w =
    (if io_cancelled io then w
     else case PendingVersionRecovery (fst w) of
       Some o' \<Rightarrow> if ro_Status o' = ''failed'' then w
         else fst (setRecoveryStage env io ''failed'' ''failed'' ''The restored environment could not start'' w)
     | None \<Rightarrow> fst (setRecoveryStage env io ''failed'' ''failed'' ''The restored environment could not start'' w))"

text \<open>\<open>Inr None\<close>: nothing to resume.\<close>

definition ResumeVersionRecovery ::
    "mgr_env \<Rightarrow> launch_env \<Rightarrow> point_env \<Rightarrow> recover_io \<Rightarrow> save_io \<Rightarrow> bool \<Rightarrow> world \<Rightarrow> world \<times> (mgr_error + resolved_launch option)" where
  "ResumeVersionRecovery env le pe rx io automatic w =
    (case PendingVersionRecovery (fst w) of
       None \<Rightarrow> (w, Inr None)
     | Some p \<Rightarrow>
        if ro_Status p = ''completed'' then (w, Inr None)
        else if \<not> automatic \<or> ro_ResumeCount p \<ge> 1 \<or> ro_Status p = ''failed''
        then (w, Inl (Plain ''the previous recovery is unfinished; choose a snapshot''))
        else if io_cancelled io then (w, Inl Cancelled)
        else
          let s = cloneVersionRecovery (mg_versionRecovery (fst w))
          in case saveVersionState env io (s\<lparr>vr_Pending := Some (p\<lparr>ro_ResumeCount := ro_ResumeCount p + 1\<rparr>)\<rparr>) w of
               (w, Some e) \<Rightarrow> (w, Inl e)
             | (w, None) \<Rightarrow>
                (case RecoverVersionPoint env le pe rx True (ro_PointID p) w of
                   (w, Inl e) \<Rightarrow> (w, Inl e) | (w, Inr launch) \<Rightarrow> (w, Inr (Some launch))))"

subsection \<open>What pruning keeps\<close>

lemma set_newest_first [simp]: "set (newest_first ps) = set ps"
  by (simp add: newest_first_def)

lemma mset_newest_first [simp]: "mset (newest_first ps) = mset ps"
  by (simp add: newest_first_def)

definition automatics :: "string \<Rightarrow> stored_point list \<Rightarrow> nat" where
  "automatics k ps = length (filter (\<lambda>p. pt_Kind p = ''automatic'' \<and> point_key p = k) ps)"

lemma prune_loop_append:
  "prune_loop s counts (ps @ qs) = prune_loop s counts ps @ prune_loop s (\<lambda>k. counts k + automatics k ps) qs"
proof (induction ps arbitrary: counts)
  case (Cons p ps)
  have "(\<lambda>k. (if pt_Kind p = ''automatic'' then counts(point_key p := counts (point_key p) + 1) else counts) k + automatics k ps) =
      (\<lambda>k. counts k + automatics k (p # ps))"
    by (auto simp: automatics_def)
  then show ?case by (simp add: Cons.IH Let_def)
qed (simp add: automatics_def)

lemma prune_loop_subset: "set (prune_loop s counts ps) \<subseteq> set ps"
  by (induction ps arbitrary: counts) (auto simp: Let_def)

lemma prune_loop_kept:
  "p \<in> set ps \<Longrightarrow> pt_Kind p = ''manual'' \<or> referenced s p \<Longrightarrow> p \<in> set (prune_loop s counts ps)"
  by (induction ps arbitrary: counts) (auto simp: Let_def)

lemma prune_loop_distinct: "distinct (map pt_ID ps) \<Longrightarrow> distinct (map pt_ID (prune_loop s counts ps))"
proof (induction ps arbitrary: counts)
  case (Cons p ps)
  then have "pt_ID p \<notin> pt_ID ` set (prune_loop s counts' ps)" for counts'
    using prune_loop_subset [of s counts' ps] by auto
  with Cons show ?case by (simp add: Let_def)
qed simp

lemma prune_loop_sizes: "length (prune_loop s counts ps) \<le> length ps \<and> sizes env (prune_loop s counts ps) \<le> sizes env ps"
proof (induction ps arbitrary: counts)
  case (Cons p ps)
  show ?case
    using Cons.IH [of "if pt_Kind p = ''automatic'' then counts(point_key p := counts (point_key p) + 1) else counts"]
    by (auto simp: Let_def sizes_def)
qed simp

lemma prune_points: "vr_Points (pruneVersionPoints s) = prune_loop s (\<lambda>_. 0) (newest_first (vr_Points s))"
  by (simp add: pruneVersionPoints_def Let_def split: option.split)

lemma prune_other [simp]: "vr_SchemaVersion (pruneVersionPoints s) = vr_SchemaVersion s"
  "vr_LastByProfile (pruneVersionPoints s) = vr_LastByProfile s" "vr_LastRunning (pruneVersionPoints s) = vr_LastRunning s"
  by (simp_all add: pruneVersionPoints_def Let_def split: option.split)

lemma prune_loop_excess:
  "length (filter (\<lambda>p. pt_Kind p = ''automatic'' \<and> point_key p = k \<and> \<not> referenced s p) (prune_loop s counts ps)) \<le> 2 - counts k"
proof (induction ps arbitrary: counts)
  case (Cons p ps)
  define counts' where "counts' = (if pt_Kind p = ''automatic'' then counts(point_key p := counts (point_key p) + 1) else counts)"
  have "counts k \<le> counts' k" "pt_Kind p = ''automatic'' \<Longrightarrow> point_key p = k \<Longrightarrow> counts' k = Suc (counts k)"
    by (auto simp: counts'_def)
  then show ?case using Cons.IH [of counts'] by (auto simp: Let_def counts'_def [symmetric])
qed simp

text \<open>(C36) Pruning keeps, of the points ordered from the newest verification to the oldest, exactly the manual
  ones, the ones something still refers to (the last running point, the last good point of its profile,
  an unfinished recovery) and the two newest automatic ones of each profile; so no profile keeps more
  than two automatic points that nothing refers to.\<close>

theorem prune_exactly:
  assumes "newest_first (vr_Points s) = ps @ p # qs" "distinct (map pt_ID (vr_Points s))"
  shows "(p \<in> set (vr_Points (pruneVersionPoints s)) \<longleftrightarrow>
      pt_Kind p = ''manual'' \<or> referenced s p \<or> automatics (point_key p) ps < 2) \<and>
    length (filter (\<lambda>q. pt_Kind q = ''automatic'' \<and> point_key q = k \<and> \<not> referenced s q) (vr_Points (pruneVersionPoints s))) \<le> 2"
proof -
  have "distinct (map pt_ID (ps @ p # qs))"
    using assms by (metis distinct_map mset_newest_first mset_eq_imp_distinct_iff mset_map)
  then have "p \<notin> set (prune_loop s c ps)" "p \<notin> set (prune_loop s c qs)" for c
    using prune_loop_subset [of s c ps] prune_loop_subset [of s c qs] by auto
  then show ?thesis
    using prune_loop_excess [of k s "\<lambda>_. 0" "newest_first (vr_Points s)"]
    by (auto simp: prune_points assms(1) prune_loop_append Let_def)
qed

subsection \<open>References into the points resolve\<close>

text \<open>The last good point of a profile is a point of that profile.\<close>

definition owned :: "version_recovery \<Rightarrow> bool" where
  "owned s \<longleftrightarrow> (\<forall>k i. vr_LastByProfile s k = Some i \<longrightarrow> (\<exists>p \<in> set (vr_Points s). pt_ID p = i \<and> point_key p = k))"

definition recovery_valid :: "mgr_env \<Rightarrow> version_recovery \<Rightarrow> bool" where
  "recovery_valid env s \<longleftrightarrow> validateVersionRecovery env (Some s) = None \<and> owned s"

lemma owned_ran: "owned s \<Longrightarrow> ran (vr_LastByProfile s) \<subseteq> point_ids s"
  by (force simp: owned_def ran_def)

lemma prune_owned:
  assumes "owned s"
  shows "owned (pruneVersionPoints s)"
  unfolding owned_def prune_other
proof (intro allI impI)
  fix k i
  assume "vr_LastByProfile s k = Some i"
  with assms obtain p where "p \<in> set (vr_Points s)" "pt_ID p = i" "point_key p = k" by (auto simp: owned_def)
  moreover from this \<open>vr_LastByProfile s k = Some i\<close> have "referenced s p" by (simp add: referenced_def last_of_def)
  ultimately show "\<exists>p \<in> set (vr_Points (pruneVersionPoints s)). pt_ID p = i \<and> point_key p = k"
    by (auto simp: prune_points intro!: prune_loop_kept)
qed

lemma prune_running: "vr_LastRunning s \<in> point_ids s \<Longrightarrow> vr_LastRunning s \<in> point_ids (pruneVersionPoints s)"
  by (force simp: prune_points referenced_def intro: prune_loop_kept)

lemma prune_pending:
  assumes "vr_Pending (pruneVersionPoints s) = Some o'" "\<And>o'. vr_Pending s = Some o' \<Longrightarrow> ro_PointID o' \<in> point_ids s"
  shows "vr_Pending s = Some o' \<and> ro_PointID o' \<in> point_ids (pruneVersionPoints s)"
proof -
  have pending: "vr_Pending s = Some o'"
    using assms(1) by (auto simp: pruneVersionPoints_def Let_def split: option.splits if_splits)
  moreover from assms(2) [OF this] obtain p where p: "p \<in> set (vr_Points s)" "pt_ID p = ro_PointID o'" by auto
  ultimately show ?thesis
  proof (cases "ro_Status o' = ''completed''")
    case True
    with assms(1) pending have "point (s\<lparr>vr_Points := vr_Points (pruneVersionPoints s)\<rparr>) (ro_PointID o') \<noteq> None"
      by (auto simp: prune_points pruneVersionPoints_def Let_def split: if_splits)
    with pending show ?thesis by (auto simp: point_def find_Some_iff image_iff) (metis nth_mem)
  next
    case False
    with p pending have "referenced s p" by (simp add: referenced_def unfinished_def)
    with p pending show ?thesis by (force simp: prune_points intro: prune_loop_kept)
  qed
qed

lemma prune_valid:
  assumes "recovery_valid env s"
  shows "recovery_valid env (pruneVersionPoints s)"
proof -
  have valid: "vr_SchemaVersion s = 1" "length (vr_Points s) \<le> 1024" "distinct (map pt_ID (vr_Points s))"
    "\<forall>p \<in> set (vr_Points s). point_ok env p" "sizes env (vr_Points s) \<le> 32 * 2 ^ 20"
    "vr_LastRunning s = [] \<or> vr_LastRunning s \<in> point_ids s"
    "\<And>p. vr_Pending s = Some p \<Longrightarrow> ro_PointID p \<in> point_ids s \<and> 0 \<le> ro_ResumeCount p" and own: "owned s"
    using assms by (auto simp: recovery_valid_def valid_recovery_iff)
  let ?ps = "newest_first (vr_Points s)"
  have "mset (map pt_ID ?ps) = mset (map pt_ID (vr_Points s))" by simp
  then have "distinct (map pt_ID ?ps)" using valid(3) mset_eq_imp_distinct_iff by blast
  moreover have "length ?ps = length (vr_Points s)" "sizes env ?ps = sizes env (vr_Points s)"
    by (metis mset_newest_first size_mset) (metis mset_map mset_newest_first sizes_def sum_mset_sum_list)
  ultimately show ?thesis
    using valid prune_owned [OF own] owned_ran [OF prune_owned [OF own]] prune_running [of s] prune_pending [of s]
      prune_loop_sizes [of s "\<lambda>_. 0" ?ps env] prune_loop_distinct [of ?ps s "\<lambda>_. 0"] prune_loop_subset [of s "\<lambda>_. 0" ?ps]
    unfolding recovery_valid_def valid_recovery_iff by (auto simp: prune_points)
qed

text \<open>A recovery that is running is one of the profile that starts.\<close>

definition own_recovery :: "resolved_launch \<Rightarrow> version_recovery \<Rightarrow> bool" where
  "own_recovery launch s = (case vr_Pending s of None \<Rightarrow> True
     | Some o' \<Rightarrow> ro_Status o' = ''running'' \<longrightarrow>
        (\<forall>p \<in> set (vr_Points s). pt_ID p = ro_PointID o' \<longrightarrow> rc_Profile (pt_Target p) = rc_Profile (rl_Target launch)))"

definition room_for :: "mgr_env \<Rightarrow> version_recovery \<Rightarrow> string \<Rightarrow> version_input \<Rightarrow> bool" where
  "room_for env s newID input \<longleftrightarrow> newID \<noteq> [] \<and> newID \<notin> point_ids s \<and> length (vr_Points s) < 1024 \<and>
     me_input_size env input \<le> 12 * 2 ^ 20 \<and> sizes env (vr_Points s) + me_input_size env input \<le> 32 * 2 ^ 20"

lemma update_first_map: "(\<And>x. key (f x) = key x) \<Longrightarrow> map key (update_first P f xs) = map key xs"
  by (induction xs) auto

lemma update_first_set: "distinct (map key xs) \<Longrightarrow> set (update_first (\<lambda>x. key x = k) f xs) = (\<lambda>x. if key x = k then f x else x) ` set xs"
  by (induction xs) (auto simp: image_iff)

lemma point_Some: "point s i = Some p \<Longrightarrow> p \<in> set (vr_Points s) \<and> pt_ID p = i"
  by (auto simp: point_def find_Some_iff)

lemma refreshed_point_owner:
  assumes "recovery_valid env s" "own_recovery launch s" "point s (point_to_refresh launch s) = Some p"
  shows "point_key p = profilePointKey (rc_Profile (rl_Target launch))"
proof (cases "\<exists>o'. vr_Pending s = Some o' \<and> ro_Status o' = ''running''")
  case True
  with assms(2) point_Some [OF assms(3)] show ?thesis
    by (auto simp: own_recovery_def point_to_refresh_def point_key_def)
next
  case False
  let ?k = "profilePointKey (rc_Profile (rl_Target launch))"
  have p: "p \<in> set (vr_Points s)" "pt_ID p = last_of (vr_LastByProfile s) ?k"
    using point_Some [OF assms(3)] False by (auto simp: point_to_refresh_def split: option.splits if_splits)
  have ids: "distinct (map pt_ID (vr_Points s))" "pt_ID p \<noteq> []"
    using assms(1) p(1) by (auto simp: recovery_valid_def valid_recovery_iff point_ok_def)
  then obtain i where i: "vr_LastByProfile s ?k = Some i" "i = pt_ID p"
    using p(2) by (auto simp: last_of_def split: option.splits)
  then obtain q where "q \<in> set (vr_Points s)" "pt_ID q = pt_ID p" "point_key q = ?k"
    using assms(1) by (auto simp: recovery_valid_def owned_def)
  with p ids show ?thesis by (metis distinct_map inj_onD)
qed

lemma add_point_valid:
  assumes "recovery_valid env s" "room_for env s (pt_ID p) (pt_Input p)" "validateRunContext env (pt_Target p) = None"
  shows "recovery_valid env (s\<lparr>vr_Points := vr_Points s @ [p]\<rparr>)"
  using assms unfolding recovery_valid_def valid_recovery_iff room_for_def
  by (auto simp: point_ok_def owned_def sizes_def)

lemma refresh_point_valid:
  assumes valid: "recovery_valid env s"
    and same: "\<And>p. pt_ID (f p) = pt_ID p" "\<And>p. pt_Input (f p) = pt_Input p"
    and key: "\<And>p. p \<in> set (vr_Points s) \<Longrightarrow> pt_ID p = i \<Longrightarrow> point_key (f p) = point_key p \<and> validateRunContext env (pt_Target (f p)) = None"
  shows "recovery_valid env (update_point i f s)"
proof -
  let ?ps = "update_first (\<lambda>p. pt_ID p = i) f (vr_Points s)"
  have ids: "map pt_ID ?ps = map pt_ID (vr_Points s)" "map pt_Input ?ps = map pt_Input (vr_Points s)"
    using same by (auto intro: update_first_map)
  have sizes: "sizes env ?ps = sizes env (vr_Points s)"
    using arg_cong [OF ids(2), of "\<lambda>is. sum_list (map (me_input_size env) is)"] by (simp add: sizes_def comp_def)
  have "distinct (map pt_ID (vr_Points s))" using valid by (simp add: recovery_valid_def valid_recovery_iff)
  note set = update_first_set [OF this, of i f]
  have "\<forall>p \<in> set ?ps. point_ok env p"
    using valid key same unfolding set by (auto simp: recovery_valid_def valid_recovery_iff point_ok_def)
  moreover have "owned (s\<lparr>vr_Points := ?ps\<rparr>)"
  proof -
    have "\<exists>q \<in> set ?ps. pt_ID q = pt_ID p \<and> point_key q = point_key p" if "p \<in> set (vr_Points s)" for p
      unfolding set using that key [OF that] same(1) by (cases "pt_ID p = i") force+
    then show ?thesis using valid by (fastforce simp: owned_def recovery_valid_def)
  qed
  moreover have "pt_ID ` set ?ps = point_ids s" "length ?ps = length (vr_Points s)"
    using arg_cong [OF ids(1), of set] arg_cong [OF ids(1), of length] by simp_all
  ultimately show ?thesis
    using valid ids sizes unfolding recovery_valid_def valid_recovery_iff update_point_def by simp
qed

lemma record_versions_valid:
  assumes "recovery_valid env s" "own_recovery launch s" "room_for env s newID (pt_Input actual)"
    "validateRunContext env (rl_Target launch) = None" "pt_Target actual = rl_Target launch"
  shows "recovery_valid env (fst (record_versions launch now newID actual s))"
proof -
  let ?key = "profilePointKey (rc_Profile (rl_Target launch))"
  have step: "recovery_valid env (s'\<lparr>vr_LastByProfile := (vr_LastByProfile s')(?key \<mapsto> pt_ID p), vr_LastRunning := pt_ID p\<rparr>)"
    if "recovery_valid env s'" "p \<in> set (vr_Points s')" "point_key p = ?key" for s' p
    using that unfolding recovery_valid_def valid_recovery_iff
    by (auto simp: owned_def ran_def split: if_splits)
  let ?fresh = "actual\<lparr>pt_ID := newID, pt_Kind := ''automatic'', pt_Label := [], pt_CreatedAt := now, pt_LastVerifiedAt := now\<rparr>"
  let ?refresh = "\<lambda>p. p\<lparr>pt_LastVerifiedAt := now, pt_Target := rl_Target launch\<rparr>"
  have fresh: "recovery_valid env (s\<lparr>vr_Points := vr_Points s @ [?fresh]\<rparr>)"
    using assms by (intro add_point_valid) simp_all
  let ?i = "point_to_refresh launch s"
  have old: "recovery_valid env (update_point ?i ?refresh s)" "?refresh p \<in> set (vr_Points (update_point ?i ?refresh s))"
    if found: "point s ?i = Some p" for p
  proof -
    have p: "p \<in> set (vr_Points s)" "pt_ID p = ?i" using point_Some [OF found] by auto
    have ids: "distinct (map pt_ID (vr_Points s))" using assms(1) by (simp add: recovery_valid_def valid_recovery_iff)
    then have "q = p" if "q \<in> set (vr_Points s)" "pt_ID q = ?i" for q using p that by (metis distinct_map inj_onD)
    then show "recovery_valid env (update_point ?i ?refresh s)"
      using refreshed_point_owner [OF assms(1,2) found] assms(1,4) by (intro refresh_point_valid) (force simp: point_key_def)+
    show "?refresh p \<in> set (vr_Points (update_point ?i ?refresh s))"
      using p by (auto simp: update_point_def update_first_set [OF ids])
  qed
  show ?thesis
    using step [OF fresh, of ?fresh] assms(5) step [OF old]
    by (auto simp: record_versions_def Let_def point_key_def split: option.splits dest: point_Some)
qed

lemma finish_pending_valid: "recovery_valid env s \<Longrightarrow> recovery_valid env (finish_pending s)"
  unfolding recovery_valid_def valid_recovery_iff by (auto simp: finish_pending_def owned_def)

lemma readVersionPoint_target: "readVersionPoint pe c launch = Inr p \<Longrightarrow> pt_Target p = rl_Target launch"
  by (auto simp: readVersionPoint_def finishVersionPoint_def Let_def split: if_splits capture.splits)


end
