(* ===== verification/Manager_Start.thy ===== *)
theory Manager_Start
  imports Restore_Points
begin

text \<open>
  \<open>New\<close>, \<open>normalizeConfig\<close> and the merging of catalogues of \<open>internal/dshmanager/manager.go\<close>, with
  \<open>loadRecords\<close> of \<open>profile_records.go\<close>: what a manager knows after a start.  The application file is
  read and checked, its catalogues are merged into the configured ones, the records of the profiles
  are read, and records that do not make a valid state are set aside unread.  The last part is about
  sequences of operations with restarts between them.
\<close>

subsection \<open>Configuration\<close>

record mgr_config =
  cf_DataDirectories :: "data_directory list"
  cf_Runtimes :: "runtime_info list"
  cf_DSHReleases :: "dsh_release list"
  cf_Nodes :: "node_installation list"
  cf_DefaultRunContext :: run_context
  cf_OfficialRegistry :: string
  cf_MirrorRegistry :: string

fun normalize_each :: "('a \<Rightarrow> mgr_error + 'a) \<Rightarrow> ('a \<Rightarrow> 'k) \<Rightarrow> 'k set \<Rightarrow> 'a list \<Rightarrow> mgr_error + 'a list" where
  "normalize_each f key seen [] = Inr []"
| "normalize_each f key seen (x # xs) =
    (case f x of Inl e \<Rightarrow> Inl e
     | Inr x \<Rightarrow> if key x \<in> seen then Inl ManagerStateInvalid
        else case normalize_each f key (insert (key x) seen) xs of Inl e \<Rightarrow> Inl e | Inr xs \<Rightarrow> Inr (x # xs))"

definition config_directory :: "mgr_env \<Rightarrow> data_directory \<Rightarrow> mgr_error + data_directory" where
  "config_directory env d =
    (if dd_ID d = [] \<or> dd_Path d = [] then Inl ManagerStateInvalid
     else case me_abs env (dd_Path d) of None \<Rightarrow> Inl ManagerStateInvalid
      | Some path \<Rightarrow>
         let d = d\<lparr>dd_Path := me_clean env path, dd_Ownership := (if dd_Ownership d = [] then OwnershipUser else dd_Ownership d)\<rparr>
         in if dd_Ownership d \<noteq> OwnershipDSHWork \<and> dd_Ownership d \<noteq> OwnershipUser then Inl ManagerStateInvalid else Inr d)"

definition normalizeNodeInstallation :: "mgr_env \<Rightarrow> node_installation \<Rightarrow> mgr_error + node_installation" where
  "normalizeNodeInstallation env n =
    (case validateNodeInstallation n of Some e \<Rightarrow> Inl e
     | None \<Rightarrow>
        (case (me_abs env (ni_NodePath n), me_abs env (ni_NPMPath n),
               if ni_PNPMPath n = [] then Some [] else map_option (me_clean env) (me_abs env (ni_PNPMPath n))) of
           (Some node, Some npm, Some pnpm) \<Rightarrow>
             Inr (n\<lparr>ni_NodePath := me_clean env node, ni_NPMPath := me_clean env npm, ni_PNPMPath := pnpm\<rparr>)
         | _ \<Rightarrow> Inl ManagerStateInvalid))"

definition registry_ok :: "string \<Rightarrow> bool" where
  "registry_ok r \<longleftrightarrow> r = [] \<or> has_prefix r ''https://'' \<and> list_all (\<lambda>c. c \<notin> {CHR '' '', CHR 0x09, CHR 0x0D, CHR 0x0A}) r"

definition defaultPluginOfficialRegistry :: string where
  "defaultPluginOfficialRegistry = ''https://registry.npmjs.org/''"

definition defaultPluginMirrorRegistry :: string where
  "defaultPluginMirrorRegistry = ''https://registry.npmmirror.com/''"

definition normalizeConfig :: "mgr_env \<Rightarrow> mgr_config \<Rightarrow> mgr_error + mgr_config" where
  "normalizeConfig env c =
    (let official = (if trim_space (cf_OfficialRegistry c) = [] then defaultPluginOfficialRegistry else cf_OfficialRegistry c);
         mirror = (if cf_MirrorRegistry c = [] then defaultPluginMirrorRegistry else cf_MirrorRegistry c)
     in if \<not> registry_ok official \<or> \<not> registry_ok mirror then Inl ManagerStateInvalid
        else case normalize_each (config_directory env) dd_ID {} (cf_DataDirectories c) of Inl e \<Rightarrow> Inl e
         | Inr directories \<Rightarrow>
        (case normalize_each (normalizeRuntime env) ri_ID {} (cf_Runtimes c) of Inl e \<Rightarrow> Inl e
         | Inr runtimes \<Rightarrow>
        (case check_each validateDSHRelease dr_Version ManagerStateInvalid {} (cf_DSHReleases c) of Some e \<Rightarrow> Inl e
         | None \<Rightarrow>
        (case normalize_each (normalizeNodeInstallation env) ni_ID {} (cf_Nodes c) of Inl e \<Rightarrow> Inl e
         | Inr nodes \<Rightarrow>
        (case (if rc_RuntimeID (cf_DefaultRunContext c) = [] then Some (rc_Node (cf_DefaultRunContext c))
               else normalizeNodeSelection (rc_Node (cf_DefaultRunContext c))) of None \<Rightarrow> Inl ManagerStateInvalid
         | Some selection \<Rightarrow>
             Inr (c\<lparr>cf_DataDirectories := directories, cf_Runtimes := runtimes, cf_Nodes := nodes,
                    cf_DefaultRunContext := (cf_DefaultRunContext c)\<lparr>rc_Node := selection\<rparr>,
                    cf_OfficialRegistry := official, cf_MirrorRegistry := mirror\<rparr>))))))"

definition merge_directory :: "data_directory \<Rightarrow> data_directory list \<Rightarrow> data_directory list" where
  "merge_directory d merged =
    (case find (\<lambda>x. dd_ID x = dd_ID d) merged of
       None \<Rightarrow> merged @ [d]
     | Some x \<Rightarrow> if dd_Ownership x \<noteq> OwnershipDSHWork then replace_by dd_ID d merged else merged)"

definition mergeDataDirectories :: "data_directory list \<Rightarrow> data_directory list \<Rightarrow> data_directory list" where
  "mergeDataDirectories base persisted = fold merge_directory persisted base"

definition mergeRuntimes :: "runtime_info list \<Rightarrow> runtime_info list \<Rightarrow> runtime_info list" where
  "mergeRuntimes base persisted = fold (replace_by ri_ID) persisted base"

definition mergeNodes :: "node_installation list \<Rightarrow> node_installation list \<Rightarrow> node_installation list" where
  "mergeNodes base persisted = fold (replace_by ni_ID) persisted base"

subsection \<open>Starting\<close>

text \<open>
  The start of a manager: \<open>dk_app\<close> is what the store read.  When the records and the application file
  together are not a valid state, no record is used and every record file that exists is left alone.
\<close>

definition record_files :: "mgr_env \<Rightarrow> disk \<Rightarrow> data_directory list \<Rightarrow> record_path set" where
  "record_files env d directories =
    {path_of p kind | p kind. p \<in> set (fst (recordProfiles env d directories)) \<and> dk_records d (path_of p kind) \<noteq> None}"

definition no_state :: mgr_state where
  "no_state = \<lparr>st_VersionRecovery = None, st_LastSwitchAttempt = None, st_DataDirectories = [], st_Runtimes = [], st_Nodes = [],
     st_LatestNode = None, st_DSHReleases = [], st_PluginProvenance = [], st_Configured = None\<rparr>"

definition loaded_recovery :: "loaded \<Rightarrow> version_recovery option \<Rightarrow> version_recovery option" where
  "loaded_recovery l recovery =
    map_option (\<lambda>r. pruneRecordReferences (r\<lparr>vr_Points := ld_points l, vr_LastByProfile := ld_last l\<rparr>))
      (if recovery = None \<and> ld_points l \<noteq> [] then Some empty_recovery else recovery)"

definition set_aside :: "version_recovery \<Rightarrow> version_recovery" where
  "set_aside r = r\<lparr>vr_Points := [], vr_LastByProfile := Map.empty, vr_LastRunning := [], vr_Pending := None\<rparr>"

definition loadRecords ::
    "mgr_env \<Rightarrow> disk \<Rightarrow> data_directory list \<Rightarrow> mgr_state option \<Rightarrow> version_recovery option \<Rightarrow>
     version_recovery option \<times> plugin_provenance list \<times> record_path set" where
  "loadRecords env d directories appState recovery =
    (let l = loadProfileRecords env d directories; recovery = loaded_recovery l recovery;
         merged = (case appState of None \<Rightarrow> no_state | Some s \<Rightarrow> s)\<lparr>st_VersionRecovery := recovery, st_PluginProvenance := ld_provenance l\<rparr>
     in if validateState env merged = None then (recovery, ld_provenance l, ld_unreadable l)
        else (map_option set_aside recovery, [], ld_unreadable l \<union> record_files env d directories))"

definition merge_config :: "mgr_state \<Rightarrow> mgr_config \<Rightarrow> mgr_config" where
  "merge_config s c =
    c\<lparr>cf_DataDirectories := mergeDataDirectories (cf_DataDirectories c) (st_DataDirectories s),
      cf_Runtimes := mergeRuntimes (cf_Runtimes c) (st_Runtimes s), cf_Nodes := mergeNodes (cf_Nodes c) (st_Nodes s)\<rparr>"

definition started :: "mgr_env \<Rightarrow> mgr_config \<Rightarrow> disk \<Rightarrow> manager" where
  "started env c d =
    (let state = dk_app d;
         (recovery, provenance, unreadable) = loadRecords env d (cf_DataDirectories c) state
            (case state of None \<Rightarrow> None | Some s \<Rightarrow> Some (cloneVersionRecovery (st_VersionRecovery s)))
     in \<lparr>mg_DataDirectories = cf_DataDirectories c, mg_Runtimes = cf_Runtimes c, mg_Nodes = cf_Nodes c,
         mg_configured = (case state of Some s \<Rightarrow>
              (case st_Configured s of Some t \<Rightarrow> Some t
               | None \<Rightarrow> if rc_RuntimeID (cf_DefaultRunContext c) \<noteq> [] then Some (cf_DefaultRunContext c) else None)
            | None \<Rightarrow> if rc_RuntimeID (cf_DefaultRunContext c) \<noteq> [] then Some (cf_DefaultRunContext c) else None),
         mg_current = None,
         mg_knownGood = (case recovery of None \<Rightarrow> None | Some r \<Rightarrow> map_option pt_Target (point r (vr_LastRunning r))),
         mg_versionRecovery = recovery, mg_verifiedPoint = None, mg_restoreSaveError = [],
         mg_latestNode = (case state of None \<Rightarrow> None | Some s \<Rightarrow> st_LatestNode s),
         mg_dshReleases = (case state of None \<Rightarrow> cf_DSHReleases c | Some s \<Rightarrow> st_DSHReleases s),
         mg_pluginProvenance = provenance,
         mg_lastSwitchAttempt = (case state of None \<Rightarrow> None | Some s \<Rightarrow> st_LastSwitchAttempt s),
         mg_switching = False, mg_recordCache = Map.empty, mg_unreadableRecords = unreadable\<rparr>)"

definition New_manager :: "mgr_env \<Rightarrow> mgr_config \<Rightarrow> disk \<Rightarrow> mgr_error + manager" where
  "New_manager env config d =
    (case normalizeConfig env config of Inl e \<Rightarrow> Inl e
     | Inr c \<Rightarrow>
        (case dk_app d of
           None \<Rightarrow> Inr (started env c d)
         | Some s \<Rightarrow>
            if validateAppState env (persistState s) \<noteq> None then Inl ManagerStateInvalid
            else case normalizeConfig env (merge_config s c) of Inl e \<Rightarrow> Inl e
             | Inr c \<Rightarrow> Inr (started env c d)))"

subsection \<open>What a start gives\<close>

lemma pruned_references [simp]: "vr_SchemaVersion (pruneRecordReferences r) = vr_SchemaVersion r"
  by (simp add: pruneRecordReferences_def)

text \<open>The records that are used, and the empty ones that replace them, fit the checked application file.\<close>

lemma set_aside_valid: "vr_SchemaVersion r = 1 \<Longrightarrow> validateVersionRecovery env (Some (set_aside r)) = None"
  by (simp add: validateVersionRecovery_def set_aside_def)

lemma app_part_valid:
  assumes "case app of None \<Rightarrow> True | Some s \<Rightarrow> validateAppState env (persistState s) = None"
    and "s = (case app of None \<Rightarrow> no_state | Some s \<Rightarrow> s)" "validateVersionRecovery env r = None"
  shows "validateState env (s\<lparr>st_VersionRecovery := r, st_PluginProvenance := []\<rparr>) = None"
  using assms by (cases app) (simp_all add: validateAppState_def validateState_def validate_catalogues_def persistState_def no_state_def validateConfigured_def)

lemma loadRecords_cases:
  assumes "loadRecords env d dirs app recovery = (r, ps, U)"
  obtains (used) "validateState env ((case app of None \<Rightarrow> no_state | Some s \<Rightarrow> s)\<lparr>st_VersionRecovery := r, st_PluginProvenance := ps\<rparr>) = None"
      "r = loaded_recovery (loadProfileRecords env d dirs) recovery"
  | (aside) "r = map_option set_aside (loaded_recovery (loadProfileRecords env d dirs) recovery)" "ps = []"
proof (cases "validateState env ((case app of None \<Rightarrow> no_state | Some s \<Rightarrow> s)\<lparr>
    st_VersionRecovery := loaded_recovery (loadProfileRecords env d dirs) recovery,
    st_PluginProvenance := ld_provenance (loadProfileRecords env d dirs)\<rparr>) = None")
  case True
  with assms show ?thesis by (intro used) (simp_all add: loadRecords_def Let_def)
next
  case False
  with assms show ?thesis by (intro aside) (simp_all add: loadRecords_def Let_def)
qed

lemma loaded_schema:
  "loaded_recovery l recovery = Some x \<Longrightarrow> (case recovery of None \<Rightarrow> True | Some s \<Rightarrow> vr_SchemaVersion s = 1) \<Longrightarrow> vr_SchemaVersion x = 1"
  by (cases recovery) (auto simp: loaded_recovery_def empty_recovery_def split: if_splits)

lemma loadRecords_valid:
  assumes "loadRecords env d dirs app recovery = (r, ps, U)"
    and "case app of None \<Rightarrow> True | Some s \<Rightarrow> validateAppState env (persistState s) = None"
    and "case recovery of None \<Rightarrow> True | Some s \<Rightarrow> vr_SchemaVersion s = 1"
  shows "validateState env ((case app of None \<Rightarrow> no_state | Some s \<Rightarrow> s)\<lparr>st_VersionRecovery := r, st_PluginProvenance := ps\<rparr>) = None"
  using assms(1)
proof (cases rule: loadRecords_cases)
  case used
  then show ?thesis by blast
next
  case aside
  have "validateVersionRecovery env r = None"
  proof (cases "loaded_recovery (loadProfileRecords env d dirs) recovery")
    case None
    then show ?thesis using aside(1) by (simp add: validateVersionRecovery_def)
  next
    case (Some x)
    then show ?thesis using aside(1) set_aside_valid [OF loaded_schema [OF Some assms(3)]] by simp
  qed
  then show ?thesis unfolding aside(2) by (rule app_part_valid [OF assms(2) refl])
qed

lemma normalize_each_ids:
  assumes "normalize_each f key seen xs = Inr ys" "\<And>x y. f x = Inr y \<Longrightarrow> key y = key x"
  shows "map key ys = map key xs \<and> distinct (map key ys) \<and> key ` set ys \<inter> seen = {} \<and> (\<forall>y \<in> set ys. \<exists>x \<in> set xs. f x = Inr y)"
  using assms(1)
proof (induction xs arbitrary: seen ys)
  case (Cons x xs)
  then obtain y zs where "f x = Inr y" "key y \<notin> seen" "normalize_each f key (insert (key y) seen) xs = Inr zs" "ys = y # zs"
    by (auto split: sum.splits if_splits)
  moreover from this Cons.IH have IH: "map key zs = map key xs \<and> distinct (map key zs) \<and> key ` set zs \<inter> insert (key y) seen = {} \<and>
      (\<forall>y \<in> set zs. \<exists>x \<in> set xs. f x = Inr y)" by blast
  moreover from this have "key ` set zs = key ` set xs" by (metis list.set_map)
  ultimately show ?case using assms(2) [of x y] by auto
qed simp

lemma replace_by_ids: "key ` set (fold (replace_by key) xs base) = key ` set base \<union> key ` set xs"
  by (induction xs arbitrary: base) (auto simp: key_replace_by)

lemma merge_directory_ids: "dd_ID ` set (merge_directory d ds) = insert (dd_ID d) (dd_ID ` set ds)"
proof (cases "find (\<lambda>x. dd_ID x = dd_ID d) ds")
  case (Some x)
  then have "dd_ID d \<in> dd_ID ` set ds" by (auto simp: find_Some_iff) (metis image_eqI nth_mem)
  with Some show ?thesis by (auto simp: merge_directory_def key_replace_by)
qed (auto simp: merge_directory_def)

lemma replace_by_other: "x \<in> set xs \<Longrightarrow> key x \<noteq> key y \<Longrightarrow> x \<in> set (replace_by key y xs)"
proof (induction xs)
  case (Cons z zs)
  show ?case
  proof (cases "key z = key y")
    case True
    then have "replace_by key y (z # zs) = y # zs" by (simp add: replace_by_def)
    with Cons.prems True show ?thesis by auto
  next
    case False
    then have "replace_by key y (z # zs) = z # replace_by key y zs" by (auto simp: replace_by_def)
    with Cons show ?thesis by auto
  qed
qed simp

lemma replace_by_in: "x \<in> set (replace_by key y xs) \<Longrightarrow> x = y \<or> x \<in> set xs"
proof (induction xs)
  case (Cons z zs)
  show ?case
  proof (cases "key z = key y")
    case True
    then have "replace_by key y (z # zs) = y # zs" by (simp add: replace_by_def)
    with Cons.prems show ?thesis by auto
  next
    case False
    then have "replace_by key y (z # zs) = z # replace_by key y zs" by (auto simp: replace_by_def)
    with Cons show ?thesis by auto
  qed
qed (simp add: replace_by_def)

text \<open>A data directory of the application keeps its place and ownership, whatever the file says.\<close>

lemma app_directory_not_replaced:
  assumes "d \<in> set base" "dd_Ownership d = OwnershipDSHWork" "distinct (map dd_ID base)"
  shows "d \<in> set (mergeDataDirectories base persisted)"
proof -
  have "d \<in> set (fold merge_directory ps ds) \<and> (\<forall>x \<in> set (fold merge_directory ps ds). dd_ID x = dd_ID d \<longrightarrow> x = d)"
    if "d \<in> set ds" "\<forall>x \<in> set ds. dd_ID x = dd_ID d \<longrightarrow> x = d" for ps ds
    using that
  proof (induction ps arbitrary: ds)
    case (Cons p ps)
    have "d \<in> set (merge_directory p ds) \<and> (\<forall>x \<in> set (merge_directory p ds). dd_ID x = dd_ID d \<longrightarrow> x = d)"
    proof (cases "dd_ID p = dd_ID d")
      case True
      then have "find (\<lambda>x. dd_ID x = dd_ID p) ds = Some d"
        using Cons.prems by (cases "find (\<lambda>x. dd_ID x = dd_ID p) ds") (auto simp: find_None_iff find_Some_iff)
      with Cons.prems assms(2) show ?thesis by (auto simp: merge_directory_def)
    next
      case False
      with Cons.prems show ?thesis
        by (auto simp: merge_directory_def replace_by_other split: option.splits if_splits dest!: replace_by_in)
    qed
    then have "d \<in> set (merge_directory p ds)" "\<forall>x \<in> set (merge_directory p ds). dd_ID x = dd_ID d \<longrightarrow> x = d" by blast+
    from Cons.IH [OF this] show ?case by simp
  qed simp
  with assms show ?thesis unfolding mergeDataDirectories_def by (metis distinct_map inj_onD)
qed

text \<open>A start from a checked application file gives a state that can be saved.\<close>

lemma config_directory_valid:
  "config_directory env d = Inr d' \<Longrightarrow> \<forall>p. me_clean env p \<noteq> [] \<Longrightarrow> dd_ID d' = dd_ID d \<and> validateDataDirectory d' = None"
  by (auto simp: config_directory_def Let_def validateDataDirectory_def OwnershipUser_def split: if_splits option.splits)

lemma normalizeNode_paths:
  "normalizeNodeInstallation env n = Inr n' \<Longrightarrow> validateNodeInstallation n = None \<and>
     (\<exists>a b c. n' = n\<lparr>ni_NodePath := me_clean env a, ni_NPMPath := me_clean env b, ni_PNPMPath := c\<rparr>)"
  unfolding normalizeNodeInstallation_def by (auto split: option.splits if_splits)

lemma validateNode_paths:
  "validateNodeInstallation n = None \<Longrightarrow> a \<noteq> [] \<Longrightarrow> b \<noteq> [] \<Longrightarrow>
     validateNodeInstallation (n\<lparr>ni_NodePath := a, ni_NPMPath := b, ni_PNPMPath := c\<rparr>) = None"
  by (simp add: validateNodeInstallation_def split: if_splits)

lemma normalizeNode_valid:
  "normalizeNodeInstallation env n = Inr n' \<Longrightarrow> \<forall>p. me_clean env p \<noteq> [] \<Longrightarrow> ni_ID n' = ni_ID n \<and> validateNodeInstallation n' = None"
  using normalizeNode_paths validateNode_paths by fastforce

lemma normalizeConfig_success:
  assumes "normalizeConfig env c = Inr c'"
  shows "normalize_each (config_directory env) dd_ID {} (cf_DataDirectories c) = Inr (cf_DataDirectories c') \<and>
    normalize_each (normalizeNodeInstallation env) ni_ID {} (cf_Nodes c) = Inr (cf_Nodes c') \<and>
    rc_RuntimeID (cf_DefaultRunContext c') = rc_RuntimeID (cf_DefaultRunContext c)"
  using assms by (auto simp: normalizeConfig_def Let_def split: if_splits sum.splits option.splits)

lemma normalizeNode_id: "normalizeNodeInstallation env n = Inr n' \<Longrightarrow> ni_ID n' = ni_ID n"
  by (auto simp: normalizeNodeInstallation_def split: option.splits if_splits)

lemma config_directory_id: "config_directory env d = Inr d' \<Longrightarrow> dd_ID d' = dd_ID d"
  by (auto simp: config_directory_def Let_def split: option.splits if_splits)


subsection \<open>A recovery is resumed at most once\<close>

definition spent_operation :: "recovery_operation \<Rightarrow> bool" where
  "spent_operation o' \<longleftrightarrow> ro_Status o' = ''completed'' \<or> ro_Status o' = ''failed'' \<or> 1 \<le> ro_ResumeCount o'"

definition spent :: "version_recovery option \<Rightarrow> bool" where
  "spent r = (case r of None \<Rightarrow> True | Some s \<Rightarrow> (case vr_Pending s of None \<Rightarrow> True | Some o' \<Rightarrow> spent_operation o'))"

definition spent_world :: "world \<Rightarrow> bool" where
  "spent_world w \<longleftrightarrow> spent (mg_versionRecovery (fst w)) \<and> (\<forall>s. dk_app (snd w) = Some s \<longrightarrow> spent (st_VersionRecovery s))"

text \<open>Everything that happens between two automatic resumptions, short of the user choosing a point.\<close>

datatype point_op =
    OpManager mgr_op
  | OpCommitHealthy capture capture string string resolved_launch
  | OpSaveRestorePoint capture string string string
  | OpEditRestorePoint string string bool
  | OpFailVersionRecovery
  | OpResume recover_io bool
  | OpRestart mgr_config

fun point_step :: "mgr_env \<Rightarrow> launch_env \<Rightarrow> point_env \<Rightarrow> save_io \<times> point_op \<Rightarrow> world \<Rightarrow> world" where
  "point_step env le pe (io, OpManager x) w = mgr_step env le (io, x) w"
| "point_step env le pe (io, OpCommitHealthy c1 c2 now newID launch) w = fst (commitVersionHealthy env pe io c1 c2 now newID launch w)"
| "point_step env le pe (io, OpSaveRestorePoint c now newID label) w = fst (SaveRestorePoint env le pe io c now newID label w)"
| "point_step env le pe (io, OpEditRestorePoint ident label remove) w = fst (EditRestorePoint env io ident label remove w)"
| "point_step env le pe (io, OpFailVersionRecovery) w = FailVersionRecovery env io w"
| "point_step env le pe (io, OpResume rx automatic) w = fst (ResumeVersionRecovery env le pe rx io automatic w)"
| "point_step env le pe (io, OpRestart config) w = (case New_manager env config (snd w) of Inl e \<Rightarrow> w | Inr m \<Rightarrow> (m, snd w))"

lemma spent_clone [simp]: "spent (Some (cloneVersionRecovery r)) = spent r"
  by (simp add: spent_def cloneVersionRecovery_def empty_recovery_def split: option.splits)

lemma spent_persist [simp]: "spent (st_VersionRecovery (persistState s)) = spent (st_VersionRecovery s)"
  by (simp add: spent_def persistState_def split: option.splits)

lemma spent_pending: "vr_Pending s = vr_Pending s' \<Longrightarrow> spent (Some s) = spent (Some s')"
  by (simp add: spent_def)

text \<open>A save that succeeds leaves what it wrote, one that fails leaves the manager and the file.\<close>

lemma save_then_spent:
  assumes "spent (st_VersionRecovery s)" "\<And>c. spent (mg_versionRecovery (upd ((fst w)\<lparr>mg_recordCache := c\<rparr>)))"
  shows "snd (save_then env io s upd w) = None \<or> spent_world w \<Longrightarrow> spent_world (fst (save_then env io s upd w))"
proof -
  obtain c d e where save: "saveState env io (mg_unreadableRecords (fst w)) s (mg_recordCache (fst w)) (snd w) = (c, d, e)"
    by (metis prod.exhaust)
  show "snd (save_then env io s upd w) = None \<or> spent_world w \<Longrightarrow> spent_world (fst (save_then env io s upd w))"
  proof (cases e)
    case None
    have "dk_app d = Some (persistState s)" by (rule saveState_success [OF save [unfolded None]]) simp
    then show ?thesis using assms save None by (simp add: save_then_def spent_world_def)
  next
    case (Some x)
    then show "snd (save_then env io s upd w) = None \<or> spent_world w \<Longrightarrow> spent_world (fst (save_then env io s upd w))"
      using saveState_failure [OF save [unfolded Some]] save by (simp add: save_then_def spent_world_def)
  qed
qed

lemma saveVersionState_spent:
  assumes "saveVersionState env io s w = (w', e)" "spent (Some s)" "e = None \<or> spent_world w"
  shows "spent_world w'"
  using save_then_spent [of "(stateLocked (fst w))\<lparr>st_VersionRecovery := Some s\<rparr>" "\<lambda>m. m\<lparr>mg_versionRecovery := Some s\<rparr>" w env io] assms
  by (simp add: saveVersionState_def)

lemma setRecoveryStage_spent:
  assumes "setRecoveryStage env io stage status detail w = (w', e)" "spent_world w"
    and "status = ''failed'' \<or> (\<exists>o'. PendingVersionRecovery (fst w) = Some o' \<and> 1 \<le> ro_ResumeCount o')"
  shows "spent_world w'"
proof (cases "PendingVersionRecovery (fst w)")
  case None
  then show ?thesis using assms by (simp add: setRecoveryStage_def PendingVersionRecovery_def)
next
  case (Some o')
  have "spent (Some ((cloneVersionRecovery (mg_versionRecovery (fst w)))\<lparr>vr_Pending :=
      Some (o'\<lparr>ro_Stage := stage, ro_Status := status, ro_Error := take 1000 detail\<rparr>)\<rparr>))"
    using assms(3) Some by (auto simp: spent_def spent_operation_def)
  then show ?thesis
    using assms(1,2) Some by (auto simp: setRecoveryStage_def PendingVersionRecovery_def intro: saveVersionState_spent)
qed

lemma saveVersionState_manager:
  assumes "saveVersionState env io s w = (w', e)"
  shows "mg_versionRecovery (fst w') = (if e = None then Some s else mg_versionRecovery (fst w))"
  using assms by (auto simp: saveVersionState_def save_then_def split: prod.splits option.splits)

definition resumed_world :: "world \<Rightarrow> bool" where
  "resumed_world w \<longleftrightarrow> spent_world w \<and> (\<exists>o'. PendingVersionRecovery (fst w) = Some o' \<and> 1 \<le> ro_ResumeCount o')"

lemma setRecoveryStage_resumed:
  assumes "setRecoveryStage env io stage status detail w = (w', e)" "resumed_world w"
  shows "resumed_world w'"
proof -
  obtain o' where o': "PendingVersionRecovery (fst w) = Some o'" "1 \<le> ro_ResumeCount o'" "spent_world w"
    using assms(2) by (auto simp: resumed_world_def)
  have "spent_world w'" using setRecoveryStage_spent [OF assms(1)] o' by blast
  moreover have "\<exists>o'. PendingVersionRecovery (fst w') = Some o' \<and> 1 \<le> ro_ResumeCount o'"
    using assms(1) o' saveVersionState_manager
    by (fastforce simp: setRecoveryStage_def PendingVersionRecovery_def cloneVersionRecovery_def split: if_splits)
  ultimately show ?thesis by (simp add: resumed_world_def)
qed

lemma recovery_failed_resumed: "recovery_failed env pe rx e w = (w', x) \<Longrightarrow> resumed_world w \<Longrightarrow> resumed_world w'"
  by (auto simp: recovery_failed_def intro: setRecoveryStage_resumed [OF prod.collapse [symmetric]])

lemma runtimes_resumed:
  assumes "save_then env io ((stateLocked (fst w))\<lparr>st_Runtimes := r\<rparr>) (\<lambda>m. m\<lparr>mg_Runtimes := r\<rparr>) w = (w', e)" "resumed_world w"
  shows "resumed_world w'"
proof -
  have "spent_world w" "spent (mg_versionRecovery (fst w))" using assms(2) by (auto simp: resumed_world_def spent_world_def)
  then have "spent_world w'"
    using save_then_spent [of "(stateLocked (fst w))\<lparr>st_Runtimes := r\<rparr>" "\<lambda>m. m\<lparr>mg_Runtimes := r\<rparr>" w env io] assms(1)
    by (simp add: stateLocked_def)
  moreover have "mg_versionRecovery (fst w') = mg_versionRecovery (fst w)"
    using assms(1) by (auto simp: save_then_def split: prod.splits option.splits)
  ultimately show ?thesis using assms(2) by (simp add: resumed_world_def PendingVersionRecovery_def)
qed

lemma install_point_resumed: "install_point env le pe rx p m w = (w', x) \<Longrightarrow> resumed_world w \<Longrightarrow> resumed_world w'"
  unfolding install_point_def Let_def
  by (auto split: sum.splits option.splits if_splits prod.splits
      dest: recovery_failed_resumed runtimes_resumed setRecoveryStage_resumed)

text \<open>A resumption that passed its first save has used up the one that is allowed, however it ends.\<close>

lemma resume_spends:
  assumes "ResumeVersionRecovery env le pe rx io automatic w = (w', x)" "mg_versionRecovery (fst w') \<noteq> mg_versionRecovery (fst w)"
    and "\<forall>o'. PendingVersionRecovery (fst w) = Some o' \<longrightarrow> 0 \<le> ro_ResumeCount o'"
  shows "resumed_world w'"
proof -
  let ?s = "cloneVersionRecovery (mg_versionRecovery (fst w))"
  obtain o' where o': "PendingVersionRecovery (fst w) = Some o'"
    using assms(1,2) by (auto simp: ResumeVersionRecovery_def split: option.splits)
  let ?s1 = "?s\<lparr>vr_Pending := Some (o'\<lparr>ro_ResumeCount := ro_ResumeCount o' + 1\<rparr>)\<rparr>"
  obtain w1 e where save: "saveVersionState env io ?s1 w = (w1, e)" by (metis prod.exhaust)
  note manager = saveVersionState_manager [OF save]
  have ok: "e = None"
  proof (rule ccontr)
    assume "e \<noteq> None"
    then have "mg_versionRecovery (fst w') = mg_versionRecovery (fst w)"
      using assms(1) o' save manager by (auto simp: ResumeVersionRecovery_def Let_def split: option.splits if_splits)
    with assms(2) show False by simp
  qed
  have run: "\<exists>y. RecoverVersionPoint env le pe rx True (ro_PointID o') w1 = (w', y)"
    using assms(1,2) o' save ok by (auto simp: ResumeVersionRecovery_def Let_def split: if_splits prod.splits sum.splits)
  have spent1: "spent (Some ?s1)" using assms(3) o' by (simp add: spent_def spent_operation_def)
  have "resumed_world w1"
    using saveVersionState_spent [OF save spent1] ok manager assms(3) o' by (simp add: resumed_world_def PendingVersionRecovery_def cloneVersionRecovery_def)
  moreover have "resumed_world w''"
    if "saveVersionState env io' (?s1\<lparr>vr_Pending := Some \<lparr>ro_PointID = i, ro_Stage = a, ro_Status = b, ro_Error = c,
        ro_ResumeCount = ro_ResumeCount o' + 1\<rparr>\<rparr>) w1 = (w'', e)" for io' i a b c w'' e
    using that saveVersionState_manager [OF that] \<open>resumed_world w1\<close> assms(3) o'
    by (auto simp: resumed_world_def PendingVersionRecovery_def cloneVersionRecovery_def spent_def spent_operation_def
        intro!: saveVersionState_spent [OF that] split: if_splits)
  ultimately show ?thesis
    using run manager ok
    by (auto simp: RecoverVersionPoint_def Let_def cloneVersionRecovery_def split: sum.splits if_splits option.splits prod.splits
        dest: install_point_resumed)
qed

lemma resume_refused:
  assumes "spent_world w"
  shows "fst (ResumeVersionRecovery env le pe rx io automatic w) = w \<and> (\<forall>launch. snd (ResumeVersionRecovery env le pe rx io automatic w) \<noteq> Inr (Some launch))"
  using assms
  by (cases "mg_versionRecovery (fst w)")
    (auto simp: ResumeVersionRecovery_def PendingVersionRecovery_def cloneVersionRecovery_def empty_recovery_def spent_world_def spent_def
      spent_operation_def split: option.splits)

lemma pending_recovery_eq: "PendingVersionRecovery m = pending_recovery m"
  by (simp add: PendingVersionRecovery_def pending_recovery_def)

lemma spent_by_pending: "spent (mg_versionRecovery m) = (case pending_recovery m of None \<Rightarrow> True | Some o' \<Rightarrow> spent_operation o')"
  by (auto simp: spent_def pending_recovery_def cloneVersionRecovery_def empty_recovery_def split: option.splits)

lemma kept_spent:
  assumes "kept env w w'" "spent_world w" "pending_recovery (fst w') = pending_recovery (fst w)"
  shows "spent_world w'"
proof -
  have "spent (st_VersionRecovery (stateLocked (fst w'))) = spent (mg_versionRecovery (fst w'))" by (simp add: stateLocked_def)
  with assms show ?thesis by (auto simp: kept_def spent_world_def spent_by_pending)
qed

lemma spent_prune: "spent (Some s) \<Longrightarrow> spent (Some (pruneVersionPoints s))"
  by (auto simp: pruneVersionPoints_def Let_def spent_def split: option.splits)

lemma spent_record: "vr_Pending (fst (record_versions launch now newID actual s)) = vr_Pending s"
  by (auto simp: record_versions_def Let_def update_point_def split: option.splits)

lemma spent_verify: "spent (Some s) \<Longrightarrow> spent (Some (fst (verify_versions pe c now newID launch s)))"
  using spent_record [of launch now newID _ s]
  by (auto simp: verify_versions_def finish_pending_def spent_def spent_operation_def split: option.splits sum.splits prod.splits)

lemma commit_spent:
  assumes "spent_world w"
  shows "spent_world (fst (commitVersionHealthy env pe io c1 c2 now newID launch w))"
proof (cases "io_cancelled io \<or> mg_current (fst w) \<noteq> None \<and> mg_current (fst w) \<noteq> Some (rl_Target launch)")
  case True
  with assms show ?thesis by (auto simp: commitVersionHealthy_def)
next
  case False
  let ?l = "late_seed pe c1 launch"
  obtain s v e where verify: "verify_versions pe c2 now newID ?l (cloneVersionRecovery (mg_versionRecovery (fst w))) = (s, v, e)"
    by (metis prod.exhaust)
  have pruned: "spent (Some (pruneVersionPoints s))"
    using spent_prune [OF spent_verify, of "cloneVersionRecovery (mg_versionRecovery (fst w))" pe c2 now newID ?l] verify assms
    by (simp add: spent_world_def)
  have disk: "spent (st_VersionRecovery a)"
    if "saveState env io U state cache (snd w) = (cache', d', x)" "st_VersionRecovery state = Some (pruneVersionPoints s)" "dk_app d' = Some a"
    for U state cache cache' d' x a
  proof (cases x)
    case None
    have "dk_app d' = Some (persistState state)" by (rule saveState_success [OF that(1) [unfolded None]]) simp
    then show ?thesis using that pruned by auto
  next
    case (Some y)
    then show ?thesis using saveState_failure [OF that(1) [unfolded Some]] that(3) assms by (simp add: spent_world_def)
  qed
  show ?thesis
    using False pruned disk assms verify
    by (auto simp: commitVersionHealthy_def Let_def spent_world_def stateLocked_def cloneVersionRecovery_def split: prod.splits option.splits)
qed

lemma saveVersionState_keeps:
  "spent_world w \<Longrightarrow> spent (Some s) \<Longrightarrow> spent_world (fst (saveVersionState env io s w))"
  by (rule saveVersionState_spent [OF prod.collapse [symmetric]]) auto

lemma spent_cloned: "spent_world w \<Longrightarrow> spent (Some (cloneVersionRecovery (mg_versionRecovery (fst w))))"
  by (simp add: spent_world_def)

lemma ResolveLaunch_spent:
  assumes "ResolveLaunch env le io t w = (w', x)" "spent_world w"
  shows "spent_world w' \<and> mg_versionRecovery (fst w') = mg_versionRecovery (fst w)"
proof -
  have "kept env w (fst (ResolveLaunch env le io t w))" by (rule ResolveLaunch_kept [OF kept_refl])
  moreover have "pending_recovery (fst w') = pending_recovery (fst w)"
    using ResolveLaunch_grows [of w env le io t] assms(1) by (simp add: grows_def)
  moreover have "mg_versionRecovery (fst w') = mg_versionRecovery (fst w)"
    using assms(1)
    by (auto simp: ResolveLaunch_def observeRuntimeVersion_def registerRuntime_def save_then_def Let_def
        split: if_splits option.splits sum.splits prod.splits)
  ultimately show ?thesis using kept_spent [of env w w'] assms by simp
qed

lemma SaveRestorePoint_spent:
  assumes "spent_world w"
  shows "spent_world (fst (SaveRestorePoint env le pe io c now newID label w))"
proof -
  have "spent_world (fst (saveVersionState env io (s\<lparr>vr_Points := ps\<rparr>) w'))"
    if "ResolveLaunch env le io t w = (w', y)" "s = cloneVersionRecovery (mg_versionRecovery (fst w))" for s ps w' t y
    using saveVersionState_keeps [of w' "s\<lparr>vr_Points := ps\<rparr>"] ResolveLaunch_spent [OF that(1) assms] spent_cloned [OF assms]
      spent_pending [of "s\<lparr>vr_Points := ps\<rparr>" s] that by simp
  with assms show ?thesis
    by (auto simp: SaveRestorePoint_def guarded_def Let_def split: option.splits prod.splits sum.splits dest: ResolveLaunch_spent)
qed

lemma EditRestorePoint_spent:
  assumes "spent_world w"
  shows "spent_world (fst (EditRestorePoint env io ident label remove w))"
proof -
  let ?s = "cloneVersionRecovery (mg_versionRecovery (fst w))"
  have "spent (Some (?s\<lparr>vr_Points := ps, vr_Pending := (case vr_Pending ?s of Some o' \<Rightarrow> if ro_PointID o' = ident then None else Some o' | None \<Rightarrow> None)\<rparr>))" for ps
    using spent_cloned [OF assms] by (auto simp: spent_def split: option.splits)
  moreover have "spent (Some (update_point ident f ?s))" for f
    using spent_cloned [OF assms] by (simp add: spent_def update_point_def)
  ultimately show ?thesis
    using assms by (auto simp: EditRestorePoint_def guarded_def Let_def split: option.splits intro!: saveVersionState_keeps)
qed

lemma started_spent:
  assumes "New_manager env config d = Inr m" "\<forall>s. dk_app d = Some s \<longrightarrow> spent (st_VersionRecovery s)"
  shows "spent (mg_versionRecovery m)"
proof -
  obtain c where m: "m = started env c d" using assms(1) by (auto simp: New_manager_def split: sum.splits option.splits if_splits)
  let ?r = "case dk_app d of None \<Rightarrow> None | Some s \<Rightarrow> Some (cloneVersionRecovery (st_VersionRecovery s))"
  obtain r ps U where load: "loadRecords env d (cf_DataDirectories c) (dk_app d) ?r = (r, ps, U)" by (metis prod.exhaust)
  have base: "spent ?r" using assms(2) by (cases "dk_app d") (simp_all add: spent_def [of None])
  have loaded: "spent (loaded_recovery l ?r)" for l
    using base by (auto simp: loaded_recovery_def pruneRecordReferences_def spent_def empty_recovery_def split: option.splits)
  have aside: "spent (map_option set_aside x)" for x by (cases x) (simp_all add: spent_def set_aside_def)
  from load have "spent r" by (cases rule: loadRecords_cases) (use loaded aside in simp_all)
  then show ?thesis using m load by (simp add: started_def Let_def)
qed

lemma point_step_spent [keeps_inv]: "spent_world w \<Longrightarrow> spent_world (point_step env le pe x w)"
proof (induction env le pe x w rule: point_step.induct)
  case (1 env le pe io x w)
  then show ?case
    using kept_spent [OF mgr_step_kept [OF kept_refl] _ mgr_step_pending] by simp
next
  case (5 env le pe io w)
  then show ?case
    by (auto simp: FailVersionRecovery_def split: option.splits intro: setRecoveryStage_spent [OF prod.collapse [symmetric]])
next
  case (6 env le pe io rx automatic w)
  then show ?case by (simp add: resume_refused)
next
  case (7 env le pe io config w)
  then show ?case using started_spent [of env config "snd w"] by (auto simp: spent_world_def split: sum.splits)
qed (simp_all add: commit_spent SaveRestorePoint_spent EditRestorePoint_spent)

interpretation resumption: invariant_system start "point_step env le pe" "\<lambda>w. spent_world start \<longrightarrow> spent_world w" for env le pe start
  by unfold_locales (auto intro: point_step_spent)

text \<open>(C7) An unfinished recovery is resumed automatically at most once, crashes and restarts included: after a
  resumption has started, and until the user chooses a point, no sequence of operations of the
  manager, saves that fail, healthy starts and restarts from the disk makes a further automatic
  resumption do anything.\<close>

theorem resumed_at_most_once:
  assumes "ResumeVersionRecovery env le pe rx io automatic w = (w', x)" "mg_versionRecovery (fst w') \<noteq> mg_versionRecovery (fst w)"
    and "validateVersionRecovery env (mg_versionRecovery (fst w)) = None" "w'' = fold (point_step env le pe) ops w'"
  shows "fst (ResumeVersionRecovery env le pe rx' io' automatic' w'') = w'' \<and>
    (\<forall>launch. snd (ResumeVersionRecovery env le pe rx' io' automatic' w'') \<noteq> Inr (Some launch))"
proof -
  have "\<forall>o'. PendingVersionRecovery (fst w) = Some o' \<longrightarrow> 0 \<le> ro_ResumeCount o'"
    using assms(3) by (cases "mg_versionRecovery (fst w)") (auto simp: PendingVersionRecovery_def cloneVersionRecovery_def empty_recovery_def valid_recovery_iff)
  then have "spent_world w'" using resume_spends [OF assms(1,2)] by (simp add: resumed_world_def)
  then show ?thesis using resumption.inv_run [of w' env le pe ops] assms(4) by (intro resume_refused) simp
qed

end
