(* ===== verification/Host_Run.thy ===== *)
theory Host_Run
  imports Manager_Start
begin

text \<open>
  \<open>internal/app/host.go\<close>: the Host and the generations it runs.  A generation is a goroutine that
  prepares a launch, starts the Worker, waits until it is ready, commits the run context, waits for
  its end and cleans up; \<open>gr_pc\<close> is where that goroutine is, and a step of it is what it does between
  two points where other goroutines can come in.  Starting, stopping, switching and shutting down
  are steps of their callers.  The lifecycle machine and the manager are the modelled ones; what
  adapters, processes and clocks answer, and the failures the Host builds from it, come with each
  step.  \<open>ho_alive\<close> is not part of the code: the generations whose process boundary has been opened and
  not yet been found empty.
\<close>

subsection \<open>State\<close>

datatype run_pc =
    PConfiguration | PNode | PWorkspace | PLaunch | PSelect | PContext | PChannel | PWorkerPhase | PSpawn
  | PReadiness | PAwait | PBoot | PCommit | PMark | PRunning
  | PCleanup "failure option" | PFinish "failure option" | PDefer | PDone

record grun =
  gr_pc :: run_pc
  gr_cancelled :: bool
  gr_done :: bool
  gr_worker :: bool
  gr_cleanupDone :: bool
  gr_managerLive :: bool
  gr_managerGuarded :: bool
  gr_launch :: "resolved_launch option"
  gr_workspace :: ws_context
  gr_target :: "run_context option"
  gr_channel :: bool
  gr_url :: string
  gr_ready :: bool

definition cleanupPending :: "grun \<Rightarrow> bool" where
  "cleanupPending r \<longleftrightarrow> \<not> gr_cleanupDone r \<and> gr_worker r"

record app_host =
  ho_machine :: status
  ho_seq :: "64 word"
  ho_world :: world
  ho_switching :: bool
  ho_managerSwitchGuarded :: bool
  ho_shutdownRequested :: bool
  ho_current :: "string option"
  ho_runs :: "string \<Rightarrow> grun option"
  ho_stops :: "string list"
  ho_alive :: "string set"

text \<open>The adapters that do not change, and what one step is told.\<close>

record host_env =
  hv_env :: mgr_env
  hv_launch :: launch_env
  hv_points :: point_env
  hv_fs :: fs_env
  hv_automatic :: bool

record clean_io =
  ci_guard :: save_io
  ci_clear :: save_io
  ci_busy :: failure
  ci_clearFailure :: failure
  ci_channel :: "failure option"
  ci_exits :: bool
  ci_force :: "failure option"
  ci_empty :: "failure option"
  ci_close :: "failure option"

datatype await =
    AwaitContext | AwaitExit failure | AwaitCandidate "failure option" "failure option" | AwaitDeadline failure

definition ErrorDSHInvalidReadiness :: error_code where
  "ErrorDSHInvalidReadiness = ''DSH_INVALID_READINESS''"

record run_input =
  x_failure :: "failure option"
  x_transition :: failure
  x_workspace :: "ws_context option"
  x_profile :: "failure option"
  x_reached :: nat
  x_plan :: "failure option"
  x_await :: await
  x_io :: save_io
  x_recover :: recover_io
  x_capture :: capture
  x_capture2 :: capture
  x_now :: string
  x_id :: string
  x_url :: string
  x_exited :: bool
  x_clean :: clean_io

definition set_run :: "string \<Rightarrow> grun \<Rightarrow> app_host \<Rightarrow> app_host" where
  "set_run g r h = h\<lparr>ho_runs := (ho_runs h)(g := Some r)\<rparr>"

definition move :: "string \<Rightarrow> grun \<Rightarrow> run_pc \<Rightarrow> app_host \<Rightarrow> app_host" where
  "move g r pc h = set_run g (r\<lparr>gr_pc := pc\<rparr>) h"

definition launchSelection :: "resolved_launch \<Rightarrow> launch_selection" where
  "launchSelection l =
    \<lparr>ls_RuntimeVersion = ri_Version (rl_Runtime l), ls_RuntimePath = ri_Path (rl_Runtime l), ls_NodeVersion = rn_Version (rl_Node l),
     ls_NodePath = rn_NodePath (rl_Node l), ls_DataDirectoryPath = dd_Path (rl_DataDirectory l),
     ls_ProfileName = pr_Name (rc_Profile (rl_Target l)), ls_RuntimeID = rc_RuntimeID (rl_Target l),
     ls_NodeID = (if ns_Kind (rn_Selection (rl_Node l)) = ''system'' then ''system'' else ns_InstallationID (rn_Selection (rl_Node l)))\<rparr>"

definition empty_workspace :: ws_context where
  "empty_workspace = \<lparr>ws_GenerationID = [], ws_State = StateOther [], ws_ID = [], ws_Path = [], ws_Title = []\<rparr>"

definition new_run :: "resolved_launch option \<Rightarrow> grun" where
  "new_run launch = \<lparr>gr_pc = PConfiguration, gr_cancelled = False, gr_done = False, gr_worker = False, gr_cleanupDone = False,
     gr_managerLive = False, gr_managerGuarded = False, gr_launch = launch,
     gr_workspace = empty_workspace, gr_target = None, gr_channel = False, gr_url = [], gr_ready = False\<rparr>"

text \<open>
  \<open>beginRunLocked\<close>.  An identifier that was used before does not occur: it is drawn from 64 random
  bits, and a start that repeated one is left out of the model.
\<close>

definition beginRunLocked :: "64 word option \<Rightarrow> resolved_launch option \<Rightarrow> app_host \<Rightarrow> app_host" where
  "beginRunLocked random launch h =
    (case BeginStart random (ho_machine h, ho_seq h) of
       ((m, seq), g, Some e) \<Rightarrow> h
     | ((m, seq), g, None) \<Rightarrow>
        if ho_runs h g \<noteq> None then h
        else (set_run g (new_run launch) h)
          \<lparr>ho_machine := (case launch of None \<Rightarrow> m | Some l \<Rightarrow> fst (SetLaunchSelection g (launchSelection l) m)),
           ho_seq := seq, ho_current := Some g\<rparr>)"

subsection \<open>Cleaning up\<close>

definition beginManagerStopGuard :: "save_io \<Rightarrow> string \<Rightarrow> grun \<Rightarrow> app_host \<Rightarrow> (grun \<times> app_host) \<times> bool" where
  "beginManagerStopGuard io g r h =
    (if gr_managerGuarded r then ((r, h), True)
     else if ho_switching h then ((r, h), ho_managerSwitchGuarded h)
     else case BeginRunContextSwitch io False (ho_world h) of
         (w, Some e) \<Rightarrow> ((r, h\<lparr>ho_world := w\<rparr>), False)
       | (w, None) \<Rightarrow> ((r\<lparr>gr_managerGuarded := True\<rparr>, h\<lparr>ho_world := w\<rparr>), True))"

definition releaseManagerStopGuard :: "save_io \<Rightarrow> grun \<Rightarrow> app_host \<Rightarrow> grun \<times> app_host" where
  "releaseManagerStopGuard io r h =
    (if \<not> gr_managerGuarded r then (r, h)
     else (r\<lparr>gr_managerGuarded := False\<rparr>, h\<lparr>ho_world := fst (EndRunContextSwitch io (ho_world h))\<rparr>))"

definition clearCurrent :: "clean_io \<Rightarrow> grun \<Rightarrow> app_host \<Rightarrow> (grun \<times> app_host) \<times> failure option" where
  "clearCurrent ci r h =
    (if \<not> gr_managerLive r then ((r, h), None)
     else case ClearCurrent (ci_clear ci) (ho_world h) of
         (w, Some e) \<Rightarrow> ((r, h\<lparr>ho_world := w\<rparr>), Some (ci_clearFailure ci))
       | (w, None) \<Rightarrow> ((r\<lparr>gr_managerLive := False\<rparr>, h\<lparr>ho_world := w\<rparr>), None))"

definition closeChannel :: "clean_io \<Rightarrow> grun \<Rightarrow> grun \<times> failure option" where
  "closeChannel ci r =
    (if \<not> gr_channel r then (r, None)
     else case ci_channel ci of Some f \<Rightarrow> (r, Some f) | None \<Rightarrow> (r\<lparr>gr_channel := False\<rparr>, None))"

definition cleanupWorker :: "clean_io \<Rightarrow> string \<Rightarrow> grun \<Rightarrow> app_host \<Rightarrow> (grun \<times> app_host) \<times> failure option" where
  "cleanupWorker ci g r h =
    (if \<not> gr_worker r then ((r, h), None)
     else case beginManagerStopGuard (ci_guard ci) g r h of
         ((r, h), False) \<Rightarrow> ((r, h), Some (ci_busy ci))
       | ((r, h), True) \<Rightarrow>
          (case clearCurrent ci r h of
             ((r, h), cleared) \<Rightarrow>
               let (r, closed) = closeChannel ci r;
                   stopped = or_else cleared (or_else closed (if ci_exits ci then None else ci_force ci))
               in case ci_empty ci of
                    Some f \<Rightarrow> ((r, h), or_else stopped (Some f))
                  | None \<Rightarrow>
                      let h = h\<lparr>ho_alive := ho_alive h - {g}\<rparr>; result = or_else stopped (ci_close ci)
                      in ((if result = None then r\<lparr>gr_cleanupDone := True\<rparr> else r, h), result)))"

definition finish :: "save_io \<Rightarrow> string \<Rightarrow> grun \<Rightarrow> failure option \<Rightarrow> app_host \<Rightarrow> grun \<times> app_host" where
  "finish io g r f h =
    (if GenerationID (ho_machine h) \<noteq> g then (r, h)
     else
       let m = ho_machine h;
           m = (if State m = StateStopping then fst (CompleteStop g f m)
                else case f of
                    Some x \<Rightarrow> fst (Fail g x m)
                  | None \<Rightarrow> (case BeginStop g m of (m, None) \<Rightarrow> fst (CompleteStop g None m) | (_, Some e) \<Rightarrow> m));
           h = h\<lparr>ho_machine := m\<rparr>; keepCleanupOwner = (f \<noteq> None \<and> cleanupPending r);
           (r, h) = (if cleanupPending r then (r, h) else releaseManagerStopGuard io r h)
       in (r\<lparr>gr_ready := True\<rparr>, if ho_current h = Some g \<and> \<not> keepCleanupOwner then h\<lparr>ho_current := None\<rparr> else h))"

subsection \<open>The goroutine of a generation\<close>

definition phase_step :: "phase \<Rightarrow> run_pc \<Rightarrow> run_pc \<Rightarrow> string \<Rightarrow> grun \<Rightarrow> app_host \<Rightarrow> app_host" where
  "phase_step p ok refused g r h =
    (case SetPhase g p (ho_machine h) of
       (m, None) \<Rightarrow> move g r ok (h\<lparr>ho_machine := m\<rparr>)
     | (m, Some e) \<Rightarrow> move g r refused (h\<lparr>ho_machine := m\<rparr>))"

text \<open>\<open>resolveWorkspace\<close>; the resolver answers with \<open>x_workspace\<close>, or not at all.\<close>

definition resolveWorkspace :: "host_env \<Rightarrow> run_input \<Rightarrow> string \<Rightarrow> grun \<Rightarrow> failure + ws_context" where
  "resolveWorkspace hv x g r =
    (case x_workspace x of
       None \<Rightarrow> if gr_cancelled r then Inr empty_workspace else Inl (x_transition x)
     | Some c \<Rightarrow> (case ValidateForGeneration (hv_fs hv) c g of Some e \<Rightarrow> Inl (x_transition x) | None \<Rightarrow> Inr c))"

text \<open>
  \<open>resolveLaunch\<close>: a prepared launch, an interrupted recovery, or the configured run context, which
  \<open>ResolveStartupLaunch\<close> resolves, reporting the phases it reaches, and the adapter verifies.
\<close>

definition resolveLaunch ::
    "host_env \<Rightarrow> run_input \<Rightarrow> grun \<Rightarrow> world \<Rightarrow> world \<times> phase list \<times> (failure + resolved_launch option)" where
  "resolveLaunch hv x r w =
    (case gr_launch r of
       Some l \<Rightarrow> (w, [], Inr (Some l))
     | None \<Rightarrow>
        (case ResumeVersionRecovery (hv_env hv) (hv_launch hv) (hv_points hv) (x_recover x) (x_io x) (hv_automatic hv) w of
           (w, Inl e) \<Rightarrow> (w, [], Inl (x_transition x))
         | (w, Inr (Some l)) \<Rightarrow> (w, [], Inr (Some l))
         | (w, Inr None) \<Rightarrow>
            if io_cancelled (x_io x) then (w, [], Inl (x_transition x))
            else case mg_configured (fst w) of
               None \<Rightarrow> (w, [], Inl (x_transition x))
             | Some t \<Rightarrow>
                (case ResolveLaunch (hv_env hv) (hv_launch hv) (x_io x) t w of
                   (w, Inl e) \<Rightarrow> (w, take (x_reached x) [PhaseNode, PhaseRuntime, PhaseProfile], Inl (x_transition x))
                 | (w, Inr l) \<Rightarrow>
                    (w, [PhaseNode, PhaseRuntime, PhaseProfile],
                     case x_profile x of
                       Some f \<Rightarrow> Inl f
                     | None \<Rightarrow> (case x_failure x of None \<Rightarrow> Inr (Some l) | Some f \<Rightarrow> if gr_cancelled r then Inr None else Inl f)))))"

definition report_phases :: "string \<Rightarrow> phase list \<Rightarrow> status \<Rightarrow> status" where
  "report_phases g ps m = fold (\<lambda>p m. fst (SetPhase g p m)) ps m"

definition data_path :: "grun \<Rightarrow> string" where
  "data_path r = (case gr_launch r of None \<Rightarrow> [] | Some l \<Rightarrow> dd_Path (rl_DataDirectory l))"

text \<open>\<open>startWorker\<close>.\<close>

fun start_step :: "host_env \<Rightarrow> run_input \<Rightarrow> run_pc \<Rightarrow> string \<Rightarrow> grun \<Rightarrow> app_host \<Rightarrow> app_host" where
  "start_step hv x PConfiguration g r h =
     phase_step PhaseConfiguration (case x_failure x of Some f \<Rightarrow> PFinish (Some f) | None \<Rightarrow> PNode) (PFinish (Some (x_transition x))) g r h"
| "start_step hv x PNode g r h = phase_step PhaseNode PWorkspace (PFinish (Some (x_transition x))) g r h"
| "start_step hv x PWorkspace g r h =
     (case resolveWorkspace hv x g r of
        Inl f \<Rightarrow> move g r (PFinish (Some f)) h
      | Inr c \<Rightarrow> move g (r\<lparr>gr_workspace := c\<rparr>) PLaunch h)"
| "start_step hv x PLaunch g r h =
     (case resolveLaunch hv x r (ho_world h) of
        (w, ps, result) \<Rightarrow>
          let h = h\<lparr>ho_machine := report_phases g ps (ho_machine h), ho_world := w\<rparr>
          in case result of
               Inl f \<Rightarrow> move g r (PFinish (Some f)) h
             | Inr None \<Rightarrow> move g r PContext h
             | Inr (Some l) \<Rightarrow> move g (r\<lparr>gr_launch := Some l\<rparr>) PSelect h)"
| "start_step hv x PSelect g r h =
     (let l = map_option (CaptureLaunchVersions (hv_points hv) (x_io x) (x_capture x)) (gr_launch r)
      in move g (r\<lparr>gr_launch := l\<rparr>) PContext
           (h\<lparr>ho_machine := (case l of None \<Rightarrow> ho_machine h | Some l \<Rightarrow> fst (SetLaunchSelection g (launchSelection l) (ho_machine h)))\<rparr>))"
| "start_step hv x PContext g r h =
     (if ws_State (gr_workspace r) = StateSelected \<and> fs_clean (hv_fs hv) (ws_Path (gr_workspace r)) = fs_clean (hv_fs hv) (data_path r)
      then move g r (PFinish (Some (x_transition x))) h
      else case SetWorkspaceContext (hv_fs hv) g (gr_workspace r) (ho_machine h) of
          (m, Some e) \<Rightarrow> move g r (PFinish (Some (x_transition x))) (h\<lparr>ho_machine := m\<rparr>)
        | (m, None) \<Rightarrow>
           move g r (if data_path r = [] then PFinish (Some (x_transition x))
               else case x_failure x of Some f \<Rightarrow> PFinish (Some f) | None \<Rightarrow> PChannel) (h\<lparr>ho_machine := m\<rparr>))"
| "start_step hv x PChannel g r h =
     (if gr_cancelled r then move g r (PFinish None) h
      else case x_failure x of
          Some f \<Rightarrow> move g r (PFinish (Some f)) h
        | None \<Rightarrow> move g (r\<lparr>gr_channel := True\<rparr>) (case x_plan x of Some f \<Rightarrow> PFinish (Some f) | None \<Rightarrow> PWorkerPhase) h)"
| "start_step hv x PWorkerPhase g r h = phase_step PhaseWorker PSpawn (PFinish (Some (x_transition x))) g r h"
| "start_step hv x PSpawn g r h =
     (if gr_cancelled r then move g r (PFinish None) h
      else case x_failure x of
          Some f \<Rightarrow> move g r (PFinish (Some f)) h
        | None \<Rightarrow> move g (r\<lparr>gr_worker := True\<rparr>) PReadiness (h\<lparr>ho_alive := insert g (ho_alive h)\<rparr>))"
| "start_step hv x pc g r h = h"

text \<open>\<open>commitReady\<close>: the manager commits first, then the machine becomes ready.\<close>

definition commit_step :: "host_env \<Rightarrow> run_input \<Rightarrow> string \<Rightarrow> grun \<Rightarrow> app_host \<Rightarrow> app_host" where
  "commit_step hv x g r h =
    (case gr_launch r of
       None \<Rightarrow> move g r PMark h
     | Some l \<Rightarrow>
        (case commitVersionHealthy (hv_env hv) (hv_points hv) ((x_io x)\<lparr>io_cancelled := gr_cancelled r \<or> io_cancelled (x_io x)\<rparr>)
                (x_capture x) (x_capture2 x) (x_now x) (x_id x) l (ho_world h) of
           (w, Some e) \<Rightarrow> move g r (PCleanup (if gr_cancelled r then None else Some (x_transition x))) (h\<lparr>ho_world := w\<rparr>)
         | (w, None) \<Rightarrow> move g (r\<lparr>gr_target := Some (rl_Target l), gr_managerLive := True\<rparr>) PMark (h\<lparr>ho_world := w\<rparr>)))"

definition mark_step :: "run_input \<Rightarrow> string \<Rightarrow> grun \<Rightarrow> app_host \<Rightarrow> app_host" where
  "mark_step x g r h =
    (case MarkReady g (gr_url r) (ho_machine h) of
       (m, Some e) \<Rightarrow> move g r (PCleanup (if gr_cancelled r then None else Some (x_transition x))) (h\<lparr>ho_machine := m\<rparr>)
     | (m, None) \<Rightarrow> move g (r\<lparr>gr_ready := True\<rparr>) PRunning (h\<lparr>ho_machine := m\<rparr>))"

text \<open>
  One turn of the loop of \<open>waitReady\<close>.  The probe answers nothing when it passed and also when the
  generation was cancelled meanwhile, and \<open>startChannel\<close> then refuses a cancelled generation.
\<close>

definition waitReady_step :: "run_input \<Rightarrow> string \<Rightarrow> grun \<Rightarrow> app_host \<Rightarrow> app_host" where
  "waitReady_step x g r h =
    (case x_await x of
       AwaitContext \<Rightarrow> if gr_cancelled r then move g r (PCleanup None) h else h
     | AwaitExit f \<Rightarrow> move g r (PCleanup (Some f)) h
     | AwaitDeadline f \<Rightarrow> move g r (PCleanup (Some f)) h
     | AwaitCandidate (Some f) probe \<Rightarrow> move g r (PCleanup (Some f)) h
     | AwaitCandidate None (Some f) \<Rightarrow>
         if f_Code f = ErrorDSHInvalidReadiness then move g r (PCleanup (Some f)) h else h
     | AwaitCandidate None None \<Rightarrow>
         if \<not> gr_channel r \<or> gr_cancelled r then move g r (PCleanup (Some (x_transition x))) h
         else phase_step PhaseCheckpoint PBoot (PCleanup (Some (x_transition x))) g (r\<lparr>gr_url := x_url x\<rparr>) h)"

text \<open>\<open>run\<close>, from the start of the Worker to the end of the goroutine.\<close>

fun worker_step :: "host_env \<Rightarrow> run_input \<Rightarrow> run_pc \<Rightarrow> string \<Rightarrow> grun \<Rightarrow> app_host \<Rightarrow> app_host" where
  "worker_step hv x PReadiness g r h = phase_step PhaseReadiness PAwait (PCleanup (Some (x_transition x))) g r h"
| "worker_step hv x PAwait g r h = waitReady_step x g r h"
| "worker_step hv x PBoot g r h =
     (case x_failure x of
        Some f \<Rightarrow> move g r (PCleanup (Some f)) h
      | None \<Rightarrow> move g r (if gr_cancelled r then PCleanup None else PCommit) h)"
| "worker_step hv x PCommit g r h = commit_step hv x g r h"
| "worker_step hv x PMark g r h = mark_step x g r h"
| "worker_step hv x PRunning g r h =
     (if x_exited x then move g r (PCleanup (Some (x_transition x))) h
      else if gr_cancelled r then move g r (PCleanup None) h else h)"
| "worker_step hv x (PCleanup f) g r h =
     (case cleanupWorker (x_clean x) g r h of
        ((r, h), None) \<Rightarrow> move g r (PFinish f) h
      | ((r, h), Some c) \<Rightarrow> move g r (PFinish (Some c)) h)"
| "worker_step hv x (PFinish f) g r h = (case finish (x_io x) g r f h of (r, h) \<Rightarrow> move g r PDefer h)"
| "worker_step hv x PDefer g r h =
     move g ((fst (closeChannel (x_clean x) (r\<lparr>gr_cancelled := True\<rparr>)))\<lparr>gr_done := True\<rparr>) PDone h"
| "worker_step hv x pc g r h = start_step hv x pc g r h"

definition run_step :: "host_env \<Rightarrow> run_input \<Rightarrow> string \<Rightarrow> app_host \<Rightarrow> app_host" where
  "run_step hv x g h = (case ho_runs h g of None \<Rightarrow> h | Some r \<Rightarrow> worker_step hv x (gr_pc r) g r h)"

subsection \<open>Callers\<close>

text \<open>One round of the loop of \<open>start\<close>; the callers hold \<open>switchMu\<close>.\<close>

definition start_round :: "64 word option \<Rightarrow> clean_io \<Rightarrow> app_host \<Rightarrow> app_host" where
  "start_round random ci h =
    (if ho_switching h \<or> ho_shutdownRequested h then h
     else case ho_current h of
         None \<Rightarrow> beginRunLocked random None h
       | Some g \<Rightarrow>
          (case ho_runs h g of
             None \<Rightarrow> h
           | Some r \<Rightarrow>
              if \<not> gr_done r \<or> \<not> cleanupPending r then h
              else case cleanupWorker ci g r h of
                  ((r, h), Some f) \<Rightarrow> set_run g r h
                | ((r, h), None) \<Rightarrow>
                   (case releaseManagerStopGuard (ci_clear ci) r h of
                      (r, h) \<Rightarrow> (set_run g r h)\<lparr>ho_current := (if ho_current h = Some g then None else ho_current h)\<rparr>)))"

text \<open>
  \<open>requestStop\<close> finds the active generation first and then waits for the Worker boundary, which a
  clean-up may hold for a while; \<open>ho_stops\<close> are the calls between the two.
\<close>

definition stop_fetch :: "app_host \<Rightarrow> app_host" where
  "stop_fetch h =
    (if ho_switching h then h else case ho_current h of None \<Rightarrow> h | Some g \<Rightarrow> h\<lparr>ho_stops := g # ho_stops h\<rparr>)"

definition stop_boundary :: "save_io \<Rightarrow> string \<Rightarrow> app_host \<Rightarrow> app_host" where
  "stop_boundary io g h =
    (if g \<notin> set (ho_stops h) then h
     else let h = h\<lparr>ho_stops := remove1 g (ho_stops h)\<rparr>
      in case (ho_runs h g, BeginStop g (ho_machine h)) of
           (Some r, (m, None)) \<Rightarrow>
             (case beginManagerStopGuard io g (r\<lparr>gr_cancelled := True\<rparr>) (h\<lparr>ho_machine := m\<rparr>) of ((r, h), _) \<Rightarrow> set_run g r h)
         | _ \<Rightarrow> h)"

text \<open>The steps of \<open>applyRunContextLocked\<close> that change the Host; their order is the subject of its own theory.\<close>

definition switch_flag :: "app_host \<Rightarrow> app_host" where
  "switch_flag h = (if ho_switching h \<or> ho_shutdownRequested h then h else h\<lparr>ho_switching := True\<rparr>)"

definition switch_guard :: "save_io \<Rightarrow> bool \<Rightarrow> app_host \<Rightarrow> app_host" where
  "switch_guard io waitCancelled h =
    (if \<not> ho_switching h \<or> ho_managerSwitchGuarded h then h
     else case BeginRunContextSwitch io waitCancelled (ho_world h) of
         (w, Some e) \<Rightarrow> h\<lparr>ho_world := w, ho_switching := False\<rparr>
       | (w, None) \<Rightarrow> h\<lparr>ho_world := w, ho_managerSwitchGuarded := True\<rparr>)"

text \<open>\<open>stopRun\<close> before and after the wait for the end of the goroutine.\<close>

definition stopRun_begin :: "app_host \<Rightarrow> app_host" where
  "stopRun_begin h =
    (case ho_current h of
       None \<Rightarrow> h
     | Some g \<Rightarrow>
        (case (ho_runs h g, BeginStop g (ho_machine h)) of
           (Some r, (m, e)) \<Rightarrow>
             if ho_managerSwitchGuarded h \<and> (e = None \<or> State m = StateStopping) then set_run g (r\<lparr>gr_cancelled := True\<rparr>) (h\<lparr>ho_machine := m\<rparr>) else h
         | _ \<Rightarrow> h))"

definition stopRun_end :: "clean_io \<Rightarrow> string \<Rightarrow> app_host \<Rightarrow> app_host" where
  "stopRun_end ci g h =
    (case ho_runs h g of
       None \<Rightarrow> h
     | Some r \<Rightarrow>
        if \<not> ho_managerSwitchGuarded h \<or> \<not> gr_done r \<or> \<not> cleanupPending r then h
        else case cleanupWorker ci g r h of
            ((r, h), Some f) \<Rightarrow> set_run g r h
          | ((r, h), None) \<Rightarrow>
             (set_run g r h)
               \<lparr>ho_machine := (case BeginStop g (ho_machine h) of (m, None) \<Rightarrow> fst (CompleteStop g None m) | (m, Some e) \<Rightarrow> m),
                ho_current := (if ho_current h = Some g then None else ho_current h)\<rparr>)"

definition beginResolvedRun :: "64 word option \<Rightarrow> resolved_launch \<Rightarrow> app_host \<Rightarrow> app_host" where
  "beginResolvedRun random launch h =
    (if ho_managerSwitchGuarded h \<and> ho_current h = None then beginRunLocked random (Some launch) h else h)"

text \<open>The deferred end of a switch: the guard stays with a generation whose clean-up is pending.\<close>

definition switch_end :: "save_io \<Rightarrow> app_host \<Rightarrow> app_host" where
  "switch_end io h =
    (if \<not> ho_managerSwitchGuarded h then h
     else
       let owner = (case ho_current h of None \<Rightarrow> None | Some g \<Rightarrow> map_option (\<lambda>r. (g, r)) (ho_runs h g));
           h = (case owner of
              Some (g, r) \<Rightarrow>
                if cleanupPending r \<and> (gr_cancelled r \<or> State (ho_machine h) = StateStopping \<or> State (ho_machine h) = StateFailed)
                then set_run g (r\<lparr>gr_managerGuarded := True\<rparr>) h
                else h\<lparr>ho_world := fst (EndRunContextSwitch io (ho_world h))\<rparr>
            | None \<Rightarrow> h\<lparr>ho_world := fst (EndRunContextSwitch io (ho_world h))\<rparr>)
       in h\<lparr>ho_managerSwitchGuarded := False, ho_switching := False\<rparr>)"

definition shutdownPendingRun :: "clean_io \<Rightarrow> save_io \<Rightarrow> app_host \<Rightarrow> app_host" where
  "shutdownPendingRun ci io h =
    (case ho_current h of
       None \<Rightarrow> h
     | Some g \<Rightarrow>
        (case ho_runs h g of
           None \<Rightarrow> h
         | Some r \<Rightarrow>
            if \<not> ho_shutdownRequested h \<or> \<not> gr_done r \<or> \<not> cleanupPending r then h
            else let h = h\<lparr>ho_machine := fst (BeginStop g (ho_machine h))\<rparr>
              in case cleanupWorker ci g r h of
                   ((r, h), Some f) \<Rightarrow> (case finish io g r (Some f) h of (r, h) \<Rightarrow> set_run g r h)
                 | ((r, h), None) \<Rightarrow>
                    (case releaseManagerStopGuard io r h of
                       (r, h) \<Rightarrow>
                         (case CompleteStop g None (ho_machine h) of
                            (m, Some e) \<Rightarrow> set_run g r h
                          | (m, None) \<Rightarrow> (set_run g r h)\<lparr>ho_machine := m, ho_current := None\<rparr>))))"

datatype host_action =
    Round "64 word option" clean_io
  | Run run_input string
  | StopFetch
  | StopBoundary save_io string
  | SwitchFlag
  | SwitchGuard save_io bool
  | StopRunBegin
  | StopRunEnd clean_io string
  | BeginResolved "64 word option" resolved_launch
  | SwitchEnd save_io
  | SetShutdown bool
  | ShutdownPending clean_io save_io

fun host_step :: "host_env \<Rightarrow> host_action \<Rightarrow> app_host \<Rightarrow> app_host" where
  "host_step hv (Round random ci) h = start_round random ci h"
| "host_step hv (Run x g) h = run_step hv x g h"
| "host_step hv StopFetch h = stop_fetch h"
| "host_step hv (StopBoundary io g) h = stop_boundary io g h"
| "host_step hv SwitchFlag h = switch_flag h"
| "host_step hv (SwitchGuard io c) h = switch_guard io c h"
| "host_step hv StopRunBegin h = stopRun_begin h"
| "host_step hv (StopRunEnd ci g) h = stopRun_end ci g h"
| "host_step hv (BeginResolved random launch) h = beginResolvedRun random launch h"
| "host_step hv (SwitchEnd io) h = switch_end io h"
| "host_step hv (SetShutdown b) h = h\<lparr>ho_shutdownRequested := b\<rparr>"
| "host_step hv (ShutdownPending ci io) h = shutdownPendingRun ci io h"

definition NewHost :: "world \<Rightarrow> app_host" where
  "NewHost w = \<lparr>ho_machine = NewMachine, ho_seq = 0, ho_world = w, ho_switching = False, ho_managerSwitchGuarded = False,
     ho_shutdownRequested = False, ho_current = None, ho_runs = (\<lambda>_. None), ho_stops = [], ho_alive = {}\<rparr>"

subsection \<open>One Worker at a time\<close>

declare split_paired_Ex [simp del]

definition early :: "run_pc \<Rightarrow> bool" where
  "early pc \<longleftrightarrow> pc \<in> {PConfiguration, PNode, PWorkspace, PLaunch, PSelect, PContext, PChannel, PWorkerPhase, PSpawn}"

definition midway :: "run_pc \<Rightarrow> bool" where
  "midway pc \<longleftrightarrow> pc \<in> {PReadiness, PAwait, PBoot, PCommit, PMark, PRunning} \<or> (\<exists>f. pc = PCleanup f)"

definition working :: "grun \<Rightarrow> bool" where
  "working r \<longleftrightarrow> gr_pc r \<noteq> PDefer \<and> gr_pc r \<noteq> PDone"

definition run_ok :: "grun \<Rightarrow> bool" where
  "run_ok r \<longleftrightarrow> (early (gr_pc r) \<longrightarrow> \<not> gr_worker r \<and> \<not> gr_cleanupDone r) \<and> (midway (gr_pc r) \<longrightarrow> cleanupPending r) \<and>
     (gr_pc r = PFinish None \<longrightarrow> \<not> cleanupPending r) \<and> (gr_done r \<longrightarrow> gr_pc r = PDone)"

definition host_inv :: "app_host \<Rightarrow> bool" where
  "host_inv h \<longleftrightarrow>
     (\<forall>g r. ho_runs h g = Some r \<longrightarrow> g \<noteq> [] \<and> run_ok r \<and> (working r \<longrightarrow> ho_current h = Some g)) \<and>
     (\<forall>g. ho_current h = Some g \<longrightarrow> ho_runs h g \<noteq> None \<and> GenerationID (ho_machine h) = g) \<and>
     (\<forall>g \<in> ho_alive h. ho_current h = Some g \<and> (\<exists>r. ho_runs h g = Some r \<and> cleanupPending r)) \<and>
     (State (ho_machine h) = StateReady \<longrightarrow> (\<exists>r. ho_runs h (GenerationID (ho_machine h)) = Some r \<and> working r \<and> gr_worker r))"

lemma inv_frame [simp]:
  "host_inv (h\<lparr>ho_world := w\<rparr>) = host_inv h" "host_inv (h\<lparr>ho_switching := b\<rparr>) = host_inv h"
  "host_inv (h\<lparr>ho_managerSwitchGuarded := b\<rparr>) = host_inv h" "host_inv (h\<lparr>ho_shutdownRequested := b\<rparr>) = host_inv h"
  "host_inv (h\<lparr>ho_stops := gs\<rparr>) = host_inv h" "host_inv (h\<lparr>ho_seq := n\<rparr>) = host_inv h"
  by (simp_all add: host_inv_def)

lemma inv_machine:
  "host_inv h \<Longrightarrow> GenerationID m = GenerationID (ho_machine h) \<Longrightarrow> (State m = StateReady \<Longrightarrow> State (ho_machine h) = StateReady) \<Longrightarrow>
     host_inv (h\<lparr>ho_machine := m\<rparr>)"
  unfolding host_inv_def by simp

lemma inv_runs: "host_inv h \<Longrightarrow> ho_runs h g = Some r \<Longrightarrow> g \<noteq> [] \<and> run_ok r \<and> (working r \<longrightarrow> ho_current h = Some g)"
  unfolding host_inv_def by blast

lemma inv_current: "host_inv h \<Longrightarrow> ho_current h = Some g \<Longrightarrow> ho_runs h g \<noteq> None \<and> GenerationID (ho_machine h) = g"
  unfolding host_inv_def by blast

lemma inv_alive: "host_inv h \<Longrightarrow> g \<in> ho_alive h \<Longrightarrow> ho_current h = Some g \<and> (\<exists>r. ho_runs h g = Some r \<and> cleanupPending r)"
  unfolding host_inv_def by blast

lemma inv_ready:
  "host_inv h \<Longrightarrow> State (ho_machine h) = StateReady \<Longrightarrow> \<exists>r. ho_runs h (GenerationID (ho_machine h)) = Some r \<and> working r \<and> gr_worker r"
  unfolding host_inv_def by blast

lemma host_invI:
  assumes "\<And>g r. ho_runs h g = Some r \<Longrightarrow> g \<noteq> [] \<and> run_ok r \<and> (working r \<longrightarrow> ho_current h = Some g)"
    and "\<And>g. ho_current h = Some g \<Longrightarrow> ho_runs h g \<noteq> None \<and> GenerationID (ho_machine h) = g"
    and "\<And>g. g \<in> ho_alive h \<Longrightarrow> ho_current h = Some g \<and> (\<exists>r. ho_runs h g = Some r \<and> cleanupPending r)"
    and "State (ho_machine h) = StateReady \<Longrightarrow> \<exists>r. ho_runs h (GenerationID (ho_machine h)) = Some r \<and> working r \<and> gr_worker r"
  shows "host_inv h"
  unfolding host_inv_def using assms by blast

lemma set_run_fields [simp]: "ho_current (set_run g r h) = ho_current h" "ho_machine (set_run g r h) = ho_machine h"
  "ho_alive (set_run g r h) = ho_alive h" "ho_runs (set_run g r h) k = (if k = g then Some r else ho_runs h k)"
  "ho_switching (set_run g r h) = ho_switching h" "ho_managerSwitchGuarded (set_run g r h) = ho_managerSwitchGuarded h"
  "ho_shutdownRequested (set_run g r h) = ho_shutdownRequested h" "ho_world (set_run g r h) = ho_world h" "ho_stops (set_run g r h) = ho_stops h"
  by (simp_all add: set_run_def)

lemma inv_set_run:
  assumes inv: "host_inv h" and "g \<noteq> []" "run_ok r" and current: "working r \<Longrightarrow> ho_current h = Some g"
    and alive: "g \<in> ho_alive h \<Longrightarrow> cleanupPending r"
    and ready: "State (ho_machine h) = StateReady \<Longrightarrow> GenerationID (ho_machine h) = g \<Longrightarrow> working r \<and> gr_worker r"
  shows "host_inv (set_run g r h)"
proof (rule host_invI)
  fix k q
  assume "ho_runs (set_run g r h) k = Some q"
  then show "k \<noteq> [] \<and> run_ok q \<and> (working q \<longrightarrow> ho_current (set_run g r h) = Some k)"
    using inv_runs [OF inv, of k q] assms(2,3) current by (cases "k = g") simp_all
next
  fix k
  assume "ho_current (set_run g r h) = Some k"
  then show "ho_runs (set_run g r h) k \<noteq> None \<and> GenerationID (ho_machine (set_run g r h)) = k"
    using inv_current [OF inv, of k] by simp
next
  fix k
  assume "k \<in> ho_alive (set_run g r h)"
  then show "ho_current (set_run g r h) = Some k \<and> (\<exists>r'. ho_runs (set_run g r h) k = Some r' \<and> cleanupPending r')"
    using inv_alive [OF inv, of k] alive by (cases "k = g") simp_all
next
  assume "State (ho_machine (set_run g r h)) = StateReady"
  then show "\<exists>r'. ho_runs (set_run g r h) (GenerationID (ho_machine (set_run g r h))) = Some r' \<and> working r' \<and> gr_worker r'"
    using inv_ready [OF inv] ready by (cases "GenerationID (ho_machine h) = g") simp_all
qed

text \<open>Calls of the machine that are not \<open>MarkReady\<close> keep the generation and never make it ready.\<close>

definition calm :: "status \<Rightarrow> status \<Rightarrow> bool" where
  "calm m m' \<longleftrightarrow> GenerationID m' = GenerationID m \<and> (State m' = StateReady \<longrightarrow> State m = StateReady)"

lemma calm_calls:
  "calm m (fst (SetPhase g p m))" "calm m (fst (SetLaunchSelection g l m))" "calm m (fst (SetWorkspaceContext fs g w m))"
  "calm m (fst (BeginStop g m))" "calm m (fst (CompleteStop g f m))" "calm m (fst (Fail g x m))"
  by (auto simp: calm_def SetPhase_def SetLaunchSelection_def SetWorkspaceContext_def BeginStop_def CompleteStop_def Fail_def
      split: option.splits)

lemma calm_call:
  "SetPhase g p m = (m', e) \<Longrightarrow> calm m m'" "SetWorkspaceContext fs g w m = (m', e) \<Longrightarrow> calm m m'"
  "BeginStop g m = (m', e) \<Longrightarrow> calm m m'" "CompleteStop g f m = (m', e) \<Longrightarrow> calm m m'"
  using calm_calls by (metis fst_conv)+

lemma calm_refl [simp]: "calm m m"
  by (simp add: calm_def)

lemma calm_trans: "calm m m' \<Longrightarrow> calm m' m'' \<Longrightarrow> calm m m''"
  by (auto simp: calm_def)

lemma calm_report: "calm m (report_phases g ps m)"
  unfolding report_phases_def
proof (induction ps arbitrary: m)
  case (Cons p ps)
  show ?case using calm_trans [OF calm_calls(1) Cons.IH] by simp
qed simp

lemma inv_calm: "host_inv h \<Longrightarrow> calm (ho_machine h) m \<Longrightarrow> host_inv (h\<lparr>ho_machine := m\<rparr>)"
  by (rule inv_machine) (auto simp: calm_def)

subsubsection \<open>Building blocks\<close>

text \<open>What of a host and of a run matters to the invariant.\<close>

definition same_host :: "app_host \<Rightarrow> app_host \<Rightarrow> bool" where
  "same_host h h' \<longleftrightarrow> ho_machine h' = ho_machine h \<and> ho_runs h' = ho_runs h \<and> ho_current h' = ho_current h"

definition same_run :: "grun \<Rightarrow> grun \<Rightarrow> bool" where
  "same_run r r' \<longleftrightarrow> gr_pc r' = gr_pc r \<and> gr_done r' = gr_done r \<and> gr_worker r' = gr_worker r \<and> gr_cancelled r' = gr_cancelled r"

lemma same_host_refl [simp]: "same_host h h" "same_host h (h\<lparr>ho_world := w\<rparr>)" "same_host h (h\<lparr>ho_alive := a\<rparr>)"
  "same_host h (h\<lparr>ho_world := w, ho_alive := a\<rparr>)"
  by (simp_all add: same_host_def)

lemma same_run_refl [simp]: "same_run r r" "same_run r (r\<lparr>gr_managerGuarded := b\<rparr>)" "same_run r (r\<lparr>gr_managerLive := b\<rparr>)"
  "same_run r (r\<lparr>gr_channel := b\<rparr>)" "same_run r (r\<lparr>gr_cleanupDone := b\<rparr>)"
  by (simp_all add: same_run_def)

lemma same_trans: "same_host h h' \<Longrightarrow> same_host h' h'' \<Longrightarrow> same_host h h''" "same_run r r' \<Longrightarrow> same_run r' r'' \<Longrightarrow> same_run r r''"
  by (simp_all add: same_host_def same_run_def)

lemma guard_same:
  "beginManagerStopGuard io g r h = ((r', h'), b) \<Longrightarrow>
     same_host h h' \<and> same_run r r' \<and> ho_alive h' = ho_alive h \<and> gr_cleanupDone r' = gr_cleanupDone r"
  by (auto simp: beginManagerStopGuard_def split: if_splits prod.splits option.splits)

lemma release_same:
  "releaseManagerStopGuard io r h = (r', h') \<Longrightarrow>
     same_host h h' \<and> same_run r r' \<and> ho_alive h' = ho_alive h \<and> gr_cleanupDone r' = gr_cleanupDone r"
  by (auto simp: releaseManagerStopGuard_def split: if_splits)

lemma clear_same:
  "clearCurrent ci r h = ((r', h'), e) \<Longrightarrow>
     same_host h h' \<and> same_run r r' \<and> ho_alive h' = ho_alive h \<and> gr_cleanupDone r' = gr_cleanupDone r"
  by (auto simp: clearCurrent_def split: if_splits prod.splits option.splits)

lemma close_same: "closeChannel ci r = (r', e) \<Longrightarrow> same_run r r' \<and> gr_cleanupDone r' = gr_cleanupDone r"
  by (auto simp: closeChannel_def split: if_splits option.splits)

lemma cleanup_result:
  assumes "cleanupWorker ci g r h = ((r', h'), e)"
  shows "same_run r r' \<and> same_host h h' \<and> gr_cleanupDone r' = (gr_cleanupDone r \<or> gr_worker r \<and> e = None) \<and>
    (ho_alive h' = ho_alive h \<and> (gr_worker r \<longrightarrow> e \<noteq> None) \<or> ho_alive h' = ho_alive h - {g})"
proof (cases "gr_worker r")
  case False
  then show ?thesis using assms by (auto simp: cleanupWorker_def)
next
  case True
  obtain r1 h1 b where guard: "beginManagerStopGuard (ci_guard ci) g r h = ((r1, h1), b)" by (metis prod.exhaust)
  obtain r2 h2 c where clear: "clearCurrent ci r1 h1 = ((r2, h2), c)" by (metis prod.exhaust)
  obtain r3 d where close: "closeChannel ci r2 = (r3, d)" by (metis prod.exhaust)
  note one = guard_same [OF guard] and two = clear_same [OF clear] and three = close_same [OF close]
  show ?thesis
  proof (cases b)
    case False
    then show ?thesis using assms True guard one by (auto simp: cleanupWorker_def)
  next
    case b: True
    have "same_host h2 h' \<and> same_run r3 r' \<and>
        (if ci_empty ci = None then ho_alive h' = ho_alive h2 - {g} \<and> gr_cleanupDone r' = (gr_cleanupDone r3 \<or> e = None)
         else ho_alive h' = ho_alive h2 \<and> gr_cleanupDone r' = gr_cleanupDone r3 \<and> e \<noteq> None)"
      using assms True guard clear close b by (auto simp: cleanupWorker_def Let_def same_run_def or_else_def split: if_splits option.splits dest: sym)
    then show ?thesis using one two three True by (auto simp: same_host_def same_run_def split: if_splits)
  qed
qed

lemma same_host_inv:
  assumes "host_inv h" "same_host h h'" "ho_alive h' \<subseteq> ho_alive h"
  shows "host_inv h'"
  using assms unfolding host_inv_def same_host_def by auto

lemma finish_result:
  assumes "finish io g r f h = (r', h')" "GenerationID (ho_machine h) = g" "g \<noteq> []"
  shows "same_run r r' \<and> gr_cleanupDone r' = gr_cleanupDone r \<and> ho_runs h' = ho_runs h \<and> ho_alive h' = ho_alive h \<and>
    GenerationID (ho_machine h') = g \<and> State (ho_machine h') \<noteq> StateReady \<and>
    ho_current h' = (if ho_current h = Some g \<and> \<not> (f \<noteq> None \<and> cleanupPending r) then None else ho_current h)"
proof -
  define m where "m = (let m = ho_machine h in if State m = StateStopping then fst (CompleteStop g f m)
      else case f of Some x \<Rightarrow> fst (Fail g x m)
        | None \<Rightarrow> (case BeginStop g m of (m, None) \<Rightarrow> fst (CompleteStop g None m) | (_, Some e) \<Rightarrow> m))"
  have m: "GenerationID m = g" "State m \<noteq> StateReady"
    using assms(2,3) unfolding m_def Let_def
    by (auto simp: CompleteStop_def Fail_def BeginStop_def checkGeneration_def split: option.splits)
  obtain r1 h1 where rel: "(if cleanupPending r then (r, h\<lparr>ho_machine := m\<rparr>) else releaseManagerStopGuard io r (h\<lparr>ho_machine := m\<rparr>)) = (r1, h1)"
    by (metis prod.exhaust)
  then have same: "same_run r r1" "gr_cleanupDone r1 = gr_cleanupDone r" "same_host (h\<lparr>ho_machine := m\<rparr>) h1" "ho_alive h1 = ho_alive h"
    using release_same [of io r "h\<lparr>ho_machine := m\<rparr>" r1 h1] by (auto split: if_splits)
  have "finish io g r f h = (r1\<lparr>gr_ready := True\<rparr>, if ho_current h1 = Some g \<and> \<not> (f \<noteq> None \<and> cleanupPending r) then h1\<lparr>ho_current := None\<rparr> else h1)"
    using assms(2) rel unfolding finish_def m_def by (simp add: Let_def cong: if_cong)
  then have "r' = r1\<lparr>gr_ready := True\<rparr>"
    "h' = (if ho_current h1 = Some g \<and> \<not> (f \<noteq> None \<and> cleanupPending r) then h1\<lparr>ho_current := None\<rparr> else h1)"
    using assms(1) by simp_all
  then show ?thesis using same m by (simp add: same_run_def same_host_def)
qed

subsubsection \<open>The goroutine keeps the invariant\<close>

lemma working_simps [simp]:
  "working (r\<lparr>gr_pc := pc\<rparr>) = (pc \<noteq> PDefer \<and> pc \<noteq> PDone)" "cleanupPending (r\<lparr>gr_pc := pc\<rparr>) = cleanupPending r"
  by (simp_all add: working_def cleanupPending_def)

lemma pc_kinds [simp]:
  "early PConfiguration" "early PNode" "early PWorkspace" "early PLaunch" "early PSelect" "early PContext" "early PChannel"
  "early PWorkerPhase" "early PSpawn" "\<not> early PReadiness" "\<not> early PAwait" "\<not> early PBoot" "\<not> early PCommit" "\<not> early PMark"
  "\<not> early PRunning" "\<not> early (PCleanup f)" "\<not> early (PFinish f)" "\<not> early PDefer" "\<not> early PDone"
  "\<not> midway PConfiguration" "\<not> midway PNode" "\<not> midway PWorkspace" "\<not> midway PLaunch" "\<not> midway PSelect" "\<not> midway PContext"
  "\<not> midway PChannel" "\<not> midway PWorkerPhase" "\<not> midway PSpawn" "midway PReadiness" "midway PAwait" "midway PBoot" "midway PCommit"
  "midway PMark" "midway PRunning" "midway (PCleanup f)" "\<not> midway (PFinish f)" "\<not> midway PDefer" "\<not> midway PDone"
  by (simp_all add: early_def midway_def)

text \<open>A step to another place of the same goroutine.\<close>

lemma inv_move:
  assumes inv: "host_inv h" and r: "ho_runs h g = Some r0" "gr_pc r0 \<noteq> PDone" "gr_pc r0 \<noteq> PDefer"
    and r': "gr_worker r = gr_worker r0" "gr_cleanupDone r = gr_cleanupDone r0" "gr_done r = gr_done r0"
    and pc: "run_ok (r\<lparr>gr_pc := pc\<rparr>)" "pc \<noteq> PDefer" "pc \<noteq> PDone"
  shows "host_inv (move g r pc h)"
proof -
  have "g \<noteq> []" "working r0" "ho_current h = Some g" using inv_runs [OF inv r(1)] r by (auto simp: working_def)
  moreover have "cleanupPending r" if "g \<in> ho_alive h" using inv_alive [OF inv that] r r' by (auto simp: cleanupPending_def)
  moreover have "gr_worker r" if "State (ho_machine h) = StateReady" "GenerationID (ho_machine h) = g"
    using inv_ready [OF inv that(1)] that(2) r r' by auto
  ultimately show ?thesis
    unfolding move_def using inv pc by (intro inv_set_run) auto
qed

text \<open>Where a goroutine may go without a change of its Worker.\<close>

definition follows :: "grun \<Rightarrow> run_pc \<Rightarrow> bool" where
  "follows r pc \<longleftrightarrow> (early (gr_pc r) \<and> (early pc \<or> (\<exists>f. pc = PFinish f)) \<or> midway (gr_pc r) \<and> midway pc)"

lemma early_facts: "early pc \<Longrightarrow> \<not> midway pc \<and> (\<forall>f. pc \<noteq> PFinish f) \<and> pc \<noteq> PDefer \<and> pc \<noteq> PDone"
  by (auto simp: early_def midway_def)

lemma midway_facts: "midway pc \<Longrightarrow> \<not> early pc \<and> (\<forall>f. pc \<noteq> PFinish f) \<and> pc \<noteq> PDefer \<and> pc \<noteq> PDone"
  by (auto simp: early_def midway_def)

lemma follows_ok:
  "run_ok r0 \<Longrightarrow> follows r0 pc \<Longrightarrow> gr_worker r = gr_worker r0 \<Longrightarrow> gr_cleanupDone r = gr_cleanupDone r0 \<Longrightarrow> gr_done r = gr_done r0 \<Longrightarrow>
     run_ok (r\<lparr>gr_pc := pc\<rparr>) \<and> pc \<noteq> PDefer \<and> pc \<noteq> PDone \<and> gr_pc r0 \<noteq> PDone \<and> gr_pc r0 \<noteq> PDefer"
  unfolding run_ok_def follows_def by (elim disjE conjE exE) (auto simp: cleanupPending_def dest: early_facts midway_facts)

lemma inv_follow:
  assumes "host_inv h" "calm (ho_machine h) m" "ho_runs h g = Some r0" "follows r0 pc"
    "gr_worker r = gr_worker r0" "gr_cleanupDone r = gr_cleanupDone r0" "gr_done r = gr_done r0"
  shows "host_inv (move g r pc (h\<lparr>ho_machine := m, ho_world := w\<rparr>))"
proof -
  note ok = follows_ok [OF conjunct1 [OF conjunct2 [OF inv_runs [OF assms(1,3)]]] assms(4-7)]
  have "host_inv (h\<lparr>ho_machine := m, ho_world := w\<rparr>)" using inv_calm [OF assms(1,2)] by (simp add: host_inv_def)
  from inv_move [OF this, of g r0 r pc] show ?thesis using ok assms(3,5,6,7) by simp
qed

text \<open>The two special cases of the last lemma, without a change of the machine or of the world.\<close>

lemma inv_follow_world:
  assumes "host_inv h" "ho_runs h g = Some r0" "follows r0 pc"
    "gr_worker r = gr_worker r0" "gr_cleanupDone r = gr_cleanupDone r0" "gr_done r = gr_done r0"
  shows "host_inv (move g r pc (h\<lparr>ho_world := w\<rparr>))" "host_inv (move g r pc h)"
  using inv_follow [OF assms(1) calm_refl assms(2-6), of w] inv_follow [OF assms(1) calm_refl assms(2-6), of "ho_world h"] by simp_all

lemma inv_follow_calm:
  assumes "host_inv h" "calm (ho_machine h) m" "ho_runs h g = Some r0" "follows r0 pc"
    "gr_worker r = gr_worker r0" "gr_cleanupDone r = gr_cleanupDone r0" "gr_done r = gr_done r0"
  shows "host_inv (move g r pc (h\<lparr>ho_machine := m\<rparr>))"
  using inv_follow [OF assms, of "ho_world h"] by simp

lemma phase_step_inv:
  assumes "host_inv h" "ho_runs h g = Some r0" "follows r0 ok" "follows r0 refused"
    "gr_worker r = gr_worker r0" "gr_cleanupDone r = gr_cleanupDone r0" "gr_done r = gr_done r0"
  shows "host_inv (phase_step p ok refused g r h)"
proof -
  obtain m e where phase: "SetPhase g p (ho_machine h) = (m, e)" by (metis prod.exhaust)
  show ?thesis
    using inv_follow_calm [OF assms(1) calm_call(1) [OF phase] assms(2,3,5,6,7)] inv_follow_calm [OF assms(1) calm_call(1) [OF phase] assms(2,4,5,6,7)]
    by (cases e) (simp_all add: phase_step_def phase)
qed

lemma inv_open_boundary:
  assumes "host_inv h" "ho_current h = Some g" "ho_runs h g = Some r" "cleanupPending r"
  shows "host_inv (h\<lparr>ho_alive := insert g (ho_alive h)\<rparr>)"
proof (rule host_invI)
  fix k
  assume "k \<in> ho_alive (h\<lparr>ho_alive := insert g (ho_alive h)\<rparr>)"
  then show "ho_current (h\<lparr>ho_alive := insert g (ho_alive h)\<rparr>) = Some k \<and>
      (\<exists>r. ho_runs (h\<lparr>ho_alive := insert g (ho_alive h)\<rparr>) k = Some r \<and> cleanupPending r)"
    using assms inv_alive [OF assms(1), of k] by (cases "k = g") simp_all
qed (use inv_runs [OF assms(1)] inv_current [OF assms(1)] inv_ready [OF assms(1)] in simp_all)

lemma spawn_inv:
  assumes inv: "host_inv h" and r: "ho_runs h g = Some r" "gr_pc r = PSpawn"
  shows "host_inv (move g (r\<lparr>gr_worker := True\<rparr>) PReadiness (h\<lparr>ho_alive := insert g (ho_alive h)\<rparr>))"
proof -
  let ?r = "r\<lparr>gr_worker := True, gr_pc := PReadiness\<rparr>"
  have ok: "g \<noteq> []" "ho_current h = Some g" "run_ok r" using inv_runs [OF inv r(1)] r(2) by (auto simp: working_def)
  then have "\<not> gr_cleanupDone r" "\<not> gr_done r" using r(2) by (auto simp: run_ok_def)
  then have "run_ok ?r" "cleanupPending ?r" by (simp_all add: run_ok_def cleanupPending_def)
  then have "host_inv (set_run g ?r h)" using inv ok by (intro inv_set_run) (auto simp: working_def)
  from inv_open_boundary [OF this, of g ?r] \<open>cleanupPending ?r\<close> ok
  have "host_inv ((set_run g ?r h)\<lparr>ho_alive := insert g (ho_alive h)\<rparr>)" by simp
  moreover have "(set_run g ?r h)\<lparr>ho_alive := insert g (ho_alive h)\<rparr> = move g (r\<lparr>gr_worker := True\<rparr>) PReadiness (h\<lparr>ho_alive := insert g (ho_alive h)\<rparr>)"
    by (simp add: move_def set_run_def)
  ultimately show ?thesis by simp
qed

text \<open>\<open>startWorker\<close>.\<close>

lemma start_step_inv:
  assumes inv: "host_inv h" and r: "ho_runs h g = Some r"
  shows "host_inv (start_step hv x (gr_pc r) g r h)"
proof (cases "gr_pc r")
  case PLaunch
  then show ?thesis
    using inv_follow [OF inv calm_report r, of "PFinish f" for f] inv_follow [OF inv calm_report r, of PSelect]
      inv_follow [OF inv calm_report r, of PContext]
    by (auto simp: follows_def Let_def split: prod.splits sum.splits option.splits)
next
  case PSelect
  have "calm (ho_machine h) (fst (SetLaunchSelection g l (ho_machine h)))" for l by (rule calm_calls)
  then show ?thesis
    using PSelect
    by (cases "gr_launch r") (auto simp: Let_def follows_def intro!: inv_follow_calm [OF inv _ r] inv_follow_world(2) [OF inv r])
next
  case PContext
  then show ?thesis
    using calm_call(2) [of "hv_fs hv" g "gr_workspace r" "ho_machine h"]
    by (auto simp: follows_def split: prod.splits option.splits intro!: inv_follow_calm [OF inv _ r] inv_follow_world(2) [OF inv r])
next
  case PSpawn
  then show ?thesis
    using spawn_inv [OF inv r] by (auto simp: follows_def split: option.splits intro!: inv_follow_world(2) [OF inv r])
next
  case PConfiguration
  then show ?thesis by (auto simp: follows_def split: option.splits intro!: phase_step_inv [OF inv r])
next
  case PNode
  then show ?thesis by (auto simp: follows_def intro!: phase_step_inv [OF inv r])
next
  case PWorkerPhase
  then show ?thesis by (auto simp: follows_def intro!: phase_step_inv [OF inv r])
qed (use inv in \<open>auto simp: follows_def split: option.splits sum.splits intro!: inv_follow_world(2) [OF inv r]\<close>)

lemma MarkReady_generation: "MarkReady g u m = (m', e) \<Longrightarrow> GenerationID m' = GenerationID m \<and> (e \<noteq> None \<longrightarrow> m' = m) \<and> (e = None \<longrightarrow> GenerationID m = g)"
  by (auto simp: MarkReady_def checkGeneration_def split: option.splits if_splits)

lemma inv_mark_ready:
  assumes inv: "host_inv h" and r: "ho_runs h g = Some r" "working r" "gr_worker r" and m: "GenerationID m = GenerationID (ho_machine h)" "GenerationID m = g"
  shows "host_inv (h\<lparr>ho_machine := m\<rparr>)"
proof (rule host_invI)
  assume "State (ho_machine (h\<lparr>ho_machine := m\<rparr>)) = StateReady"
  show "\<exists>r. ho_runs (h\<lparr>ho_machine := m\<rparr>) (GenerationID (ho_machine (h\<lparr>ho_machine := m\<rparr>))) = Some r \<and> working r \<and> gr_worker r"
    using r m by simp
qed (use inv_runs [OF inv] inv_current [OF inv] inv_alive [OF inv] m in simp_all)

lemma mark_step_inv:
  assumes inv: "host_inv h" and r: "ho_runs h g = Some r" "gr_pc r = PMark"
  shows "host_inv (mark_step x g r h)"
proof -
  obtain m e where mark: "MarkReady g (gr_url r) (ho_machine h) = (m, e)" by (metis prod.exhaust)
  note gen = MarkReady_generation [OF mark]
  have worker: "working r" "gr_worker r" using inv_runs [OF inv r(1)] r(2) by (auto simp: working_def run_ok_def cleanupPending_def)
  show ?thesis
  proof (cases e)
    case None
    then have "host_inv (h\<lparr>ho_machine := m\<rparr>)" using inv_mark_ready [OF inv r(1) worker] gen by simp
    from inv_follow_world(2) [OF this, of g r PRunning "r\<lparr>gr_ready := True\<rparr>"] r mark None show ?thesis
      by (simp add: mark_step_def follows_def)
  next
    case (Some y)
    then show ?thesis
      using inv_follow_calm [OF inv _ r(1), of m] gen r mark by (simp add: mark_step_def follows_def)
  qed
qed

lemma commit_step_inv:
  assumes inv: "host_inv h" and r: "ho_runs h g = Some r" "gr_pc r = PCommit"
  shows "host_inv (commit_step hv x g r h)"
  using r(2) by (auto simp: commit_step_def follows_def split: option.splits prod.splits intro!: inv_follow_world [OF inv r(1)])

lemma cleanup_step_inv:
  assumes inv: "host_inv h" and r: "ho_runs h g = Some r" "gr_pc r = PCleanup f" and clean: "cleanupWorker ci g r h = ((r', h'), e)"
    and pc: "pc = (case e of None \<Rightarrow> PFinish f | Some c \<Rightarrow> PFinish (Some c))"
  shows "host_inv (move g r' pc h')"
proof -
  note result = cleanup_result [OF clean]
  have ok: "g \<noteq> []" "ho_current h = Some g" "cleanupPending r" "\<not> gr_done r"
    using inv_runs [OF inv r(1)] r(2) by (auto simp: working_def run_ok_def)
  have pending: "cleanupPending r' = (e \<noteq> None)" using result ok(3) by (auto simp: cleanupPending_def same_run_def)
  have "host_inv h'" using same_host_inv [OF inv] result by auto
  moreover have "run_ok (r'\<lparr>gr_pc := pc\<rparr>)" using pc pending ok(4) result by (cases e) (auto simp: run_ok_def same_run_def)
  moreover have "g \<notin> ho_alive h'" if "e = None" using result ok(3) that by (auto simp: cleanupPending_def)
  moreover have "gr_worker r'" using result ok(3) by (simp add: same_run_def cleanupPending_def)
  ultimately show ?thesis
    unfolding move_def using ok result pending pc
    by (intro inv_set_run) (auto simp: same_host_def split: option.splits)
qed

lemma finish_step_inv:
  assumes inv: "host_inv h" and r: "ho_runs h g = Some r" "gr_pc r = PFinish f" and fin: "finish io g r f h = (r', h')"
  shows "host_inv (move g r' PDefer h')"
proof -
  have ok: "g \<noteq> []" "ho_current h = Some g" "run_ok r" using inv_runs [OF inv r(1)] r(2) by (auto simp: working_def)
  have gen: "GenerationID (ho_machine h) = g" using inv_current [OF inv ok(2)] by simp
  note result = finish_result [OF fin gen ok(1)]
  have keep: "\<not> (f \<noteq> None \<and> cleanupPending r) \<Longrightarrow> \<not> cleanupPending r" using ok(3) r(2) by (cases f) (auto simp: run_ok_def)
  have pending: "cleanupPending r' = cleanupPending r" using result by (auto simp: cleanupPending_def same_run_def)
  have runs: "ho_runs (move g r' PDefer h') k = (if k = g then Some (r'\<lparr>gr_pc := PDefer\<rparr>) else ho_runs h k)" for k
    using result by (simp add: move_def)
  show ?thesis
  proof (rule host_invI)
    fix k q
    assume k: "ho_runs (move g r' PDefer h') k = Some q"
    show "k \<noteq> [] \<and> run_ok q \<and> (working q \<longrightarrow> ho_current (move g r' PDefer h') = Some k)"
    proof (cases "k = g")
      case True
      moreover have "\<not> gr_done r'" using result ok(3) r(2) by (auto simp: run_ok_def same_run_def)
      ultimately show ?thesis using k runs ok(1) by (auto simp: run_ok_def working_def)
    next
      case False
      then show ?thesis using k runs inv_runs [OF inv, of k q] ok(2) by auto
    qed
  next
    fix k
    assume "ho_current (move g r' PDefer h') = Some k"
    then show "ho_runs (move g r' PDefer h') k \<noteq> None \<and> GenerationID (ho_machine (move g r' PDefer h')) = k"
      using result ok(2) runs by (auto simp: move_def split: if_splits)
  next
    fix k
    assume "k \<in> ho_alive (move g r' PDefer h')"
    then have "k \<in> ho_alive h" using result by (simp add: move_def)
    from inv_alive [OF inv this] ok(2) r have "k = g" "cleanupPending r" by auto
    then show "ho_current (move g r' PDefer h') = Some k \<and> (\<exists>q. ho_runs (move g r' PDefer h') k = Some q \<and> cleanupPending q)"
      using keep result ok(2) runs pending by (auto simp: move_def)
  qed (use result in \<open>simp add: move_def\<close>)
qed

lemma defer_step_inv:
  assumes inv: "host_inv h" and r: "ho_runs h g = Some r" "gr_pc r = PDefer" and close: "closeChannel ci (r\<lparr>gr_cancelled := True\<rparr>) = (q, e)"
  shows "host_inv (move g (q\<lparr>gr_done := True\<rparr>) PDone h)"
  unfolding move_def
proof (rule inv_set_run [OF inv])
  note same = close_same [OF close]
  show "g \<noteq> []" using inv_runs [OF inv r(1)] by simp
  show "run_ok (q\<lparr>gr_done := True, gr_pc := PDone\<rparr>)" by (simp add: run_ok_def)
  show "cleanupPending (q\<lparr>gr_done := True, gr_pc := PDone\<rparr>)" if "g \<in> ho_alive h"
    using inv_alive [OF inv that] r same by (auto simp: cleanupPending_def same_run_def)
  show "working (q\<lparr>gr_done := True, gr_pc := PDone\<rparr>) \<and> gr_worker (q\<lparr>gr_done := True, gr_pc := PDone\<rparr>)"
    if "State (ho_machine h) = StateReady" "GenerationID (ho_machine h) = g"
    using inv_ready [OF inv that(1)] that(2) r by (auto simp: working_def)
qed (simp add: working_def)

lemma worker_step_inv:
  assumes inv: "host_inv h" and r: "ho_runs h g = Some r"
  shows "host_inv (worker_step hv x (gr_pc r) g r h)"
proof (cases "gr_pc r")
  case PReadiness
  then show ?thesis by (auto simp: follows_def intro!: phase_step_inv [OF inv r])
next
  case PAwait
  then show ?thesis
    using inv by (auto simp: waitReady_step_def follows_def split: option.splits await.splits intro!: phase_step_inv [OF inv r] inv_follow_world(2) [OF inv r])
next
  case PCommit
  then show ?thesis using commit_step_inv [OF inv r] by simp
next
  case PMark
  then show ?thesis using mark_step_inv [OF inv r] by simp
next
  case (PCleanup f)
  obtain r' h' e where "cleanupWorker (x_clean x) g r h = ((r', h'), e)" by (metis prod.exhaust)
  with cleanup_step_inv [OF inv r PCleanup this refl] PCleanup show ?thesis by (cases e) simp_all
next
  case (PFinish f)
  then show ?thesis using finish_step_inv [OF inv r PFinish] by (auto split: prod.splits)
next
  case PDefer
  then show ?thesis
    using defer_step_inv [OF inv r, of "x_clean x"] by (cases "closeChannel (x_clean x) (r\<lparr>gr_cancelled := True\<rparr>)") simp
next
  case PBoot
  then show ?thesis by (auto simp: follows_def split: option.splits intro!: inv_follow_world(2) [OF inv r])
next
  case PRunning
  then show ?thesis using inv by (auto simp: follows_def intro!: inv_follow_world(2) [OF inv r])
qed (use start_step_inv [OF inv r, of hv x] in simp_all)

lemma run_step_inv: "host_inv h \<Longrightarrow> host_inv (run_step hv x g h)"
  using worker_step_inv by (auto simp: run_step_def split: option.split)

subsubsection \<open>The callers keep the invariant\<close>

definition alike :: "grun \<Rightarrow> grun \<Rightarrow> bool" where
  "alike r r' \<longleftrightarrow> gr_pc r' = gr_pc r \<and> gr_done r' = gr_done r \<and> gr_worker r' = gr_worker r \<and> gr_cleanupDone r' = gr_cleanupDone r"

lemma same_run_alike: "same_run r r' \<Longrightarrow> gr_cleanupDone r' = gr_cleanupDone r \<Longrightarrow> alike r r'"
  by (simp add: same_run_def alike_def)

lemma alike_facts: "alike r r' \<Longrightarrow> run_ok r' = run_ok r \<and> working r' = working r \<and> cleanupPending r' = cleanupPending r \<and> gr_worker r' = gr_worker r"
  by (simp add: alike_def run_ok_def working_def cleanupPending_def)

lemma inv_touch:
  assumes inv: "host_inv h" and r: "ho_runs h g = Some r" "alike r r'"
  shows "host_inv (set_run g r' h)"
  using inv_runs [OF inv r(1)] inv_alive [OF inv, of g] inv_ready [OF inv] alike_facts [OF r(2)] r(1)
  by (intro inv_set_run [OF inv]) auto

lemma inv_begin:
  assumes inv: "host_inv h" and idle: "ho_current h = None"
    and fresh: "g \<noteq> []" "GenerationID m = g" "State m \<noteq> StateReady"
  shows "host_inv ((set_run g (new_run l) h)\<lparr>ho_machine := m, ho_seq := n, ho_current := Some g\<rparr>)"
proof (rule host_invI)
  fix k q
  assume "ho_runs ((set_run g (new_run l) h)\<lparr>ho_machine := m, ho_seq := n, ho_current := Some g\<rparr>) k = Some q"
  then show "k \<noteq> [] \<and> run_ok q \<and> (working q \<longrightarrow>
      ho_current ((set_run g (new_run l) h)\<lparr>ho_machine := m, ho_seq := n, ho_current := Some g\<rparr>) = Some k)"
    using inv_runs [OF inv, of k q] idle fresh(1) by (auto simp: new_run_def run_ok_def cleanupPending_def split: if_splits)
qed (use fresh inv_alive [OF inv] idle in auto)

lemma beginRunLocked_inv:
  assumes inv: "host_inv h" and idle: "ho_current h = None"
  shows "host_inv (beginRunLocked random launch h)"
proof -
  obtain m seq g e where start: "BeginStart random (ho_machine h, ho_seq h) = ((m, seq), g, e)" by (metis prod.exhaust)
  have m: "g \<noteq> []" "GenerationID m = g" "State m \<noteq> StateReady" if "e = None"
    using start that newGenerationID_nonempty [of random "ho_seq h"]
    by (auto simp: BeginStart_def split: if_splits prod.splits)
  have "calm m (fst (SetLaunchSelection g l m))" for l by (rule calm_calls)
  then show ?thesis
    using inv start m inv_begin [OF inv idle, of g]
    by (auto simp: beginRunLocked_def calm_def split: option.split)
qed

text \<open>The two ends of a clean-up of a generation whose goroutine is gone.\<close>

lemma inv_retire:
  assumes inv: "host_inv h" and r: "ho_runs h g = Some r" "gr_done r" "cleanupPending r"
    and clean: "cleanupWorker ci g r h = ((r', h'), None)" and same: "alike r' r''" "same_host h' h''" "ho_alive h'' = ho_alive h'"
    and m: "calm (ho_machine h) m"
  shows "host_inv ((set_run g r'' h'')\<lparr>ho_machine := m, ho_current := (if ho_current h = Some g then None else ho_current h)\<rparr>)"
    (is "host_inv ?h")
proof (rule host_invI)
  note result = cleanup_result [OF clean]
  have gone: "g \<notin> ho_alive h''" using result same r(3) by (auto simp: cleanupPending_def)
  have runs: "ho_runs h'' = ho_runs h" using result same by (simp add: same_host_def)
  have r'': "gr_pc r'' = gr_pc r" "gr_done r'' = gr_done r" "\<not> cleanupPending r''" "gr_worker r''"
    using result same r(3) by (auto simp: same_run_def alike_def cleanupPending_def)
  have pc: "gr_pc r = PDone" "g \<noteq> []" using inv_runs [OF inv r(1)] r(2) by (auto simp: run_ok_def)
  show "k \<noteq> [] \<and> run_ok q \<and> (working q \<longrightarrow> ho_current ?h = Some k)" if "ho_runs ?h k = Some q" for k q
    using that inv_runs [OF inv, of k q] pc r'' by (cases "k = g") (auto simp: run_ok_def working_def runs)
  show "ho_runs ?h k \<noteq> None \<and> GenerationID (ho_machine ?h) = k" if "ho_current ?h = Some k" for k
    using that inv_current [OF inv, of k] m by (auto simp: runs calm_def split: if_splits)
  show "ho_current ?h = Some k \<and> (\<exists>q. ho_runs ?h k = Some q \<and> cleanupPending q)" if "k \<in> ho_alive ?h" for k
  proof -
    have "k \<noteq> g" "k \<in> ho_alive h" using that gone result same(3) by auto
    then show ?thesis using inv_alive [OF inv, of k] by (simp add: runs)
  qed
  show "\<exists>q. ho_runs ?h (GenerationID (ho_machine ?h)) = Some q \<and> working q \<and> gr_worker q" if "State (ho_machine ?h) = StateReady"
    using that inv_ready [OF inv] m r(1) pc by (cases "GenerationID m = g") (auto simp: runs calm_def working_def)
qed

lemma inv_retry:
  assumes inv: "host_inv h" and r: "ho_runs h g = Some r" "gr_done r" and clean: "cleanupWorker ci g r h = ((r', h'), Some f)"
  shows "host_inv h' \<and> ho_runs h' g = Some r \<and> alike r r' \<and> host_inv (set_run g r' h')"
proof -
  note result = cleanup_result [OF clean]
  have "host_inv h'" "ho_runs h' g = Some r" "alike r r'"
    using same_host_inv [OF inv] result r by (auto simp: same_host_def intro: same_run_alike)
  then show ?thesis using inv_touch by blast
qed

lemma start_round_inv:
  assumes inv: "host_inv h"
  shows "host_inv (start_round random ci h)"
proof (cases "ho_current h")
  case None
  then show ?thesis using beginRunLocked_inv [OF inv None] inv by (simp add: start_round_def)
next
  case (Some g)
  obtain r where r: "ho_runs h g = Some r" using inv_current [OF inv Some] by blast
  obtain r' h' e where clean: "cleanupWorker ci g r h = ((r', h'), e)" by (metis prod.exhaust)
  obtain r'' h'' where rel: "releaseManagerStopGuard (ci_clear ci) r' h' = (r'', h'')" by (metis prod.exhaust)
  note same = release_same [OF rel]
  have cur: "ho_current h'' = Some g" "ho_machine h'' = ho_machine h"
    using same cleanup_result [OF clean] Some by (auto simp: same_host_def)
  show ?thesis
  proof (cases "gr_done r \<and> cleanupPending r")
    case False
    then show ?thesis using inv by (auto simp: start_round_def Some r)
  next
    case True
    show ?thesis
    proof (cases e)
      case None
      from inv_retire [OF inv r _ _ clean [unfolded None], of r'' h'' "ho_machine h"] True same
      have "host_inv ((set_run g r'' h'')\<lparr>ho_machine := ho_machine h, ho_current := None\<rparr>)"
        by (simp add: Some same_run_alike)
      moreover have "(set_run g r'' h'')\<lparr>ho_machine := ho_machine h, ho_current := None\<rparr> = (set_run g r'' h'')\<lparr>ho_current := None\<rparr>"
        using cur by (simp add: set_run_def)
      ultimately show ?thesis using inv True cur by (simp add: start_round_def Some r clean None rel)
    next
      case (Some f)
      then show ?thesis
        using inv inv_retry [OF inv r _ clean [unfolded Some]] True by (simp add: start_round_def \<open>ho_current h = Some g\<close> r clean)
    qed
  qed
qed

lemma stop_boundary_inv:
  assumes inv: "host_inv h"
  shows "host_inv (stop_boundary io g h)"
proof (cases "ho_runs h g")
  case (Some r)
  let ?h = "h\<lparr>ho_stops := remove1 g (ho_stops h)\<rparr>"
  obtain m e where stop: "BeginStop g (ho_machine h) = (m, e)" by (metis prod.exhaust)
  obtain r' h' b where guard: "beginManagerStopGuard io g (r\<lparr>gr_cancelled := True\<rparr>) (?h\<lparr>ho_machine := m\<rparr>) = ((r', h'), b)"
    by (metis prod.exhaust)
  note same = guard_same [OF guard]
  have "host_inv (?h\<lparr>ho_machine := m\<rparr>)" using inv calm_call(3) [OF stop] by (intro inv_calm) simp_all
  from same_host_inv [OF this, of h'] same have "host_inv h'" by simp
  moreover have "ho_runs h' g = Some r" "alike r r'" using same Some by (auto simp: same_host_def same_run_def alike_def)
  ultimately show ?thesis
    using inv inv_touch Some stop guard by (cases e) (simp_all add: stop_boundary_def)
qed (use inv in \<open>simp add: stop_boundary_def\<close>)

lemma stopRun_begin_inv:
  assumes inv: "host_inv h"
  shows "host_inv (stopRun_begin h)"
proof (cases "ho_current h")
  case (Some g)
  obtain r where r: "ho_runs h g = Some r" using inv_current [OF inv Some] by blast
  obtain m e where stop: "BeginStop g (ho_machine h) = (m, e)" by (metis prod.exhaust)
  have "host_inv (set_run g (r\<lparr>gr_cancelled := True\<rparr>) (h\<lparr>ho_machine := m\<rparr>))"
    using inv_touch [OF inv_calm [OF inv calm_call(3) [OF stop]], of g r] r by (simp add: alike_def)
  then show ?thesis using inv by (simp add: stopRun_begin_def Some r stop)
qed (use inv in \<open>simp add: stopRun_begin_def\<close>)

lemma stopRun_end_inv:
  assumes inv: "host_inv h"
  shows "host_inv (stopRun_end ci g h)"
proof (cases "\<exists>r. ho_runs h g = Some r \<and> gr_done r \<and> cleanupPending r")
  case True
  then obtain r where r: "ho_runs h g = Some r" "gr_done r" "cleanupPending r" by blast
  obtain r' h' e where clean: "cleanupWorker ci g r h = ((r', h'), e)" by (metis prod.exhaust)
  have h': "ho_machine h' = ho_machine h" "ho_current h' = ho_current h" using cleanup_result [OF clean] by (auto simp: same_host_def)
  obtain m x where stop: "BeginStop g (ho_machine h) = (m, x)" by (metis prod.exhaust)
  have calm: "calm (ho_machine h) m" "calm (ho_machine h) (fst (CompleteStop g None m))"
    using calm_call(3) [OF stop] calm_trans calm_calls(5) by blast+
  show ?thesis
  proof (cases e)
    case None
    have "alike r' r'" by (simp add: alike_def)
    from inv_retire [OF inv r clean [unfolded None] this same_host_refl(1) refl]
    have "host_inv ((set_run g r' h')\<lparr>ho_machine := n, ho_current := (if ho_current h = Some g then None else ho_current h)\<rparr>)"
      if "calm (ho_machine h) n" for n using that .
    with calm show ?thesis
      using inv by (cases x; cases "ho_managerSwitchGuarded h") (simp_all add: stopRun_end_def r clean None stop h' split del: if_split cong: if_cong)
  next
    case (Some f)
    then show ?thesis using inv inv_retry [OF inv r(1,2) clean [unfolded Some]] by (simp add: stopRun_end_def r clean)
  qed
qed (use inv in \<open>auto simp: stopRun_end_def split: option.split\<close>)

lemma switch_end_inv:
  assumes inv: "host_inv h"
  shows "host_inv (switch_end io h)"
proof -
  have "host_inv (set_run g (r\<lparr>gr_managerGuarded := True\<rparr>) h)" if "ho_runs h g = Some r" for g r
    using inv_touch [OF inv that] by (simp add: alike_def)
  then show ?thesis using inv by (auto simp: switch_end_def Let_def split: option.split)
qed

lemma shutdown_success_inv:
  assumes inv: "host_inv h" and r: "ho_current h = Some g" "ho_runs h g = Some r" "gr_done r" "cleanupPending r"
    and clean: "cleanupWorker ci g r h = ((r', h'), None)" and rel: "releaseManagerStopGuard io r' h' = (r'', h'')"
    and comp: "CompleteStop g None (ho_machine h'') = (m, e)"
  shows "host_inv (case e of Some x \<Rightarrow> set_run g r'' h'' | None \<Rightarrow> (set_run g r'' h'')\<lparr>ho_machine := m, ho_current := None\<rparr>)"
proof -
  note result = cleanup_result [OF clean] and same = release_same [OF rel]
  have h'': "ho_machine h'' = ho_machine h" using result same by (simp add: same_host_def)
  have gone: "g \<notin> ho_alive h''" "cleanupPending r'' \<longrightarrow> False" "gr_worker r''" "gr_pc r'' = gr_pc r" "gr_done r''"
    using result same r(3,4) by (auto simp: cleanupPending_def same_run_def)
  have pc: "gr_pc r = PDone" "g \<noteq> []" using inv_runs [OF inv r(2)] r(3) by (auto simp: run_ok_def)
  show ?thesis
  proof (cases e)
    case None
    then show ?thesis
      using inv_retire [OF inv r(2-4) clean, of r'' h'' m] same calm_call(4) [OF comp] by (simp add: r(1) h'' same_run_alike)
  next
    case (Some x)
    have "host_inv h'" using same_host_inv [OF inv] result by auto
    from same_host_inv [OF this, of h''] same have inv'': "host_inv h''" by simp
    have "State (ho_machine h'') \<noteq> StateReady"
      using inv_ready [OF inv] inv_current [OF inv r(1)] r(2) pc h'' by (auto simp: working_def)
    then have "host_inv (set_run g r'' h'')"
      using gone pc by (intro inv_set_run [OF inv'']) (auto simp: run_ok_def working_def)
    then show ?thesis using Some by simp
  qed
qed

lemma shutdownPendingRun_inv:
  assumes inv: "host_inv h"
  shows "host_inv (shutdownPendingRun ci io h)"
proof (cases "\<exists>g r. ho_current h = Some g \<and> ho_runs h g = Some r \<and> gr_done r \<and> cleanupPending r")
  case True
  then obtain g r where r: "ho_current h = Some g" "ho_runs h g = Some r" "gr_done r" "cleanupPending r" by blast
  let ?h = "h\<lparr>ho_machine := fst (BeginStop g (ho_machine h))\<rparr>"
  obtain r' h' e where clean: "cleanupWorker ci g r ?h = ((r', h'), e)" by (metis prod.exhaust)
  note result = cleanup_result [OF clean]
  have inv': "host_inv ?h" using inv_calm [OF inv calm_calls(4)] .
  show ?thesis
  proof (cases e)
    case None
    obtain r'' h'' where rel: "releaseManagerStopGuard io r' h' = (r'', h'')" by (metis prod.exhaust)
    obtain m x where comp: "CompleteStop g None (ho_machine h'') = (m, x)" by (metis prod.exhaust)
    from shutdown_success_inv [OF inv' _ _ r(3,4) clean [unfolded None] rel comp] r inv show ?thesis
      by (cases x) (simp_all add: shutdownPendingRun_def Let_def clean None rel comp)
  next
    case (Some f)
    have h': "host_inv h'" "ho_runs h' g = Some r" "alike r r'" using inv_retry [OF inv' _ r(3) clean [unfolded Some]] r by simp_all
    obtain r'' h'' where fin: "finish io g r' (Some f) h' = (r'', h'')" by (metis prod.exhaust)
    have gen: "GenerationID (ho_machine h') = g" "ho_current h' = Some g" "g \<noteq> []"
      using result inv_current [OF inv' , of g] inv_runs [OF inv r(2)] r(1) by (simp_all add: same_host_def)
    note over = finish_result [OF fin gen(1,3)]
    have "host_inv (h'\<lparr>ho_machine := ho_machine h''\<rparr>)" using over gen by (intro inv_machine [OF h'(1)]) simp_all
    then have "host_inv h''"
      using over gen r(4) alike_facts [OF h'(3)] unfolding host_inv_def by simp
    moreover have "alike r r''" using over h'(3) by (simp add: alike_def same_run_def)
    moreover have "ho_runs h'' g = Some r" using over h'(2) by simp
    ultimately show ?thesis using inv inv_touch by (simp add: shutdownPendingRun_def Let_def r clean Some fin)
  qed
qed (use inv in \<open>auto simp: shutdownPendingRun_def split: option.split\<close>)

lemma host_step_inv: "host_inv h \<Longrightarrow> host_inv (host_step hv a h)"
  by (cases a)
     (auto simp: start_round_inv run_step_inv stop_boundary_inv stopRun_begin_inv stopRun_end_inv switch_end_inv shutdownPendingRun_inv
        beginResolvedRun_def beginRunLocked_inv stop_fetch_def switch_flag_def switch_guard_def split: option.split prod.split)

lemma NewHost_inv: "host_inv (NewHost w)"
  by (simp add: host_inv_def NewHost_def NewMachine_def empty_status_def)

interpretation hosts: invariant_system "NewHost w" "host_step hv" host_inv for w hv
  by unfold_locales (rule NewHost_inv, rule host_step_inv)

subsubsection \<open>What the invariant gives\<close>

text \<open>Only the start of a Worker opens a boundary.\<close>

lemma alive_frame [simp]: "ho_alive (move g r pc h) = ho_alive h" "ho_alive (beginRunLocked random launch h) = ho_alive h"
  by (auto simp: move_def beginRunLocked_def split: prod.split option.split)

lemma cleanup_alive: "cleanupWorker ci g r h = ((r', h'), e) \<Longrightarrow> ho_alive h' \<subseteq> ho_alive h"
  using cleanup_result by fastforce

lemma finish_alive: "finish io g r f h = (r', h') \<Longrightarrow> ho_alive h' = ho_alive h"
  by (auto simp: finish_def Let_def releaseManagerStopGuard_def split: if_splits prod.splits)

lemma guard_alive: "beginManagerStopGuard io g r h = ((r', h'), b) \<Longrightarrow> ho_alive h' = ho_alive h"
  using guard_same by blast

lemma release_alive: "releaseManagerStopGuard io r h = (r', h') \<Longrightarrow> ho_alive h' = ho_alive h"
  using release_same by blast

lemma run_alive:
  assumes "ho_runs h g = Some r"
  shows "ho_alive (worker_step hv x (gr_pc r) g r h) \<subseteq> ho_alive h \<or>
    gr_pc r = PSpawn \<and> ho_alive (worker_step hv x (gr_pc r) g r h) = insert g (ho_alive h)"
proof -
  have "phase_step p a b g q h = move g q a (h\<lparr>ho_machine := fst (SetPhase g p (ho_machine h))\<rparr>) \<or>
      phase_step p a b g q h = move g q b (h\<lparr>ho_machine := fst (SetPhase g p (ho_machine h))\<rparr>)" for p a b q
    by (auto simp: phase_step_def split: prod.split option.split)
  then have phase: "ho_alive (phase_step p a b g q h) = ho_alive h" for p a b q
    by (metis alive_frame(1) app_host.select_convs(10) app_host.surjective app_host.update_convs(1))
  show ?thesis
    by (cases "gr_pc r")
       (auto simp: phase waitReady_step_def commit_step_def mark_step_def Let_def dest: cleanup_alive finish_alive
         split: option.splits prod.splits sum.splits await.splits)
qed

lemma callers_alive:
  "ho_alive (start_round random ci h) \<subseteq> ho_alive h" "ho_alive (stop_boundary io g h) = ho_alive h" "ho_alive (stopRun_begin h) = ho_alive h"
  "ho_alive (stopRun_end ci g h) \<subseteq> ho_alive h" "ho_alive (switch_end io h) = ho_alive h" "ho_alive (shutdownPendingRun ci io h) \<subseteq> ho_alive h"
proof -
  show "ho_alive (start_round random ci h) \<subseteq> ho_alive h"
    by (auto simp: start_round_def split: option.splits prod.splits dest: cleanup_alive release_alive)
  show "ho_alive (stop_boundary io g h) = ho_alive h"
    by (auto simp: stop_boundary_def Let_def split: option.splits prod.splits dest: guard_alive)
  show "ho_alive (stopRun_begin h) = ho_alive h"
    by (auto simp: stopRun_begin_def split: option.splits prod.splits)
  show "ho_alive (stopRun_end ci g h) \<subseteq> ho_alive h"
    by (auto simp: stopRun_end_def split: option.splits prod.splits dest: cleanup_alive)
  show "ho_alive (switch_end io h) = ho_alive h"
    by (auto simp: switch_end_def Let_def split: option.splits)
  show "ho_alive (shutdownPendingRun ci io h) \<subseteq> ho_alive h"
    by (auto simp: shutdownPendingRun_def Let_def split: option.splits prod.splits if_splits dest!: cleanup_alive finish_alive release_alive)
qed

lemma host_step_alive:
  "ho_alive (host_step hv a h) \<subseteq> ho_alive h \<or>
    (\<exists>x g r. a = Run x g \<and> ho_runs h g = Some r \<and> gr_pc r = PSpawn \<and> ho_alive (host_step hv a h) = insert g (ho_alive h))"
proof (cases a)
  case (Run x g)
  show ?thesis
  proof (cases "ho_runs h g")
    case (Some r)
    then show ?thesis using run_alive [OF Some, of hv x] Run by (auto simp: run_step_def)
  qed (simp add: Run run_step_def)
qed (use callers_alive in \<open>auto simp: beginResolvedRun_def stop_fetch_def switch_flag_def switch_guard_def split: option.split prod.split\<close>)

lemma spawn_alone:
  assumes inv: "host_inv h" and r: "ho_runs h g = Some r" "gr_pc r = PSpawn"
  shows "ho_alive h = {}"
proof -
  have cur: "ho_current h = Some g" "run_ok r" using inv_runs [OF inv r(1)] r(2) by (auto simp: working_def)
  have "\<not> cleanupPending r" using cur(2) r(2) by (auto simp: run_ok_def cleanupPending_def)
  then have "k \<notin> ho_alive h" for k using inv_alive [OF inv, of k] cur(1) r(1) by auto
  then show ?thesis by blast
qed

text \<open>(C2) However the goroutines of the Host are interleaved - starts, stops, cancellations, restarts,
  context switches, shutdowns and whatever adapters answer - at most one Worker boundary is open at
  any time, it belongs to the generation the Host owns, and a Worker is started only when no other
  boundary is open.
\<close>

theorem at_most_one_worker:
  "let h = fold (host_step hv) script (NewHost w) in
     ho_alive h \<subseteq> set_option (ho_current h) \<and> (ho_alive (host_step hv a h) \<subseteq> ho_alive h \<or> ho_alive h = {})"
proof -
  have inv: "host_inv (fold (host_step hv) script (NewHost w))" by (rule hosts.inv_run)
  show ?thesis
    unfolding Let_def using inv_alive [OF inv] host_step_alive [of hv a] spawn_alone [OF inv] by fastforce
qed

text \<open>(C38) The Host reports that the workspace is ready only while the goroutine of that generation, which
  has started a Worker, is still there to supervise it, and the Host still owns the generation.
\<close>

theorem ready_is_supervised:
  assumes "State (ho_machine (fold (host_step hv) script (NewHost w))) = StateReady"
  shows "\<exists>g r. GenerationID (ho_machine (fold (host_step hv) script (NewHost w))) = g \<and>
    ho_current (fold (host_step hv) script (NewHost w)) = Some g \<and>
    ho_runs (fold (host_step hv) script (NewHost w)) g = Some r \<and> gr_worker r \<and> \<not> gr_done r"
proof -
  have inv: "host_inv (fold (host_step hv) script (NewHost w))" by (rule hosts.inv_run)
  obtain r where r: "ho_runs (fold (host_step hv) script (NewHost w)) (GenerationID (ho_machine (fold (host_step hv) script (NewHost w)))) = Some r"
      "working r" "gr_worker r"
    using inv_ready [OF inv assms] by blast
  from inv_runs [OF inv r(1)] r(2) have "\<not> gr_done r" by (auto simp: run_ok_def working_def)
  with inv_runs [OF inv r(1)] r show ?thesis by blast
qed

end
