(* ===== verification/Host_Endings.thy ===== *)
theory Host_Endings
  imports Host_Run
begin

text \<open>
  How a generation of the Host ends: a cancelled one does after a bounded number of its own steps, in
  every interleaving, and a failed one that is stopped and then started again leaves the machine in a
  state from which nothing can be started.
\<close>

subsection \<open>A cancelled generation ends\<close>

fun rank :: "run_pc \<Rightarrow> nat" where
  "rank PDone = 0" | "rank PDefer = 1" | "rank (PFinish f) = 2" | "rank (PCleanup f) = 3" | "rank PRunning = 4"
| "rank PMark = 5" | "rank PCommit = 6" | "rank PBoot = 7" | "rank PAwait = 8" | "rank PReadiness = 9" | "rank PSpawn = 10"
| "rank PWorkerPhase = 11" | "rank PChannel = 12" | "rank PContext = 13" | "rank PSelect = 14" | "rank PLaunch = 15"
| "rank PWorkspace = 16" | "rank PNode = 17" | "rank PConfiguration = 18"

text \<open>A probe that is only not ready yet sends \<open>waitReady\<close> round its loop once more.\<close>

definition probe_pending :: "run_input \<Rightarrow> bool" where
  "probe_pending x = (case x_await x of AwaitCandidate None (Some f) \<Rightarrow> f_Code f \<noteq> ErrorDSHInvalidReadiness | _ \<Rightarrow> False)"

definition ending :: "string \<Rightarrow> nat \<Rightarrow> app_host \<Rightarrow> bool" where
  "ending g n h \<longleftrightarrow> (\<exists>r. ho_runs h g = Some r \<and> gr_cancelled r \<and> rank (gr_pc r) \<le> n)"

lemma ending_move: "gr_cancelled r \<Longrightarrow> rank pc \<le> n \<Longrightarrow> ending g n (move g r pc h)"
  by (simp add: ending_def move_def)

lemma ending_phase: "gr_cancelled r \<Longrightarrow> rank a \<le> n \<Longrightarrow> rank b \<le> n \<Longrightarrow> ending g n (phase_step p a b g r h)"
  by (auto simp: phase_step_def intro: ending_move split: prod.split option.split)

lemma kept_cancelled:
  "cleanupWorker ci g r h = ((r', h'), e) \<Longrightarrow> gr_cancelled r' = gr_cancelled r"
  "closeChannel ci r = (r', e) \<Longrightarrow> gr_cancelled r' = gr_cancelled r"
  "finish io g r f h = (r', h') \<Longrightarrow> gr_cancelled r' = gr_cancelled r"
proof -
  show "cleanupWorker ci g r h = ((r', h'), e) \<Longrightarrow> gr_cancelled r' = gr_cancelled r"
    using cleanup_result [of ci g r h r' h' e] by (simp add: same_run_def)
  show "closeChannel ci r = (r', e) \<Longrightarrow> gr_cancelled r' = gr_cancelled r"
    using close_same [of ci r r' e] by (simp add: same_run_def)
  show "finish io g r f h = (r', h') \<Longrightarrow> gr_cancelled r' = gr_cancelled r"
    by (auto simp: finish_def Let_def releaseManagerStopGuard_def split: if_splits prod.splits)
qed

lemma cancelled_progress:
  assumes r: "gr_cancelled r" and x: "\<not> probe_pending x" and h: "ho_runs h g = Some r"
  shows "ending g (rank (gr_pc r) - 1) (worker_step hv x (gr_pc r) g r h)"
proof (cases "gr_pc r")
  case (PCleanup f)
  then show ?thesis using r by (auto intro!: ending_move split: prod.split option.split dest: kept_cancelled)
next
  case (PFinish f)
  then show ?thesis using r by (auto intro!: ending_move split: prod.split dest: kept_cancelled)
next
  case PDefer
  then show ?thesis using r kept_cancelled(2) [of "x_clean x" "r\<lparr>gr_cancelled := True\<rparr>"]
    by (cases "closeChannel (x_clean x) (r\<lparr>gr_cancelled := True\<rparr>)") (auto intro!: ending_move)
next
  case PAwait
  then show ?thesis
    using r x by (auto simp: waitReady_step_def probe_pending_def intro!: ending_move ending_phase split: await.splits option.splits)
next
  case PDone
  then show ?thesis using r h by (simp add: ending_def)
qed (use r in \<open>auto simp: commit_step_def mark_step_def Let_def intro!: ending_move ending_phase split: option.split prod.split sum.split\<close>)

text \<open>The other goroutines leave it where it is, and cancelled.\<close>

definition keeps :: "app_host \<Rightarrow> app_host \<Rightarrow> bool" where
  "keeps h h' \<longleftrightarrow> (\<forall>g r. ho_runs h g = Some r \<longrightarrow>
     (\<exists>r'. ho_runs h' g = Some r' \<and> gr_pc r' = gr_pc r \<and> (gr_cancelled r \<longrightarrow> gr_cancelled r')))"

lemma keeps_same: "ho_runs h' = ho_runs h \<Longrightarrow> keeps h h'"
  by (simp add: keeps_def)

lemma keeps_frame [simp]:
  "keeps h (h'\<lparr>ho_current := c\<rparr>) = keeps h h'" "keeps h (h'\<lparr>ho_machine := m\<rparr>) = keeps h h'"
  by (simp_all add: keeps_def)

lemma keeps_set_run:
  "ho_runs h g = Some r \<Longrightarrow> ho_runs h' = ho_runs h \<Longrightarrow> gr_pc r' = gr_pc r \<Longrightarrow> (gr_cancelled r \<Longrightarrow> gr_cancelled r') \<Longrightarrow> keeps h (set_run g r' h')"
  by (auto simp: keeps_def)

lemma keeps_cleanup:
  assumes "ho_runs h g = Some r" "cleanupWorker ci g r h0 = ((r1, h1), e)" "ho_runs h0 = ho_runs h"
    "gr_pc r2 = gr_pc r1 \<and> gr_cancelled r2 = gr_cancelled r1" "ho_runs h2 = ho_runs h1"
  shows "keeps h (set_run g r2 h2)"
  using cleanup_result [OF assms(2)] assms by (intro keeps_set_run [OF assms(1)]) (auto simp: same_host_def same_run_def)

lemma release_keeps: "releaseManagerStopGuard io r h = (r', h') \<Longrightarrow> ho_runs h' = ho_runs h \<and> gr_pc r' = gr_pc r \<and> gr_cancelled r' = gr_cancelled r"
  using release_same [of io r h r' h'] by (simp add: same_host_def same_run_def)

lemma finish_keeps: "finish io g r f h = (r', h') \<Longrightarrow> ho_runs h' = ho_runs h \<and> gr_pc r' = gr_pc r \<and> gr_cancelled r' = gr_cancelled r"
  by (auto simp: finish_def Let_def releaseManagerStopGuard_def split: if_splits prod.splits)

lemma keeps_begin: "keeps h (beginRunLocked random launch h)"
  by (auto simp: beginRunLocked_def keeps_def split: prod.split option.split)

lemma keeps_start_round: "keeps h (start_round random ci h)"
proof (cases "ho_current h = None \<or> ho_switching h \<or> ho_shutdownRequested h")
  case True
  then show ?thesis by (auto simp: start_round_def keeps_same keeps_begin)
next
  case False
  then obtain g where g: "ho_current h = Some g" "\<not> ho_switching h" "\<not> ho_shutdownRequested h" by auto
  show ?thesis
  proof (cases "ho_runs h g")
    case (Some r)
    obtain r1 h1 e where clean: "cleanupWorker ci g r h = ((r1, h1), e)" by (metis prod.exhaust)
    obtain r2 h2 where rel: "releaseManagerStopGuard (ci_clear ci) r1 h1 = (r2, h2)" by (metis prod.exhaust)
    show ?thesis
      using keeps_cleanup [OF Some clean refl, of r1 h1] keeps_cleanup [OF Some clean refl, of r2 h2] release_keeps [OF rel]
      by (cases e) (simp_all add: start_round_def g Some clean rel keeps_same)
  qed (simp add: start_round_def g keeps_same)
qed

lemma keeps_stop_boundary: "keeps h (stop_boundary io g h)"
proof (cases "ho_runs h g")
  case (Some r)
  let ?h = "h\<lparr>ho_stops := remove1 g (ho_stops h)\<rparr>"
  obtain m e where stop: "BeginStop g (ho_machine h) = (m, e)" by (metis prod.exhaust)
  obtain r1 h1 b where guard: "beginManagerStopGuard io g (r\<lparr>gr_cancelled := True\<rparr>) (?h\<lparr>ho_machine := m\<rparr>) = ((r1, h1), b)"
    by (metis prod.exhaust)
  have "keeps h (set_run g r1 h1)"
    using guard_same [OF guard] by (intro keeps_set_run [OF Some]) (auto simp: same_host_def same_run_def)
  then show ?thesis by (cases e) (simp_all add: stop_boundary_def Some stop guard keeps_same)
qed (simp add: stop_boundary_def keeps_same)

lemma keeps_stopRun: "keeps h (stopRun_begin h)" "keeps h (stopRun_end ci g h)"
proof -
  show "keeps h (stopRun_begin h)"
    by (auto simp: stopRun_begin_def keeps_same intro: keeps_set_run split: option.split prod.split)
  show "keeps h (stopRun_end ci g h)"
  proof (cases "ho_runs h g")
    case (Some r)
    obtain r1 h1 e where clean: "cleanupWorker ci g r h = ((r1, h1), e)" by (metis prod.exhaust)
    show ?thesis
      using keeps_cleanup [OF Some clean refl, of r1 h1] by (cases e) (simp_all add: stopRun_end_def Some clean keeps_same)
  qed (simp add: stopRun_end_def keeps_same)
qed

lemma keeps_switch_end: "keeps h (switch_end io h)"
  by (auto simp: switch_end_def Let_def keeps_def split: option.split)

lemma keeps_shutdown: "keeps h (shutdownPendingRun ci io h)"
proof (cases "\<exists>g r. ho_current h = Some g \<and> ho_runs h g = Some r")
  case True
  then obtain g r where r: "ho_current h = Some g" "ho_runs h g = Some r" by blast
  let ?h = "h\<lparr>ho_machine := fst (BeginStop g (ho_machine h))\<rparr>"
  obtain r1 h1 e where clean: "cleanupWorker ci g r ?h = ((r1, h1), e)" by (metis prod.exhaust)
  obtain r2 h2 where rel: "releaseManagerStopGuard io r1 h1 = (r2, h2)" by (metis prod.exhaust)
  obtain m x where comp: "CompleteStop g None (ho_machine h2) = (m, x)" by (metis prod.exhaust)
  show ?thesis
  proof (cases e)
    case None
    then show ?thesis
      using keeps_cleanup [OF r(2) clean, of r2 h2] release_keeps [OF rel]
      by (cases x) (simp_all add: shutdownPendingRun_def Let_def r clean rel comp keeps_same)
  next
    case (Some f)
    obtain r3 h3 where fin: "finish io g r1 (Some f) h1 = (r3, h3)" by (metis prod.exhaust)
    show ?thesis
      using keeps_cleanup [OF r(2) clean, of r3 h3] finish_keeps [OF fin]
      by (simp add: shutdownPendingRun_def Let_def r clean Some fin keeps_same)
  qed
qed (auto simp: shutdownPendingRun_def keeps_same split: option.split)

lemma run_other:
  assumes "k \<noteq> g"
  shows "ho_runs (run_step hv x k h) g = ho_runs h g"
proof (cases "ho_runs h k")
  case (Some r)
  have move: "ho_runs (move k q pc h') g = ho_runs h' g" for q pc h' using assms by (simp add: move_def)
  have phase: "ho_runs (phase_step p a b k q h) g = ho_runs h g" for p a b q
    by (auto simp: phase_step_def move split: prod.split option.split)
  have "ho_runs h1 g = ho_runs h g" if "cleanupWorker ci k q h = ((r1, h1), e)" for ci q r1 h1 e
    using cleanup_result [OF that] by (simp add: same_host_def)
  moreover have "ho_runs h1 g = ho_runs h g" if "finish io k q f h = (r1, h1)" for io q f r1 h1
    using finish_keeps [OF that] by simp
  ultimately show ?thesis
    unfolding run_step_def Some
    by (cases "gr_pc r")
       (auto simp: move phase waitReady_step_def commit_step_def mark_step_def Let_def split: option.splits prod.splits sum.splits await.splits)
qed (simp add: run_step_def)

lemma ending_other:
  assumes "ending g n h" "\<And>x. a \<noteq> Run x g"
  shows "ending g n (host_step hv a h)"
proof (cases a)
  case (Run x k)
  then show ?thesis using assms run_other [of k g hv x h] by (auto simp: ending_def)
next
  case (BeginResolved random launch)
  then show ?thesis
    using assms keeps_begin [of h random "Some launch"] by (fastforce simp: beginResolvedRun_def keeps_def ending_def)
next
  case (SwitchGuard io c)
  then show ?thesis using assms by (auto simp: switch_guard_def ending_def split: prod.split option.split)
qed (use assms keeps_start_round [of h] keeps_stop_boundary [of h] keeps_stopRun [of h] keeps_switch_end [of h] keeps_shutdown [of h] in
    \<open>fastforce simp: keeps_def ending_def stop_fetch_def switch_flag_def split: option.split\<close>)+

definition runs_of :: "string \<Rightarrow> host_action \<Rightarrow> bool" where
  "runs_of g a = (case a of Run x k \<Rightarrow> k = g | _ \<Rightarrow> False)"

definition answered :: "string \<Rightarrow> host_action \<Rightarrow> bool" where
  "answered g a = (case a of Run x k \<Rightarrow> k = g \<longrightarrow> \<not> probe_pending x | _ \<Rightarrow> True)"

lemma ending_step:
  assumes "ending g n h" "answered g a"
  shows "ending g (if runs_of g a then n - 1 else n) (host_step hv a h)"
proof (cases "runs_of g a")
  case True
  then obtain x where a: "a = Run x g" by (auto simp: runs_of_def split: host_action.splits)
  obtain r where r: "ho_runs h g = Some r" "gr_cancelled r" "rank (gr_pc r) \<le> n" using assms(1) by (auto simp: ending_def)
  from cancelled_progress [OF r(2) _ r(1), of x hv] assms(2) a
  have "ending g (rank (gr_pc r) - 1) (run_step hv x g h)" by (simp add: answered_def run_step_def r(1))
  with r(3) True a show ?thesis by (fastforce simp: ending_def)
next
  case False
  then show ?thesis using ending_other [OF assms(1), of a hv] by (fastforce simp: runs_of_def)
qed

lemma ending_run:
  "ending g n h \<Longrightarrow> list_all (answered g) script \<Longrightarrow> ending g (n - length (filter (runs_of g) script)) (fold (host_step hv) script h)"
proof (induction script arbitrary: n h)
  case (Cons a script)
  from ending_step [OF Cons.prems(1), of a hv] Cons.prems(2)
  have step: "ending g (if runs_of g a then n - 1 else n) (host_step hv a h)" by simp
  show ?case using Cons.IH [OF step] Cons.prems(2) by (simp split: if_splits)
qed simp

text \<open>(C3) Once a generation is cancelled its goroutine ends: whatever the other goroutines and the
  adapters do in between, after at most eighteen of its own steps it has cleaned up, reported its
  result and closed its channel.  The only step that may repeat is a readiness probe that answers
  that the Worker is not ready yet.
\<close>

theorem cancelled_generation_ends:
  assumes "ho_runs h g = Some r" "gr_cancelled r" "list_all (answered g) script" "18 \<le> length (filter (runs_of g) script)"
  shows "\<exists>r'. ho_runs (fold (host_step hv) script h) g = Some r' \<and> gr_pc r' = PDone"
proof -
  have "rank (gr_pc r) \<le> 18" by (cases "gr_pc r") simp_all
  then have "ending g 18 h" using assms(1,2) by (auto simp: ending_def)
  from ending_run [OF this assms(3), of hv] assms(4) obtain r' where
    "ho_runs (fold (host_step hv) script h) g = Some r'" "rank (gr_pc r') = 0" by (auto simp: ending_def)
  then show ?thesis by (cases "gr_pc r'") auto
qed

subsection \<open>A Host that can no longer start\<close>

text \<open>
  \<open>requestStop\<close> moves a failed generation to \<open>stopping\<close>, and the next \<open>Start\<close> cleans it up and gives it
  away without completing the stop.  From then on every start is refused, whatever is done.
\<close>

definition stranded :: "app_host \<Rightarrow> bool" where
  "stranded h \<longleftrightarrow> ho_current h = None \<and> State (ho_machine h) = StateStopping \<and>
     (\<forall>g r. ho_runs h g = Some r \<longrightarrow> (gr_pc r = PDefer \<or> gr_pc r = PDone) \<and> \<not> cleanupPending r)"

lemma strandedD:
  "stranded h \<Longrightarrow> ho_current h = None" "stranded h \<Longrightarrow> State (ho_machine h) = StateStopping"
  "stranded h \<Longrightarrow> ho_runs h g = Some r \<Longrightarrow> (gr_pc r = PDefer \<or> gr_pc r = PDone) \<and> \<not> cleanupPending r"
  unfolding stranded_def by blast+

lemma stranded_set_run:
  "stranded h \<Longrightarrow> gr_pc r = PDefer \<or> gr_pc r = PDone \<Longrightarrow> \<not> cleanupPending r \<Longrightarrow> stranded (set_run g r h)"
  by (auto simp: stranded_def)

lemma stranded_frame:
  "stranded h \<Longrightarrow> stranded (h\<lparr>ho_world := w\<rparr>)" "stranded h \<Longrightarrow> stranded (h\<lparr>ho_switching := b\<rparr>)"
  "stranded h \<Longrightarrow> stranded (h\<lparr>ho_managerSwitchGuarded := b\<rparr>)" "stranded h \<Longrightarrow> stranded (h\<lparr>ho_shutdownRequested := b\<rparr>)"
  "stranded h \<Longrightarrow> stranded (h\<lparr>ho_stops := gs\<rparr>)" "stranded h \<Longrightarrow> State m = StateStopping \<Longrightarrow> stranded (h\<lparr>ho_machine := m\<rparr>)"
  by (simp_all add: stranded_def)

lemma stopping_stays: "State m = StateStopping \<Longrightarrow> BeginStop g m = (m', e) \<Longrightarrow> State m' = StateStopping"
  by (auto simp: BeginStop_def split: if_splits option.splits)

lemma stranded_boundary:
  assumes h: "stranded h"
  shows "stranded (stop_boundary io g h)"
proof (cases "ho_runs h g")
  case (Some r)
  let ?h = "h\<lparr>ho_stops := remove1 g (ho_stops h)\<rparr>"
  obtain m e where stop: "BeginStop g (ho_machine h) = (m, e)" by (metis prod.exhaust)
  obtain r1 h1 b where guard: "beginManagerStopGuard io g (r\<lparr>gr_cancelled := True\<rparr>) (?h\<lparr>ho_machine := m\<rparr>) = ((r1, h1), b)"
    by (metis prod.exhaust)
  have "stranded (?h\<lparr>ho_machine := m\<rparr>)"
    using stranded_frame(6) [OF stranded_frame(5) [OF h]] stopping_stays [OF strandedD(2) [OF h] stop] .
  then have "stranded h1" using guard_same [OF guard] by (simp add: stranded_def same_host_def)
  moreover have "gr_pc r1 = PDefer \<or> gr_pc r1 = PDone" "\<not> cleanupPending r1"
    using guard_same [OF guard] strandedD(3) [OF h Some] by (auto simp: same_run_def cleanupPending_def)
  ultimately show ?thesis
    using h stranded_set_run [of h1 r1 g] stranded_frame(5) [OF h] by (cases e) (simp_all add: stop_boundary_def Some stop guard)
qed (use h stranded_frame(5) [OF h] in \<open>simp add: stop_boundary_def\<close>)

lemma stranded_step:
  assumes h: "stranded h"
  shows "stranded (host_step hv a h)"
proof (cases a)
  case (Run x g)
  show ?thesis
  proof (cases "ho_runs h g")
    case (Some r)
    note pc = strandedD(3) [OF h Some]
    obtain q e where close: "closeChannel (x_clean x) (r\<lparr>gr_cancelled := True\<rparr>) = (q, e)" by (metis prod.exhaust)
    have "\<not> cleanupPending (q\<lparr>gr_done := True, gr_pc := PDone\<rparr>)"
      using pc close_same [OF close] by (auto simp: cleanupPending_def same_run_def)
    then have "stranded (move g (q\<lparr>gr_done := True\<rparr>) PDone h)" unfolding move_def using h by (intro stranded_set_run) auto
    then show ?thesis using pc h by (auto simp: Run run_step_def Some close)
  qed (use h in \<open>simp add: Run run_step_def\<close>)
next
  case (StopRunEnd ci g)
  then show ?thesis using h strandedD(3) [OF h, of g] by (auto simp: stopRun_end_def split: option.split)
qed (use h strandedD(1,2) [OF h] stranded_frame [OF h] stranded_boundary [OF h] in
    \<open>auto simp: start_round_def beginRunLocked_def BeginStart_def stop_fetch_def switch_flag_def switch_guard_def stopRun_begin_def
      beginResolvedRun_def switch_end_def shutdownPendingRun_def Let_def split: prod.split option.split intro!: stranded_frame\<close>)

lemma stranded_forever: "stranded h \<Longrightarrow> stranded (fold (host_step hv) script h)"
  by (induction script arbitrary: h) (auto intro: stranded_step)

end
