(* ===== verification/Host_Startup.thy ===== *)
theory Host_Startup
  imports Host_Run
begin

text \<open>
  The start of a generation when everything it asks for is answered: the goroutine walks through its
  phases, the manager commits the run context, and the machine becomes ready.
\<close>

definition smooth :: "host_env \<Rightarrow> string \<Rightarrow> resolved_launch \<Rightarrow> ws_context \<Rightarrow> run_input \<Rightarrow> bool" where
  "smooth hv g l c x \<longleftrightarrow> x_failure x = None \<and> x_plan x = None \<and> x_await x = AwaitCandidate None None \<and> x_workspace x = Some c \<and>
     ValidateForGeneration (hv_fs hv) c g = None \<and> dd_Path (rl_DataDirectory l) \<noteq> [] \<and>
     \<not> (ws_State c = StateSelected \<and> fs_clean (hv_fs hv) (ws_Path c) = fs_clean (hv_fs hv) (dd_Path (rl_DataDirectory l))) \<and>
     x_url x \<noteq> [] \<and> \<not> io_cancelled (x_io x) \<and> \<not> x_exited x"

text \<open>Where the goroutine is, and what it holds there.\<close>

definition on_way :: "string \<Rightarrow> resolved_launch \<Rightarrow> ws_context \<Rightarrow> string \<Rightarrow> run_pc \<Rightarrow> phase \<Rightarrow> app_host \<Rightarrow> bool" where
  "on_way g l c url pc ph h \<longleftrightarrow> g \<noteq> [] \<and> ho_current h = Some g \<and>
     State (ho_machine h) = StateStarting \<and> Phase (ho_machine h) = ph \<and> GenerationID (ho_machine h) = g \<and> mg_current (fst (ho_world h)) = None \<and>
     (\<exists>r l'. ho_runs h g = Some r \<and> gr_pc r = pc \<and> \<not> gr_cancelled r \<and> gr_launch r = Some l' \<and> rl_Target l' = rl_Target l \<and>
        rl_DataDirectory l' = rl_DataDirectory l \<and>
        (pc \<notin> {PConfiguration, PNode, PWorkspace} \<longrightarrow> gr_workspace r = c) \<and>
        (pc \<in> {PWorkerPhase, PSpawn, PReadiness, PAwait} \<longrightarrow> gr_channel r) \<and>
        (pc \<in> {PBoot, PCommit, PMark} \<longrightarrow> gr_url r = url) \<and>
        (pc \<in> {PReadiness, PAwait, PBoot, PCommit, PMark} \<longrightarrow> g \<in> ho_alive h))"

lemma CaptureLaunchVersions_keeps:
  "rl_Target (CaptureLaunchVersions pe io c l) = rl_Target l" "rl_DataDirectory (CaptureLaunchVersions pe io c l) = rl_DataDirectory l"
  by (auto simp: CaptureLaunchVersions_def split: option.splits sum.splits prod.splits)

lemma way_phases:
  assumes "on_way g l c url pc ph h" "smooth hv g l c x"
  shows "pc = PConfiguration \<Longrightarrow> ph = PhaseConfiguration \<Longrightarrow> on_way g l c url PNode PhaseConfiguration (run_step hv x g h)"
    and "pc = PNode \<Longrightarrow> ph = PhaseConfiguration \<Longrightarrow> on_way g l c url PWorkspace PhaseNode (run_step hv x g h)"
    and "pc = PWorkerPhase \<Longrightarrow> ph = PhaseNode \<Longrightarrow> on_way g l c url PSpawn PhaseWorker (run_step hv x g h)"
    and "pc = PReadiness \<Longrightarrow> ph = PhaseWorker \<Longrightarrow> on_way g l c url PAwait PhaseReadiness (run_step hv x g h)"
    and "pc = PAwait \<Longrightarrow> ph = PhaseReadiness \<Longrightarrow> x_url x = url \<Longrightarrow> on_way g l c url PBoot PhaseCheckpoint (run_step hv x g h)"
  using assms
  by (auto simp: on_way_def smooth_def run_step_def phase_step_def move_def SetPhase_def checkGeneration_def validPhaseTransition_def
      waitReady_step_def)

lemma way_steps:
  assumes "on_way g l c url pc ph h" "smooth hv g l c x"
  shows "pc = PWorkspace \<Longrightarrow> on_way g l c url PLaunch ph (run_step hv x g h)"
    and "pc = PLaunch \<Longrightarrow> on_way g l c url PSelect ph (run_step hv x g h)"
    and "pc = PSelect \<Longrightarrow> on_way g l c url PContext ph (run_step hv x g h)"
    and "pc = PContext \<Longrightarrow> on_way g l c url PChannel ph (run_step hv x g h)"
    and "pc = PChannel \<Longrightarrow> on_way g l c url PWorkerPhase ph (run_step hv x g h)"
    and "pc = PSpawn \<Longrightarrow> on_way g l c url PReadiness ph (run_step hv x g h)"
    and "pc = PBoot \<Longrightarrow> on_way g l c url PCommit ph (run_step hv x g h)"
  using assms
  by (auto simp: on_way_def smooth_def run_step_def move_def resolveWorkspace_def resolveLaunch_def report_phases_def
      SetLaunchSelection_def SetWorkspaceContext_def checkGeneration_def data_path_def CaptureLaunchVersions_keeps split: option.splits)

text \<open>A commit that is not cancelled and meets no other current run context always makes this one current.\<close>

lemma commit_accepted:
  assumes "\<not> io_cancelled io" "mg_current (fst w) = None"
  shows "\<exists>w'. commitVersionHealthy env pe io c1 c2 now newID l w = (w', None) \<and> mg_current (fst w') = Some (rl_Target l)"
proof -
  have "rl_Target (late_seed pe c1 l) = rl_Target l" by (auto simp: late_seed_def split: sum.splits)
  then show ?thesis using assms by (auto simp: commitVersionHealthy_def Let_def split: prod.split option.split)
qed

definition committed :: "string \<Rightarrow> resolved_launch \<Rightarrow> string \<Rightarrow> app_host \<Rightarrow> bool" where
  "committed g l url h \<longleftrightarrow> g \<noteq> [] \<and> ho_current h = Some g \<and> State (ho_machine h) = StateStarting \<and> GenerationID (ho_machine h) = g \<and>
     mg_current (fst (ho_world h)) = Some (rl_Target l) \<and> g \<in> ho_alive h \<and>
     (\<exists>r. ho_runs h g = Some r \<and> gr_pc r = PMark \<and> gr_url r = url)"

lemma way_commit:
  assumes "on_way g l c url PCommit ph h" "smooth hv g l c x"
  shows "committed g l url (run_step hv x g h)"
proof -
  obtain r l' where r: "ho_runs h g = Some r" "gr_pc r = PCommit" "\<not> gr_cancelled r" "gr_launch r = Some l'" "rl_Target l' = rl_Target l"
      "gr_url r = url" "g \<in> ho_alive h"
    using assms(1) by (auto simp: on_way_def)
  have "\<not> io_cancelled ((x_io x)\<lparr>io_cancelled := gr_cancelled r \<or> io_cancelled (x_io x)\<rparr>)" using assms(2) r(3) by (simp add: smooth_def)
  moreover have "mg_current (fst (ho_world h)) = None" using assms(1) by (simp add: on_way_def)
  ultimately obtain w' where "commitVersionHealthy (hv_env hv) (hv_points hv) ((x_io x)\<lparr>io_cancelled := gr_cancelled r \<or> io_cancelled (x_io x)\<rparr>)
      (x_capture x) (x_capture2 x) (x_now x) (x_id x) l' (ho_world h) = (w', None)" "mg_current (fst w') = Some (rl_Target l')"
    using commit_accepted by blast
  then show ?thesis
    using assms(1) r by (simp add: run_step_def commit_step_def committed_def on_way_def move_def)
qed

lemma way_ready:
  assumes "committed g l url h" "url \<noteq> []"
  shows "let h' = run_step hv x g h in State (ho_machine h') = StateReady \<and> WorkspaceURL (ho_machine h') = url \<and>
    GenerationID (ho_machine h') = g \<and> ho_current h' = Some g \<and> mg_current (fst (ho_world h')) = Some (rl_Target l) \<and> g \<in> ho_alive h'"
  using assms by (auto simp: committed_def run_step_def mark_step_def MarkReady_def checkGeneration_def move_def)

lemma way_begin:
  assumes "newGenerationID random (ho_seq h) = (g, n)" "ho_runs h g = None" "ho_managerSwitchGuarded h" "ho_current h = None"
    "State (ho_machine h) = StateStopped \<or> State (ho_machine h) = StateFailed" "mg_current (fst (ho_world h)) = None"
  shows "on_way g l c url PConfiguration PhaseConfiguration (beginResolvedRun random l h)"
  using assms newGenerationID_nonempty [of random "ho_seq h"]
  by (auto simp: beginResolvedRun_def beginRunLocked_def BeginStart_def SetLaunchSelection_def checkGeneration_def on_way_def new_run_def empty_status_def)

lemma reaches_commit:
  assumes "newGenerationID random (ho_seq h) = (g, n)" "ho_runs h g = None" "ho_managerSwitchGuarded h" "ho_current h = None"
    and "State (ho_machine h) = StateStopped \<or> State (ho_machine h) = StateFailed" "mg_current (fst (ho_world h)) = None"
    and "smooth hv g l c x"
  shows "committed g l (x_url x) (fold (host_step hv) (BeginResolved random l # replicate 13 (Run x g)) h)"
proof -
  let ?go = "run_step hv x g" and ?way = "on_way g l c (x_url x)"
  note x = assms(7)
  define h0 where "h0 = beginResolvedRun random l h"
  have "?way PConfiguration PhaseConfiguration h0" unfolding h0_def using way_begin [OF assms(1-6)] .
  from way_phases(1) [OF this x refl refl] have "?way PNode PhaseConfiguration (?go h0)" .
  from way_phases(2) [OF this x refl refl] have "?way PWorkspace PhaseNode ((?go ^^ 2) h0)" by (simp add: numeral_2_eq_2)
  from way_steps(1) [OF this x refl] have "?way PLaunch PhaseNode ((?go ^^ 3) h0)" by (simp add: numeral_eq_Suc)
  from way_steps(2) [OF this x refl] have "?way PSelect PhaseNode ((?go ^^ 4) h0)" by (simp add: numeral_eq_Suc)
  from way_steps(3) [OF this x refl] have "?way PContext PhaseNode ((?go ^^ 5) h0)" by (simp add: numeral_eq_Suc)
  from way_steps(4) [OF this x refl] have "?way PChannel PhaseNode ((?go ^^ 6) h0)" by (simp add: numeral_eq_Suc)
  from way_steps(5) [OF this x refl] have "?way PWorkerPhase PhaseNode ((?go ^^ 7) h0)" by (simp add: numeral_eq_Suc)
  from way_phases(3) [OF this x refl refl] have "?way PSpawn PhaseWorker ((?go ^^ 8) h0)" by (simp add: numeral_eq_Suc)
  from way_steps(6) [OF this x refl] have "?way PReadiness PhaseWorker ((?go ^^ 9) h0)" by (simp add: numeral_eq_Suc)
  from way_phases(4) [OF this x refl refl] have "?way PAwait PhaseReadiness ((?go ^^ 10) h0)" by (simp add: numeral_eq_Suc)
  from way_phases(5) [OF this x refl refl refl] have "?way PBoot PhaseCheckpoint ((?go ^^ 11) h0)" by (simp add: numeral_eq_Suc)
  from way_steps(7) [OF this x refl] have "?way PCommit PhaseCheckpoint ((?go ^^ 12) h0)" by (simp add: numeral_eq_Suc)
  from way_commit [OF this x] have "committed g l (x_url x) ((?go ^^ 13) h0)" by (simp add: numeral_eq_Suc)
  moreover have "fold (host_step hv) (BeginResolved random l # replicate 13 (Run x g)) h = (?go ^^ 13) h0"
    by (simp add: h0_def numeral_eq_Suc)
  ultimately show ?thesis by simp
qed

lemma fold_last: "fold f (xs @ [x]) s = f x (fold f xs s)"
  by simp

text \<open>(C39) When a switch has taken the manager's guard, no generation is owned and every adapter answers,
  the generation that is begun for a resolved launch becomes ready after fourteen steps of its
  goroutine: the machine shows the address the Worker announced, the Worker's boundary is open, the
  Host owns the generation, and the manager's current run context is the one that was resolved.
\<close>

theorem healthy_start_becomes_ready:
  assumes "newGenerationID random (ho_seq h) = (g, n)" "ho_runs h g = None" "ho_managerSwitchGuarded h" "ho_current h = None"
    and "State (ho_machine h) = StateStopped \<or> State (ho_machine h) = StateFailed" "mg_current (fst (ho_world h)) = None"
    and "smooth hv g l c x"
  shows "let h' = fold (host_step hv) (BeginResolved random l # replicate 14 (Run x g)) h in
    State (ho_machine h') = StateReady \<and> WorkspaceURL (ho_machine h') = x_url x \<and> GenerationID (ho_machine h') = g \<and>
    ho_current h' = Some g \<and> mg_current (fst (ho_world h')) = Some (rl_Target l) \<and> g \<in> ho_alive h'"
proof -
  have "BeginResolved random l # replicate 14 (Run x g) = (BeginResolved random l # replicate 13 (Run x g)) @ [Run x g]"
    by (simp add: numeral_eq_Suc)
  moreover have "x_url x \<noteq> []" using assms(7) by (simp add: smooth_def)
  ultimately show ?thesis
    using way_ready [OF reaches_commit [OF assms], of hv x] by (simp only: fold_last host_step.simps Let_def) blast
qed

end
