(* ===== verification/Host_Guard.thy ===== *)
theory Host_Guard
  imports Host_Run
begin

text \<open>
  The guard of the manager.  A context switch takes it, and so does the stop of a generation; while
  somebody holds it the manager refuses every operation of its users.  The Host keeps who holds it in
  several places, and hands it from a switch to a generation whose clean-up is pending.
\<close>

subsection \<open>The manager does not touch its guard\<close>

abbreviation switching :: "world \<Rightarrow> bool" where
  "switching w \<equiv> mg_switching (fst w)"

lemma save_then_switching:
  assumes "\<And>m. mg_switching (upd m) = mg_switching m"
  shows "switching (fst (save_then env io s upd w)) = switching w"
proof -
  obtain c where "fst (fst (save_then env io s upd w)) \<in> {(fst w)\<lparr>mg_recordCache := c\<rparr>, upd ((fst w)\<lparr>mg_recordCache := c\<rparr>)}"
    using save_then_manager by blast
  then show ?thesis using assms by (elim insertE emptyE) simp_all
qed

lemma runtimes_switching: "save_then env io s (\<lambda>m. m\<lparr>mg_Runtimes := rs\<rparr>) w = (w', e) \<Longrightarrow> switching w' = switching w"
  using save_then_switching [of "\<lambda>m. m\<lparr>mg_Runtimes := rs\<rparr>" env io s w] by simp

lemma register_switching: "registerRuntime env io r w = (w', e) \<Longrightarrow> switching w' = switching w"
  by (auto simp: registerRuntime_def Let_def split: if_splits sum.splits dest!: runtimes_switching)

lemma observe_switching: "observeRuntimeVersion env io r v w = (w', x) \<Longrightarrow> switching w' = switching w"
  by (auto simp: observeRuntimeVersion_def Let_def split: if_splits prod.splits option.splits dest!: register_switching)

lemma resolve_switching: "ResolveLaunch env le io t w = (w', x) \<Longrightarrow> switching w' = switching w"
  by (auto simp: ResolveLaunch_def Let_def split: if_splits prod.splits option.splits sum.splits dest!: observe_switching)

lemma commit_switching: "commitVersionHealthy env pe io c1 c2 now newID l w = (w', e) \<Longrightarrow> switching w' = switching w"
  by (auto simp: commitVersionHealthy_def Let_def split: if_splits prod.splits option.splits)

lemma clear_switching: "ClearCurrent io w = (w', e) \<Longrightarrow> switching w' = switching w"
  by (auto simp: ClearCurrent_def split: if_splits)

lemma version_state_switching: "saveVersionState env io s w = (w', e) \<Longrightarrow> switching w' = switching w"
  using save_then_switching [of "\<lambda>m. m\<lparr>mg_versionRecovery := Some s\<rparr>" env io _ w] by (simp add: saveVersionState_def) (metis fst_conv)

lemma stage_switching: "setRecoveryStage env io stage status detail w = (w', e) \<Longrightarrow> switching w' = switching w"
  by (auto simp: setRecoveryStage_def Let_def split: option.splits dest!: version_state_switching)

lemma failed_switching: "recovery_failed env pe rx e w = (w', x) \<Longrightarrow> switching w' = switching w"
  unfolding recovery_failed_def using stage_switching [of env _ "''failed''" "''failed''" _ w] by (metis prod.collapse prod.inject)

lemma install_switching: "install_point env le pe rx p config w = (w', x) \<Longrightarrow> switching w' = switching w"
  unfolding install_point_def Let_def
  by (auto split: if_splits prod.splits option.splits sum.splits dest!: failed_switching stage_switching runtimes_switching)

lemma recover_switching: "RecoverVersionPoint env le pe rx resumed ident w = (w', x) \<Longrightarrow> switching w' = switching w"
  by (auto simp: RecoverVersionPoint_def Let_def split: if_splits prod.splits option.splits sum.splits
      dest!: version_state_switching install_switching)

lemma resume_switching: "ResumeVersionRecovery env le pe rx io automatic w = (w', x) \<Longrightarrow> switching w' = switching w"
  by (auto simp: ResumeVersionRecovery_def Let_def split: if_splits prod.splits option.splits sum.splits
      dest!: version_state_switching recover_switching)

subsection \<open>Who holds the guard\<close>

definition guard_owners :: "app_host \<Rightarrow> string option set" where
  "guard_owners h = (if ho_managerSwitchGuarded h then {None} else {}) \<union> Some ` {g. \<exists>r. ho_runs h g = Some r \<and> gr_managerGuarded r}"

definition guard_inv :: "app_host \<Rightarrow> bool" where
  "guard_inv h \<longleftrightarrow> (\<exists>a. guard_owners h \<subseteq> {a}) \<and> (guard_owners h = {} \<or> switching (ho_world h)) \<and> (ho_managerSwitchGuarded h \<longrightarrow> ho_switching h)"

lemma owner_None [simp]: "None \<in> guard_owners h \<longleftrightarrow> ho_managerSwitchGuarded h"
  by (auto simp: guard_owners_def)

lemma owner_Some [simp]: "Some g \<in> guard_owners h \<longleftrightarrow> (\<exists>r. ho_runs h g = Some r \<and> gr_managerGuarded r)"
  by (auto simp: guard_owners_def)

text \<open>The step of one generation is seen with its new run already in place.\<close>

lemma owners_set_run:
  "guard_owners (set_run g r h) = (guard_owners h - {Some g}) \<union> (if gr_managerGuarded r then {Some g} else {})"
  by (auto simp: guard_owners_def)

lemma guard_inv_keep:
  assumes "guard_inv h" "guard_owners h' \<subseteq> guard_owners h" "switching (ho_world h') = switching (ho_world h)"
    "ho_managerSwitchGuarded h' \<longrightarrow> ho_switching h'"
  shows "guard_inv h'"
  using assms unfolding guard_inv_def by blast

lemma guard_taken:
  assumes inv: "guard_inv (set_run g r h)" and guard: "beginManagerStopGuard io g r h = ((r', h'), b)"
  shows "guard_inv (set_run g r' h')"
proof (cases "gr_managerGuarded r \<or> ho_switching h")
  case True
  then show ?thesis using assms by (auto simp: beginManagerStopGuard_def split: if_splits)
next
  case False
  show ?thesis
  proof (cases "switching (ho_world h) \<or> io_cancelled io")
    case True
    then show ?thesis using assms False by (auto simp: beginManagerStopGuard_def BeginRunContextSwitch_def split: if_splits)
  next
    case free: False
    then have "guard_owners (set_run g r h) = {}" using inv by (simp add: guard_inv_def)
    then have none: "guard_owners h - {Some g} = {}" by (auto simp: owners_set_run)
    have r': "r' = r\<lparr>gr_managerGuarded := True\<rparr>" and h': "h' = h\<lparr>ho_world := ((fst (ho_world h))\<lparr>mg_switching := True\<rparr>, snd (ho_world h))\<rparr>"
      using guard free False by (auto simp: beginManagerStopGuard_def BeginRunContextSwitch_def)
    have "guard_owners h' = guard_owners h" by (simp add: h' guard_owners_def)
    then have "guard_owners (set_run g r' h') = {Some g}" using none by (auto simp: owners_set_run r')
    then show ?thesis using inv by (auto simp: guard_inv_def h')
  qed
qed

lemma guard_released:
  assumes inv: "guard_inv (set_run g r h)" and rel: "releaseManagerStopGuard io r h = (r', h')"
  shows "guard_inv (set_run g r' h')"
proof (cases "gr_managerGuarded r")
  case True
  then have "guard_owners h - {Some g} = {}" using inv by (auto simp: guard_inv_def owners_set_run)
  moreover have r': "r' = r\<lparr>gr_managerGuarded := False\<rparr>" "guard_owners h' = guard_owners h" "ho_managerSwitchGuarded h' = ho_managerSwitchGuarded h"
    "ho_switching h' = ho_switching h"
    using rel True by (auto simp: releaseManagerStopGuard_def guard_owners_def)
  ultimately have "guard_owners (set_run g r' h') = {}" by (auto simp: owners_set_run)
  then show ?thesis using inv r' by (auto simp: guard_inv_def)
qed (use assms in \<open>simp add: releaseManagerStopGuard_def\<close>)

text \<open>Everything else a generation does leaves the owners and the guard as they are.\<close>

definition same_guard :: "grun \<Rightarrow> app_host \<Rightarrow> grun \<Rightarrow> app_host \<Rightarrow> bool" where
  "same_guard r h r' h' \<longleftrightarrow> gr_managerGuarded r' = gr_managerGuarded r \<and> ho_runs h' = ho_runs h \<and>
     ho_managerSwitchGuarded h' = ho_managerSwitchGuarded h \<and> ho_switching h' = ho_switching h \<and> switching (ho_world h') = switching (ho_world h)"

lemma same_guard_inv:
  assumes "guard_inv (set_run g r h)" "same_guard r h r' h'"
  shows "guard_inv (set_run g r' h')"
proof -
  have "guard_owners h' = guard_owners h" using assms(2) by (simp add: same_guard_def guard_owners_def)
  then show ?thesis using assms by (simp add: guard_inv_def owners_set_run same_guard_def)
qed

lemma clear_guard: "clearCurrent ci r h = ((r', h'), e) \<Longrightarrow> same_guard r h r' h'"
  by (auto simp: clearCurrent_def same_guard_def split: if_splits prod.splits option.splits dest!: clear_switching)

lemma close_guard: "closeChannel ci r = (r', e) \<Longrightarrow> gr_managerGuarded r' = gr_managerGuarded r"
  by (auto simp: closeChannel_def split: if_splits option.splits)

lemma cleanup_guard:
  assumes inv: "guard_inv (set_run g r h)" and clean: "cleanupWorker ci g r h = ((r', h'), e)"
  shows "guard_inv (set_run g r' h')"
proof (cases "gr_worker r")
  case True
  obtain r1 h1 b where guard: "beginManagerStopGuard (ci_guard ci) g r h = ((r1, h1), b)" by (metis prod.exhaust)
  obtain r2 h2 c where clear: "clearCurrent ci r1 h1 = ((r2, h2), c)" by (metis prod.exhaust)
  obtain r3 d where close: "closeChannel ci r2 = (r3, d)" by (metis prod.exhaust)
  have one: "guard_inv (set_run g r1 h1)" by (rule guard_taken [OF inv guard])
  then have "guard_inv (set_run g r2 h2)" by (rule same_guard_inv [OF _ clear_guard [OF clear]])
  then have kept: "guard_inv (set_run g q h2)" if "gr_managerGuarded q = gr_managerGuarded r3" for q
    by (rule same_guard_inv) (simp add: same_guard_def that close_guard [OF close])
  moreover have "guard_owners (set_run g q (h2\<lparr>ho_alive := a\<rparr>)) = guard_owners (set_run g q h2)" for q a
    by (simp add: owners_set_run) (simp add: guard_owners_def)
  ultimately have "guard_inv (set_run g q (h2\<lparr>ho_alive := a\<rparr>))" if "gr_managerGuarded q = gr_managerGuarded r3" for q a
    using that by (simp add: guard_inv_def)
  note alive = this
  show ?thesis
  proof (cases b)
    case False
    then show ?thesis using clean True guard one by (simp add: cleanupWorker_def)
  next
    case b: True
    have "h' = h2 \<and> r' = r3 \<or> gr_managerGuarded r' = gr_managerGuarded r3 \<and> h' = h2\<lparr>ho_alive := ho_alive h2 - {g}\<rparr>"
      using clean True guard clear close b by (auto simp: cleanupWorker_def Let_def split: option.splits if_splits)
    then show ?thesis using alive kept by blast
  qed
qed (use assms in \<open>simp add: cleanupWorker_def\<close>)

subsection \<open>The goroutine of a generation\<close>

lemma same_guardI:
  "gr_managerGuarded q = gr_managerGuarded r \<Longrightarrow> switching w = switching (ho_world h) \<Longrightarrow> same_guard r h q (h\<lparr>ho_machine := m, ho_world := w\<rparr>)"
  "gr_managerGuarded q = gr_managerGuarded r \<Longrightarrow> switching w = switching (ho_world h) \<Longrightarrow> same_guard r h q (h\<lparr>ho_world := w\<rparr>)"
  "gr_managerGuarded q = gr_managerGuarded r \<Longrightarrow> same_guard r h q (h\<lparr>ho_machine := m\<rparr>)"
  "gr_managerGuarded q = gr_managerGuarded r \<Longrightarrow> same_guard r h q (h\<lparr>ho_alive := a\<rparr>)"
  "gr_managerGuarded q = gr_managerGuarded r \<Longrightarrow> same_guard r h q h"
  by (simp_all add: same_guard_def)

lemma guard_self: "guard_inv h \<Longrightarrow> ho_runs h g = Some r \<Longrightarrow> guard_inv (set_run g r h)"
  by (simp add: set_run_def fun_upd_idem)

lemma move_guard: "guard_inv (set_run g r h) \<Longrightarrow> same_guard r h q h' \<Longrightarrow> guard_inv (move g q pc h')"
  unfolding move_def by (rule same_guard_inv) (simp_all add: same_guard_def)

lemma phase_guard:
  assumes "guard_inv (set_run g r h)" "gr_managerGuarded q = gr_managerGuarded r"
  shows "guard_inv (phase_step p ok refused g q h)"
  using move_guard [OF assms(1) same_guardI(3) [OF assms(2)]] by (auto simp: phase_step_def split: prod.split option.split)

lemma finish_guard:
  assumes inv: "guard_inv (set_run g r h)" and fin: "finish io g r f h = (r', h')"
  shows "guard_inv (set_run g r' h')"
proof (cases "GenerationID (ho_machine h) = g")
  case True
  define m where "m = (let m = ho_machine h in if State m = StateStopping then fst (CompleteStop g f m)
      else case f of Some x \<Rightarrow> fst (Fail g x m)
        | None \<Rightarrow> (case BeginStop g m of (m, None) \<Rightarrow> fst (CompleteStop g None m) | (_, Some e) \<Rightarrow> m))"
  obtain r1 h1 where rel: "(if cleanupPending r then (r, h\<lparr>ho_machine := m\<rparr>) else releaseManagerStopGuard io r (h\<lparr>ho_machine := m\<rparr>)) = (r1, h1)"
    by (metis prod.exhaust)
  have "guard_inv (set_run g r (h\<lparr>ho_machine := m\<rparr>))" by (rule same_guard_inv [OF inv same_guardI(3) [OF refl]])
  then have one: "guard_inv (set_run g r1 h1)" using rel guard_released [of g r "h\<lparr>ho_machine := m\<rparr>" io r1 h1] by (auto split: if_splits)
  have "finish io g r f h = (r1\<lparr>gr_ready := True\<rparr>, if ho_current h1 = Some g \<and> \<not> (f \<noteq> None \<and> cleanupPending r) then h1\<lparr>ho_current := None\<rparr> else h1)"
    using True rel unfolding finish_def m_def by (simp add: Let_def cong: if_cong)
  with fin have "same_guard r1 h1 r' h'" by (auto simp: same_guard_def split: if_splits)
  with one show ?thesis by (rule same_guard_inv)
qed (use assms in \<open>simp add: finish_def\<close>)

lemma resolveLaunch_switching: "resolveLaunch hv x r w = (w', ps, result) \<Longrightarrow> switching w' = switching w"
  by (auto simp: resolveLaunch_def split: option.splits prod.splits sum.splits if_splits dest!: resume_switching resolve_switching)

lemma start_step_guard:
  assumes inv0: "guard_inv h" and inv: "guard_inv (set_run g r h)"
  shows "guard_inv (start_step hv x pc g r h)"
proof (cases pc)
  case PLaunch
  obtain w ps result where launch: "resolveLaunch hv x r (ho_world h) = (w, ps, result)" by (metis prod.exhaust)
  have "guard_inv (move g q pc' (h\<lparr>ho_machine := m, ho_world := w\<rparr>))" if "gr_managerGuarded q = gr_managerGuarded r" for q pc' m
    by (rule move_guard [OF inv same_guardI(1) [OF that resolveLaunch_switching [OF launch]]])
  then show ?thesis by (auto simp: PLaunch launch Let_def split: sum.split option.split)
qed (use inv0 in \<open>auto simp: Let_def intro!: move_guard [OF inv] phase_guard [OF inv] same_guardI split: option.split prod.split sum.split\<close>)

lemma worker_step_guard:
  assumes inv0: "guard_inv h" and inv: "guard_inv (set_run g r h)"
  shows "guard_inv (worker_step hv x pc g r h)"
proof (cases pc)
  case PCommit
  show ?thesis
    by (auto simp: PCommit commit_step_def intro!: move_guard [OF inv] same_guardI split: option.split prod.split dest!: commit_switching)
next
  case PMark
  show ?thesis by (auto simp: PMark mark_step_def intro!: move_guard [OF inv] same_guardI split: option.split prod.split)
next
  case PAwait
  show ?thesis
    using inv0 by (auto simp: PAwait waitReady_step_def intro!: move_guard [OF inv] phase_guard [OF inv] same_guardI split: option.split await.split)
next
  case (PCleanup f)
  obtain r' h' e where clean: "cleanupWorker (x_clean x) g r h = ((r', h'), e)" by (metis prod.exhaust)
  note one = cleanup_guard [OF inv clean]
  show ?thesis by (cases e) (simp_all add: PCleanup clean move_guard [OF one same_guardI(5) [OF refl]])
next
  case (PFinish f)
  obtain r' h' where fin: "finish (x_io x) g r f h = (r', h')" by (metis prod.exhaust)
  show ?thesis by (simp add: PFinish fin move_guard [OF finish_guard [OF inv fin] same_guardI(5) [OF refl]])
next
  case PDefer
  obtain q e where close: "closeChannel (x_clean x) (r\<lparr>gr_cancelled := True\<rparr>) = (q, e)" by (metis prod.exhaust)
  show ?thesis by (simp add: PDefer close move_guard [OF inv same_guardI(5)] close_guard [OF close])
qed (use inv0 start_step_guard [OF inv0 inv] in \<open>auto simp del: start_step.simps intro!: move_guard [OF inv] phase_guard [OF inv] same_guardI split: option.split\<close>)

subsection \<open>The callers\<close>

lemma guard_frame [simp]:
  "guard_inv (h\<lparr>ho_machine := m\<rparr>) = guard_inv h" "guard_inv (h\<lparr>ho_current := c\<rparr>) = guard_inv h" "guard_inv (h\<lparr>ho_seq := n\<rparr>) = guard_inv h"
  "guard_inv (h\<lparr>ho_stops := gs\<rparr>) = guard_inv h" "guard_inv (h\<lparr>ho_shutdownRequested := b\<rparr>) = guard_inv h"
  by (simp_all add: guard_inv_def guard_owners_def)

lemma set_run_frame:
  "set_run g r (h\<lparr>ho_machine := m\<rparr>) = (set_run g r h)\<lparr>ho_machine := m\<rparr>" "set_run g r (h\<lparr>ho_stops := gs\<rparr>) = (set_run g r h)\<lparr>ho_stops := gs\<rparr>"
  by (simp_all add: set_run_def)

lemma guard_new_run: "guard_inv h \<Longrightarrow> ho_runs h g = None \<Longrightarrow> guard_inv (set_run g (new_run l) h)"
  by (rule guard_inv_keep) (auto simp: owners_set_run new_run_def guard_inv_def)

lemma begin_guard: "guard_inv h \<Longrightarrow> guard_inv (beginRunLocked random launch h)"
  by (auto simp: beginRunLocked_def guard_new_run split: prod.split option.split)

lemma start_round_guard:
  assumes inv: "guard_inv h"
  shows "guard_inv (start_round random ci h)"
proof (cases "ho_current h")
  case (Some g)
  show ?thesis
  proof (cases "ho_runs h g")
    case r: (Some r)
    obtain r1 h1 e where clean: "cleanupWorker ci g r h = ((r1, h1), e)" by (metis prod.exhaust)
    obtain r2 h2 where rel: "releaseManagerStopGuard (ci_clear ci) r1 h1 = (r2, h2)" by (metis prod.exhaust)
    note one = cleanup_guard [OF guard_self [OF inv r] clean]
    show ?thesis
      using inv one guard_released [OF one rel] by (cases e) (simp_all add: start_round_def Some r clean rel)
  qed (use inv in \<open>simp add: start_round_def Some\<close>)
qed (use inv begin_guard in \<open>simp add: start_round_def\<close>)

lemma stop_boundary_guard:
  assumes inv: "guard_inv h"
  shows "guard_inv (stop_boundary io g h)"
proof (cases "ho_runs h g")
  case (Some r)
  let ?h = "h\<lparr>ho_stops := remove1 g (ho_stops h)\<rparr>"
  obtain m e where stop: "BeginStop g (ho_machine h) = (m, e)" by (metis prod.exhaust)
  obtain r1 h1 b where guard: "beginManagerStopGuard io g (r\<lparr>gr_cancelled := True\<rparr>) (?h\<lparr>ho_machine := m\<rparr>) = ((r1, h1), b)"
    by (metis prod.exhaust)
  have "guard_inv (set_run g (r\<lparr>gr_cancelled := True\<rparr>) (?h\<lparr>ho_machine := m\<rparr>))"
    using same_guard_inv [OF guard_self [OF inv Some] same_guardI(5)] by (simp add: set_run_frame)
  from guard_taken [OF this guard] show ?thesis
    using inv by (cases e) (simp_all add: stop_boundary_def Some stop guard)
qed (use inv in \<open>simp add: stop_boundary_def\<close>)

lemma stopRun_guard: "guard_inv h \<Longrightarrow> guard_inv (stopRun_begin h)" "guard_inv h \<Longrightarrow> guard_inv (stopRun_end ci g h)"
proof -
  assume inv: "guard_inv h"
  show "guard_inv (stopRun_begin h)"
    using inv by (auto simp: stopRun_begin_def set_run_frame intro: same_guard_inv [OF guard_self [OF inv] same_guardI(5)] split: option.split prod.split)
  show "guard_inv (stopRun_end ci g h)"
  proof (cases "ho_runs h g")
    case (Some r)
    obtain r1 h1 e where clean: "cleanupWorker ci g r h = ((r1, h1), e)" by (metis prod.exhaust)
    note one = cleanup_guard [OF guard_self [OF inv Some] clean]
    show ?thesis using inv one by (cases e) (simp_all add: stopRun_end_def Some clean)
  qed (use inv in \<open>simp add: stopRun_end_def\<close>)
qed

lemma switch_guard_guard: "guard_inv h \<Longrightarrow> guard_inv (switch_guard io c h)"
  by (auto simp: switch_guard_def BeginRunContextSwitch_def guard_inv_def guard_owners_def split: prod.split option.split)

lemma switch_end_guard:
  assumes inv: "guard_inv h"
  shows "guard_inv (switch_end io h)"
proof (cases "ho_managerSwitchGuarded h")
  case True
  then have alone: "\<not> gr_managerGuarded r" if "ho_runs h g = Some r" for g r
    using inv that by (auto simp: guard_inv_def guard_owners_def)
  have "guard_owners ((set_run g q h)\<lparr>ho_managerSwitchGuarded := False, ho_switching := False\<rparr>) \<subseteq> {Some g}" for g q
    using alone by (auto simp: guard_owners_def split: if_splits)
  moreover have "guard_owners (h\<lparr>ho_world := w, ho_managerSwitchGuarded := False, ho_switching := False\<rparr>) = {}" for w
    using alone by (auto simp: guard_owners_def)
  moreover have "switching (ho_world h)" using inv True by (auto simp: guard_inv_def guard_owners_def)
  ultimately show ?thesis
    using True by (auto simp: switch_end_def Let_def guard_inv_def split: option.split)
qed (use inv in \<open>simp add: switch_end_def\<close>)

lemma shutdown_guard:
  assumes inv: "guard_inv h"
  shows "guard_inv (shutdownPendingRun ci io h)"
proof (cases "\<exists>g r. ho_current h = Some g \<and> ho_runs h g = Some r")
  case True
  then obtain g r where r: "ho_current h = Some g" "ho_runs h g = Some r" by blast
  let ?h = "h\<lparr>ho_machine := fst (BeginStop g (ho_machine h))\<rparr>"
  obtain r1 h1 e where clean: "cleanupWorker ci g r ?h = ((r1, h1), e)" by (metis prod.exhaust)
  have "guard_inv (set_run g r ?h)" using guard_self [OF inv r(2)] by (simp add: set_run_frame)
  note one = cleanup_guard [OF this clean]
  show ?thesis
  proof (cases e)
    case None
    obtain r2 h2 where rel: "releaseManagerStopGuard io r1 h1 = (r2, h2)" by (metis prod.exhaust)
    obtain m x where comp: "CompleteStop g None (ho_machine h2) = (m, x)" by (metis prod.exhaust)
    show ?thesis
      using inv guard_released [OF one rel] by (cases x) (simp_all add: shutdownPendingRun_def Let_def r clean None rel comp)
  next
    case (Some f)
    obtain r3 h3 where fin: "finish io g r1 (Some f) h1 = (r3, h3)" by (metis prod.exhaust)
    show ?thesis using inv finish_guard [OF one fin] by (simp add: shutdownPendingRun_def Let_def r clean Some fin)
  qed
qed (use inv in \<open>auto simp: shutdownPendingRun_def split: option.split\<close>)

lemma host_step_guard:
  assumes inv: "guard_inv h"
  shows "guard_inv (host_step hv a h)"
proof (cases a)
  case (Run x g)
  then show ?thesis using inv worker_step_guard [OF inv guard_self [OF inv]] by (simp add: run_step_def split: option.split)
next
  case StopFetch
  then show ?thesis using inv by (simp add: stop_fetch_def split: option.split)
next
  case SwitchFlag
  then show ?thesis using inv by (simp add: switch_flag_def guard_inv_def guard_owners_def)
qed (use inv in \<open>simp_all add: start_round_guard stop_boundary_guard stopRun_guard switch_guard_guard switch_end_guard shutdown_guard
    begin_guard beginResolvedRun_def\<close>)

lemma NewHost_guard: "guard_inv (NewHost w)"
  by (simp add: guard_inv_def guard_owners_def NewHost_def)

interpretation guards: invariant_system "NewHost w" "host_step hv" guard_inv for w hv
  by unfold_locales (rule NewHost_guard, rule host_step_guard)

text \<open>(C5) However the goroutines of the Host are interleaved, the guard of the manager has at most one
  holder - the switch in progress or one generation - and while it has one every gated operation of
  the manager is refused and changes nothing.
\<close>

theorem guard_has_one_owner:
  "let h = fold (host_step hv) script (NewHost w) in
     (\<exists>a. guard_owners h \<subseteq> {a}) \<and>
     (guard_owners h = {} \<or> fst (guarded io f (ho_world h)) = ho_world h \<and> snd (guarded io f (ho_world h)) \<noteq> None)"
proof -
  have "guard_inv (fold (host_step hv) script (NewHost w))" by (rule guards.inv_run)
  then show ?thesis by (auto simp: Let_def guard_inv_def guarded_def)
qed

end
