(* ===== verification/Host_Switch.thy ===== *)
theory Host_Switch
  imports Host_Guard
begin

text \<open>
  \<open>applyRunContextLocked\<close> of \<open>internal/app/host.go\<close>: the replacement of one run context by another, its
  automatic rollback, and the guided recovery of a restore point.  The caller holds \<open>switchMu\<close>, so while
  it waits only goroutines of generations, cancellations and shutdown requests can run; what they do is
  an argument of each wait.  The result is \<open>None\<close> as long as the wait is not over.
\<close>

subsection \<open>Waiting\<close>

definition concurrent :: "host_action \<Rightarrow> bool" where
  "concurrent a = (case a of Run x g \<Rightarrow> True | StopFetch \<Rightarrow> True | StopBoundary io g \<Rightarrow> True | SetShutdown b \<Rightarrow> True | _ \<Rightarrow> False)"

definition meanwhile :: "host_env \<Rightarrow> host_action list \<Rightarrow> app_host \<Rightarrow> app_host" where
  "meanwhile hv as h = fold (host_step hv) (filter concurrent as) h"

text \<open>A wait ends with what it waits for, or by the end of its context: then with what happens until the
  generation is gone, or with its own timer.\<close>

datatype wait = Waits "host_action list" | TimesOut "host_action list" "host_action list" bool

record switch_input =
  sx_target :: run_context
  sx_startup :: "failure option"
  sx_restore :: bool
  sx_mutate :: "failure option option"
  sx_selected :: string
  sx_automatic :: bool
  sx_cancelled :: bool
  sx_exited :: bool
  sx_guard :: save_io
  sx_guardCancelled :: bool
  sx_io :: save_io
  sx_record :: save_io
  sx_prepare :: "failure option"
  sx_clean :: clean_io
  sx_recover :: recover_io
  sx_rollback :: recover_io
  sx_random :: "64 word option"
  sx_random2 :: "64 word option"
  sx_stopWait :: wait
  sx_candidateWait :: wait
  sx_rollbackWait :: wait
  sx_failure :: "mgr_error \<Rightarrow> failure"
  sx_busy :: failure
  sx_timeout :: failure
  sx_unready :: failure
  sx_remediation :: "error_code \<Rightarrow> string"
  sx_now :: string

datatype switch_outcome = SwitchOk | SwitchFailure failure | SwitchError mgr_error

definition cancel_run :: "string \<Rightarrow> app_host \<Rightarrow> app_host" where
  "cancel_run g h = (case ho_runs h g of None \<Rightarrow> h | Some r \<Rightarrow> set_run g (r\<lparr>gr_cancelled := True\<rparr>) h)"

definition waitForRun :: "host_env \<Rightarrow> wait \<Rightarrow> failure \<Rightarrow> string \<Rightarrow> app_host \<Rightarrow> (app_host \<times> failure option) option" where
  "waitForRun hv wait f g h =
    (case wait of
       Waits as \<Rightarrow>
         let h = meanwhile hv as h
         in (case ho_runs h g of None \<Rightarrow> None | Some r \<Rightarrow> if gr_ready r then Some (h, Error (ho_machine h)) else None)
     | TimesOut as bs timer \<Rightarrow>
         let h = meanwhile hv bs (cancel_run g (meanwhile hv as h))
         in (case ho_runs h g of
               None \<Rightarrow> None
             | Some r \<Rightarrow> if timer then Some (h, Some f)
                 else if gr_done r then Some (h, Some (case Error (ho_machine h) of Some e \<Rightarrow> e | None \<Rightarrow> f)) else None))"

definition stopRun :: "host_env \<Rightarrow> switch_input \<Rightarrow> string \<Rightarrow> app_host \<Rightarrow> (app_host \<times> failure option) option" where
  "stopRun hv sx g h =
    (case BeginStop g (ho_machine h) of (m, e) \<Rightarrow>
       if e \<noteq> None \<and> State m \<noteq> StateStopping then Some (h, Some (case Error m of Some f \<Rightarrow> f | None \<Rightarrow> sx_busy sx))
       else case sx_stopWait sx of
           TimesOut as bs timer \<Rightarrow> Some (meanwhile hv as (stopRun_begin h), Some (sx_timeout sx))
         | Waits as \<Rightarrow>
             let h = meanwhile hv as (stopRun_begin h)
             in (case ho_runs h g of
                   None \<Rightarrow> None
                 | Some r \<Rightarrow>
                     if \<not> gr_done r then None
                     else let cleaned = (if cleanupPending r then snd (cleanupWorker (sx_clean sx) g r h) else None);
                              h = stopRun_end (sx_clean sx) g h
                       in Some (h, case cleaned of
                            Some f \<Rightarrow> Some f
                          | None \<Rightarrow> if State (ho_machine h) = StateFailed then Error (ho_machine h) else None)))"

text \<open>\<open>Inl\<close>: the generation could not begin.\<close>

definition runResolvedContext ::
    "host_env \<Rightarrow> 64 word option \<Rightarrow> resolved_launch \<Rightarrow> wait \<Rightarrow> switch_input \<Rightarrow> app_host \<Rightarrow> (app_host \<times> (failure + failure option)) option" where
  "runResolvedContext hv random l wait sx h =
    (let h' = beginResolvedRun random l h
     in case (ho_current h, ho_current h') of
          (None, Some g) \<Rightarrow> map_option (\<lambda>(h, f). (h, Inr f)) (waitForRun hv wait (sx_timeout sx) g h')
        | _ \<Rightarrow> Some (h', Inl (sx_busy sx)))"

subsection \<open>Recording\<close>

text \<open>\<open>failureFor\<close> of an error that is a failure already.\<close>

definition completed_failure :: "switch_input \<Rightarrow> status \<Rightarrow> failure \<Rightarrow> failure" where
  "completed_failure sx m f =
    f\<lparr>f_CorrelationID := (if f_CorrelationID f = [] then CorrelationID m else f_CorrelationID f),
      f_Detail := (if f_Detail f = [] then sx_remediation sx (f_Code f) else f_Detail f)\<rparr>"

definition recordSwitchAttempt ::
    "host_env \<Rightarrow> switch_input \<Rightarrow> string \<Rightarrow> failure \<Rightarrow> bool \<Rightarrow> string \<Rightarrow> failure option \<Rightarrow> bool \<Rightarrow> app_host \<Rightarrow> app_host \<times> switch_outcome" where
  "recordSwitchAttempt hv sx stage f automatic rollback rf configureTarget h =
    (let f = completed_failure sx (ho_machine h) f;
         attempt = \<lparr>sa_Target = sx_target sx, sa_Stage = stage, sa_Failure = f, sa_AutomaticRollback = automatic, sa_Rollback = rollback,
           sa_RollbackFailure = map_option (completed_failure sx (ho_machine h)) rf, sa_CompletedAt = sx_now sx\<rparr>
     in (h\<lparr>ho_world := fst (RecordSwitchAttempt (hv_env hv) ((sx_record sx)\<lparr>io_cancelled := False\<rparr>) attempt configureTarget (ho_world h))\<rparr>,
         SwitchFailure f))"

definition finishContextSwitchFailure :: "switch_input \<Rightarrow> failure \<Rightarrow> failure \<Rightarrow> app_host \<Rightarrow> app_host \<times> switch_outcome" where
  "finishContextSwitchFailure sx candidate rollback h =
    (let m = ho_machine h; f = (completed_failure sx m rollback)\<lparr>f_Retryable := True\<rparr>; c = completed_failure sx m candidate;
         f = f\<lparr>f_Detail := ''Candidate '' @ f_Code c @ '': '' @ f_Detail c @ '' Rollback '' @ f_Code f @ '': '' @ f_Detail f\<rparr>
     in (if State m = StateFailed \<and> GenerationID m \<noteq> [] then h\<lparr>ho_machine := fst (ReplaceFailure (GenerationID m) f m)\<rparr> else h,
         SwitchFailure f))"

definition failureFromStatus :: "switch_input \<Rightarrow> status \<Rightarrow> failure" where
  "failureFromStatus sx m = (case Error m of Some f \<Rightarrow> f | None \<Rightarrow> (sx_unready sx)\<lparr>f_CorrelationID := CorrelationID m\<rparr>)"

subsection \<open>After a failed candidate\<close>

definition on_world :: "(world \<Rightarrow> world) \<Rightarrow> app_host \<Rightarrow> app_host" where
  "on_world f h = h\<lparr>ho_world := f (ho_world h)\<rparr>"

definition fail_recovery :: "host_env \<Rightarrow> switch_input \<Rightarrow> app_host \<Rightarrow> app_host" where
  "fail_recovery hv sx = on_world (FailVersionRecovery (hv_env hv) ((sx_record sx)\<lparr>io_cancelled := False\<rparr>))"

definition rollback_run ::
    "host_env \<Rightarrow> switch_input \<Rightarrow> failure \<Rightarrow> string \<Rightarrow> app_host \<Rightarrow> (app_host \<times> switch_outcome) option" where
  "rollback_run hv sx f pointID h =
    (let failed = (\<lambda>rf h. finishContextSwitchFailure sx f rf (fst (recordSwitchAttempt hv sx ''rollback'' f True ''failed'' (Some rf) False h)))
     in case RecoverVersionPoint (hv_env hv) (hv_launch hv) (hv_points hv) (sx_rollback sx) False pointID (ho_world h) of
          (w, Inl e) \<Rightarrow> Some (failed (sx_failure sx e) (h\<lparr>ho_world := w\<rparr>))
        | (w, Inr l) \<Rightarrow>
            (case runResolvedContext hv (sx_random2 sx) l (sx_rollbackWait sx) sx (h\<lparr>ho_world := w\<rparr>) of
               None \<Rightarrow> None
             | Some (h, Inl rf) \<Rightarrow> Some (failed rf h)
             | Some (h, Inr rf) \<Rightarrow>
                 if rf \<noteq> None \<or> State (ho_machine h) \<noteq> StateReady
                 then Some (failed (case rf of Some rf \<Rightarrow> rf | None \<Rightarrow> failureFromStatus sx (ho_machine h)) (fail_recovery hv sx h))
                 else Some (recordSwitchAttempt hv sx ''candidate'' f True ''restored'' None False h)))"

definition candidate_failed ::
    "host_env \<Rightarrow> switch_input \<Rightarrow> failure \<Rightarrow> bool \<Rightarrow> string \<Rightarrow> app_host \<Rightarrow> (app_host \<times> switch_outcome) option" where
  "candidate_failed hv sx f knownGood pointID h =
    (let unfinished = (case PendingVersionRecovery (fst (ho_world h)) of None \<Rightarrow> False | Some p \<Rightarrow> ro_Status p \<noteq> ''completed'');
         cleaning = (case ho_current h of None \<Rightarrow> False | Some g \<Rightarrow> (case ho_runs h g of None \<Rightarrow> False | Some r \<Rightarrow> cleanupPending r))
     in if sx_cancelled sx then Some (recordSwitchAttempt hv sx ''candidate'' f False ''disabled'' None False h)
        else if sx_restore sx then Some (recordSwitchAttempt hv sx ''rollback'' f False ''failed'' (Some f) False (fail_recovery hv sx h))
        else if sx_startup sx \<noteq> None \<and> unfinished then Some (recordSwitchAttempt hv sx ''rollback'' f False ''failed'' None False h)
        else if \<not> sx_automatic sx then Some (recordSwitchAttempt hv sx ''candidate'' f False ''disabled'' None True h)
        else if pointID = [] then Some (recordSwitchAttempt hv sx ''candidate'' f True ''unavailable'' None False h)
        else if \<not> knownGood \<and> mg_knownGood (fst (ho_world h)) = None
        then Some (recordSwitchAttempt hv sx ''candidate'' f True ''unavailable'' None False h)
        else if cleaning then Some (recordSwitchAttempt hv sx ''rollback'' f True ''failed'' (Some (sx_busy sx)) False h)
        else rollback_run hv sx f pointID h)"

subsection \<open>The transaction\<close>

text \<open>What has to go well before the candidate can be started; \<open>Inl\<close> is the failure of the candidate.\<close>

definition prepare_candidate ::
    "host_env \<Rightarrow> switch_input \<Rightarrow> string \<Rightarrow> failure + resolved_launch option \<Rightarrow> app_host \<Rightarrow> app_host \<times> (failure + resolved_launch)" where
  "prepare_candidate hv sx pointID resolved h =
    (case resolved of
       Inl f \<Rightarrow> (h, Inl f)
     | Inr None \<Rightarrow>
         (case RecoverVersionPoint (hv_env hv) (hv_launch hv) (hv_points hv) (sx_recover sx) False pointID (ho_world h) of
            (w, Inl e) \<Rightarrow> (h\<lparr>ho_world := w\<rparr>, Inl (sx_failure sx e))
          | (w, Inr l) \<Rightarrow> (h\<lparr>ho_world := w\<rparr>, case sx_mutate sx of Some (Some f) \<Rightarrow> Inl f | _ \<Rightarrow> Inr l))
     | Inr (Some l) \<Rightarrow>
         (h, case (sx_mutate sx, sx_prepare sx) of (Some (Some f), _) \<Rightarrow> Inl f | (_, Some f) \<Rightarrow> Inl f | (_, None) \<Rightarrow> Inr l))"

definition switch_candidate ::
    "host_env \<Rightarrow> switch_input \<Rightarrow> bool \<Rightarrow> string \<Rightarrow> failure + resolved_launch option \<Rightarrow> app_host \<Rightarrow> (app_host \<times> switch_outcome) option" where
  "switch_candidate hv sx knownGood pointID resolved h =
    (case prepare_candidate hv sx pointID resolved h of
       (h, Inl f) \<Rightarrow> candidate_failed hv sx f knownGood pointID h
     | (h, Inr l) \<Rightarrow>
         (case runResolvedContext hv (sx_random sx) l (sx_candidateWait sx) sx h of
            None \<Rightarrow> None
          | Some (h, Inl f) \<Rightarrow> candidate_failed hv sx f knownGood pointID h
          | Some (h, Inr (Some f)) \<Rightarrow> candidate_failed hv sx f knownGood pointID h
          | Some (h, Inr None) \<Rightarrow>
              if State (ho_machine h) = StateReady
              then (case ClearSwitchAttempt (hv_env hv) ((sx_record sx)\<lparr>io_cancelled := False\<rparr>) (ho_world h) of
                      (w, Some e) \<Rightarrow> Some (h\<lparr>ho_world := w\<rparr>, SwitchError e)
                    | (w, None) \<Rightarrow> Some (h\<lparr>ho_world := w\<rparr>, SwitchOk))
              else candidate_failed hv sx (failureFromStatus sx (ho_machine h)) knownGood pointID h))"

definition resolve_target :: "host_env \<Rightarrow> switch_input \<Rightarrow> world \<Rightarrow> world \<times> (failure + resolved_launch option)" where
  "resolve_target hv sx w =
    (case sx_startup sx of
       Some f \<Rightarrow> (w, Inl f)
     | None \<Rightarrow>
         if sx_restore sx then (w, Inr None)
         else (case ResolveLaunch (hv_env hv) (hv_launch hv) (sx_io sx) (sx_target sx) w of
                 (w, Inl e) \<Rightarrow> (w, Inl (sx_failure sx e)) | (w, Inr l) \<Rightarrow> (w, Inr (Some l))))"

definition switch_body ::
    "host_env \<Rightarrow> switch_input \<Rightarrow> bool \<Rightarrow> string \<Rightarrow> app_host \<Rightarrow> (app_host \<times> switch_outcome) option" where
  "switch_body hv sx knownGood pointID h =
    (case resolve_target hv sx (ho_world h) of
       (w, resolved) \<Rightarrow>
         (case (ho_current h, sx_startup sx, resolved) of
            (None, _, _) \<Rightarrow> switch_candidate hv sx knownGood pointID resolved (h\<lparr>ho_world := w\<rparr>)
          | (Some g, None, Inl f) \<Rightarrow>
              Some (recordSwitchAttempt hv sx ''resolving'' f (sx_automatic sx) ''not-needed'' None False (h\<lparr>ho_world := w\<rparr>))
          | (Some g, _, _) \<Rightarrow>
              (case stopRun hv sx g (h\<lparr>ho_world := w\<rparr>) of
                 None \<Rightarrow> None
               | Some (h, Some f) \<Rightarrow> Some (h, SwitchFailure f)
               | Some (h, None) \<Rightarrow> switch_candidate hv sx knownGood pointID resolved h)))"

text \<open>\<open>knownGoodRunContextLocked\<close>: whether the generation that is replaced has been committed.\<close>

definition knownGoodRunContextLocked :: "app_host \<Rightarrow> bool" where
  "knownGoodRunContextLocked h =
    (case ho_current h of None \<Rightarrow> False | Some g \<Rightarrow> (case ho_runs h g of None \<Rightarrow> False | Some r \<Rightarrow> gr_target r \<noteq> None))"

definition recovery_point :: "switch_input \<Rightarrow> app_host \<Rightarrow> string" where
  "recovery_point sx h =
    (if sx_selected sx = [] then RecoveryPointID (fst (ho_world h)) (sx_target sx) (sx_startup sx \<noteq> None) else sx_selected sx)"

definition readyWorkerForPluginMutation :: "switch_input \<Rightarrow> app_host \<Rightarrow> bool" where
  "readyWorkerForPluginMutation sx h \<longleftrightarrow> \<not> ho_shutdownRequested h \<and> \<not> ho_switching h \<and> State (ho_machine h) = StateReady \<and>
     (case ho_current h of None \<Rightarrow> False | Some g \<Rightarrow> (case ho_runs h g of None \<Rightarrow> False | Some r \<Rightarrow> gr_worker r \<and> \<not> sx_exited sx))"

definition applyRunContextLocked :: "host_env \<Rightarrow> switch_input \<Rightarrow> app_host \<Rightarrow> (app_host \<times> switch_outcome) option" where
  "applyRunContextLocked hv sx h =
    (if sx_startup sx \<noteq> None \<and> State (ho_machine h) \<noteq> StateFailed then Some (h, SwitchOk)
     else if sx_mutate sx \<noteq> None \<and> \<not> readyWorkerForPluginMutation sx h then Some (h, SwitchFailure (sx_busy sx))
     else if sx_mutate sx \<noteq> None \<and> mg_current (fst (ho_world h)) \<noteq> Some (sx_target sx) then Some (h, SwitchFailure (sx_busy sx))
     else if ho_switching h \<or> ho_shutdownRequested h then Some (h, SwitchFailure (sx_busy sx))
     else
       case BeginRunContextSwitch (sx_guard sx) (sx_guardCancelled sx) (ho_world h) of
           (w, Some e) \<Rightarrow> Some (switch_guard (sx_guard sx) (sx_guardCancelled sx) (switch_flag h), SwitchError e)
         | (w, None) \<Rightarrow>
             map_option (\<lambda>(h, outcome). (switch_end ((sx_guard sx)\<lparr>io_cancelled := False\<rparr>) h, outcome))
               (switch_body hv sx (knownGoodRunContextLocked h) (recovery_point sx h)
                  (switch_guard (sx_guard sx) (sx_guardCancelled sx) (switch_flag h))))"

text \<open>The calls of the settings pages that lead there.\<close>

definition SwitchRunContext :: "host_env \<Rightarrow> switch_input \<Rightarrow> run_context \<Rightarrow> app_host \<Rightarrow> (app_host \<times> switch_outcome) option" where
  "SwitchRunContext hv sx target =
    applyRunContextLocked hv (sx\<lparr>sx_target := target, sx_startup := None, sx_restore := False, sx_mutate := None, sx_selected := []\<rparr>)"

definition RetryLastSwitch :: "host_env \<Rightarrow> switch_input \<Rightarrow> app_host \<Rightarrow> (app_host \<times> switch_outcome) option" where
  "RetryLastSwitch hv sx h =
    (if io_cancelled (sx_io sx) then Some (h, SwitchError Cancelled)
     else case mg_lastSwitchAttempt (fst (ho_world h)) of
         None \<Rightarrow> Some (h, SwitchError ManagerStateInvalid)
       | Some a \<Rightarrow> SwitchRunContext hv sx (sa_Target a) h)"

definition RestoreVersionPoint :: "host_env \<Rightarrow> switch_input \<Rightarrow> string \<Rightarrow> app_host \<Rightarrow> (app_host \<times> switch_outcome) option" where
  "RestoreVersionPoint hv sx ident h =
    (case PreviewRestorePoint (hv_env hv) (hv_launch hv) (hv_points hv) (sx_recover sx) ident (fst (ho_world h)) of
       Inl e \<Rightarrow> Some (h, SwitchError e)
     | Inr p \<Rightarrow>
         applyRunContextLocked hv (sx\<lparr>sx_target := pt_Target p, sx_startup := None, sx_restore := True, sx_mutate := None, sx_selected := ident\<rparr>) h)"

definition RestoreKnownGood :: "host_env \<Rightarrow> switch_input \<Rightarrow> app_host \<Rightarrow> (app_host \<times> switch_outcome) option" where
  "RestoreKnownGood hv sx h =
    (if io_cancelled (sx_io sx) then Some (h, SwitchError Cancelled)
     else case mg_configured (fst (ho_world h)) of
         None \<Rightarrow> Some (h, SwitchError (Plain ''select an environment first''))
       | Some target \<Rightarrow>
           RestoreVersionPoint hv sx
             (case PendingVersionRecovery (fst (ho_world h)) of
                Some p \<Rightarrow> if ro_Status p \<noteq> ''completed'' then ro_PointID p else RecoveryPointID (fst (ho_world h)) target False
              | None \<Rightarrow> RecoveryPointID (fst (ho_world h)) target False) h)"

subsection \<open>The transaction keeps the invariants\<close>

definition in_switch :: "app_host \<Rightarrow> bool" where
  "in_switch h \<longleftrightarrow> host_inv h \<and> guard_inv h \<and> ho_managerSwitchGuarded h"

lemma phase_flags [simp]:
  "ho_managerSwitchGuarded (phase_step p a b g r h) = ho_managerSwitchGuarded h" "ho_managerSwitchGuarded (move g r pc h) = ho_managerSwitchGuarded h"
  by (auto simp: phase_step_def move_def split: prod.split option.split)

lemma guard_flag: "beginManagerStopGuard io g r h = ((r', h'), b) \<Longrightarrow> ho_managerSwitchGuarded h' = ho_managerSwitchGuarded h"
  by (auto simp: beginManagerStopGuard_def split: if_splits prod.splits option.splits)

lemma cleanup_flag:
  assumes "cleanupWorker ci g r h = ((r', h'), e)"
  shows "ho_managerSwitchGuarded h' = ho_managerSwitchGuarded h"
proof -
  obtain r1 h1 b where guard: "beginManagerStopGuard (ci_guard ci) g r h = ((r1, h1), b)" by (metis prod.exhaust)
  obtain r2 h2 c where clear: "clearCurrent ci r1 h1 = ((r2, h2), c)" by (metis prod.exhaust)
  have "ho_managerSwitchGuarded h2 = ho_managerSwitchGuarded h1" using clear_guard [OF clear] by (simp add: same_guard_def)
  then show ?thesis
    using assms guard clear guard_flag [OF guard]
    by (cases "gr_worker r"; cases b) (auto simp: cleanupWorker_def Let_def split: prod.splits option.splits)
qed

lemma finish_flag: "finish io g r f h = (r', h') \<Longrightarrow> ho_managerSwitchGuarded h' = ho_managerSwitchGuarded h"
  by (auto simp: finish_def releaseManagerStopGuard_def Let_def split: if_splits prod.splits)

lemma worker_flag: "ho_managerSwitchGuarded (worker_step hv x pc g r h) = ho_managerSwitchGuarded h"
  by (cases pc)
     (auto simp: waitReady_step_def commit_step_def mark_step_def Let_def dest: cleanup_flag finish_flag
       split: option.split prod.split sum.split await.split)

lemma concurrent_flag: "concurrent a \<Longrightarrow> ho_managerSwitchGuarded (host_step hv a h) = ho_managerSwitchGuarded h"
proof (cases a)
  case (StopBoundary io g)
  show ?thesis by (auto simp: StopBoundary stop_boundary_def Let_def dest: guard_flag split: option.split prod.split)
qed (auto simp: concurrent_def run_step_def worker_flag stop_fetch_def split: option.split)

lemma meanwhile_switch: "in_switch h \<Longrightarrow> in_switch (meanwhile hv as h)"
  unfolding meanwhile_def
  by (induction as arbitrary: h) (auto simp: in_switch_def host_step_inv host_step_guard concurrent_flag)

lemma cancel_switch:
  assumes "in_switch h"
  shows "in_switch (cancel_run g h)"
proof (cases "ho_runs h g")
  case (Some r)
  have "host_inv (set_run g (r\<lparr>gr_cancelled := True\<rparr>) h)" using assms Some by (intro inv_touch) (auto simp: in_switch_def alike_def)
  moreover have "guard_inv (set_run g (r\<lparr>gr_cancelled := True\<rparr>) h)"
    using assms same_guard_inv [OF guard_self [OF _ Some] same_guardI(5)] by (simp add: in_switch_def)
  ultimately show ?thesis using assms Some by (simp add: in_switch_def cancel_run_def)
qed (use assms in \<open>simp add: cancel_run_def\<close>)

lemma owners_world [simp]: "guard_owners (h\<lparr>ho_world := w\<rparr>) = guard_owners h"
  by (simp add: guard_owners_def)

lemma world_switch: "in_switch h \<Longrightarrow> switching w = switching (ho_world h) \<Longrightarrow> in_switch (h\<lparr>ho_world := w\<rparr>)"
  by (simp add: in_switch_def guard_inv_def)

lemma wait_switch: "in_switch h \<Longrightarrow> waitForRun hv wait f g h = Some (h', x) \<Longrightarrow> in_switch h'"
  by (auto simp: waitForRun_def Let_def meanwhile_switch cancel_switch split: wait.splits option.splits if_splits)

lemma begin_flag: "ho_managerSwitchGuarded (beginResolvedRun random l h) = ho_managerSwitchGuarded h"
  by (auto simp: beginResolvedRun_def beginRunLocked_def split: prod.split option.split)

lemma begin_switch: "in_switch h \<Longrightarrow> in_switch (beginResolvedRun random l h)"
  using host_step_inv [of h undefined "BeginResolved random l"] host_step_guard [of h undefined "BeginResolved random l"]
  by (simp add: in_switch_def begin_flag)

lemma run_switch: "in_switch h \<Longrightarrow> runResolvedContext hv random l wait sx h = Some (h', x) \<Longrightarrow> in_switch h'"
  by (auto simp: runResolvedContext_def Let_def split: option.splits dest: wait_switch [OF begin_switch] intro: begin_switch)

lemma stop_switch:
  assumes "in_switch h" "stopRun hv sx g h = Some (h', x)"
  shows "in_switch h'"
proof -
  have started: "in_switch (stopRun_begin h)"
    using assms(1) stopRun_begin_inv stopRun_guard(1) by (auto simp: in_switch_def stopRun_begin_def split: option.split prod.split)
  have "in_switch (stopRun_end ci k q)" if "in_switch q" for ci k q
    using that stopRun_end_inv stopRun_guard(2)
    by (auto simp: in_switch_def stopRun_end_def dest: cleanup_flag split: option.split prod.split)
  then show ?thesis
    using assms meanwhile_switch [OF started] by (auto simp: stopRun_def Let_def split: prod.splits if_splits wait.splits option.splits)
qed

text \<open>What the manager does in between leaves its guard alone.\<close>

lemma record_switching: "switching (fst (RecordSwitchAttempt env io a c w)) = switching w"
proof -
  have "switching (fst (commit_attempt env io a c s w)) = switching w" for a s
    unfolding commit_attempt_def by (rule save_then_switching) simp
  then show ?thesis by (auto simp: RecordSwitchAttempt_def split: sum.split)
qed

lemma clear_attempt_switching: "ClearSwitchAttempt env io w = (w', e) \<Longrightarrow> switching w' = switching w"
  using save_then_switching [of "\<lambda>m. m\<lparr>mg_lastSwitchAttempt := None\<rparr>" env io "(stateLocked (fst w))\<lparr>st_LastSwitchAttempt := None\<rparr>" w]
  by (auto simp: ClearSwitchAttempt_def split: if_splits)

lemma fail_switching: "switching (FailVersionRecovery env io w) = switching w"
proof -
  have "switching (fst (setRecoveryStage env io a b c w)) = switching w" for a b c
    using stage_switching [of env io a b c w] by (metis prod.collapse)
  then show ?thesis by (simp add: FailVersionRecovery_def split: option.split)
qed

lemma record_switch: "in_switch h \<Longrightarrow> in_switch (fst (recordSwitchAttempt hv sx stage f a rb rf c h))"
  by (simp add: recordSwitchAttempt_def Let_def world_switch record_switching)

lemma finish_failure_switch:
  assumes "in_switch h"
  shows "in_switch (fst (finishContextSwitchFailure sx c rf h))"
proof -
  have "calm (ho_machine h) (fst (ReplaceFailure g f (ho_machine h)))" for g f
    by (auto simp: ReplaceFailure_def calm_def split: option.split)
  then show ?thesis
    using assms inv_calm by (auto simp: finishContextSwitchFailure_def Let_def in_switch_def)
qed

lemma fail_recovery_switch: "in_switch h \<Longrightarrow> in_switch (fail_recovery hv sx h)"
  by (simp add: fail_recovery_def on_world_def world_switch fail_switching)

lemma recovered_switch: "in_switch h \<Longrightarrow> RecoverVersionPoint env le pe rx b i (ho_world h) = (w, x) \<Longrightarrow> in_switch (h\<lparr>ho_world := w\<rparr>)"
  by (rule world_switch) (auto dest: recover_switching)

lemma recorded: "recordSwitchAttempt hv sx stage f a rb rf c h = (h', x) \<Longrightarrow> in_switch h \<Longrightarrow> in_switch h'"
  using record_switch [of h hv sx stage f a rb rf c] by simp

lemma rolled_back:
  "finishContextSwitchFailure sx f rf (fst (recordSwitchAttempt hv sx a f b c d e h)) = (h', x) \<Longrightarrow> in_switch h \<Longrightarrow> in_switch h'"
  using finish_failure_switch [OF record_switch, of h sx f rf hv sx a f b c d e] by simp

lemma rollback_switch:
  assumes h: "in_switch h" and run: "rollback_run hv sx f pointID h = Some (h', x)"
  shows "in_switch h'"
proof -
  obtain w y where recover: "RecoverVersionPoint (hv_env hv) (hv_launch hv) (hv_points hv) (sx_rollback sx) False pointID (ho_world h) = (w, y)"
    by (metis prod.exhaust)
  note world = recovered_switch [OF h recover]
  show ?thesis
  proof (cases y)
    case (Inl e)
    then show ?thesis using run recover rolled_back [OF _ world] by (simp add: rollback_run_def Let_def)
  next
    case (Inr l)
    obtain h1 z where z: "runResolvedContext hv (sx_random2 sx) l (sx_rollbackWait sx) sx (h\<lparr>ho_world := w\<rparr>) = Some (h1, z)"
      using run recover Inr by (auto simp: rollback_run_def Let_def split: option.splits)
    note h1 = run_switch [OF world z]
    show ?thesis
    proof (cases z)
      case (Inl rf)
      then show ?thesis using run recover Inr z rolled_back [OF _ h1] by (simp add: rollback_run_def Let_def)
    next
      case r: (Inr rf)
      then show ?thesis
        using run recover Inr z rolled_back [OF _ fail_recovery_switch [OF h1]] recorded [OF _ h1]
        by (simp add: rollback_run_def Let_def split: if_splits)
    qed
  qed
qed

lemma failed_switch:
  assumes "in_switch h" "candidate_failed hv sx f k pointID h = Some (h', x)"
  shows "in_switch h'"
  using assms(2) recorded [OF _ assms(1)] recorded [OF _ fail_recovery_switch [OF assms(1)]] rollback_switch [OF assms(1)]
  by (auto simp: candidate_failed_def Let_def split del: option.split split: if_splits)

lemma prepared_switch: "in_switch h \<Longrightarrow> prepare_candidate hv sx pointID resolved h = (h', x) \<Longrightarrow> in_switch h'"
  by (auto simp: prepare_candidate_def split: sum.splits option.splits prod.splits dest: recovered_switch)

lemma candidate_switch:
  assumes h: "in_switch h" and run: "switch_candidate hv sx k pointID resolved h = Some (h', x)"
  shows "in_switch h'"
proof -
  obtain h1 y where prepare: "prepare_candidate hv sx pointID resolved h = (h1, y)" by (metis prod.exhaust)
  note h1 = prepared_switch [OF h prepare]
  show ?thesis
  proof (cases y)
    case (Inl f)
    then show ?thesis using run prepare failed_switch [OF h1] by (simp add: switch_candidate_def)
  next
    case (Inr l)
    obtain h2 z where z: "runResolvedContext hv (sx_random sx) l (sx_candidateWait sx) sx h1 = Some (h2, z)"
      using run prepare Inr by (auto simp: switch_candidate_def split: option.splits)
    note h2 = run_switch [OF h1 z]
    show ?thesis
      using run prepare Inr z failed_switch [OF h2] world_switch [OF h2 clear_attempt_switching]
      by (auto simp: switch_candidate_def split: sum.splits option.splits prod.splits if_splits)
  qed
qed

lemma body_switch:
  assumes h: "in_switch h" and run: "switch_body hv sx k pointID h = Some (h', x)"
  shows "in_switch h'"
proof -
  obtain w resolved where resolve: "resolve_target hv sx (ho_world h) = (w, resolved)" by (metis prod.exhaust)
  then have "switching w = switching (ho_world h)"
    by (auto simp: resolve_target_def split: option.splits if_splits prod.splits sum.splits dest: resolve_switching)
  note world = world_switch [OF h this]
  show ?thesis
    using run candidate_switch [OF world] recorded [OF _ world] candidate_switch [OF stop_switch [OF world]] stop_switch [OF world]
    by (auto simp: switch_body_def resolve split: option.splits sum.splits)
qed

lemma switch_alone:
  assumes "guard_inv h" "ho_managerSwitchGuarded h" "ho_runs h g = Some r"
  shows "\<not> gr_managerGuarded r"
proof
  assume "gr_managerGuarded r"
  then have "None \<in> guard_owners h" "Some g \<in> guard_owners h" using assms(2,3) by auto
  with assms(1) show False unfolding guard_inv_def by blast
qed

text \<open>Taking the guard and giving it back.\<close>

lemma taken_switch:
  assumes "host_inv h" "guard_inv h" "\<not> ho_switching h" "snd (BeginRunContextSwitch io c (ho_world h)) = None"
    and running: "\<not> ho_shutdownRequested h"
  shows "in_switch (switch_guard io c (switch_flag h))"
proof -
  have "\<not> ho_managerSwitchGuarded h" using assms(2,3) by (auto simp: guard_inv_def)
  then have "ho_managerSwitchGuarded (switch_guard io c (switch_flag h))"
    using assms(3,4) running by (auto simp: switch_guard_def switch_flag_def split: prod.split option.split)
  moreover have "host_inv (switch_guard io c (switch_flag h))"
    using host_step_inv [OF host_step_inv [OF assms(1), of undefined SwitchFlag], of undefined "SwitchGuard io c"] by simp
  moreover have "guard_inv (switch_guard io c (switch_flag h))"
    using host_step_guard [OF host_step_guard [OF assms(2), of undefined SwitchFlag], of undefined "SwitchGuard io c"] by simp
  ultimately show ?thesis by (simp add: in_switch_def)
qed

lemma ended_switch:
  assumes "in_switch h"
  shows "host_inv (switch_end io h) \<and> guard_inv (switch_end io h) \<and> \<not> ho_switching (switch_end io h) \<and>
    \<not> ho_managerSwitchGuarded (switch_end io h) \<and> ho_machine (switch_end io h) = ho_machine h \<and>
    (\<forall>g. Some g \<in> guard_owners (switch_end io h) \<longrightarrow> (\<exists>r. ho_runs (switch_end io h) g = Some r \<and> cleanupPending r))"
proof -
  have alone: "\<not> gr_managerGuarded r" if "ho_runs h g = Some r" for g r
    using assms that switch_alone by (auto simp: in_switch_def)
  have "ho_managerSwitchGuarded h" using assms by (simp add: in_switch_def)
  then have "\<not> ho_switching (switch_end io h)" "\<not> ho_managerSwitchGuarded (switch_end io h)" "ho_machine (switch_end io h) = ho_machine h"
    "\<forall>g. Some g \<in> guard_owners (switch_end io h) \<longrightarrow> (\<exists>r. ho_runs (switch_end io h) g = Some r \<and> cleanupPending r)"
    using alone by (auto simp: switch_end_def Let_def cleanupPending_def split: option.split if_splits)
  then show ?thesis using assms switch_end_inv switch_end_guard by (simp add: in_switch_def)
qed

lemma apply_switch:
  assumes h: "host_inv h" "guard_inv h" "\<not> ho_switching h" and run: "applyRunContextLocked hv sx h = Some (h', x)"
  shows "host_inv h' \<and> guard_inv h' \<and> \<not> ho_switching h' \<and> \<not> ho_managerSwitchGuarded h' \<and>
    (\<forall>g. Some g \<in> guard_owners h' \<longrightarrow> Some g \<in> guard_owners h \<or> (\<exists>r. ho_runs h' g = Some r \<and> cleanupPending r))"
proof -
  let ?q = "switch_guard (sx_guard sx) (sx_guardCancelled sx) (switch_flag h)"
  have free: "\<not> ho_managerSwitchGuarded h" using h(2,3) by (auto simp: guard_inv_def)
  obtain w e where begins: "BeginRunContextSwitch (sx_guard sx) (sx_guardCancelled sx) (ho_world h) = (w, e)" by (metis prod.exhaust)
  consider (refused) "h' = h"
    | (busy) "e \<noteq> None" "h' = ?q" "\<not> ho_shutdownRequested h"
    | (whole) y where "e = None" "\<not> ho_shutdownRequested h"
        "switch_body hv sx (knownGoodRunContextLocked h) (recovery_point sx h) ?q = Some (y, x)"
        "h' = switch_end ((sx_guard sx)\<lparr>io_cancelled := False\<rparr>) y"
    using run h(3) unfolding applyRunContextLocked_def begins by (cases e) (auto split: if_split_asm)
  then show ?thesis
  proof cases
    case refused
    then show ?thesis using h free by simp
  next
    case busy
    have "host_inv ?q \<and> guard_inv ?q"
      using host_step_inv [OF host_step_inv [OF h(1), of undefined SwitchFlag], of undefined "SwitchGuard (sx_guard sx) (sx_guardCancelled sx)"]
        host_step_guard [OF host_step_guard [OF h(2), of undefined SwitchFlag], of undefined "SwitchGuard (sx_guard sx) (sx_guardCancelled sx)"]
      by simp
    moreover have "\<not> ho_switching ?q \<and> \<not> ho_managerSwitchGuarded ?q \<and> ho_runs ?q = ho_runs h"
      using busy(1,3) free h(3) begins by (auto simp: switch_guard_def switch_flag_def)
    ultimately show ?thesis using busy(2) by auto
  next
    case whole
    have "snd (BeginRunContextSwitch (sx_guard sx) (sx_guardCancelled sx) (ho_world h)) = None" using whole(1) begins by simp
    from ended_switch [OF body_switch [OF taken_switch [OF h this whole(2)] whole(3)]] whole(4) show ?thesis by blast
  qed
qed

subsection \<open>What a switch promises\<close>

inductive reachable_host :: "host_env \<Rightarrow> world \<Rightarrow> app_host \<Rightarrow> bool" for hv w where
  start: "reachable_host hv w (NewHost w)"
| step: "reachable_host hv w h \<Longrightarrow> reachable_host hv w (host_step hv a h)"
| switch: "reachable_host hv w h \<Longrightarrow> \<not> ho_switching h \<Longrightarrow> applyRunContextLocked hv sx h = Some (h', x) \<Longrightarrow> reachable_host hv w h'"

lemma reachable_inv: "reachable_host hv w h \<Longrightarrow> host_inv h \<and> guard_inv h"
proof (induction rule: reachable_host.induct)
  case (switch h sx h' x)
  then show ?case using apply_switch by blast
qed (simp_all add: NewHost_inv NewHost_guard host_step_inv host_step_guard)

lemma record_fails: "recordSwitchAttempt hv sx stage f a rb rf c h \<noteq> (h', SwitchOk)"
  by (simp add: recordSwitchAttempt_def Let_def)

lemma finish_fails: "finishContextSwitchFailure sx f rf h \<noteq> (h', SwitchOk)"
  by (simp add: finishContextSwitchFailure_def Let_def)

lemma candidate_fails: "candidate_failed hv sx f k p h \<noteq> Some (h', SwitchOk)"
  by (auto simp: candidate_failed_def rollback_run_def Let_def record_fails finish_fails split: prod.splits sum.splits option.splits)

definition attempt_clear :: "app_host \<Rightarrow> bool" where
  "attempt_clear h \<longleftrightarrow> State (ho_machine h) = StateReady \<and> mg_lastSwitchAttempt (fst (ho_world h)) = None"

lemma cleared_attempt: "ClearSwitchAttempt env io w = (w', None) \<Longrightarrow> mg_lastSwitchAttempt (fst w') = None"
  by (auto simp: ClearSwitchAttempt_def save_then_def split: if_splits prod.splits option.splits)

lemma candidate_ready: "switch_candidate hv sx k p resolved h = Some (h', SwitchOk) \<Longrightarrow> attempt_clear h'"
  by (auto simp: switch_candidate_def attempt_clear_def candidate_fails dest: cleared_attempt
      split: prod.splits sum.splits option.splits if_splits)

lemma body_ready: "switch_body hv sx k p h = Some (h', SwitchOk) \<Longrightarrow> attempt_clear h'"
  by (auto simp: switch_body_def record_fails split: prod.splits sum.splits option.splits dest: candidate_ready)

lemma end_keeps_attempt: "attempt_clear h \<Longrightarrow> attempt_clear (switch_end io h)"
  by (auto simp: switch_end_def Let_def attempt_clear_def EndRunContextSwitch_def split: option.split)

lemma apply_ready: "applyRunContextLocked hv sx h = Some (h', SwitchOk) \<Longrightarrow> sx_startup sx = None \<Longrightarrow> attempt_clear h'"
  unfolding applyRunContextLocked_def
  by (auto split: if_split_asm prod.splits option.splits intro!: end_keeps_attempt dest: body_ready)


end
