(* ===== verification/Manager_Examples.thy ===== *)
theory Manager_Examples
  imports Manager_Start
begin

text \<open>
  A small installation on which the properties of the DSH manager are applied: one data directory of
  the application with one profile, one runtime, one restore point and a recovery that is running.
  The last section holds concrete runs that show behaviour the code does not intend.
\<close>

subsection \<open>An installation\<close>

definition env0 :: mgr_env where
  "env0 = \<lparr>me_input_size = (\<lambda>_. 10), me_base = (\<lambda>p. p), me_isAbs = (\<lambda>p. p \<noteq> [] \<and> hd p = CHR ''/''), me_abs = Some,
     me_clean = (\<lambda>p. if p = [] then ''.'' else p), me_equalFold = (=), me_lower = (\<lambda>p. p)\<rparr>"

definition io0 :: save_io where
  "io0 = \<lparr>io_cancelled = False, io_record_fails = (\<lambda>_. False), io_store_fails = False\<rparr>"

definition dir0 :: data_directory where
  "dir0 = \<lparr>dd_ID = ''main'', dd_Name = ''Main'', dd_Path = ''/d'', dd_Ownership = OwnershipDSHWork\<rparr>"

definition ref0 :: profile_ref where
  "ref0 = \<lparr>pr_DataDirectoryID = ''main'', pr_Name = ''p''\<rparr>"

definition target0 :: run_context where
  "target0 = \<lparr>rc_RuntimeID = ''r'', rc_Node = \<lparr>ns_Kind = ''system'', ns_InstallationID = []\<rparr>, rc_Profile = ref0\<rparr>"

definition runtime0 :: runtime_info where
  "runtime0 = \<lparr>ri_ID = ''r'', ri_Version = ''1.2.3'', ri_Path = ''/r'', ri_Source = ''managed'', ri_Toolchain = ''none'',
     ri_InstallSource = ''none'', ri_ToolchainPath = [], ri_Installed = True, ri_Removable = True\<rparr>"

definition input0 :: version_input where
  "input0 = \<lparr>in_Automation = None, in_Bundles = [], in_Lock = [], in_Workspace = [], in_Plugins = [], in_PackageManager = ''pnpm'', in_Unavailable = []\<rparr>"

definition point0 :: stored_point where
  "point0 = \<lparr>pt_ID = ''a'', pt_Kind = ''automatic'', pt_Label = [], pt_CreatedAt = ''t0'', pt_LastVerifiedAt = ''t0'', pt_Target = target0,
     pt_DSHVersion = ''1.2.3'', pt_NodeVersion = ''22.0.0'', pt_PackageManager = ''pnpm'', pt_Platform = ''windows/amd64'', pt_Plugins = [],
     pt_Digest = ''sha'', pt_Lockfile = [], pt_Unavailable = [], pt_Input = input0\<rparr>"

definition recovery0 :: version_recovery where
  "recovery0 = \<lparr>vr_SchemaVersion = 1, vr_Points = [point0], vr_LastByProfile = [''main/p'' \<mapsto> ''a''], vr_LastRunning = ''a'',
     vr_Pending = Some \<lparr>ro_PointID = ''a'', ro_Stage = ''starting'', ro_Status = ''running'', ro_Error = [], ro_ResumeCount = 0\<rparr>\<rparr>"

definition manager0 :: manager where
  "manager0 = \<lparr>mg_DataDirectories = [dir0], mg_Runtimes = [runtime0], mg_Nodes = [], mg_configured = Some target0, mg_current = None,
     mg_knownGood = None, mg_versionRecovery = Some recovery0, mg_verifiedPoint = None, mg_restoreSaveError = [], mg_latestNode = None,
     mg_dshReleases = [], mg_pluginProvenance = [], mg_lastSwitchAttempt = None, mg_switching = False, mg_recordCache = Map.empty,
     mg_unreadableRecords = {}\<rparr>"

definition disk0 :: disk where
  "disk0 = \<lparr>dk_app = None, dk_profiles = (\<lambda>p. if p = ''/d'' then Some [''p''] else Some []), dk_records = Map.empty\<rparr>"

definition launch0 :: resolved_launch where
  "launch0 = \<lparr>rl_VersionUninitialized = False, rl_VersionSeed = Some point0, rl_VersionError = [], rl_Target = target0, rl_Runtime = runtime0,
     rl_Node = \<lparr>rn_Selection = rc_Node target0, rn_Version = ''22.0.0'', rn_NodePath = [], rn_NPMPath = [], rn_PNPMPath = [], rn_ChildEnvironment = Map.empty\<rparr>,
     rl_DataDirectory = dir0\<rparr>"

definition pe0 :: point_env where
  "pe0 = \<lparr>pe_hasAdapter = True, pe_automation = None,
     pe_currentInputs = \<lparr>vi_SchemaVersion = 1, vi_BrowserLock = [], vi_ComputerLock = [], vi_AUVLock = [], vi_DriverVersion = [], vi_DriverArchive = [],
        vi_DriverSHA256 = [], vi_ExtensionSource = []\<rparr>,
     pe_platform = ''windows/amd64'', pe_text = (\<lambda>_. ''failure''), pe_digest = (\<lambda>_. ''sha'')\<rparr>"

definition le0 :: launch_env where
  "le0 = \<lparr>le_resolver = None, le_present = (\<lambda>_. True), le_isDir = (\<lambda>_. True), le_isPlainDir = (\<lambda>_. True), le_installation = (\<lambda>_. True),
     le_verify = (\<lambda>r _. Inr (ri_Version r)), le_compatible = (\<lambda>_ _. None), le_verifyProfile = (\<lambda>_ _ _. None), le_builtIn = [],
     le_join = concat, le_dir = (\<lambda>p. p), le_PATH = [], le_ListSeparator = '';''\<rparr>"

definition rx0 :: recover_io where
  "rx0 = \<lparr>rx_profileOk = (\<lambda>_ _. True), rx_hasRunner = False, rx_install = None, rx_reset = Inr [], rx_remove = (\<lambda>_. None), rx_apply = None,
     rx_forceInstall = (\<lambda>_. None), rx_capture = Captured input0, rx_saves = (\<lambda>_. io0)\<rparr>"

definition config0 :: mgr_config where
  "config0 = \<lparr>cf_DataDirectories = [dir0], cf_Runtimes = [], cf_DSHReleases = [], cf_Nodes = [],
     cf_DefaultRunContext = \<lparr>rc_RuntimeID = [], rc_Node = \<lparr>ns_Kind = [], ns_InstallationID = []\<rparr>, rc_Profile = \<lparr>pr_DataDirectoryID = [], pr_Name = []\<rparr>\<rparr>,
     cf_OfficialRegistry = [], cf_MirrorRegistry = []\<rparr>"

lemmas example_data = env0_def io0_def dir0_def ref0_def target0_def runtime0_def input0_def point0_def manager0_def disk0_def OwnershipDSHWork_def
  OwnershipUser_def

lemma manager0_fields [simp]: "mg_DataDirectories manager0 = [dir0]" "mg_switching manager0 = False" "mg_recordCache manager0 = Map.empty"
  "mg_unreadableRecords manager0 = {}"
  by (simp_all add: manager0_def)

lemma io0_fields [simp]: "io_cancelled io0 = False" "io_record_fails io0 p = False" "io_store_fails io0 = False"
  by (simp_all add: io0_def)

lemma target0_valid: "validateRunContext env0 target0 = None"
  by (simp add: validateRunContext_def normalizeNodeSelection_def validateProfileRef_def validProfileName_def target0_def ref0_def env0_def)

lemma recovery0_valid: "recovery_valid env0 recovery0"
  using target0_valid unfolding recovery_valid_def valid_recovery_iff
  by (auto simp: recovery0_def point_ok_def sizes_def owned_def point_key_def profilePointKey_def point0_def env0_def ran_def)
    (auto simp: target0_def ref0_def)

lemma state0_valid: "validateState env0 (stateLocked manager0) = None"
proof -
  have "validateVersionRecovery env0 (Some recovery0) = None" using recovery0_valid by (simp add: recovery_valid_def)
  moreover have "validateConfigured env0 [] (Some target0) = None"
    using target0_valid by (simp add: validateConfigured_def) (simp add: target0_def normalizeNodeSelection_def)
  moreover have "validateDataDirectory dir0 = None" by (simp add: dir0_def validateDataDirectory_def)
  ultimately show ?thesis
    by (simp add: validateState_def validate_catalogues_def stateLocked_def manager0_def cloneVersionRecovery_def)
qed

lemma profiles0: "recordProfiles env0 disk0 [dir0] = ([\<lparr>rpf_ref = ref0, rpf_dir = ''/d''\<rparr>], False)"
  by (simp add: disk0_def dir0_def ref0_def env0_def)

subsection \<open>The properties on this installation\<close>

text \<open>The state is saved.\<close>

theorem valid_state_is_saved_witness:
  "\<exists>cache' d'. saveState env0 io0 {} (stateLocked manager0) Map.empty disk0 = (cache', d', None) \<and> dk_app d' = Some (persistState (stateLocked manager0))"
  using valid_state_is_saved [OF state0_valid, of io0 disk0 "{}" Map.empty] profiles0
  by (simp add: io0_def stateLocked_def manager0_def)

text \<open>The same existence for the other examples, from the evaluation of the save.\<close>

lemma saved0: "\<exists>cache' d'. saveState env0 io0 {} (stateLocked manager0) Map.empty disk0 = (cache', d', None)"
proof -
  obtain cache records where "save_profiles io0 {} (stateLocked manager0) [\<lparr>rpf_ref = ref0, rpf_dir = ''/d''\<rparr>] (Map.empty, dk_records disk0) = ((cache, records), None)"
    using save_profiles_succeeds [of io0 "{}" "stateLocked manager0" "[\<lparr>rpf_ref = ref0, rpf_dir = ''/d''\<rparr>]" "(Map.empty, dk_records disk0)"]
    by (metis (no_types, lifting) io0_def prod.collapse save_io.select_convs(2))
  then show ?thesis
    using state0_valid valid_app_part [OF state0_valid] profiles0
    by (simp add: saveState_def io0_def) (simp add: stateLocked_def manager0_def)
qed



theorem selected_entries_kept_witness:
  "context_kept manager0 (fst (mgr_step env0 le0 (io0, OpRemoveRuntime True False ''r'') (manager0, disk0))) target0"
  by (rule selected_entries_kept) (simp add: selected_def manager0_def)

theorem prune_exactly_witness:
  "point0 \<in> set (vr_Points (pruneVersionPoints recovery0)) \<longleftrightarrow>
     pt_Kind point0 = ''manual'' \<or> referenced recovery0 point0 \<or> automatics (point_key point0) [] < 2"
  using prune_exactly [of recovery0 "[]" point0 "[]"] by (simp add: recovery0_def newest_first_def)



theorem resumed_at_most_once_witness:
  "\<exists>w'. fst (ResumeVersionRecovery env0 le0 pe0 rx0 io0 True (manager0, disk0)) = w' \<and>
     fst (ResumeVersionRecovery env0 le0 pe0 rx0 io0 True (point_step env0 le0 pe0 (io0, OpRestart config0) w')) =
       point_step env0 le0 pe0 (io0, OpRestart config0) w'"
proof -
  obtain w' x where run: "ResumeVersionRecovery env0 le0 pe0 rx0 io0 True (manager0, disk0) = (w', x)" by (metis prod.exhaust)
  let ?s = "recovery0\<lparr>vr_Pending := Some \<lparr>ro_PointID = ''a'', ro_Stage = ''starting'', ro_Status = ''running'', ro_Error = [], ro_ResumeCount = 1\<rparr>\<rparr>"
  have known: "''a'' \<in> point_ids recovery0" by (simp add: recovery0_def point0_def)
  have "recovery_valid env0 ?s"
    using recovery0_valid known unfolding recovery_valid_def valid_recovery_iff by (simp add: owned_def)
  then have valid: "validateState env0 ((stateLocked manager0)\<lparr>st_VersionRecovery := Some ?s\<rparr>) = None"
    using state0_valid by (simp add: validateState_def validate_catalogues_def recovery_valid_def)
  have "snd (saveVersionState env0 io0 ?s (manager0, disk0)) = None"
    using save_profiles_succeeds [of io0 "{}" "(stateLocked manager0)\<lparr>st_VersionRecovery := Some ?s\<rparr>" "[\<lparr>rpf_ref = ref0, rpf_dir = ''/d''\<rparr>]" "(Map.empty, dk_records disk0)"]
      valid valid_app_part [OF valid] profiles0
    by (auto simp: saveVersionState_def save_then_def saveState_def io0_def stateLocked_def manager0_def split: prod.splits option.splits)
  then obtain w1 where save: "saveVersionState env0 io0 ?s (manager0, disk0) = (w1, None)" by (metis prod.collapse)
  have "mg_versionRecovery (fst w') = Some ?s"
  proof -
    have version: "validRuntimeVersion ''1.2.3''" by code_simp
    have "PreviewRestorePoint env0 le0 pe0 rx0 ''a'' (fst w1) = Inl (Plain ''snapshot installation adapter is unavailable'')"
      using saveVersionState_manager [OF save] target0_valid version
      by (simp add: PreviewRestorePoint_def cloneVersionRecovery_def point_def)
        (simp add: recovery0_def point0_def finishVersionPoint_def pe0_def rx0_def)
    moreover have "PendingVersionRecovery (fst (manager0, disk0)) =
        Some \<lparr>ro_PointID = ''a'', ro_Stage = ''starting'', ro_Status = ''running'', ro_Error = [], ro_ResumeCount = 0\<rparr>"
      by (simp add: PendingVersionRecovery_def manager0_def cloneVersionRecovery_def recovery0_def)
    moreover have "cloneVersionRecovery (mg_versionRecovery (fst (manager0, disk0))) = recovery0" "\<not> io_cancelled io0"
      by (simp_all add: manager0_def cloneVersionRecovery_def io0_def)
    ultimately have "w' = w1"
      using run save by (simp add: ResumeVersionRecovery_def RecoverVersionPoint_def)
    then show ?thesis using saveVersionState_manager [OF save] by simp
  qed
  then have "mg_versionRecovery (fst w') \<noteq> mg_versionRecovery (fst (manager0, disk0))"
    by (simp add: manager0_def recovery0_def)
  from resumed_at_most_once [OF run this _ refl, of rx0 io0 True "[(io0, OpRestart config0)]"] recovery0_valid
  show ?thesis using run by (simp add: manager0_def recovery_valid_def)
qed

subsection \<open>Runs that are not intended\<close>

text \<open>
  A second identity for a registered path is accepted, and the save that records it replaces the
  restore points of the profile below that path by an empty record.
\<close>

lemma second_identity_loses_points:
  "dk_records (snd (fst (RegisterDataDirectory env0 le0 io0 (dir0\<lparr>dd_ID := ''again''\<rparr>) (manager0, disk0)))) (''/d'', ''p'', RecoveryJSON) =
     Some (Content (Recovery \<lparr>rf_SchemaVersion = 1, rf_Last = [], rf_Points = []\<rparr>))"
proof -
  let ?d = "dir0\<lparr>dd_ID := ''again''\<rparr>"
  let ?s = "(stateLocked manager0)\<lparr>st_DataDirectories := [dir0, ?d]\<rparr>"
  have normal: "normalizeDataDirectory env0 le0 ?d = Inr ?d"
    by (simp add: normalizeDataDirectory_def validateDataDirectory_def dir0_def env0_def OwnershipDSHWork_def OwnershipUser_def fail_if_def)
  have dirs: "replace_by dd_ID ?d [dir0] = [dir0, ?d]" by (simp add: replace_by_def dir0_def)
  have "validateDataDirectory dir0 = None" "validateDataDirectory ?d = None" by (simp_all add: dir0_def validateDataDirectory_def)
  then have valid: "validateState env0 ?s = None"
    using state0_valid by (simp add: validateState_def validate_catalogues_def) (simp add: dir0_def)
  have profiles: "recordProfiles env0 disk0 [dir0, ?d] =
      ([\<lparr>rpf_ref = ref0, rpf_dir = ''/d''\<rparr>, \<lparr>rpf_ref = \<lparr>pr_DataDirectoryID = ''again'', pr_Name = ''p''\<rparr>, rpf_dir = ''/d''\<rparr>], False)"
    by (simp add: disk0_def dir0_def ref0_def env0_def)
  have own: "recovery_of ?s ref0 = \<lparr>rf_SchemaVersion = 1, rf_Last = ''a'', rf_Points = [point0]\<rparr>"
      "recovery_of ?s \<lparr>pr_DataDirectoryID = ''again'', pr_Name = ''p''\<rparr> = \<lparr>rf_SchemaVersion = 1, rf_Last = [], rf_Points = []\<rparr>"
      "provenance_of ?s r = []" for r
    by (simp_all add: recovery_of_def provenance_of_def stateLocked_def manager0_def cloneVersionRecovery_def recovery0_def point0_def target0_def ref0_def
        last_of_def profilePointKey_def)
  have name: "pr_Name ref0 = ''p''" by (simp add: ref0_def)
  let ?ps = "[\<lparr>rpf_ref = ref0, rpf_dir = ''/d''\<rparr>, \<lparr>rpf_ref = \<lparr>pr_DataDirectoryID = ''again'', pr_Name = ''p''\<rparr>, rpf_dir = ''/d''\<rparr>]"
  obtain c recs where sp: "save_profiles io0 {} ?s ?ps (Map.empty, dk_records disk0) = ((c, recs), None)"
    using save_profiles_succeeds [of io0 "{}" ?s ?ps "(Map.empty, dk_records disk0)"] by (metis (no_types, lifting) io0_fields(2) prod.collapse)
  then have "recs (''/d'', ''p'', RecoveryJSON) = Some (Content (Recovery \<lparr>rf_SchemaVersion = 1, rf_Last = [], rf_Points = []\<rparr>))"
    using name by (auto simp: Let_def own writeProfileRecord_def has_points_def path_of_def disk0_def split: if_splits)
  moreover have "saveState env0 io0 {} ?s Map.empty disk0 = (c, disk0\<lparr>dk_records := recs, dk_app := Some (persistState ?s)\<rparr>, None)"
    using valid valid_app_part [OF valid] profiles sp by (simp add: saveState_def)
  ultimately show ?thesis
    by (simp add: RegisterDataDirectory_def guarded_def normal dirs save_then_def Let_def)
qed

text \<open>
  A start of another profile while a recovery is running, with the same versions, takes the recovered
  point over: the last good point of its own profile then belongs to the other one, so that it can be
  pruned although it is still referred to.
\<close>

definition other_launch :: resolved_launch where
  "other_launch = launch0\<lparr>rl_Target := target0\<lparr>rc_Profile := ref0\<lparr>pr_Name := ''q''\<rparr>\<rparr>\<rparr>"

lemma other_profile_takes_point:
  "recovery_valid env0 recovery0 \<and> \<not> owned (fst (verify_versions pe0 (Captured input0) ''t1'' ''b'' other_launch recovery0))"
proof -
  have "\<not> owned (fst (verify_versions pe0 (Captured input0) ''t1'' ''b'' other_launch recovery0))"
    by (simp add: verify_versions_def other_launch_def launch0_def readVersionPoint_def pe0_def finishVersionPoint_def point0_def
        record_versions_def point_to_refresh_def recovery0_def point_def update_point_def finish_pending_def owned_def point_key_def
        profilePointKey_def target0_def ref0_def Let_def)
  with recovery0_valid show ?thesis by blast
qed

text \<open>A healthy start whose record could not be saved changes the configured run context all the same.\<close>

lemma unsaved_start_configures:
  assumes "io_store_fails io" "\<not> io_cancelled io" "mg_current (fst w) = None"
  shows "mg_configured (fst (fst (commitVersionHealthy env pe io c1 c2 now newID launch w))) = Some (rl_Target launch) \<and>
    dk_app (snd (fst (commitVersionHealthy env pe io c1 c2 now newID launch w))) = dk_app (snd w)"
proof -
  have target: "rl_Target (late_seed pe c1 launch) = rl_Target launch"
    by (auto simp: late_seed_def split: sum.splits)
  have fails: "x \<noteq> None" if "saveState env io U s cache d = (cache', d', x)" for U s cache d cache' d' x
    using that assms(1) by (auto simp: saveState_def Let_def split: option.splits if_splits prod.splits dest: sym)
  then show ?thesis
    using assms target
    by (auto simp: commitVersionHealthy_def Let_def split: prod.splits option.splits dest: saveState_failure fails)
qed

text \<open>The profile of the application can be deleted when no run context selects it.\<close>

lemma app_profile_deleted:
  "snd (DeleteProfile env0 le0 io0 None None (ref0\<lparr>pr_Name := AppProfileName\<rparr>) (manager0, disk0)) = None"
  by (simp add: DeleteProfile_def guarded_def validateProfileRef_def validProfileName_def ref0_def env0_def findDataDirectory_def dir0_def
      le0_def isBuiltInProfile_def profileRefMatches_def manager0_def target0_def AppProfileName_def OwnershipDSHWork_def OwnershipUser_def)

text \<open>A source in the form \<open>user@host:path\<close> counts as a package of the public registry and is recorded as it is.\<close>

lemma scp_source_recorded: "boundedPluginSpec env0 ''u@h:r'' = ''u@h:r''"
proof -
  have "trim_space ''u@h:r'' = ''u@h:r''" "trim_space ''h:r'' = ''h:r''" by (rule trim_space_graphic, simp)+
  moreover have "last_at ''u@h:r'' = Some (''u'', ''h:r'')" by (simp add: last_at_def)
  moreover have "validPackageName env0 ''u@h:r''" by (simp add: validPackageName_def env0_def)
  moreover have "\<not> validRuntimeVersion ''u@h:r''" "\<not> validRuntimeVersion ''h:r''" by (simp_all add: validRuntimeVersion_def)
  moreover have "\<not> publicPluginTag ''u@h:r''" "\<not> publicPluginTag ''h:r''"
    by (simp_all add: publicPluginTag_def is_digit_def ascii_letter_def less_eq_char_def)
  moreover have "\<not> list_all range_char ''u@h:r''" "\<not> list_all range_char ''h:r''"
    by (simp_all add: range_char_def is_digit_def less_eq_char_def)
  ultimately show ?thesis
    by (simp add: boundedPluginSpec_def classifyRequestedPluginSource_def classifyPluginSource_def env0_def has_prefix_def has_suffix_def)
qed

text \<open>
  \<open>RecordSwitchAttempt\<close> does not take the operation gate: an operation that completes between its
  reading of the state and its save is undone in the application file, though not in the manager.
\<close>

lemma attempt_overwrites_file:
  assumes "attempt_state a False m = Inr (a', s)" "commit_attempt env io a' False s (m\<lparr>mg_Nodes := nodes\<rparr>, d) = (w', None)"
  shows "mg_Nodes (fst w') = nodes \<and> (\<exists>app. dk_app (snd w') = Some app \<and> st_Nodes app = mg_Nodes m)"
proof -
  have s: "st_Nodes s = mg_Nodes m"
    using assms(1) by (auto simp: attempt_state_def Let_def stateLocked_def split: option.splits)
  obtain c d' e where save: "saveState env io (mg_unreadableRecords m) s (mg_recordCache m) d = (c, d', e)" by (metis prod.exhaust)
  then have "e = None" "w' = (m\<lparr>mg_Nodes := nodes, mg_recordCache := c, mg_lastSwitchAttempt := Some a'\<rparr>, d')"
    using assms(2) by (auto simp: commit_attempt_def save_then_def split: option.splits)
  moreover have "dk_app d' = Some (persistState s)"
    by (rule saveState_success [OF save [unfolded \<open>e = None\<close>]]) simp
  ultimately show ?thesis using s by (simp add: persistState_def)
qed

end
