(* ===== verification/Host_Examples.thy ===== *)
theory Host_Examples
  imports Host_Endings Host_Startup Host_Switch Manager_Examples
begin

text \<open>
  The properties of the Host on the example installation, and what its model shows of stops that meet a
  clean-up or a readiness probe.
\<close>

definition fail0 :: failure where
  "fail0 = \<lparr>f_Code = ''X'', f_Summary = [], f_Retryable = True, f_EffectOccurred = True, f_CorrelationID = [], f_Detail = []\<rparr>"

definition fs0 :: fs_env where
  "fs0 = \<lparr>fs_is_abs = (\<lambda>p. p \<noteq> []), fs_abs = Some, fs_eval_symlinks = Some, fs_stat = (\<lambda>_. Some True), fs_clean = (\<lambda>p. p), fs_base = (\<lambda>p. p)\<rparr>"

definition hv0 :: host_env where
  "hv0 = \<lparr>hv_env = env0, hv_launch = le0, hv_points = pe0, hv_fs = fs0, hv_automatic = True\<rparr>"

definition clean0 :: clean_io where
  "clean0 = \<lparr>ci_guard = io0, ci_clear = io0, ci_busy = fail0, ci_clearFailure = fail0, ci_channel = None, ci_exits = True, ci_force = None,
     ci_empty = None, ci_close = None\<rparr>"

definition gen0 :: string where
  "gen0 = ''local-1''"

definition workspace0 :: ws_context where
  "workspace0 = \<lparr>ws_GenerationID = gen0, ws_State = StateSelectionRequired, ws_ID = [], ws_Path = [], ws_Title = []\<rparr>"

definition x0 :: run_input where
  "x0 = \<lparr>x_failure = None, x_transition = fail0, x_workspace = Some workspace0, x_profile = None, x_reached = 3, x_plan = None,
     x_await = AwaitCandidate None None, x_io = io0, x_recover = rx0, x_capture = Captured input0, x_capture2 = Captured input0, x_now = ''t1'',
     x_id = ''b'', x_url = ''u'', x_exited = False, x_clean = clean0\<rparr>"

definition guarded0 :: app_host where
  "guarded0 = fold (host_step hv0) [SwitchFlag, SwitchGuard io0 False] (NewHost (manager0, disk0))"

definition started0 :: "host_action list" where
  "started0 = BeginResolved None launch0 # replicate 14 (Run x0 gen0)"

lemma guarded0_fields:
  "ho_seq guarded0 = 0" "ho_runs guarded0 g = None" "ho_managerSwitchGuarded guarded0" "ho_current guarded0 = None"
  "State (ho_machine guarded0) = StateStopped" "mg_current (fst (ho_world guarded0)) = None"
  by (simp_all add: guarded0_def NewHost_def NewMachine_def empty_status_def switch_flag_def switch_guard_def BeginRunContextSwitch_def manager0_def)

lemma gen0_new: "newGenerationID None 0 = (gen0, 1)"
  by code_simp

lemma smooth0: "smooth hv0 gen0 launch0 workspace0 x0"
  by (simp add: smooth_def x0_def hv0_def workspace0_def launch0_def dir0_def ValidateForGeneration_def trim_space_graphic gen0_def)

lemma gen0_next: "newGenerationID None (ho_seq guarded0) = (gen0, 1)"
  by (simp add: guarded0_fields gen0_new)

theorem healthy_start_becomes_ready_witness:
  "State (ho_machine (fold (host_step hv0) started0 guarded0)) = StateReady \<and>
   mg_current (fst (ho_world (fold (host_step hv0) started0 guarded0))) = Some (rl_Target launch0)"
  using healthy_start_becomes_ready [OF gen0_next guarded0_fields(2-4) disjI1 [OF guarded0_fields(5)] guarded0_fields(6) smooth0]
  unfolding started0_def Let_def by blast

text \<open>The same run, once more from its beginning.\<close>

definition script0 :: "host_action list" where
  "script0 = [SwitchFlag, SwitchGuard io0 False] @ (BeginResolved None launch0 # replicate 13 (Run x0 gen0)) @ [Run x0 gen0]"

lemma ready0: "State (ho_machine (fold (host_step hv0) script0 (NewHost (manager0, disk0)))) = StateReady"
proof -
  have "committed gen0 launch0 (x_url x0) (fold (host_step hv0) (BeginResolved None launch0 # replicate 13 (Run x0 gen0)) guarded0)"
    by (rule reaches_commit [OF gen0_next guarded0_fields(2-4) disjI1 [OF guarded0_fields(5)] guarded0_fields(6) smooth0])
  moreover have "x_url x0 \<noteq> []" by (simp add: x0_def)
  ultimately show ?thesis
    using way_ready [of gen0 launch0 "x_url x0" _ hv0 x0]
    unfolding script0_def fold_append comp_apply guarded0_def by (simp add: Let_def del: replicate.simps)
qed

theorem ready_is_supervised_witness:
  "\<exists>g r. ho_current (fold (host_step hv0) script0 (NewHost (manager0, disk0))) = Some g \<and>
    ho_runs (fold (host_step hv0) script0 (NewHost (manager0, disk0))) g = Some r \<and> gr_worker r"
  using ready_is_supervised [OF ready0] by blast

text \<open>A generation that is cancelled while it waits for its Worker.\<close>

definition waiting0 :: grun where
  "waiting0 = (new_run (Some launch0))\<lparr>gr_pc := PAwait, gr_cancelled := True, gr_worker := True, gr_channel := True\<rparr>"

definition stopping0 :: app_host where
  "stopping0 = (NewHost (manager0, disk0))
     \<lparr>ho_machine := empty_status\<lparr>State := StateStopping, Phase := PhaseStopping, GenerationID := gen0, CorrelationID := gen0\<rparr>,
      ho_current := Some gen0, ho_runs := Map.empty(gen0 \<mapsto> waiting0), ho_alive := {gen0}\<rparr>"

theorem cancelled_generation_ends_witness:
  "\<exists>r. ho_runs (fold (host_step hv0) (replicate 18 (Run x0 gen0)) stopping0) gen0 = Some r \<and> gr_pc r = PDone"
proof (rule cancelled_generation_ends)
  show "ho_runs stopping0 gen0 = Some waiting0" "gr_cancelled waiting0" by (simp_all add: stopping0_def waiting0_def)
  show "list_all (answered gen0) (replicate 18 (Run x0 gen0))" by (simp add: list_all_iff answered_def probe_pending_def x0_def)
  show "18 \<le> length (filter (runs_of gen0) (replicate 18 (Run x0 gen0)))" by (simp add: runs_of_def)
qed

text \<open>
  The probe answers nothing when the generation was cancelled under it, the refusal of the cancelled
  channel counts as a failure, and the generation that the user cancelled ends as failed.
\<close>

lemma cancelled_probe_fails:
  "State (ho_machine (fold (host_step hv0) (replicate 3 (Run x0 gen0)) stopping0)) = StateFailed \<and>
   Error (ho_machine (fold (host_step hv0) (replicate 3 (Run x0 gen0)) stopping0)) = Some fail0"
  by (simp add: numeral_eq_Suc run_step_def stopping0_def waiting0_def waitReady_step_def x0_def NewHost_def move_def cleanupWorker_def
      beginManagerStopGuard_def BeginRunContextSwitch_def manager0_def new_run_def clearCurrent_def closeChannel_def clean0_def or_else_def
      finish_def CompleteStop_def checkGeneration_def gen0_def cleanupPending_def Let_def set_run_def releaseManagerStopGuard_def
      EndRunContextSwitch_def)

text \<open>
  A clean-up that could not see the process boundary empty leaves a failed generation that still owns
  its Worker.  When it is stopped (\<open>Cancel\<close>, \<open>Restart\<close>) and then started, the clean-up succeeds and the
  Host is stranded.
\<close>

definition failed0 :: app_host where
  "failed0 = (NewHost (manager0, disk0))
     \<lparr>ho_machine := empty_status\<lparr>State := StateFailed, Phase := PhaseFailed, GenerationID := gen0, CorrelationID := gen0, Error := Some fail0\<rparr>,
      ho_current := Some gen0, ho_runs := Map.empty(gen0 \<mapsto> waiting0\<lparr>gr_pc := PDone, gr_done := True\<rparr>), ho_alive := {gen0}\<rparr>"

lemma restart_strands_host:
  "stranded (fold (host_step hv0) (StopFetch # StopBoundary io0 gen0 # Round None clean0 # script) failed0)"
proof -
  have "stranded (fold (host_step hv0) [StopFetch, StopBoundary io0 gen0, Round None clean0] failed0)"
    by (simp add: stranded_def failed0_def waiting0_def NewHost_def stop_fetch_def stop_boundary_def BeginStop_def checkGeneration_def gen0_def
        beginManagerStopGuard_def BeginRunContextSwitch_def manager0_def start_round_def cleanupPending_def new_run_def cleanupWorker_def
        clearCurrent_def closeChannel_def clean0_def or_else_def releaseManagerStopGuard_def EndRunContextSwitch_def Let_def set_run_def)
  then show ?thesis using stranded_forever by simp
qed

text \<open>
  A stop that waits for the boundary while a crashed Worker is cleaned up finds the generation finished:
  it moves the failed machine to \<open>stopping\<close> and takes the manager's guard for a generation nobody owns,
  so that every later operation of the manager is refused as well.
\<close>

definition crashed0 :: app_host where
  "crashed0 = stopping0\<lparr>ho_machine := empty_status\<lparr>State := StateReady, Phase := PhaseWorkspace, GenerationID := gen0, CorrelationID := gen0\<rparr>,
     ho_runs := Map.empty(gen0 \<mapsto> waiting0\<lparr>gr_pc := PCleanup (Some fail0), gr_cancelled := False\<rparr>)\<rparr>"

lemma late_stop_strands_host:
  "let h = fold (host_step hv0) (StopFetch # replicate 3 (Run x0 gen0) @ [StopBoundary io0 gen0]) crashed0
   in stranded h \<and> mg_switching (fst (ho_world h))"
  by (simp add: numeral_eq_Suc stranded_def crashed0_def stopping0_def waiting0_def NewHost_def stop_fetch_def stop_boundary_def BeginStop_def
      checkGeneration_def gen0_def beginManagerStopGuard_def BeginRunContextSwitch_def manager0_def cleanupPending_def new_run_def
      cleanupWorker_def clearCurrent_def closeChannel_def clean0_def or_else_def releaseManagerStopGuard_def EndRunContextSwitch_def Let_def
      set_run_def run_step_def x0_def move_def finish_def Fail_def correlated_def)

text \<open>A switch whose target cannot be resolved.\<close>

definition sx0 :: switch_input where
  "sx0 = \<lparr>sx_target = target0, sx_startup = None, sx_restore = False, sx_mutate = None, sx_selected = [], sx_automatic = False, sx_cancelled = False,
     sx_exited = False, sx_guard = io0, sx_guardCancelled = False, sx_io = io0\<lparr>io_cancelled := True\<rparr>, sx_record = io0, sx_prepare = None,
     sx_clean = clean0, sx_recover = rx0, sx_rollback = rx0, sx_random = None, sx_random2 = None, sx_stopWait = Waits [], sx_candidateWait = Waits [],
     sx_rollbackWait = Waits [], sx_failure = (\<lambda>_. fail0), sx_busy = fail0, sx_timeout = fail0, sx_unready = fail0, sx_remediation = (\<lambda>_. ''retry''),
     sx_now = ''t1''\<rparr>"

lemma switch0: "\<exists>h' f. applyRunContextLocked hv0 sx0 (NewHost (manager0, disk0)) = Some (h', SwitchFailure f)"
  by (simp add: applyRunContextLocked_def sx0_def NewHost_def switch_guard_def switch_flag_def BeginRunContextSwitch_def manager0_def
      switch_body_def resolve_target_def ResolveLaunch_def switch_candidate_def prepare_candidate_def candidate_failed_def recordSwitchAttempt_def Let_def)


end
