(* ===== verification/Computer_Requests.thy ===== *)
theory Computer_Requests
  imports Automation_Policy Complex_Main "HOL-Library.Word"
begin

text \<open>
  \<open>internal/automation/computer_schemas.go\<close> and the functions of \<open>computer_gateway.go\<close> that look at one
  request: which arguments a tool takes, which window it names, what risk an action carries and which
  element an observation still shows.

  A JSON value is a tree; an object is the list of its members in the order of their names, as
  \<open>encoding/json\<close> writes a Go map, so two values are deeply equal when the trees are.  A decoded number
  is a finite \<open>float64\<close>, so it is a rational, and comparing it or asking for its integer part is exact.
\<close>

subsection \<open>JSON values\<close>

datatype json = JNull | JBool bool | JNum rat | JStr string | JArr "json list" | JObj "(string \<times> json) list"

type_synonym json_object = "(string \<times> json) list"

definition text_of :: "json option \<Rightarrow> string" where
  "text_of v = (case v of Some (JStr t) \<Rightarrow> t | _ \<Rightarrow> [])"

definition number_of :: "json option \<Rightarrow> rat option" where
  "number_of v = (case v of Some (JNum n) \<Rightarrow> Some n | _ \<Rightarrow> None)"

definition flag_of :: "json option \<Rightarrow> bool" where
  "flag_of v = (case v of Some (JBool b) \<Rightarrow> b | _ \<Rightarrow> False)"

definition items_of :: "json option \<Rightarrow> json list" where
  "items_of v = (case v of Some (JArr xs) \<Rightarrow> xs | _ \<Rightarrow> [])"

fun objects :: "json list \<Rightarrow> json_object list" where
  "objects [] = []"
| "objects (JObj m # vs) = m # objects vs"
| "objects (_ # vs) = objects vs"

text \<open>Reading a member of a Go map: nil, as for the value null, when there is none.\<close>

definition value_of :: "json option \<Rightarrow> json" where
  "value_of v = (case v of None \<Rightarrow> JNull | Some v \<Rightarrow> v)"

text \<open>Writing a decoded value and decoding it again gives the same value: numbers, strings and objects
  that were decoded are in the form the encoder writes.\<close>

definition cloneArguments :: "json_object option \<Rightarrow> json_object option" where
  "cloneArguments v = v"

subsection \<open>Requests and windows\<close>

datatype capability = Browser | Computer | AUV

record computer_request =
  rq_Generation :: string
  rq_Epoch :: "64 word"
  rq_Capability :: capability
  rq_Session :: string
  rq_Lifetime :: string
  rq_Operation :: string
  rq_Tool :: string
  rq_Arguments :: "json_object option"
  rq_Title :: string
  rq_WorkingDirectory :: string
  rq_Turn :: string
  rq_Permit :: string
  rq_PreviousLifetime :: string
  rq_UserTurn :: bool

text \<open>A lookup in a possibly nil map.\<close>

definition arg :: "computer_request \<Rightarrow> string \<Rightarrow> json option" where
  "arg r k = (case rq_Arguments r of None \<Rightarrow> None | Some m \<Rightarrow> map_of m k)"

datatype computerAppKind = AppOrdinary | AppBrowser | AppTerminal

record computer_target =
  ct_kind :: computerAppKind
  ct_Identity :: string
  ct_Warning :: bool
  ct_PID :: "32 word"
  ct_WindowID :: "64 word"
  ct_Executable :: string
  ct_Created :: "64 word"
  ct_WindowIdentity :: string
  ct_App :: string
  ct_Title :: string
  ct_Level :: string

record element_identity =
  ei_RuntimeID :: string
  ei_Password :: bool

text \<open>What the last observation showed; its window bounds only place the marker on the screen.\<close>

record observation =
  ob_target :: computer_target
  ob_snapshot :: string
  ob_elements :: "json_object list"
  ob_width :: rat
  ob_height :: rat
  ob_at :: nat

datatype computer_error =
    Revoked
  | Unavailable
  | ContextDone
  | InvalidChoice
  | InvalidArgument string
  | ActionUnsupported
  | ToolUnavailable
  | ExactWindowRequired
  | InvalidResult
  | ObservationFailed
  | StructuredResultRequired
  | SnapshotRequired
  | CleanupFailed
  | Busy
  | DesktopLeaseUnavailable
  | AppBlocked
  | BrowserToolsRequired
  | AccessLevel
  | AppDenied
  | FreshObservationRequired
  | StaleObservation
  | ElementNotFound
  | ElementRequired
  | ElementChanged
  | ElementVerificationUnavailable
  | ComputerSecretInputBlocked
  | ClipboardUnavailable
  | SystemKeyUnavailable
  | CoordinatesOutsideCapture
  | TargetChanged
  | ActionBlocked string
  | AuthorizationRequired
  | Adapter string

subsection \<open>Tools and their arguments\<close>

definition computerAllowed :: "string \<Rightarrow> bool" where
  "computerAllowed tool \<longleftrightarrow> tool \<in> {''computer_windows'', ''computer_observe'', ''computer_click'', ''computer_type'',
     ''computer_scroll'', ''computer_key'', ''computer_release''}"

definition computerRawTool :: "string \<Rightarrow> string" where
  "computerRawTool tool = look
     [(''computer_windows'', ''list_windows''), (''computer_observe'', ''get_window_state''), (''computer_click'', ''click''),
      (''computer_type'', ''type_text''), (''computer_scroll'', ''scroll''), (''computer_key'', ''press_key'')] tool"

record property =
  ps_Type :: string
  ps_Enum :: "string list"
  ps_Minimum :: "rat option"
  ps_Maximum :: "rat option"
  ps_MaxLength :: nat

record tool_schema =
  ts_name :: string
  ts_Properties :: "(string \<times> property) list"
  ts_Required :: "string list"

definition plain :: "string \<Rightarrow> property" where
  "plain t = \<lparr>ps_Type = t, ps_Enum = [], ps_Minimum = None, ps_Maximum = None, ps_MaxLength = 0\<rparr>"

definition at_least :: "string \<Rightarrow> rat \<Rightarrow> property" where
  "at_least t n = (plain t)\<lparr>ps_Minimum := Some n\<rparr>"

definition one_of :: "string list \<Rightarrow> property" where
  "one_of vs = (plain [])\<lparr>ps_Enum := vs\<rparr>"

definition up_to :: "nat \<Rightarrow> property" where
  "up_to n = (plain ''string'')\<lparr>ps_MaxLength := n\<rparr>"

text \<open>The tools in the order of the table, with the properties of their own.\<close>

definition computer_tools :: "tool_schema list" where
  "computer_tools =
    [\<lparr>ts_name = ''computer_release'', ts_Properties = [], ts_Required = []\<rparr>,
     \<lparr>ts_name = ''computer_windows'', ts_Properties = [], ts_Required = []\<rparr>,
     \<lparr>ts_name = ''computer_observe'', ts_Properties = [], ts_Required = [''pid'', ''window_id'']\<rparr>,
     \<lparr>ts_name = ''computer_click'',
      ts_Properties = [(''element_index'', at_least ''integer'' 0), (''x'', at_least ''number'' 0), (''y'', at_least ''number'' 0)],
      ts_Required = [''pid'', ''window_id'', ''snapshot_id'']\<rparr>,
     \<lparr>ts_name = ''computer_type'',
      ts_Properties = [(''element_index'', at_least ''integer'' 0), (''text'', up_to 16384)],
      ts_Required = [''pid'', ''window_id'', ''snapshot_id'', ''element_index'', ''text'']\<rparr>,
     \<lparr>ts_name = ''computer_scroll'',
      ts_Properties = [(''direction'', one_of [''up'', ''down'', ''left'', ''right'']),
        (''amount'', (at_least ''integer'' 1)\<lparr>ps_Maximum := Some 50\<rparr>), (''by'', one_of [''line'', ''page''])],
      ts_Required = [''pid'', ''window_id'', ''snapshot_id'', ''direction'']\<rparr>,
     \<lparr>ts_name = ''computer_key'',
      ts_Properties = [(''element_index'', at_least ''integer'' 0), (''key'', up_to 40), (''modifiers'', plain ''array'')],
      ts_Required = [''pid'', ''window_id'', ''snapshot_id'', ''element_index'', ''key'']\<rparr>]"

text \<open>What the AUV engine takes away or adds, and the window and snapshot of the other tools.\<close>

definition auv_schema :: "tool_schema \<Rightarrow> tool_schema option" where
  "auv_schema t =
    (if ts_name t \<in> {''computer_type'', ''computer_key''} then None
     else if ts_name t = ''computer_click''
     then Some (t\<lparr>ts_Properties := AList.delete ''element_index'' (ts_Properties t),
        ts_Required := [''pid'', ''window_id'', ''snapshot_id'', ''x'', ''y'']\<rparr>)
     else if ts_name t = ''computer_scroll''
     then Some (t\<lparr>ts_Properties := ts_Properties t @ [(''x'', at_least ''number'' 0), (''y'', at_least ''number'' 0)]\<rparr>)
     else Some t)"

definition window_schema :: "tool_schema \<Rightarrow> tool_schema" where
  "window_schema t =
    (let t = (if ts_name t \<notin> {''computer_windows'', ''computer_release''}
              then t\<lparr>ts_Properties := ts_Properties t @ [(''pid'', at_least ''integer'' 1), (''window_id'', at_least ''integer'' 1)]\<rparr>
              else t)
     in if ts_name t \<notin> {''computer_windows'', ''computer_observe'', ''computer_release''}
        then t\<lparr>ts_Properties := ts_Properties t @ [(''snapshot_id'', plain ''string'')]\<rparr> else t)"

definition ComputerToolSchemas :: "string \<Rightarrow> tool_schema list" where
  "ComputerToolSchemas engine =
    map window_schema (if engine = ''auv'' then List.map_filter auv_schema computer_tools else computer_tools)"

text \<open>A number is an integer when converting it to \<open>int64\<close> and back gives it again.\<close>

definition int64_number :: "rat \<Rightarrow> bool" where
  "int64_number n \<longleftrightarrow> n = of_int \<lfloor>n\<rfloor> \<and> - (2 ^ 63) \<le> \<lfloor>n\<rfloor> \<and> \<lfloor>n\<rfloor> < 2 ^ 63"

fun modifiers_ok :: "string set \<Rightarrow> json list \<Rightarrow> bool" where
  "modifiers_ok seen [] = True"
| "modifiers_ok seen (v # vs) =
    (case v of JStr t \<Rightarrow> t \<notin> seen \<and> (t = ''ctrl'' \<or> t = ''shift'' \<or> t = ''alt'') \<and> modifiers_ok (insert t seen) vs
     | _ \<Rightarrow> False)"

definition in_range :: "property \<Rightarrow> rat \<Rightarrow> bool" where
  "in_range p n \<longleftrightarrow> (case ps_Minimum p of None \<Rightarrow> True | Some m \<Rightarrow> m \<le> n) \<and> (case ps_Maximum p of None \<Rightarrow> True | Some m \<Rightarrow> n \<le> m)"

definition value_ok :: "property \<Rightarrow> string \<Rightarrow> json \<Rightarrow> bool" where
  "value_ok p k v \<longleftrightarrow>
    (if ps_Type p = ''string'' then (case v of JStr t \<Rightarrow> \<not> (ps_MaxLength p > 0 \<and> rune_count t > ps_MaxLength p) | _ \<Rightarrow> False)
     else if ps_Type p = ''array'' then
       (case v of JArr vs \<Rightarrow> k = ''modifiers'' \<and> length vs \<le> 3 \<and> modifiers_ok {} vs | _ \<Rightarrow> False)
     else if ps_Type p = ''integer'' \<or> ps_Type p = ''number'' then
       (case v of JNum n \<Rightarrow> (ps_Type p = ''integer'' \<longrightarrow> int64_number n) \<and> in_range p n | _ \<Rightarrow> False)
     else True) \<and>
    (ps_Enum p = [] \<or> (case v of JStr t \<Rightarrow> t \<in> set (ps_Enum p) | _ \<Rightarrow> False))"

definition member_ok :: "tool_schema \<Rightarrow> string \<times> json \<Rightarrow> bool" where
  "member_ok t = (\<lambda>(k, v). case map_of (ts_Properties t) k of None \<Rightarrow> False | Some p \<Rightarrow> value_ok p k v)"

definition present :: "json_object \<Rightarrow> string \<Rightarrow> bool" where
  "present args k \<longleftrightarrow> map_of args k \<noteq> None"

text \<open>The checks of a request.  The code ranges over a map, so which of several bad members it names is
  left to the run; here it is the first one of the list.\<close>

definition validateComputerArguments :: "computer_request \<Rightarrow> string \<Rightarrow> computer_error option" where
  "validateComputerArguments r engine =
    (case rq_Arguments r of
       None \<Rightarrow> Some (InvalidArgument [])
     | Some args \<Rightarrow>
       if \<not> computerAllowed (rq_Tool r) then Some (InvalidArgument [])
       else (case find (\<lambda>t. ts_name t = rq_Tool r) (ComputerToolSchemas engine) of
           None \<Rightarrow> Some ActionUnsupported
         | Some t \<Rightarrow>
           (case find (\<lambda>k. \<not> present args k) (ts_Required t) of
              Some k \<Rightarrow> Some (InvalidArgument k)
            | None \<Rightarrow>
              (case find (\<lambda>m. \<not> member_ok t m) args of
                 Some m \<Rightarrow> Some (InvalidArgument (fst m))
               | None \<Rightarrow>
                 let element = present args ''element_index''; x = present args ''x''; y = present args ''y'' in
                 if rq_Tool r = ''computer_click'' \<and> (element \<and> (x \<or> y) \<or> \<not> element \<and> (\<not> x \<or> \<not> y))
                 then Some (InvalidArgument ''choose one element or coordinate pair'')
                 else if rq_Tool r = ''computer_scroll'' \<and> x \<noteq> y
                 then Some (InvalidArgument ''scroll requires both x and y'')
                 else None))))"

subsection \<open>The window a request names\<close>

definition computerNumber :: "json option \<Rightarrow> 64 word option" where
  "computerNumber v =
    (case number_of v of None \<Rightarrow> None
     | Some f \<Rightarrow> if f > 0 \<and> f = of_int \<lfloor>f\<rfloor> \<and> f \<le> 9007199254740991 then Some (word_of_int \<lfloor>f\<rfloor>) else None)"

definition computerTargetArgs :: "json_object \<Rightarrow> (32 word \<times> 64 word) option" where
  "computerTargetArgs args =
    (case (computerNumber (map_of args ''pid''), computerNumber (map_of args ''window_id'')) of
       (Some p, Some w) \<Rightarrow> if p > 4294967295 then None else Some (ucast p, w)
     | _ \<Rightarrow> None)"

text \<open>The inspector's answer, with the identity it may leave out and the level the user's rules give.\<close>

definition with_identity :: "net_env \<Rightarrow> computer_target \<Rightarrow> computer_target" where
  "with_identity env t =
    (if ct_Identity t = [] then t\<lparr>ct_Identity := ''path:'' @ ToLower env (ct_Executable t)\<rparr> else t)"

definition with_rule :: "computer_policy \<Rightarrow> computer_target \<Rightarrow> computer_target" where
  "with_rule p t =
    (case find (\<lambda>a. app_ID a = ct_Identity t) (Apps p) of None \<Rightarrow> t
     | Some a \<Rightarrow> if ct_Level t \<noteq> ''view'' \<or> app_Level a = ''blocked'' then t\<lparr>ct_Level := app_Level a\<rparr> else t)"

definition inspectComputerTarget ::
    "net_env \<Rightarrow> computer_policy \<Rightarrow> computer_error + computer_target \<Rightarrow> computer_error + computer_target" where
  "inspectComputerTarget env p answer =
    (case answer of Inl e \<Rightarrow> Inl e
     | Inr t \<Rightarrow> let t = with_identity env t in Inr (if ct_Level t = ''blocked'' then t else with_rule p t))"

text \<open>The checks between the inspection of a window and the user's consent.\<close>

definition level_check :: "string \<Rightarrow> computer_target \<Rightarrow> computer_error option" where
  "level_check tool t =
    (if ct_Level t = ''blocked'' then Some AppBlocked
     else if ct_kind t = AppBrowser then Some BrowserToolsRequired
     else if tool \<noteq> ''computer_observe'' \<and> ct_Level t = ''view'' then Some AccessLevel
     else if (tool = ''computer_type'' \<or> tool = ''computer_key'') \<and> ct_Level t = ''click'' then Some AccessLevel
     else None)"

definition computerContent :: "json \<Rightarrow> computer_error + json_object" where
  "computerContent v =
    (case v of JObj m \<Rightarrow>
       if flag_of (map_of m ''isError'') then Inl ObservationFailed
       else (case map_of m ''structuredContent'' of Some (JObj x) \<Rightarrow> Inr x | _ \<Rightarrow> Inl StructuredResultRequired)
     | _ \<Rightarrow> Inl InvalidResult)"

definition computerDimension :: "json_object \<Rightarrow> string \<Rightarrow> rat" where
  "computerDimension content k = (case number_of (map_of content k) of None \<Rightarrow> 0 | Some n \<Rightarrow> n)"

definition observed :: "nat \<Rightarrow> computer_target \<Rightarrow> json_object \<Rightarrow> observation" where
  "observed now t content =
    \<lparr>ob_target = t, ob_snapshot = text_of (map_of content ''snapshot_id''), ob_elements = objects (items_of (map_of content ''elements'')),
     ob_width = computerDimension content ''screenshot_width'', ob_height = computerDimension content ''screenshot_height'', ob_at = now\<rparr>"

subsection \<open>The risk of an action\<close>

datatype element_lookup = NoIndex | Missing | Found json_object

definition action_element :: "computer_request \<Rightarrow> observation \<Rightarrow> element_lookup" where
  "action_element r ob =
    (case number_of (arg r ''element_index'') of None \<Rightarrow> NoIndex
     | Some n \<Rightarrow> (case find (\<lambda>v. map_of v ''element_index'' = Some (JNum n)) (ob_elements ob) of None \<Rightarrow> Missing | Some v \<Rightarrow> Found v))"

definition line_break :: "string \<Rightarrow> bool" where
  "line_break s \<longleftrightarrow> CHR 0x0A \<in> set s \<or> CHR 0x0D \<in> set s"

definition modifier :: "computer_request \<Rightarrow> string \<Rightarrow> bool" where
  "modifier r m \<longleftrightarrow> JStr m \<in> set (items_of (arg r ''modifiers''))"

text \<open>The keys that are refused or have a category of their own: \<open>None\<close> when the element decides.\<close>

definition key_category :: "net_env \<Rightarrow> computer_request \<Rightarrow> computer_target \<Rightarrow> (computer_error + string) option" where
  "key_category env r t =
    (let key = ToLower env (text_of (arg r ''key''));
         ctrl = modifier r ''ctrl''; shift = modifier r ''shift''; alt = modifier r ''alt'' in
     if ctrl \<and> key \<in> {''c'', ''v'', ''x'', ''insert''} \<or> shift \<and> key \<in> {''insert'', ''delete''} \<or> key = ''printscreen''
     then Some (Inl ClipboardUnavailable)
     else if ctrl \<and> alt \<and> key = ''delete'' \<or> alt \<and> key \<in> {''tab'', ''escape''} \<or> ctrl \<and> key = ''escape'' \<or> contains key ''win''
     then Some (Inl SystemKeyUnavailable)
     else if ctrl \<and> key = ''s'' then Some (Inr ''save'')
     else if alt \<and> key = ''f4'' then Some (Inr ''close'')
     else if ct_kind t = AppTerminal \<and> key \<in> {''enter'', ''return''} then Some (Inr ''command'')
     else None)"

definition computer_save_words :: "string list" where
  "computer_save_words = [''save'', string_of_runes [0x4FDD, 0x5B58], string_of_runes [0x4E0A, 0x66F8, 0x304D]]"

definition outside :: "computer_request \<Rightarrow> observation \<Rightarrow> bool" where
  "outside r ob =
    (case number_of (arg r ''x'') of None \<Rightarrow> False
     | Some x \<Rightarrow> let y = (case number_of (arg r ''y'') of None \<Rightarrow> 0 | Some y \<Rightarrow> y)
         in ob_width ob \<le> 0 \<or> ob_height ob \<le> 0 \<or> x \<ge> ob_width ob \<or> y \<ge> ob_height ob)"

text \<open>The category when neither the key nor the name of the element says more.\<close>

definition plain_category :: "net_env \<Rightarrow> computer_request \<Rightarrow> observation \<Rightarrow> computer_error + string" where
  "plain_category env r ob =
    (let key = ToLower env (text_of (arg r ''key'')) in
     if rq_Tool r = ''computer_key'' \<and> key \<in> {''delete'', ''backspace''} then Inr ''delete''
     else if rq_Tool r = ''computer_key'' \<and> key \<in> {''enter'', ''return''} then Inr ''unknown''
     else if rq_Tool r = ''computer_key'' \<and> items_of (arg r ''modifiers'') \<noteq> [] then Inr ''unknown''
     else if rq_Tool r = ''computer_type'' \<and> line_break (text_of (arg r ''text'')) then Inr ''unknown''
     else if rq_Tool r \<in> {''computer_click'', ''computer_scroll''} \<and> outside r ob then Inl CoordinatesOutsideCapture
     else if rq_Tool r = ''computer_click'' then Inr ''unknown''
     else Inr [])"

definition named_category :: "net_env \<Rightarrow> risk_keywords \<Rightarrow> string \<Rightarrow> computer_request \<Rightarrow> observation \<Rightarrow> computer_error + string" where
  "named_category env ks name r ob =
    (let c = keywordCategory env ks name [] in
     if c \<noteq> [] then Inr c
     else if list_ex (contains (ToLower env name)) computer_save_words then Inr ''save''
     else plain_category env r ob)"

definition enters_text :: "string \<Rightarrow> bool" where
  "enters_text tool \<longleftrightarrow> tool = ''computer_type'' \<or> tool = ''computer_key''"

definition label_of :: "json_object \<Rightarrow> string" where
  "label_of el = text_of (map_of el ''label'')"

definition secret_input :: "net_env \<Rightarrow> json_object \<Rightarrow> bool" where
  "secret_input env el \<longleftrightarrow> flag_of (map_of el ''is_password'') \<or> secretElement env (zero_element\<lparr>be_Name := label_of el\<rparr>)"

definition risk_category ::
    "net_env \<Rightarrow> risk_keywords \<Rightarrow> computer_request \<Rightarrow> computer_target \<Rightarrow> observation \<Rightarrow> json_object \<Rightarrow> computer_error + string" where
  "risk_category env ks r t ob el =
    (if rq_Tool r = ''computer_type'' \<and> ct_kind t = AppTerminal \<and> line_break (text_of (arg r ''text'')) then Inr ''command''
     else (case (if rq_Tool r = ''computer_key'' then key_category env r t else None) of
         Some c \<Rightarrow> c
       | None \<Rightarrow> named_category env ks (label_of el) r ob))"

definition computerCategory ::
    "net_env \<Rightarrow> risk_keywords \<Rightarrow> computer_request \<Rightarrow> computer_target \<Rightarrow> observation \<Rightarrow> computer_error + string" where
  "computerCategory env ks r t ob =
    (case action_element r ob of
       Missing \<Rightarrow> Inl ElementNotFound
     | NoIndex \<Rightarrow> if enters_text (rq_Tool r) then Inl ElementRequired else risk_category env ks r t ob []
     | Found el \<Rightarrow> if enters_text (rq_Tool r) \<and> secret_input env el then Inl ComputerSecretInputBlocked
         else risk_category env ks r t ob el)"

subsection \<open>The element of an older observation\<close>

definition identity_keys :: "string list" where
  "identity_keys = [''role'', ''label'', ''frame'', ''automation_id'', ''enabled'']"

definition same_element :: "json_object \<Rightarrow> json_object \<Rightarrow> bool" where
  "same_element source el \<longleftrightarrow> list_all (\<lambda>k. value_of (map_of source k) = value_of (map_of el k)) identity_keys"

text \<open>The part of \<open>refreshComputerElement\<close> between the answer of the engine and the new observation.\<close>

definition refreshed :: "nat \<Rightarrow> computer_target \<Rightarrow> json_object \<Rightarrow> json \<Rightarrow> computer_error + (observation \<times> json_object)" where
  "refreshed now t source value =
    (case computerContent value of Inl e \<Rightarrow> Inl e
     | Inr content \<Rightarrow>
         let ob = observed now t content; same = filter (same_element source) (ob_elements ob) in
         if ob_snapshot ob = [] \<or> length same \<noteq> 1 then Inl ElementChanged else Inr (ob, last same))"

subsection \<open>Arguments handed to the engine\<close>

definition put :: "string \<Rightarrow> json \<Rightarrow> json_object \<Rightarrow> json_object" where
  "put k v m = sort_key fst ((k, v) # AList.delete k m)"

definition refreshed_args :: "computer_request \<Rightarrow> observation \<Rightarrow> json_object \<Rightarrow> json_object option" where
  "refreshed_args r ob el =
    (case cloneArguments (rq_Arguments r) of None \<Rightarrow> None
     | Some m \<Rightarrow> Some (put ''snapshot_id'' (JStr (ob_snapshot ob))
         (put ''element_index'' (value_of (map_of el ''element_index'')) m)))"

definition named_value :: "string \<Rightarrow> json option \<Rightarrow> json_object" where
  "named_value k v = [(k, value_of v)]"

definition engine_args :: "string \<Rightarrow> computer_request \<Rightarrow> string \<Rightarrow> json_object option \<Rightarrow> json_object" where
  "engine_args engine r snapshot actionArgs =
    (let args0 = (case (if actionArgs \<noteq> None then cloneArguments actionArgs else cloneArguments (rq_Arguments r)) of
                    None \<Rightarrow> [] | Some m \<Rightarrow> m);
         args = AList.delete ''snapshot_id'' args0 in
     if rq_Tool r = ''computer_windows'' then [(''on_screen_only'', JBool True)]
     else if rq_Tool r = ''computer_observe''
     then [(''max_depth'', JNum 20), (''max_elements'', JNum 500)] @ named_value ''pid'' (arg r ''pid'') @ named_value ''window_id'' (arg r ''window_id'')
     else put ''delivery_mode'' (JStr ''background'') (put ''scope'' (JStr ''window'')
       (if present args ''element_index'' \<or> engine = ''auv'' then put ''snapshot_id'' (JStr snapshot) args else args)))"

subsection \<open>Accepted arguments\<close>

definition tool_schema_of :: "string \<Rightarrow> string \<Rightarrow> tool_schema option" where
  "tool_schema_of engine tool = find (\<lambda>t. ts_name t = tool) (ComputerToolSchemas engine)"

lemmas schema_defs = tool_schema_of_def ComputerToolSchemas_def computer_tools_def List.map_filter_def auv_schema_def window_schema_def
  plain_def at_least_def one_of_def up_to_def

lemma schema_of_type:
  "tool_schema_of engine ''computer_type'' = (if engine = ''auv'' then None else Some
     \<lparr>ts_name = ''computer_type'',
      ts_Properties = [(''element_index'', at_least ''integer'' 0), (''text'', up_to 16384), (''pid'', at_least ''integer'' 1),
        (''window_id'', at_least ''integer'' 1), (''snapshot_id'', plain ''string'')],
      ts_Required = [''pid'', ''window_id'', ''snapshot_id'', ''element_index'', ''text'']\<rparr>)"
  by (simp add: schema_defs)

lemma schema_of_key:
  "tool_schema_of engine ''computer_key'' = (if engine = ''auv'' then None else Some
     \<lparr>ts_name = ''computer_key'',
      ts_Properties = [(''element_index'', at_least ''integer'' 0), (''key'', up_to 40), (''modifiers'', plain ''array''),
        (''pid'', at_least ''integer'' 1), (''window_id'', at_least ''integer'' 1), (''snapshot_id'', plain ''string'')],
      ts_Required = [''pid'', ''window_id'', ''snapshot_id'', ''element_index'', ''key'']\<rparr>)"
  by (simp add: schema_defs)

lemma schema_of_click:
  "tool_schema_of engine ''computer_click'' = Some
     \<lparr>ts_name = ''computer_click'',
      ts_Properties = (if engine = ''auv'' then [] else [(''element_index'', at_least ''integer'' 0)]) @
        [(''x'', at_least ''number'' 0), (''y'', at_least ''number'' 0), (''pid'', at_least ''integer'' 1),
         (''window_id'', at_least ''integer'' 1), (''snapshot_id'', plain ''string'')],
      ts_Required = [''pid'', ''window_id'', ''snapshot_id''] @ (if engine = ''auv'' then [''x'', ''y''] else [])\<rparr>"
  by (simp add: schema_defs)

lemma schema_of_scroll:
  "tool_schema_of engine ''computer_scroll'' = Some
     \<lparr>ts_name = ''computer_scroll'',
      ts_Properties = [(''direction'', one_of [''up'', ''down'', ''left'', ''right'']),
        (''amount'', (at_least ''integer'' 1)\<lparr>ps_Maximum := Some 50\<rparr>), (''by'', one_of [''line'', ''page''])] @
        (if engine = ''auv'' then [(''x'', at_least ''number'' 0), (''y'', at_least ''number'' 0)] else []) @
        [(''pid'', at_least ''integer'' 1), (''window_id'', at_least ''integer'' 1), (''snapshot_id'', plain ''string'')],
      ts_Required = [''pid'', ''window_id'', ''snapshot_id'', ''direction'']\<rparr>"
  by (simp add: schema_defs)

lemma schema_of_observe:
  "tool_schema_of engine ''computer_observe'' = Some
     \<lparr>ts_name = ''computer_observe'', ts_Properties = [(''pid'', at_least ''integer'' 1), (''window_id'', at_least ''integer'' 1)],
      ts_Required = [''pid'', ''window_id'']\<rparr>"
  by (simp add: schema_defs)

lemmas schemas = schema_of_type schema_of_key schema_of_click schema_of_scroll schema_of_observe

lemma acceptedD:
  assumes "validateComputerArguments r engine = None"
  obtains args t where "rq_Arguments r = Some args" "computerAllowed (rq_Tool r)" "tool_schema_of engine (rq_Tool r) = Some t"
    "\<And>k. k \<in> set (ts_Required t) \<Longrightarrow> present args k"
    "\<And>k v. map_of args k = Some v \<Longrightarrow> \<exists>p. map_of (ts_Properties t) k = Some p \<and> value_ok p k v"
    "rq_Tool r = ''computer_click'' \<Longrightarrow> present args ''element_index'' \<and> \<not> present args ''x'' \<and> \<not> present args ''y'' \<or>
       \<not> present args ''element_index'' \<and> present args ''x'' \<and> present args ''y''"
proof -
  obtain args t where r: "rq_Arguments r = Some args" "computerAllowed (rq_Tool r)" "tool_schema_of engine (rq_Tool r) = Some t"
    and none: "find (\<lambda>k. \<not> present args k) (ts_Required t) = None" "find (\<lambda>m. \<not> member_ok t m) args = None"
    and click: "\<not> (rq_Tool r = ''computer_click'' \<and> (present args ''element_index'' \<and> (present args ''x'' \<or> present args ''y'') \<or>
      \<not> present args ''element_index'' \<and> (\<not> present args ''x'' \<or> \<not> present args ''y'')))"
    using assms unfolding validateComputerArguments_def tool_schema_of_def [symmetric] Let_def
    by (auto split: option.splits if_splits)
  have "\<exists>p. map_of (ts_Properties t) k = Some p \<and> value_ok p k v" if "map_of args k = Some v" for k v
    using none(2) map_of_SomeD [OF that] by (force simp: find_None_iff member_ok_def split: option.splits)
  then show ?thesis using that r none(1) click by (auto simp: find_None_iff)
qed

lemma integer_value:
  assumes "value_ok (at_least ''integer'' m) k v"
  obtains i where "v = JNum (of_int i)" "m \<le> of_int i" "i < 2 ^ 63"
  using assms by (auto simp: value_ok_def at_least_def plain_def in_range_def int64_number_def split: json.splits)

lemma number_value:
  assumes "value_ok (at_least ''number'' m) k v"
  obtains x where "v = JNum x" "m \<le> x"
  using assms by (auto simp: value_ok_def at_least_def plain_def in_range_def split: json.splits)

lemma text_value:
  assumes "value_ok (up_to n) k v" "0 < n"
  obtains t where "v = JStr t" "rune_count t \<le> n"
  using assms by (auto simp: value_ok_def up_to_def plain_def split: json.splits)

definition natural :: "json option \<Rightarrow> int \<Rightarrow> bool" where
  "natural v m \<longleftrightarrow> (\<exists>i. v = Some (JNum (of_int i)) \<and> m \<le> i \<and> i < 2 ^ 63)"

definition bounded_text :: "json option \<Rightarrow> nat \<Rightarrow> bool" where
  "bounded_text v n \<longleftrightarrow> (\<exists>t. v = Some (JStr t) \<and> rune_count t \<le> n)"

lemma natural_value: "value_ok (at_least ''integer'' (of_int m)) k v \<Longrightarrow> natural (Some v) m"
  by (erule integer_value) (auto simp: natural_def)

lemma bounded_value: "value_ok (up_to n) k v \<Longrightarrow> 0 < n \<Longrightarrow> bounded_text (Some v) n"
  by (erule text_value) (auto simp: bounded_text_def)

lemma accepted_member:
  assumes "validateComputerArguments r engine = None" "tool_schema_of engine (rq_Tool r) = Some t" "map_of (ts_Properties t) k = Some p"
    and "arg r k = Some v"
  shows "value_ok p k v"
  using assms(1)
proof (rule acceptedD)
  fix args t'
  assume a: "rq_Arguments r = Some args" "tool_schema_of engine (rq_Tool r) = Some t'"
    and ok: "\<And>k v. map_of args k = Some v \<Longrightarrow> \<exists>p. map_of (ts_Properties t') k = Some p \<and> value_ok p k v"
  from a(2) assms(2) have "t' = t" by simp
  then show ?thesis using ok [of k v] assms(3,4) a(1) by (simp add: arg_def)
qed

lemma accepted_required:
  assumes "validateComputerArguments r engine = None" "tool_schema_of engine (rq_Tool r) = Some t" "k \<in> set (ts_Required t)"
  obtains v where "arg r k = Some v"
  using assms(1)
proof (rule acceptedD)
  fix args t'
  assume a: "rq_Arguments r = Some args" "tool_schema_of engine (rq_Tool r) = Some t'"
    and ok: "\<And>k. k \<in> set (ts_Required t') \<Longrightarrow> present args k"
  from a(2) assms(2) have "t' = t" by simp
  then show ?thesis using ok [of k] assms(3) a(1) that by (auto simp: arg_def present_def)
qed

lemma accepted_no_other:
  assumes "validateComputerArguments r engine = None" "tool_schema_of engine (rq_Tool r) = Some t" "map_of (ts_Properties t) k = None"
  shows "arg r k = None"
  using assms(1)
proof (rule acceptedD)
  fix args t'
  assume a: "rq_Arguments r = Some args" "tool_schema_of engine (rq_Tool r) = Some t'"
    and ok: "\<And>k v. map_of args k = Some v \<Longrightarrow> \<exists>p. map_of (ts_Properties t') k = Some p \<and> value_ok p k v"
  from a(2) assms(2) have "t' = t" by simp
  then show ?thesis using ok [of k] assms(3) a(1) by (cases "map_of args k") (auto simp: arg_def)
qed

lemma accepted_click:
  assumes "validateComputerArguments r engine = None" "rq_Tool r = ''computer_click''"
  shows "arg r ''element_index'' \<noteq> None \<and> arg r ''x'' = None \<and> arg r ''y'' = None \<or>
    arg r ''element_index'' = None \<and> arg r ''x'' \<noteq> None \<and> arg r ''y'' \<noteq> None"
  using assms(1)
proof (rule acceptedD)
  fix args t'
  assume a: "rq_Arguments r = Some args"
    and ok: "rq_Tool r = ''computer_click'' \<Longrightarrow> present args ''element_index'' \<and> \<not> present args ''x'' \<and> \<not> present args ''y'' \<or>
       \<not> present args ''element_index'' \<and> present args ''x'' \<and> present args ''y''"
  show ?thesis using ok [OF assms(2)] a by (simp add: arg_def present_def)
qed

lemma accepted_tool: "validateComputerArguments r engine = None \<Longrightarrow> computerAllowed (rq_Tool r)"
  by (erule acceptedD)

lemma accepted_schema: "validateComputerArguments r engine = None \<Longrightarrow> tool_schema_of engine (rq_Tool r) \<noteq> None"
  by (erule acceptedD) simp

definition windowed :: "string \<Rightarrow> bool" where
  "windowed tool \<longleftrightarrow> tool \<notin> {''computer_windows'', ''computer_release''}"

lemma windowed_tools:
  assumes "computerAllowed tool" "windowed tool"
  obtains "tool = ''computer_observe''" | "tool = ''computer_click''" | "tool = ''computer_type''" | "tool = ''computer_scroll''"
    | "tool = ''computer_key''"
proof -
  note cases = that
  from assms(1) show thesis unfolding computerAllowed_def insert_iff empty_iff
    by (elim disjE) (use assms(2) in \<open>simp_all only: windowed_def cases insert_iff simp_thms\<close>)
qed

lemma accepted_natural:
  assumes "validateComputerArguments r engine = None" "tool_schema_of engine (rq_Tool r) = Some t" "k \<in> set (ts_Required t)"
    and "map_of (ts_Properties t) k = Some (at_least ''integer'' (of_int m))"
  shows "natural (arg r k) m"
proof -
  obtain v where v: "arg r k = Some v" using accepted_required [OF assms(1-3)] .
  show ?thesis using natural_value accepted_member [OF assms(1,2,4) v] v by simp
qed

lemma accepted_text:
  assumes "validateComputerArguments r engine = None" "tool_schema_of engine (rq_Tool r) = Some t" "k \<in> set (ts_Required t)"
    and "map_of (ts_Properties t) k = Some (up_to n)" "0 < n"
  shows "bounded_text (arg r k) n"
proof -
  obtain v where v: "arg r k = Some v" using accepted_required [OF assms(1-3)] .
  show ?thesis using bounded_value [OF accepted_member [OF assms(1,2,4) v] assms(5)] v by simp
qed

lemma accepted_window:
  assumes "validateComputerArguments r engine = None" "windowed (rq_Tool r)"
  shows "natural (arg r ''pid'') 1" "natural (arg r ''window_id'') 1"
proof -
  obtain t where t: "tool_schema_of engine (rq_Tool r) = Some t" using accepted_schema [OF assms(1)] by auto
  have "''pid'' \<in> set (ts_Required t) \<and> ''window_id'' \<in> set (ts_Required t) \<and>
      map_of (ts_Properties t) ''pid'' = Some (at_least ''integer'' 1) \<and>
      map_of (ts_Properties t) ''window_id'' = Some (at_least ''integer'' 1)"
    using t by (rule_tac windowed_tools [OF accepted_tool [OF assms(1)] assms(2)]) (clarsimp simp: schemas split: if_splits)+
  then show "natural (arg r ''pid'') 1" "natural (arg r ''window_id'') 1"
    using accepted_natural [OF assms(1) t, of "''pid''" 1] accepted_natural [OF assms(1) t, of "''window_id''" 1] by simp_all
qed

lemma accepted_entry:
  assumes "validateComputerArguments r engine = None" "enters_text (rq_Tool r)"
  shows "engine \<noteq> ''auv''" "natural (arg r ''element_index'') 0"
    "bounded_text (arg r (if rq_Tool r = ''computer_type'' then ''text'' else ''key'')) 16384"
proof -
  obtain t where t: "tool_schema_of engine (rq_Tool r) = Some t" using accepted_schema [OF assms(1)] by auto
  consider (ty) "rq_Tool r = ''computer_type''" | (key) "rq_Tool r = ''computer_key''" using assms(2) by (auto simp: enters_text_def)
  then have "engine \<noteq> ''auv'' \<and> natural (arg r ''element_index'') 0 \<and>
      bounded_text (arg r (if rq_Tool r = ''computer_type'' then ''text'' else ''key'')) 16384"
  proof cases
    case ty
    then show ?thesis using t accepted_natural [OF assms(1) t, of "''element_index''" 0] accepted_text [OF assms(1) t, of "''text''" 16384]
      by (auto simp: schemas split: if_splits)
  next
    case key
    then have "bounded_text (arg r ''key'') 40" "natural (arg r ''element_index'') 0" "engine \<noteq> ''auv''"
      using t accepted_natural [OF assms(1) t, of "''element_index''" 0] accepted_text [OF assms(1) t, of "''key''" 40]
      by (auto simp: schemas split: if_splits)
    then show ?thesis using key by (auto simp: bounded_text_def)
  qed
  then show "engine \<noteq> ''auv''" "natural (arg r ''element_index'') 0"
    "bounded_text (arg r (if rq_Tool r = ''computer_type'' then ''text'' else ''key'')) 16384" by simp_all
qed

text \<open>(C40) A request whose arguments are accepted names its window by two positive integers, carries a text
  of at most 16384 runes when it enters one, names the element it types into, clicks either an element
  or a point and not both, and with the engine that has no elements neither types nor uses an index.
\<close>

theorem accepted_arguments_wellformed:
  assumes "validateComputerArguments r engine = None"
  shows "computerAllowed (rq_Tool r) \<and> rq_Arguments r \<noteq> None \<and>
    (windowed (rq_Tool r) \<longrightarrow> natural (arg r ''pid'') 1 \<and> natural (arg r ''window_id'') 1) \<and>
    (enters_text (rq_Tool r) \<longrightarrow> engine \<noteq> ''auv'' \<and> natural (arg r ''element_index'') 0 \<and>
       bounded_text (arg r (if rq_Tool r = ''computer_type'' then ''text'' else ''key'')) 16384) \<and>
    (rq_Tool r = ''computer_click'' \<longrightarrow> (arg r ''element_index'' = None) = (arg r ''x'' \<noteq> None) \<and> (arg r ''x'' = None) = (arg r ''y'' = None)) \<and>
    (engine = ''auv'' \<longrightarrow> arg r ''element_index'' = None)"
proof -
  obtain t where t: "tool_schema_of engine (rq_Tool r) = Some t" using accepted_schema [OF assms] by auto
  have auv: "arg r ''element_index'' = None" if "engine = ''auv''"
  proof (rule accepted_no_other [OF assms t])
    show "map_of (ts_Properties t) ''element_index'' = None"
      using t that accepted_tool [OF assms] by (auto simp: computerAllowed_def schemas) (auto simp: schema_defs)
  qed
  have some: "rq_Arguments r \<noteq> None" by (rule acceptedD [OF assms]) simp
  show ?thesis
    using accepted_tool [OF assms] some accepted_window [OF assms] accepted_entry [OF assms] accepted_click [OF assms] auv by auto
qed

text \<open>Whether a request is accepted does not depend on the order in which its arguments are visited.\<close>

lemma accepts_iff:
  assumes "rq_Arguments r = Some args"
  shows "(validateComputerArguments r engine = None) = (computerAllowed (rq_Tool r) \<and>
    (case tool_schema_of engine (rq_Tool r) of None \<Rightarrow> False
     | Some t \<Rightarrow> find (\<lambda>k. \<not> present args k) (ts_Required t) = None \<and> find (\<lambda>m. \<not> member_ok t m) args = None \<and>
         \<not> (rq_Tool r = ''computer_click'' \<and> (present args ''element_index'' \<and> (present args ''x'' \<or> present args ''y'') \<or>
            \<not> present args ''element_index'' \<and> (\<not> present args ''x'' \<or> \<not> present args ''y''))) \<and>
         \<not> (rq_Tool r = ''computer_scroll'' \<and> present args ''x'' \<noteq> present args ''y'')))"
  using assms by (simp add: validateComputerArguments_def tool_schema_of_def Let_def split: option.split)

lemma order_of_arguments:
  assumes "rq_Arguments r = Some args" "set args' = set args" "distinct (map fst args)" "distinct (map fst args')"
  shows "(validateComputerArguments (r\<lparr>rq_Arguments := Some args'\<rparr>) engine = None) = (validateComputerArguments r engine = None)"
proof -
  have same: "map_of args' = map_of args" using map_of_inject_set [OF assms(4,3)] assms(2) by blast
  have members: "(find (\<lambda>m. \<not> member_ok t m) args' = None) = (find (\<lambda>m. \<not> member_ok t m) args = None)" for t
    using assms(2) by (simp add: find_None_iff)
  show ?thesis
    using members assms(1) by (simp add: accepts_iff present_def same cong: option.case_cong)
qed

subsection \<open>Actions that need no confirmation\<close>

definition chosen_label :: "computer_request \<Rightarrow> observation \<Rightarrow> string" where
  "chosen_label r ob = (case action_element r ob of Found el \<Rightarrow> label_of el | _ \<Rightarrow> [])"

lemma silent_key: "key_category env r t \<noteq> Some (Inr [])"
  by (simp add: key_category_def Let_def)

lemma silent_plain:
  assumes "plain_category env r ob = Inr []"
  shows "rq_Tool r \<noteq> ''computer_click''" "rq_Tool r = ''computer_type'' \<Longrightarrow> \<not> line_break (text_of (arg r ''text''))"
    "rq_Tool r = ''computer_key'' \<Longrightarrow> items_of (arg r ''modifiers'') = [] \<and>
       ToLower env (text_of (arg r ''key'')) \<notin> {''enter'', ''return'', ''delete'', ''backspace''}"
    "rq_Tool r = ''computer_scroll'' \<Longrightarrow> \<not> outside r ob"
  using assms by (simp_all add: plain_category_def Let_def split: if_splits)

lemma silent_name:
  assumes "named_category env ks name r ob = Inr []"
  shows "keywordCategory env ks name [] = []" "plain_category env r ob = Inr []"
  using assms by (simp_all add: named_category_def Let_def split: if_splits)

lemma silent_risk:
  assumes "risk_category env ks r t ob el = Inr []"
  shows "named_category env ks (label_of el) r ob = Inr []" "rq_Tool r = ''computer_key'' \<Longrightarrow> key_category env r t = None"
  using assms silent_key [of env r t]
  by (auto simp: risk_category_def split: if_splits option.splits)

lemma category_entry:
  assumes "computerCategory env ks r t ob = Inr c" "enters_text (rq_Tool r)"
  obtains el where "action_element r ob = Found el" "\<not> secret_input env el"
  using assms by (auto simp: computerCategory_def split: element_lookup.splits if_splits)

lemma category_risk:
  assumes "computerCategory env ks r t ob = Inr c"
  obtains el where "risk_category env ks r t ob el = Inr c" "label_of el = chosen_label r ob"
proof (cases "action_element r ob")
  case NoIndex
  then show thesis using assms that [of "[]"]
    by (simp add: computerCategory_def chosen_label_def label_of_def text_of_def split: if_splits)
next
  case Missing
  then show thesis using assms by (simp add: computerCategory_def)
next
  case (Found el)
  then show thesis using assms that [of el] by (simp add: computerCategory_def chosen_label_def split: if_splits)
qed


subsection \<open>An element that is still there\<close>

lemma refreshed_element:
  assumes "refreshed now t source value = Inr (ob, el)"
  shows "el \<in> set (ob_elements ob)" "same_element source el" "\<forall>e \<in> set (ob_elements ob). same_element source e \<longrightarrow> e = el"
    "ob_target ob = t" "ob_at ob = now" "ob_snapshot ob \<noteq> []"
proof -
  obtain content where c: "computerContent value = Inr content" using assms by (auto simp: refreshed_def split: sum.splits)
  then have ob: "ob = observed now t content" "ob_snapshot ob \<noteq> []" "length (filter (same_element source) (ob_elements ob)) = 1"
    "el = last (filter (same_element source) (ob_elements ob))"
    using assms by (auto simp: refreshed_def Let_def split: if_splits)
  then obtain e where e: "filter (same_element source) (ob_elements ob) = [e]" by (auto simp: length_Suc_conv)
  then have "el = e" using ob(4) by simp
  have set: "{x \<in> set (ob_elements ob). same_element source x} = {e}" using arg_cong [OF e, of set] by simp
  then show "el \<in> set (ob_elements ob)" "same_element source el"
    "\<forall>e \<in> set (ob_elements ob). same_element source e \<longrightarrow> e = el" using \<open>el = e\<close> by blast+
  show "ob_target ob = t" "ob_at ob = now" using ob(1) by (simp_all add: observed_def)
  show "ob_snapshot ob \<noteq> []" by (rule ob(2))
qed

subsection \<open>A form and a terminal\<close>

definition sample_request :: "string \<Rightarrow> json_object \<Rightarrow> computer_request" where
  "sample_request tool args = \<lparr>rq_Generation = ''g'', rq_Epoch = 1, rq_Capability = Computer, rq_Session = ''s'', rq_Lifetime = ''l'',
     rq_Operation = ''computer'', rq_Tool = tool, rq_Arguments = Some args, rq_Title = [], rq_WorkingDirectory = [], rq_Turn = ''t'',
     rq_Permit = [], rq_PreviousLifetime = [], rq_UserTurn = False\<rparr>"

definition typed :: computer_request where
  "typed = sample_request ''computer_type''
     [(''element_index'', JNum 2), (''pid'', JNum 7), (''snapshot_id'', JStr ''s1''), (''text'', JStr ''Berlin''), (''window_id'', JNum 9)]"

definition editor :: computer_target where
  "editor = \<lparr>ct_kind = AppOrdinary, ct_Identity = ''notepad'', ct_Warning = False, ct_PID = 7, ct_WindowID = 9, ct_Executable = ''notepad'',
     ct_Created = 1, ct_WindowIdentity = [], ct_App = ''Notepad'', ct_Title = [], ct_Level = ''full''\<rparr>"

definition form :: observation where
  "form = \<lparr>ob_target = editor, ob_snapshot = ''s1'',
     ob_elements = [[(''element_index'', JNum 2), (''label'', JStr ''City'')], [(''element_index'', JNum 3), (''is_password'', JBool True)]],
     ob_width = 800, ob_height = 600, ob_at = 0\<rparr>"

definition ascii_env :: net_env where
  "ascii_env = \<lparr>url_Parse = (\<lambda>_. None), ParseIP = (\<lambda>_. None), idna_ToASCII = Some, ToLower = id, EqualFold = (=)\<rparr>"

lemma accepted_arguments_wellformed_witness:
  "bounded_text (arg typed ''text'') 16384 \<and> natural (arg typed ''element_index'') 0"
proof -
  have count: "rune_count ''Berlin'' = 6" by code_simp
  have "validateComputerArguments typed ''cua-driver'' = None"
    by (simp add: count validateComputerArguments_def computerAllowed_def typed_def sample_request_def tool_schema_of_def [symmetric] schema_of_type
        present_def member_ok_def value_ok_def at_least_def up_to_def plain_def in_range_def int64_number_def)
  from accepted_arguments_wellformed [OF this] show ?thesis
    by (simp add: enters_text_def typed_def sample_request_def)
qed

lemma contains_length: "contains s p \<Longrightarrow> length p \<le> length s"
  by (induction s p rule: contains.induct) (auto simp: has_prefix_def min_def dest!: arg_cong [of _ _ length] split: if_splits)

lemma too_short: "length s < length p \<Longrightarrow> \<not> contains s p"
  using contains_length leD by blast

lemma city_found: "action_element typed form = Found [(''element_index'', JNum 2), (''label'', JStr ''City'')]"
  by code_simp

lemma typed_fields: "rq_Tool typed = ''computer_type''" "arg typed ''text'' = Some (JStr ''Berlin'')" "ct_kind editor = AppOrdinary"
  "ToLower ascii_env = id"
  by (simp_all add: typed_def sample_request_def arg_def editor_def ascii_env_def)

lemma city_harmless: "\<not> secretElement ascii_env (zero_element\<lparr>be_Name := ''City''\<rparr>)" "\<not> list_ex (contains ''City'') computer_save_words"
  by (simp_all add: secretElement_def ascii_env_def zero_element_def secret_words_def computer_save_words_def has_prefix_def too_short
      string_of_runes_def encode_rune_def valid_rune_def Let_def)

lemma city_category: "keywordCategory ascii_env [(''payment'', [''pay''])] ''City'' [] = []"
  by code_simp


end
