(* ===== verification/Computer_Gateway.thy ===== *)
theory Computer_Gateway
  imports Computer_Requests
begin

text \<open>
  \<open>internal/automation/computer_gateway.go\<close> and the parts of \<open>service.go\<close> and \<open>components.go\<close> it rests on:
  how a conversation gets hold of the desktop, how an action is authorized and then executed, and how both
  are taken back.

  A call is a goroutine with a program counter; one step is one critical section of the service's mutex
  or one call of an adapter.  What adapters answer, the time (in seconds), random texts and which ready
  branch a \<open>select\<close> takes are the input of a step; a step that would block, or whose random text was drawn
  before, changes nothing.  The snapshot the settings page is sent, the marker on the screen and the
  text rendering of an observation are left out.
\<close>

subsection \<open>State\<close>

record conversation =
  cv_life :: string
  cv_turn :: string
  cv_stopped :: bool

record computer_pending =
  pd_call :: nat
  pd_session :: string
  pd_target :: computer_target
  pd_expires :: nat

record computer_permit =
  pm_request :: computer_request
  pm_target :: computer_target
  pm_snapshot :: string
  pm_identity :: element_identity
  pm_element :: json_object
  pm_args :: "json_object option"
  pm_expires :: nat

record computer_use =
  us_Session :: string
  us_Lifetime :: string
  us_Title :: string
  us_Engine :: string
  us_Target :: "computer_target option"
  us_Stopping :: bool
  us_Running :: bool
  us_Action :: string

text \<open>An engine: \<open>en_ready\<close> is what its factory returned (an error, or whether there is a resource), \<open>en_closed\<close>
  the error it was closed with, \<open>en_closing\<close> that somebody has begun to close it.\<close>

record engine =
  en_key :: string
  en_ready :: "(computer_error + bool) option"
  en_revoked :: bool
  en_closing :: bool
  en_closed :: "computer_error option option"
  en_desktop :: "nat option"

datatype purpose = Refresh | Action

text \<open>What follows when the engines a call revoked have been closed.\<close>

datatype aftermath = ThenNothing | ThenFailed purpose computer_error | ThenReleased bool | ThenStopped

datatype operation =
    SetEnabled bool
  | SetPolicy "64 word" computer_policy
  | Worker string bool bool
  | Connection string bool
  | SelectEngine string

datatype call_pc =
    AuthStart | AuthEnter | AuthSerial | AuthInspect | AuthConsent | AuthPending string | AuthObserve | AuthProbe | AuthProbing
  | AuthRecheck | AuthGrant | AuthLeave | AuthCleanup
  | ExecTake | ExecSerial | ExecRelease | ExecInspect | ExecObserved | ExecProbe | ExecProbing | ExecStart | ExecFinish | ExecLeave
  | OwnEnter purpose | OwnReady purpose nat | OwnRun purpose nat | OwnDone purpose
  | TurnStart | DiscardStart | ReleaseStart | StopUseStart | StopSessionStart
  | AnswerStart string string | AnswerSave string computer_policy | AnswerChoose string string
  | OperationStart operation | OperationApply operation
  | Releasing "nat list" aftermath | Stopped | Finished

datatype call_result =
    Pending_result
  | Decision string string "64 word" string
  | Turned string string
  | Answer "computer_error + json"

record call =
  cl_pc :: call_pc
  cl_request :: computer_request
  cl_cancelled :: bool
  cl_engine :: string
  cl_choice :: "bool option"
  cl_key :: string
  cl_target :: computer_target
  cl_source :: json_object
  cl_snapshot :: string
  cl_category :: string
  cl_identity :: element_identity
  cl_element :: json_object
  cl_args :: "json_object option"
  cl_permit :: computer_permit
  cl_id :: string
  cl_value :: "computer_error + json"
  cl_admitted :: bool
  cl_result :: call_result

text \<open>What is fixed when the gateway is configured.\<close>

record gateway_config =
  gc_env :: net_env
  gc_keywords :: risk_keywords
  gc_acquire :: bool
  gc_probe :: bool

record gateway =
  gw_Generation :: string
  gw_CanChange :: bool
  gw_Profile :: bool
  gw_Connected :: bool
  gw_Engine :: string
  gw_Enabled :: bool
  gw_Dependency :: "capability \<Rightarrow> string"
  gw_Epoch :: "capability \<Rightarrow> 64 word"
  gw_stopped :: "string set"
  gw_sessions :: "string \<Rightarrow> conversation option"
  gw_policy :: computer_policy
  gw_policyRevision :: "64 word"
  gw_owner :: computer_request
  gw_lease :: "nat option"
  gw_serial :: "nat option"
  gw_op :: "nat option"
  gw_grants :: "string set"
  gw_denied :: "string set"
  gw_pending :: "(string \<times> computer_pending) list"
  gw_permits :: "(string \<times> computer_permit) list"
  gw_observation :: "observation option"
  gw_use :: "computer_use option"
  gw_desktop :: "nat option"
  gw_failure :: "computer_error option"
  gw_run :: bool
  gw_probes :: "nat set"
  gw_engines :: "nat \<Rightarrow> engine option"
  gw_entries :: "(string \<times> nat) list"
  gw_calls :: "nat \<Rightarrow> call option"
  gw_next :: nat
  gw_drawn :: "string set"
  gw_issued :: "(string \<times> computer_permit) list"
  gw_spent :: "string list"
  gw_log :: "(nat \<times> string \<times> computer_request \<times> computer_target) list"

text \<open>The last three fields are history: the permits that were handed out, the ones that were taken, and the
  actions an engine was told to carry out.  \<open>gw_drawn\<close> holds the random texts, \<open>gw_next\<close> numbers engines and
  desktop leases.\<close>

definition zero_request :: computer_request where
  "zero_request = \<lparr>rq_Generation = [], rq_Epoch = 0, rq_Capability = Computer, rq_Session = [], rq_Lifetime = [], rq_Operation = [],
     rq_Tool = [], rq_Arguments = None, rq_Title = [], rq_WorkingDirectory = [], rq_Turn = [], rq_Permit = [],
     rq_PreviousLifetime = [], rq_UserTurn = False\<rparr>"

definition zero_target :: computer_target where
  "zero_target = \<lparr>ct_kind = AppOrdinary, ct_Identity = [], ct_Warning = False, ct_PID = 0, ct_WindowID = 0, ct_Executable = [],
     ct_Created = 0, ct_WindowIdentity = [], ct_App = [], ct_Title = [], ct_Level = []\<rparr>"

definition zero_identity :: element_identity where
  "zero_identity = \<lparr>ei_RuntimeID = [], ei_Password = False\<rparr>"

definition zero_permit :: computer_permit where
  "zero_permit = \<lparr>pm_request = zero_request, pm_target = zero_target, pm_snapshot = [], pm_identity = zero_identity, pm_element = [],
     pm_args = None, pm_expires = 0\<rparr>"

definition new_call :: "call_pc \<Rightarrow> computer_request \<Rightarrow> call" where
  "new_call pc r = \<lparr>cl_pc = pc, cl_request = r, cl_cancelled = False, cl_engine = [], cl_choice = None, cl_key = [],
     cl_target = zero_target, cl_source = [], cl_snapshot = [], cl_category = [], cl_identity = zero_identity, cl_element = [],
     cl_args = None, cl_permit = zero_permit, cl_id = [], cl_value = Inr JNull, cl_admitted = False, cl_result = Pending_result\<rparr>"

subsection \<open>Whose turn it is\<close>

definition capability_name :: "capability \<Rightarrow> string" where
  "capability_name c = (case c of Browser \<Rightarrow> ''browser'' | Computer \<Rightarrow> ''computer'' | AUV \<Rightarrow> ''computer-auv'')"

definition revocationKey :: "capability \<Rightarrow> 64 word \<Rightarrow> string \<Rightarrow> string \<Rightarrow> string" where
  "revocationKey c epoch session life = capability_name c @ ''/'' @ show_nat (unat epoch) @ ''/'' @ session @ ''/'' @ life"

definition key :: "computer_request \<Rightarrow> string" where
  "key r = capability_name (rq_Capability r) @ ''/'' @ rq_Operation r @ ''/'' @ rq_Session r @ ''/'' @ rq_Lifetime r"

definition engine_slot :: "gateway \<Rightarrow> capability" where
  "engine_slot g = (if gw_Engine g = ''auv'' then AUV else Computer)"

definition computerValidLocked :: "gateway \<Rightarrow> computer_request \<Rightarrow> bool" where
  "computerValidLocked g r \<longleftrightarrow>
    (case gw_sessions g (rq_Session r) of None \<Rightarrow> True
     | Some c \<Rightarrow> \<not> (cv_stopped c \<or> cv_life c \<noteq> rq_Lifetime r \<or> cv_turn c \<noteq> rq_Turn r)) \<and>
    rq_Capability r = Computer \<and> gw_CanChange g \<and> gw_Connected g \<and> rq_Generation r = gw_Generation g \<and> gw_Enabled g \<and>
    gw_Dependency g (engine_slot g) = ''prepared'' \<and> gw_Epoch g (engine_slot g) = rq_Epoch r \<and> rq_Session r \<noteq> [] \<and> rq_Lifetime r \<noteq> [] \<and>
    revocationKey (rq_Capability r) (rq_Epoch r) (rq_Session r) (rq_Lifetime r) \<notin> gw_stopped g"

definition sameComputerOwner :: "computer_request \<Rightarrow> computer_request \<Rightarrow> bool" where
  "sameComputerOwner a b \<longleftrightarrow>
    rq_Generation a = rq_Generation b \<and> rq_Session a = rq_Session b \<and> rq_Lifetime a = rq_Lifetime b"

definition computerGrantKey :: "net_env \<Rightarrow> computer_request \<Rightarrow> computer_target \<Rightarrow> string" where
  "computerGrantKey env r t = rq_Session r @ ''/'' @ rq_Lifetime r @ ''/'' @ ToLower env (ct_Identity t)"

text \<open>How far the closing of an engine has come; an engine that is not known counts as open.\<close>

definition closed_with :: "gateway \<Rightarrow> nat \<Rightarrow> computer_error option option" where
  "closed_with g e = (case gw_engines g e of None \<Rightarrow> None | Some en \<Rightarrow> en_closed en)"

definition lease_closed :: "gateway \<Rightarrow> computer_error option option" where
  "lease_closed g = (case gw_lease g of None \<Rightarrow> None | Some e \<Rightarrow> closed_with g e)"

definition revoked_engine :: "gateway \<Rightarrow> nat \<Rightarrow> bool" where
  "revoked_engine g e = (case gw_engines g e of None \<Rightarrow> False | Some en \<Rightarrow> en_revoked en)"

text \<open>Taking the desktop.  \<open>acquired\<close> is the answer of the desktop lease: an error, no lease, or a lease.\<close>

definition take_desktop :: "gateway_config \<Rightarrow> computer_error + bool \<Rightarrow> computer_request \<Rightarrow> gateway \<Rightarrow> gateway \<times> computer_error option" where
  "take_desktop cf acquired r g =
    (let owned = g\<lparr>gw_run := True, gw_owner := r,
         gw_use := Some \<lparr>us_Session = rq_Session r, us_Lifetime = rq_Lifetime r, us_Title = rq_Title r, us_Engine = gw_Engine g,
           us_Target = None, us_Stopping = False, us_Running = False, us_Action = []\<rparr>\<rparr>
     in if \<not> gc_acquire cf then (owned, None)
        else (case acquired of Inl e \<Rightarrow> (g, Some e)
          | Inr False \<Rightarrow> (g, Some DesktopLeaseUnavailable)
          | Inr True \<Rightarrow> (owned\<lparr>gw_desktop := Some (gw_next g), gw_next := Suc (gw_next g)\<rparr>, None)))"

definition forget_lease :: "gateway \<Rightarrow> gateway" where
  "forget_lease g = (if lease_closed g = Some None then g\<lparr>gw_owner := zero_request, gw_lease := None, gw_desktop := None\<rparr> else g)"

definition claimComputerLocked ::
    "gateway_config \<Rightarrow> computer_error + bool \<Rightarrow> computer_request \<Rightarrow> gateway \<Rightarrow> gateway \<times> computer_error option" where
  "claimComputerLocked cf acquired r g =
    (if gw_failure g \<noteq> None then (g, Some CleanupFailed)
     else if \<not> computerValidLocked g r then (g, Some Revoked)
     else if (case lease_closed g of Some (Some e) \<Rightarrow> True | _ \<Rightarrow> False) then (g, Some CleanupFailed)
     else let g = forget_lease g in
       if (case gw_lease g of None \<Rightarrow> False | Some e \<Rightarrow> revoked_engine g e) then (g, Some Busy)
       else if rq_Session (gw_owner g) \<noteq> [] \<and> \<not> sameComputerOwner (gw_owner g) r then (g, Some Busy)
       else if rq_Session (gw_owner g) = [] then take_desktop cf acquired r g
       else (g, None))"

subsection \<open>Taking back\<close>

definition set_call :: "nat \<Rightarrow> call \<Rightarrow> gateway \<Rightarrow> gateway" where
  "set_call c k g = g\<lparr>gw_calls := (gw_calls g)(c := Some k)\<rparr>"

text \<open>The channel of a consent holds one answer; a second one is dropped.\<close>

definition offer :: "bool \<Rightarrow> nat \<Rightarrow> gateway \<Rightarrow> gateway" where
  "offer b c g = (case gw_calls g c of None \<Rightarrow> g
     | Some k \<Rightarrow> if cl_choice k = None then set_call c (k\<lparr>cl_choice := Some b\<rparr>) g else g)"

definition refuse_pending :: "(computer_pending \<Rightarrow> bool) \<Rightarrow> gateway \<Rightarrow> gateway" where
  "refuse_pending P g =
    (let hit = filter (\<lambda>(i, p). P p) (gw_pending g)
     in (fold (\<lambda>(i, p). offer False (pd_call p)) hit g)\<lparr>gw_pending := filter (\<lambda>(i, p). \<not> P p) (gw_pending g)\<rparr>)"

definition in_scope :: "string \<Rightarrow> computer_request \<Rightarrow> bool" where
  "in_scope scope r \<longleftrightarrow> scope = [] \<or> rq_Session r @ ''/'' @ rq_Lifetime r = scope"

definition scope_session :: "string \<Rightarrow> string" where
  "scope_session scope = takeWhile (\<lambda>c. c \<noteq> CHR ''/'') scope"

definition drop_permits :: "(computer_permit \<Rightarrow> bool) \<Rightarrow> gateway \<Rightarrow> gateway" where
  "drop_permits P g = g\<lparr>gw_permits := filter (\<lambda>(i, p). \<not> P p) (gw_permits g)\<rparr>"

text \<open>The end of the owner's use: what it was granted is forgotten, and the desktop is released at once when no
  engine holds it.\<close>

definition release_owner :: "computer_error option \<Rightarrow> gateway \<Rightarrow> gateway" where
  "release_owner released g =
    (let g = g\<lparr>gw_run := False, gw_grants := {}, gw_denied := {}, gw_observation := None,
         gw_use := map_option (\<lambda>u. u\<lparr>us_Running := False, us_Stopping := True\<rparr>) (gw_use g)\<rparr>
     in if gw_lease g \<noteq> None then g
        else if gw_desktop g \<noteq> None \<and> released \<noteq> None then g\<lparr>gw_failure := released\<rparr>
        else g\<lparr>gw_desktop := None, gw_owner := zero_request, gw_use := None\<rparr>)"

definition revokeComputerLocked :: "computer_error option \<Rightarrow> string \<Rightarrow> gateway \<Rightarrow> gateway" where
  "revokeComputerLocked released scope g =
    (let g = refuse_pending (\<lambda>p. scope = [] \<or> pd_session p = scope_session scope) (drop_permits (\<lambda>p. in_scope scope (pm_request p)) g)
     in if in_scope scope (gw_owner g) then release_owner released g else g)"

definition revoke_engine :: "nat \<Rightarrow> gateway \<Rightarrow> gateway" where
  "revoke_engine e g = (case gw_engines g e of None \<Rightarrow> g
     | Some en \<Rightarrow> g\<lparr>gw_engines := (gw_engines g)(e \<mapsto> en\<lparr>en_revoked := True, en_closing := True\<rparr>)\<rparr>)"

text \<open>\<open>revokeLocked\<close> for computer use; the caller closes the engines it returns.\<close>

definition revokeLocked :: "computer_error option \<Rightarrow> string \<Rightarrow> gateway \<Rightarrow> gateway \<times> nat list" where
  "revokeLocked released scope g =
    (let g = revokeComputerLocked released scope g;
         hit = (\<lambda>(k, e). has_prefix k ''computer/'' \<and> (scope = [] \<or> has_suffix k (''/'' @ scope)));
         old = map snd (filter hit (gw_entries g))
     in ((fold revoke_engine old g)\<lparr>gw_entries := filter (\<lambda>x. \<not> hit x) (gw_entries g)\<rparr>, old))"

definition finishComputerEntries :: "nat list \<Rightarrow> gateway \<Rightarrow> gateway" where
  "finishComputerEntries es g =
    (case gw_lease g of None \<Rightarrow> g
     | Some e \<Rightarrow>
       if e \<notin> set es then g
       else (case closed_with g e of
           Some (Some err) \<Rightarrow> g\<lparr>gw_failure := Some err, gw_use := map_option (\<lambda>u. u\<lparr>us_Stopping := False\<rparr>) (gw_use g)\<rparr>
         | _ \<Rightarrow> g\<lparr>gw_use := None\<rparr>))"

subsection \<open>Steps of a call\<close>

record step_input =
  si_now :: nat
  si_id :: string
  si_ctx :: bool
  si_inspect :: "computer_error + computer_target"
  si_probe :: "computer_error + element_identity"
  si_acquire :: "computer_error + bool"
  si_released :: "computer_error option"
  si_answer :: "computer_error + json"
  si_terminal :: bool
  si_chosen :: bool
  si_saved :: "computer_error option"
  si_ready :: "capability \<Rightarrow> bool option"
  si_windows :: "32 word \<Rightarrow> 64 word \<Rightarrow> computer_error + computer_target"

definition goto :: "nat \<Rightarrow> call \<Rightarrow> call_pc \<Rightarrow> gateway \<Rightarrow> gateway" where
  "goto c k pc g = set_call c (k\<lparr>cl_pc := pc\<rparr>) g"

definition conclude :: "call_pc \<Rightarrow> nat \<Rightarrow> call \<Rightarrow> call_result \<Rightarrow> gateway \<Rightarrow> gateway" where
  "conclude pc c k x g = set_call c (k\<lparr>cl_pc := pc, cl_result := x\<rparr>) g"

text \<open>An error of an authorization before and after the desktop was claimed, and of an execution that holds
  the gateway's token.\<close>

definition refuse :: "call_pc \<Rightarrow> nat \<Rightarrow> call \<Rightarrow> computer_error \<Rightarrow> gateway \<Rightarrow> gateway" where
  "refuse pc c k e g = conclude pc c k (Answer (Inl e)) g"

definition owns_desktop :: "gateway \<Rightarrow> computer_request \<Rightarrow> bool" where
  "owns_desktop g r \<longleftrightarrow> computerValidLocked g r \<and> sameComputerOwner (gw_owner g) r"

definition prune :: "nat \<Rightarrow> gateway \<Rightarrow> gateway" where
  "prune now g = drop_permits (\<lambda>p. pm_expires p < now) g"

text \<open>A random text that was drawn before cannot be drawn again.\<close>

definition draw :: "string \<Rightarrow> gateway \<Rightarrow> gateway" where
  "draw i g = g\<lparr>gw_drawn := insert i (gw_drawn g)\<rparr>"

definition issue :: "string \<Rightarrow> computer_permit \<Rightarrow> gateway \<Rightarrow> gateway" where
  "issue i p g = (draw i g)\<lparr>gw_permits := (i, p) # gw_permits g, gw_issued := (i, p) # gw_issued g\<rparr>"

definition auth_start :: "nat \<Rightarrow> call \<Rightarrow> gateway \<Rightarrow> gateway" where
  "auth_start c k g =
    (if cl_cancelled k then refuse Finished c k ContextDone g
     else (case validateComputerArguments (cl_request k) (gw_Engine g) of
         Some e \<Rightarrow> refuse Finished c k e g
       | None \<Rightarrow> if \<not> computerAllowed (rq_Tool (cl_request k)) then refuse Finished c k ToolUnavailable g
           else goto c k AuthEnter g))"

definition permit_release :: "step_input \<Rightarrow> nat \<Rightarrow> call \<Rightarrow> gateway \<Rightarrow> gateway" where
  "permit_release x c k g =
    (let r = cl_request k in
     if \<not> computerValidLocked g r then refuse Finished c k Revoked g
     else if rq_Session (gw_owner g) \<noteq> [] \<and> \<not> sameComputerOwner (gw_owner g) r then refuse Finished c k Busy g
     else let g = prune (si_now x) g in
       if 128 \<le> length (gw_permits g) then refuse Finished c k Busy g
       else if si_id x \<in> gw_drawn g then g
       else conclude Finished c k (Decision ''allow'' (si_id x) (rq_Epoch r) [])
         (issue (si_id x) (zero_permit\<lparr>pm_request := r\<lparr>rq_Arguments := cloneArguments (rq_Arguments r)\<rparr>, pm_expires := si_now x + 120\<rparr>) g))"

definition auth_enter :: "gateway_config \<Rightarrow> step_input \<Rightarrow> nat \<Rightarrow> call \<Rightarrow> gateway \<Rightarrow> gateway" where
  "auth_enter cf x c k g =
    (if rq_Tool (cl_request k) = ''computer_release'' then permit_release x c k g
     else (case claimComputerLocked cf (si_acquire x) (cl_request k) g of
         (g, Some e) \<Rightarrow> refuse Finished c k e g
       | (g, None) \<Rightarrow> goto c k AuthSerial g))"

text \<open>Waiting for the token of the gateway, or for the end of the call's context.\<close>

definition wait_serial :: "step_input \<Rightarrow> call_pc \<Rightarrow> call_pc \<Rightarrow> nat \<Rightarrow> call \<Rightarrow> gateway \<Rightarrow> gateway" where
  "wait_serial x held done c k g =
    (if si_ctx x then (if cl_cancelled k then refuse done c k ContextDone g else g)
     else if gw_serial g = None then goto c k held (g\<lparr>gw_serial := Some c\<rparr>) else g)"

definition auth_inspect :: "gateway_config \<Rightarrow> step_input \<Rightarrow> nat \<Rightarrow> call \<Rightarrow> gateway \<Rightarrow> gateway" where
  "auth_inspect cf x c k g =
    (let r = cl_request k in
     if rq_Tool r = ''computer_windows'' then goto c k AuthGrant g
     else (case (case rq_Arguments r of None \<Rightarrow> None | Some args \<Rightarrow> computerTargetArgs args) of
         None \<Rightarrow> refuse AuthLeave c k ExactWindowRequired g
       | Some _ \<Rightarrow>
         (case inspectComputerTarget (gc_env cf) (gw_policy g) (si_inspect x) of
            Inl e \<Rightarrow> refuse AuthLeave c k e g
          | Inr t \<Rightarrow> (case level_check (rq_Tool r) t of
               Some e \<Rightarrow> refuse AuthLeave c k e g
             | None \<Rightarrow> set_call c (k\<lparr>cl_pc := AuthConsent, cl_target := t\<rparr>) g))))"

text \<open>The consent of the user to an application.\<close>

definition consent_key :: "gateway_config \<Rightarrow> call \<Rightarrow> gateway \<Rightarrow> string" where
  "consent_key cf k g =
    computerGrantKey (gc_env cf) (cl_request k) (cl_target k) @
      (if cp_GrantLasts (gw_policy g) = ''turn'' then ''/'' @ rq_Turn (cl_request k) else [])"

definition app_listed :: "computer_policy \<Rightarrow> computer_target \<Rightarrow> bool" where
  "app_listed p t \<longleftrightarrow> list_ex (\<lambda>a. app_ID a = ct_Identity t) (Apps p)"

definition auth_consent :: "gateway_config \<Rightarrow> step_input \<Rightarrow> nat \<Rightarrow> call \<Rightarrow> gateway \<Rightarrow> gateway" where
  "auth_consent cf x c k g =
    (let gk = consent_key cf k g; p = gw_policy g in
     if gk \<in> gw_grants g then goto c k AuthObserve g
     else if app_listed p (cl_target k) \<or> NewApps p = ''allow'' \<and> \<not> ct_Warning (cl_target k)
     then goto c k AuthObserve (g\<lparr>gw_grants := insert gk (gw_grants g)\<rparr>)
     else if gk @ ''/'' @ rq_Turn (cl_request k) \<in> gw_denied g then refuse AuthLeave c k AppDenied g
     else if si_id x \<in> gw_drawn g then g
     else set_call c (k\<lparr>cl_pc := AuthPending (si_id x), cl_key := gk, cl_choice := None\<rparr>)
       ((draw (si_id x) g)\<lparr>gw_pending := (si_id x, \<lparr>pd_call = c, pd_session = rq_Session (cl_request k), pd_target = cl_target k,
          pd_expires = si_now x + 120\<rparr>) # gw_pending g\<rparr>))"

text \<open>The end of the wait: an answer, the end of the context, or the end of the two minutes.\<close>

definition auth_pending :: "step_input \<Rightarrow> string \<Rightarrow> nat \<Rightarrow> call \<Rightarrow> gateway \<Rightarrow> gateway" where
  "auth_pending x i c k g =
    (if si_chosen x \<and> cl_choice k = None \<or> si_ctx x \<and> \<not> si_chosen x \<and> \<not> cl_cancelled k then g
     else let allowed = (si_chosen x \<and> cl_choice k = Some True);
              g = g\<lparr>gw_pending := AList.delete i (gw_pending g)\<rparr>
       in if \<not> owns_desktop g (cl_request k) then refuse AuthLeave c k Revoked g
          else if cl_cancelled k then refuse AuthLeave c k ContextDone g
          else if allowed then goto c k AuthObserve (g\<lparr>gw_grants := insert (cl_key k) (gw_grants g)\<rparr>)
          else refuse AuthLeave c k AppDenied (g\<lparr>gw_denied := insert (cl_key k @ ''/'' @ rq_Turn (cl_request k)) (gw_denied g)\<rparr>))"

text \<open>The observation an action refers to.\<close>

definition source_element :: "computer_request \<Rightarrow> observation \<Rightarrow> json_object option" where
  "source_element r ob = find (\<lambda>v. value_of (map_of v ''element_index'') = value_of (arg r ''element_index'')) (ob_elements ob)"

definition observation_error :: "step_input \<Rightarrow> call \<Rightarrow> gateway \<Rightarrow> computer_error + observation" where
  "observation_error x k g =
    (case gw_observation g of None \<Rightarrow> Inl FreshObservationRequired
     | Some ob \<Rightarrow>
       if ob_target ob \<noteq> cl_target k \<or> si_now x - ob_at ob > 120 then Inl FreshObservationRequired
       else let snapshot = text_of (arg (cl_request k) ''snapshot_id'') in
         if snapshot = [] \<or> snapshot \<noteq> ob_snapshot ob then Inl StaleObservation else Inr ob)"

definition auth_observe :: "gateway_config \<Rightarrow> step_input \<Rightarrow> nat \<Rightarrow> call \<Rightarrow> gateway \<Rightarrow> gateway" where
  "auth_observe cf x c k g =
    (let r = cl_request k in
     if rq_Tool r = ''computer_observe'' then goto c k AuthRecheck g
     else (case observation_error x k g of Inl e \<Rightarrow> refuse AuthLeave c k e g
       | Inr ob \<Rightarrow>
         (case computerCategory (gc_env cf) (gc_keywords cf) r (cl_target k) ob of Inl e \<Rightarrow> refuse AuthLeave c k e g
          | Inr category \<Rightarrow>
            let k = k\<lparr>cl_category := category, cl_snapshot := ob_snapshot ob\<rparr> in
            if \<not> enters_text (rq_Tool r) then goto c k AuthRecheck g
            else if \<not> gc_probe cf then refuse AuthLeave c k ElementVerificationUnavailable g
            else (case source_element r ob of None \<Rightarrow> refuse AuthLeave c k ElementNotFound g
              | Some source \<Rightarrow> set_call c (k\<lparr>cl_pc := OwnEnter Refresh, cl_source := source\<rparr>) g))))"

text \<open>The end of \<open>refreshComputerElement\<close>.\<close>

definition refresh_done :: "step_input \<Rightarrow> nat \<Rightarrow> call \<Rightarrow> gateway \<Rightarrow> gateway" where
  "refresh_done x c k g =
    (case cl_value k of Inl e \<Rightarrow> refuse AuthLeave c k e g
     | Inr value \<Rightarrow>
       (case refreshed (si_now x) (cl_target k) (cl_source k) value of Inl e \<Rightarrow> refuse AuthLeave c k e g
        | Inr (ob, el) \<Rightarrow>
            if \<not> computerValidLocked g (cl_request k) then refuse AuthLeave c k Revoked g
            else set_call c (k\<lparr>cl_pc := AuthProbe, cl_snapshot := ob_snapshot ob, cl_element := el,
                cl_args := refreshed_args (cl_request k) ob el\<rparr>) (g\<lparr>gw_observation := Some ob\<rparr>)))"

text \<open>\<open>probeComputerElement\<close>: the probe runs outside the mutex.  An error text that says the helper could not be
  cleaned up poisons the desktop.\<close>

definition begin_probe :: "call_pc \<Rightarrow> call_pc \<Rightarrow> nat \<Rightarrow> call \<Rightarrow> gateway \<Rightarrow> gateway" where
  "begin_probe probing leave c k g =
    (if \<not> gw_run g then refuse leave c k Revoked g else goto c k probing (g\<lparr>gw_probes := insert c (gw_probes g)\<rparr>))"

definition helper_failure :: "computer_error \<Rightarrow> bool" where
  "helper_failure e = (case e of Adapter m \<Rightarrow> contains m ''COMPUTER_HELPER_CLEANUP_FAILED'' | _ \<Rightarrow> False)"

definition end_probe :: "nat \<Rightarrow> computer_error option \<Rightarrow> gateway \<Rightarrow> gateway" where
  "end_probe c e g =
    (let g = g\<lparr>gw_probes := gw_probes g - {c}\<rparr>
     in (case e of None \<Rightarrow> g | Some e \<Rightarrow> if helper_failure e then g\<lparr>gw_failure := Some e\<rparr> else g))"

definition auth_probing :: "step_input \<Rightarrow> nat \<Rightarrow> call \<Rightarrow> gateway \<Rightarrow> gateway" where
  "auth_probing x c k g =
    (case si_probe x of Inl e \<Rightarrow> refuse AuthLeave c k e (end_probe c (Some e) g)
     | Inr i \<Rightarrow>
         let g = end_probe c None g in
         if ei_Password i then refuse AuthLeave c k ComputerSecretInputBlocked g
         else set_call c (k\<lparr>cl_pc := AuthRecheck, cl_identity := i\<rparr>) g)"

definition auth_recheck :: "gateway_config \<Rightarrow> step_input \<Rightarrow> nat \<Rightarrow> call \<Rightarrow> gateway \<Rightarrow> gateway" where
  "auth_recheck cf x c k g =
    (case inspectComputerTarget (gc_env cf) (gw_policy g) (si_inspect x) of
       Inl e \<Rightarrow> refuse AuthLeave c k TargetChanged g
     | Inr t \<Rightarrow> if t \<noteq> cl_target k then refuse AuthLeave c k TargetChanged g else goto c k AuthGrant g)"

definition risk_reason :: "call \<Rightarrow> string" where
  "risk_reason k =
    cl_category k @ '': '' @ trim_prefix (rq_Tool (cl_request k)) ''computer_'' @ '' ('' @ ct_App (cl_target k) @ '')''"

definition granted_permit :: "step_input \<Rightarrow> call \<Rightarrow> computer_permit" where
  "granted_permit x k =
    \<lparr>pm_request = (cl_request k)\<lparr>rq_Arguments := cloneArguments (rq_Arguments (cl_request k))\<rparr>, pm_target = cl_target k,
     pm_snapshot = cl_snapshot k, pm_identity = cl_identity k, pm_element = cl_element k, pm_args = cl_args k,
     pm_expires = si_now x + 300\<rparr>"

definition auth_grant :: "step_input \<Rightarrow> nat \<Rightarrow> call \<Rightarrow> gateway \<Rightarrow> gateway" where
  "auth_grant x c k g =
    (if \<not> owns_desktop g (cl_request k) then refuse AuthLeave c k Revoked g
     else let g = prune (si_now x) g; verdict = look (cp_Confirm (gw_policy g)) (cl_category k) in
       if 128 \<le> length (gw_permits g) then refuse AuthLeave c k Busy g
       else if si_id x \<in> gw_drawn g then g
       else if cl_category k \<noteq> [] \<and> verdict = ''block''
       then refuse AuthLeave c k (ActionBlocked (cl_category k)) (draw (si_id x) g)
       else let ask = (cl_category k \<noteq> [] \<and> verdict \<noteq> ''allow'') in
         conclude AuthLeave c (k\<lparr>cl_admitted := True\<rparr>)
           (Decision (if ask then ''ask'' else ''allow'') (si_id x) (rq_Epoch (cl_request k)) (if ask then risk_reason k else []))
           (issue (si_id x) (granted_permit x k) g))"

text \<open>The deferred functions: the token is given back, then a call that was not admitted gives up a desktop no
  engine uses.\<close>

definition auth_leave :: "nat \<Rightarrow> call \<Rightarrow> gateway \<Rightarrow> gateway" where
  "auth_leave c k g = goto c k (if cl_admitted k then Finished else AuthCleanup) (g\<lparr>gw_serial := None\<rparr>)"

definition auth_cleanup :: "step_input \<Rightarrow> nat \<Rightarrow> call \<Rightarrow> gateway \<Rightarrow> gateway" where
  "auth_cleanup x c k g =
    goto c k Finished
      (if sameComputerOwner (gw_owner g) (cl_request k) \<and> gw_lease g = None
       then g\<lparr>gw_run := False,
          gw_failure := (if gw_desktop g \<noteq> None \<and> si_released x \<noteq> None then si_released x else gw_failure g),
          gw_desktop := None, gw_owner := zero_request, gw_use := None\<rparr>
       else g)"

subsection \<open>Running an engine\<close>

text \<open>\<open>executeOwned\<close>.  Every caller holds the gateway's token, so nobody else holds the engine's own mutex.\<close>

definition own_result :: "purpose \<Rightarrow> nat \<Rightarrow> call \<Rightarrow> computer_error + json \<Rightarrow> gateway \<Rightarrow> gateway" where
  "own_result p c k v g = set_call c (k\<lparr>cl_pc := OwnDone p, cl_value := v\<rparr>) g"

definition new_engine :: "computer_request \<Rightarrow> gateway \<Rightarrow> gateway" where
  "new_engine r g =
    (let e = gw_next g
     in g\<lparr>gw_next := Suc e, gw_lease := Some e, gw_entries := (key r, e) # gw_entries g,
          gw_engines := (gw_engines g)(e \<mapsto> \<lparr>en_key = key r, en_ready = None, en_revoked = False, en_closing = False,
             en_closed = None, en_desktop = gw_desktop g\<rparr>)\<rparr>)"

definition own_enter :: "purpose \<Rightarrow> nat \<Rightarrow> call \<Rightarrow> gateway \<Rightarrow> gateway" where
  "own_enter p c k g =
    (let r = cl_request k in
     if cl_cancelled k then own_result p c k (Inl ContextDone) g
     else if \<not> computerValidLocked g r then own_result p c k (Inl Revoked) g
     else (case map_of (gw_entries g) (key r) of
         Some e \<Rightarrow> goto c k (OwnReady p e) g
       | None \<Rightarrow> goto c k (OwnReady p (gw_next g)) (new_engine r g)))"

definition scope_of :: "computer_request \<Rightarrow> string" where
  "scope_of r = rq_Session r @ ''/'' @ rq_Lifetime r"

definition failOwnedAutomationEntry ::
    "step_input \<Rightarrow> purpose \<Rightarrow> nat \<Rightarrow> nat \<Rightarrow> call \<Rightarrow> computer_error \<Rightarrow> gateway \<Rightarrow> gateway" where
  "failOwnedAutomationEntry x p e c k err g =
    (if map_of (gw_entries g) (key (cl_request k)) \<noteq> Some e then own_result p c k (Inl err) g
     else (case revokeLocked (si_released x) (scope_of (cl_request k)) g of
         (g, old) \<Rightarrow> goto c k (Releasing old (ThenFailed p err)) g))"

definition usable :: "gateway \<Rightarrow> computer_request \<Rightarrow> nat \<Rightarrow> bool" where
  "usable g r e \<longleftrightarrow> computerValidLocked g r \<and> \<not> revoked_engine g e"

text \<open>The engine is told to carry out the action.\<close>

definition log_action :: "purpose \<Rightarrow> nat \<Rightarrow> call \<Rightarrow> gateway \<Rightarrow> gateway" where
  "log_action p c k g =
    (case p of Refresh \<Rightarrow> g
     | Action \<Rightarrow> g\<lparr>gw_log := (c, cl_id k, cl_request k, pm_target (cl_permit k)) # gw_log g\<rparr>)"

definition own_ready :: "step_input \<Rightarrow> purpose \<Rightarrow> nat \<Rightarrow> nat \<Rightarrow> call \<Rightarrow> gateway \<Rightarrow> gateway" where
  "own_ready x p e c k g =
    (if si_ctx x then (if cl_cancelled k then own_result p c k (Inl ContextDone) g else g)
     else (case gw_engines g e of None \<Rightarrow> g
       | Some en \<Rightarrow>
         (case en_ready en of None \<Rightarrow> g
          | Some ready \<Rightarrow>
            if cl_cancelled k then own_result p c k (Inl ContextDone) g
            else if \<not> usable g (cl_request k) e then own_result p c k (Inl Revoked) g
            else (case ready of
                Inl err \<Rightarrow> failOwnedAutomationEntry x p e c k err g
              | Inr False \<Rightarrow> own_result p c k (Inl Unavailable) g
              | Inr True \<Rightarrow> goto c k (OwnRun p e) (log_action p c k g)))))"

definition own_run :: "step_input \<Rightarrow> purpose \<Rightarrow> nat \<Rightarrow> nat \<Rightarrow> call \<Rightarrow> gateway \<Rightarrow> gateway" where
  "own_run x p e c k g =
    (case si_answer x of
       Inl err \<Rightarrow>
         if si_terminal x \<and> map_of (gw_entries g) (key (cl_request k)) = Some e
         then failOwnedAutomationEntry x p e c k err g
         else own_result p c k (Inl (if usable g (cl_request k) e then err else Revoked)) g
     | Inr v \<Rightarrow> own_result p c k (if usable g (cl_request k) e then Inr v else Inl Revoked) g)"

text \<open>The factory returns; a failed one has its engine closed.\<close>

definition engine_ready :: "nat \<Rightarrow> computer_error + bool \<Rightarrow> gateway \<Rightarrow> gateway" where
  "engine_ready e res g =
    (case gw_engines g e of None \<Rightarrow> g
     | Some en \<Rightarrow> if en_ready en \<noteq> None then g
         else g\<lparr>gw_engines := (gw_engines g)(e \<mapsto> en\<lparr>en_ready := Some res,
             en_closing := (en_closing en \<or> (case res of Inl _ \<Rightarrow> True | Inr _ \<Rightarrow> False))\<rparr>)\<rparr>)"

text \<open>\<open>closeEntry\<close>: after the resource is closed and the probes have ended, the desktop is released, unless
  something failed before.\<close>

definition closeEntry :: "nat \<Rightarrow> computer_error option \<Rightarrow> computer_error option \<Rightarrow> gateway \<Rightarrow> gateway" where
  "closeEntry e closeErr released g =
    (case gw_engines g e of None \<Rightarrow> g
     | Some en \<Rightarrow>
       if \<not> en_closing en \<or> en_ready en = None \<or> en_closed en \<noteq> None \<or> gw_probes g \<noteq> {} then g
       else let err1 = (if en_ready en = Some (Inr True) then closeErr else None);
                err2 = (if err1 \<noteq> None then err1 else gw_failure g);
                err3 = (if err2 = None \<and> en_desktop en \<noteq> None then released else err2)
         in g\<lparr>gw_engines := (gw_engines g)(e \<mapsto> en\<lparr>en_closed := Some err3\<rparr>)\<rparr>)"

subsection \<open>Executing a permit\<close>

definition comparable :: "computer_request \<Rightarrow> computer_request" where
  "comparable r = r\<lparr>rq_Permit := [], rq_Operation := ''computer''\<rparr>"

definition exec_take :: "step_input \<Rightarrow> nat \<Rightarrow> call \<Rightarrow> gateway \<Rightarrow> gateway" where
  "exec_take x c k g =
    (let r = cl_request k in
     if \<not> computerValidLocked g r then refuse Finished c k Revoked g
     else (case map_of (gw_permits g) (rq_Permit r) of
         None \<Rightarrow> refuse Finished c k AuthorizationRequired g
       | Some p \<Rightarrow>
           let g = g\<lparr>gw_permits := AList.delete (rq_Permit r) (gw_permits g), gw_spent := rq_Permit r # gw_spent g\<rparr> in
           if pm_expires p < si_now x \<or> comparable r \<noteq> comparable (pm_request p)
           then refuse Finished c k AuthorizationRequired g
           else set_call c (k\<lparr>cl_pc := ExecSerial, cl_engine := gw_Engine g, cl_permit := p, cl_id := rq_Permit r\<rparr>) g))"

definition exec_held :: "string \<Rightarrow> call_pc" where
  "exec_held tool =
    (if tool = ''computer_release'' then ExecRelease else if tool = ''computer_windows'' then ExecProbe else ExecInspect)"

definition released_text :: json where
  "released_text = JObj [(''content'', JArr [JObj [(''text'', JStr ''Computer resources released.''), (''type'', JStr ''text'')]])]"

text \<open>\<open>ReleaseComputer\<close>, as a tool (holding the token) or on a message of the bridge.\<close>

definition after_release :: "bool \<Rightarrow> call_pc" where
  "after_release holding = (if holding then ExecLeave else Finished)"

definition ReleaseComputer :: "step_input \<Rightarrow> bool \<Rightarrow> nat \<Rightarrow> call \<Rightarrow> gateway \<Rightarrow> gateway" where
  "ReleaseComputer x holding c k g =
    (let r = cl_request k in
     if rq_Session (gw_owner g) = [] then conclude (after_release holding) c k (Answer (Inr released_text)) g
     else if rq_Session (gw_owner g) \<noteq> rq_Session r \<or> rq_Lifetime (gw_owner g) \<noteq> rq_Lifetime r
     then refuse (after_release holding) c k Revoked g
     else (case revokeLocked (si_released x) (scope_of r) g of
         (g, old) \<Rightarrow> goto c k (Releasing old (ThenReleased holding)) g))"

definition exec_inspect :: "gateway_config \<Rightarrow> step_input \<Rightarrow> nat \<Rightarrow> call \<Rightarrow> gateway \<Rightarrow> gateway" where
  "exec_inspect cf x c k g =
    (case inspectComputerTarget (gc_env cf) (gw_policy g) (si_inspect x) of
       Inl e \<Rightarrow> refuse ExecLeave c k TargetChanged g
     | Inr t \<Rightarrow> if t \<noteq> pm_target (cl_permit k) then refuse ExecLeave c k TargetChanged g else goto c k ExecObserved g)"

definition exec_observed :: "nat \<Rightarrow> call \<Rightarrow> gateway \<Rightarrow> gateway" where
  "exec_observed c k g =
    (if rq_Tool (cl_request k) = ''computer_observe'' \<or>
        (case gw_observation g of None \<Rightarrow> False
         | Some ob \<Rightarrow> ob_snapshot ob = pm_snapshot (cl_permit k) \<and> ob_target ob = pm_target (cl_permit k))
     then goto c k ExecProbe g else refuse ExecLeave c k StaleObservation g)"

definition exec_probe :: "nat \<Rightarrow> call \<Rightarrow> gateway \<Rightarrow> gateway" where
  "exec_probe c k g =
    (if ei_RuntimeID (pm_identity (cl_permit k)) \<noteq> [] then begin_probe ExecProbing ExecLeave c k g else goto c k ExecStart g)"

definition exec_probing :: "step_input \<Rightarrow> nat \<Rightarrow> call \<Rightarrow> gateway \<Rightarrow> gateway" where
  "exec_probing x c k g =
    (case si_probe x of Inl e \<Rightarrow> refuse ExecLeave c k e (end_probe c (Some e) g)
     | Inr i \<Rightarrow>
         let g = end_probe c None g in
         if ei_Password i then refuse ExecLeave c k ComputerSecretInputBlocked g
         else if ei_RuntimeID i \<noteq> ei_RuntimeID (pm_identity (cl_permit k)) then refuse ExecLeave c k ElementChanged g
         else goto c k ExecStart g)"

definition running_use :: "call \<Rightarrow> computer_use \<Rightarrow> computer_use" where
  "running_use k u =
    u\<lparr>us_Target := (if ct_PID (pm_target (cl_permit k)) \<noteq> 0 then Some (pm_target (cl_permit k)) else us_Target u),
      us_Running := True, us_Action := rq_Tool (cl_request k)\<rparr>"

definition exec_start :: "step_input \<Rightarrow> nat \<Rightarrow> call \<Rightarrow> gateway \<Rightarrow> gateway" where
  "exec_start x c k g =
    (let r = cl_request k; p = cl_permit k in
     if pm_expires p < si_now x \<or> \<not> owns_desktop g r then refuse ExecLeave c k Revoked g
     else set_call c (k\<lparr>cl_pc := OwnEnter Action, cl_args := Some (engine_args (cl_engine k) r (pm_snapshot p) (pm_args p))\<rparr>)
       (g\<lparr>gw_use := map_option (running_use k) (gw_use g),
          gw_observation := (if rq_Tool r \<noteq> ''computer_windows'' then None else gw_observation g)\<rparr>))"

text \<open>The windows the user's rules let be listed.\<close>

definition window_entry ::
    "gateway_config \<Rightarrow> computer_policy \<Rightarrow> (32 word \<Rightarrow> 64 word \<Rightarrow> computer_error + computer_target) \<Rightarrow> json_object \<Rightarrow> json option" where
  "window_entry cf pol inspect m =
    (case computerTargetArgs m of None \<Rightarrow> None
     | Some (pid, hwnd) \<Rightarrow>
       (case inspectComputerTarget (gc_env cf) pol (inspect pid hwnd) of Inl e \<Rightarrow> None
        | Inr t \<Rightarrow> if ct_Level t = ''blocked'' then None
            else Some (JObj [(''app'', JStr (ct_App t)), (''level'', JStr (ct_Level t)), (''pid'', JNum (of_nat (unat (ct_PID t)))),
               (''title'', JStr (ct_Title t)), (''window_id'', JNum (of_nat (unat (ct_WindowID t))))])))"

definition window_list :: "gateway_config \<Rightarrow> step_input \<Rightarrow> computer_policy \<Rightarrow> json_object \<Rightarrow> json" where
  "window_list cf x pol content =
    JObj [(''structuredContent'', JObj [(''windows'',
      JArr (List.map_filter (window_entry cf pol (si_windows x)) (objects (items_of (map_of content ''windows'')))))])]"

definition exec_content :: "gateway_config \<Rightarrow> step_input \<Rightarrow> nat \<Rightarrow> call \<Rightarrow> json \<Rightarrow> json_object \<Rightarrow> gateway \<Rightarrow> gateway" where
  "exec_content cf x c k value content g =
    (let r = cl_request k in
     if rq_Tool r = ''computer_windows'' then conclude ExecFinish c k (Answer (Inr (window_list cf x (gw_policy g) content))) g
     else if rq_Tool r = ''computer_observe'' then
       (if text_of (map_of content ''snapshot_id'') = [] then refuse ExecFinish c k SnapshotRequired g
        else conclude ExecFinish c k (Answer (Inr value))
          (if computerValidLocked g r
           then g\<lparr>gw_observation := Some (observed (si_now x) (pm_target (cl_permit k)) content)\<rparr> else g))
     else conclude ExecFinish c k (Answer (Inr value)) (g\<lparr>gw_observation := None\<rparr>))"

definition exec_after :: "gateway_config \<Rightarrow> step_input \<Rightarrow> nat \<Rightarrow> call \<Rightarrow> gateway \<Rightarrow> gateway" where
  "exec_after cf x c k g =
    (case cl_value k of Inl e \<Rightarrow> refuse ExecFinish c k e g
     | Inr value \<Rightarrow>
       (case computerContent value of
          Inl e \<Rightarrow> if rq_Tool (cl_request k) \<in> {''computer_windows'', ''computer_observe''} then refuse ExecFinish c k e g
            else conclude ExecFinish c k (Answer (Inr value)) g
        | Inr content \<Rightarrow> exec_content cf x c k value content g))"

definition exec_finish :: "nat \<Rightarrow> call \<Rightarrow> gateway \<Rightarrow> gateway" where
  "exec_finish c k g =
    goto c k ExecLeave
      (if sameComputerOwner (gw_owner g) (cl_request k)
       then g\<lparr>gw_use := map_option (\<lambda>u. u\<lparr>us_Running := False, us_Action := []\<rparr>) (gw_use g)\<rparr> else g)"

definition exec_leave :: "nat \<Rightarrow> call \<Rightarrow> gateway \<Rightarrow> gateway" where
  "exec_leave c k g = goto c k Finished (g\<lparr>gw_serial := None\<rparr>)"

subsection \<open>Turns, stops and answers\<close>

definition refuse_session :: "string \<Rightarrow> gateway \<Rightarrow> gateway" where
  "refuse_session session g =
    refuse_pending (\<lambda>p. pd_session p = session) (drop_permits (\<lambda>p. rq_Session (pm_request p) = session) g)"

definition ComputerTurn :: "step_input \<Rightarrow> nat \<Rightarrow> call \<Rightarrow> gateway \<Rightarrow> gateway" where
  "ComputerTurn x c k g =
    (let r = cl_request k; s = gw_sessions g (rq_Session r) in
     if rq_Generation r \<noteq> gw_Generation g \<or> rq_Session r = [] \<or> rq_Lifetime r = [] \<or> rq_Turn r = [] then refuse Finished c k Revoked g
     else if (case s of None \<Rightarrow> False | Some v \<Rightarrow> cv_turn v = rq_Turn r)
     then conclude Finished c k (Turned (cv_life (the s)) (rq_Turn r)) g
     else if (case s of None \<Rightarrow> False | Some v \<Rightarrow> cv_stopped v \<and> \<not> rq_UserTurn r) then refuse Finished c k Revoked g
     else let renew = (case s of None \<Rightarrow> False | Some v \<Rightarrow> cv_stopped v \<or> cv_life v \<noteq> rq_Lifetime r);
              life = (if renew then si_id x else rq_Lifetime r) in
       if renew \<and> si_id x \<in> gw_drawn g then g
       else let g = (if renew then draw (si_id x) g else g)\<lparr>
               gw_sessions := (gw_sessions g)(rq_Session r \<mapsto> \<lparr>cv_life = life, cv_turn = rq_Turn r, cv_stopped = False\<rparr>),
               gw_observation := (if rq_Session (gw_owner g) = rq_Session r \<and> rq_Lifetime (gw_owner g) = rq_Lifetime r
                 then None else gw_observation g)\<rparr>
         in conclude Finished c k (Turned life (rq_Turn r)) (refuse_session (rq_Session r) g))"

definition DiscardComputerPermit :: "nat \<Rightarrow> call \<Rightarrow> gateway \<Rightarrow> gateway" where
  "DiscardComputerPermit c k g =
    conclude Finished c k (Answer (Inr JNull)) (g\<lparr>gw_permits := AList.delete (rq_Permit (cl_request k)) (gw_permits g)\<rparr>)"

text \<open>A stopped conversation: it is marked, and its key is on the list of both engines.\<close>

definition mark_stopped :: "string \<Rightarrow> string \<Rightarrow> gateway \<Rightarrow> gateway" where
  "mark_stopped session life g =
    g\<lparr>gw_sessions := (case gw_sessions g session of None \<Rightarrow> gw_sessions g
         | Some v \<Rightarrow> if cv_life v = life then (gw_sessions g)(session \<mapsto> v\<lparr>cv_stopped := True\<rparr>) else gw_sessions g),
      gw_stopped := insert (revocationKey Computer (gw_Epoch g Computer) session life)
        (insert (revocationKey AUV (gw_Epoch g AUV) session life) (gw_stopped g))\<rparr>"

definition stop_conversation :: "step_input \<Rightarrow> aftermath \<Rightarrow> nat \<Rightarrow> call \<Rightarrow> gateway \<Rightarrow> gateway" where
  "stop_conversation x after c k g =
    (case revokeLocked (si_released x) (scope_of (cl_request k)) (mark_stopped (rq_Session (cl_request k)) (rq_Lifetime (cl_request k)) g) of
       (g, old) \<Rightarrow> goto c k (Releasing old after) g)"

definition StopComputerUse :: "step_input \<Rightarrow> nat \<Rightarrow> call \<Rightarrow> gateway \<Rightarrow> gateway" where
  "StopComputerUse x c k g = stop_conversation x ThenStopped c k g"

definition StopSession :: "step_input \<Rightarrow> nat \<Rightarrow> call \<Rightarrow> gateway \<Rightarrow> gateway" where
  "StopSession x c k g =
    (if rq_Generation (cl_request k) \<noteq> gw_Generation g then goto c k Finished g else stop_conversation x ThenNothing c k g)"

text \<open>The last section of \<open>StopComputerUse\<close>.\<close>

definition stop_report :: "nat \<Rightarrow> call \<Rightarrow> gateway \<Rightarrow> gateway" where
  "stop_report c k g =
    (let failure = (case lease_closed g of Some (Some e) \<Rightarrow> Some e | _ \<Rightarrow> gw_failure g) in
     case failure of None \<Rightarrow> conclude Finished c k (Answer (Inr JNull)) g
     | Some e \<Rightarrow> refuse Finished c k CleanupFailed (g\<lparr>gw_use := map_option (\<lambda>u. u\<lparr>us_Stopping := False\<rparr>) (gw_use g)\<rparr>))"

definition call_cancelled :: "gateway \<Rightarrow> nat \<Rightarrow> bool" where
  "call_cancelled g c = (case gw_calls g c of None \<Rightarrow> False | Some k \<Rightarrow> cl_cancelled k)"

definition open_pending :: "nat \<Rightarrow> string \<Rightarrow> gateway \<Rightarrow> computer_pending option" where
  "open_pending now i g =
    (case map_of (gw_pending g) i of None \<Rightarrow> None
     | Some p \<Rightarrow> if call_cancelled g (pd_call p) \<or> pd_expires p < now then None else Some p)"

text \<open>The policy that always allows the application a consent asks for.\<close>

definition allow_always :: "computer_target \<Rightarrow> computer_policy \<Rightarrow> computer_policy" where
  "allow_always t p0 =
    (let p = NormalizeComputerPolicy (Some p0) in
     p\<lparr>Apps := (if list_ex (\<lambda>a. app_ID a = ct_Identity t) (Apps p)
         then map (\<lambda>a. if app_ID a = ct_Identity t then a\<lparr>app_Level := ct_Level t\<rparr> else a) (Apps p)
         else Apps p @ [\<lparr>app_ID = ct_Identity t, app_Name = ct_App t, app_Level = ct_Level t\<rparr>])\<rparr>)"

definition release_op :: "nat \<Rightarrow> gateway \<Rightarrow> gateway" where
  "release_op c g = (if gw_op g = Some c then g\<lparr>gw_op := None\<rparr> else g)"

definition answer_start :: "step_input \<Rightarrow> string \<Rightarrow> string \<Rightarrow> nat \<Rightarrow> call \<Rightarrow> gateway \<Rightarrow> gateway" where
  "answer_start x i choice c k g =
    (if choice \<noteq> ''always'' then goto c k (AnswerChoose i choice) g
     else if gw_op g \<noteq> None then g
     else (case open_pending (si_now x) i g of
         None \<Rightarrow> refuse Finished c k Revoked g
       | Some p \<Rightarrow> goto c k (AnswerSave i (allow_always (pd_target p) (gw_policy g))) (g\<lparr>gw_op := Some c\<rparr>)))"

text \<open>The policy is saved by the settings manager, which refuses one that is not valid.\<close>

definition answer_save :: "step_input \<Rightarrow> string \<Rightarrow> computer_policy \<Rightarrow> nat \<Rightarrow> call \<Rightarrow> gateway \<Rightarrow> gateway" where
  "answer_save x i p c k g =
    (if si_saved x \<noteq> None then refuse Finished c k (the (si_saved x)) (release_op c g)
     else goto c k (AnswerChoose i ''allow'') (g\<lparr>gw_policy := p, gw_policyRevision := gw_policyRevision g + 1\<rparr>))"

definition answer_choose :: "step_input \<Rightarrow> string \<Rightarrow> string \<Rightarrow> nat \<Rightarrow> call \<Rightarrow> gateway \<Rightarrow> gateway" where
  "answer_choose x i choice c k g =
    (if cl_cancelled k then refuse Finished c k ContextDone (release_op c g)
     else (case open_pending (si_now x) i g of
         None \<Rightarrow> refuse Finished c k Revoked (release_op c g)
       | Some p \<Rightarrow>
           if choice \<noteq> ''allow'' \<and> choice \<noteq> ''deny'' then refuse Finished c k InvalidChoice (release_op c g)
           else if (case gw_calls g (pd_call p) of None \<Rightarrow> False | Some w \<Rightarrow> cl_choice w \<noteq> None)
           then refuse Finished c k Revoked (release_op c g)
           else conclude Finished c k (Answer (Inr JNull))
             (release_op c (offer (choice = ''allow'') (pd_call p) (g\<lparr>gw_pending := AList.delete i (gw_pending g)\<rparr>)))))"

subsection \<open>Operations of the settings page and of the Worker\<close>

definition bump :: "gateway \<Rightarrow> gateway" where
  "bump g = g\<lparr>gw_Epoch := (\<lambda>c. gw_Epoch g c + 1)\<rparr>"

text \<open>Both slots of computer use; the slot of the browser is left alone.\<close>

definition bump_computer :: "gateway \<Rightarrow> gateway" where
  "bump_computer g =
    g\<lparr>gw_Epoch := (gw_Epoch g)(Computer := gw_Epoch g Computer + 1, AUV := gw_Epoch g AUV + 1)\<rparr>"

definition probe_dependency :: "bool option \<Rightarrow> string \<Rightarrow> string" where
  "probe_dependency ready d =
    (if d = ''preparing'' then d
     else (case ready of Some b \<Rightarrow> if b then ''prepared'' else ''unprepared'' | None \<Rightarrow> if d = ''prepared'' then d else ''unprepared''))"

definition componentWorkLocked :: "nat \<Rightarrow> gateway \<Rightarrow> bool" where
  "componentWorkLocked now g =
    (gw_lease g \<noteq> None \<and> lease_closed g \<noteq> Some None \<or>
     gw_use g \<noteq> None \<or> gw_pending g \<noteq> [] \<or> gw_permits (prune now g) \<noteq> [] \<or>
     list_ex (\<lambda>(k, e). has_prefix k ''computer/'' \<or> has_prefix k ''computer-auv/'') (gw_entries g) \<or>
     gw_Dependency g Computer = ''preparing'' \<or> gw_Dependency g AUV = ''preparing'')"

text \<open>The check before the settings are saved; it ends the operation with an error or without work.\<close>

definition operation_check :: "step_input \<Rightarrow> operation \<Rightarrow> gateway \<Rightarrow> call_result option" where
  "operation_check x op g =
    (case op of
       SetEnabled b \<Rightarrow> if \<not> gw_CanChange g then Some (Answer (Inl (Adapter ''AUTOMATION_NOT_READY'')))
         else if gw_Enabled g = b then Some (Answer (Inr JNull)) else None
     | SetPolicy revision p \<Rightarrow> if gw_policyRevision g \<noteq> revision \<or> \<not> gw_CanChange g then Some (Answer (Inl Revoked)) else None
     | Worker generation ready profile \<Rightarrow>
         if gw_Generation g = generation \<and> gw_CanChange g = (ready \<and> profile) \<and> gw_Profile g = profile then Some (Answer (Inr JNull)) else None
     | Connection generation joined \<Rightarrow>
         if generation \<noteq> gw_Generation g \<or> gw_Connected g = joined then Some (Answer (Inr JNull)) else None
     | SelectEngine engine \<Rightarrow>
         if \<not> gw_CanChange g \<or> componentWorkLocked (si_now x) g then Some (Answer (Inl (Adapter ''AUTOMATION_UPDATE_BUSY''))) else None)"

text \<open>The section after it; the Boolean says whether everything is revoked.\<close>

definition worker_reset :: "step_input \<Rightarrow> string \<Rightarrow> bool \<Rightarrow> bool \<Rightarrow> gateway \<Rightarrow> gateway" where
  "worker_reset x generation ready profile g =
    (let idle = (\<lambda>d. if d = ''preparing'' then ''unprepared'' else d) in
     bump (g\<lparr>gw_Connected := (gw_Connected g \<and> gw_Generation g = generation \<and> ready),
        gw_sessions := (if gw_Generation g \<noteq> generation then (\<lambda>_. None) else gw_sessions g),
        gw_Generation := generation, gw_CanChange := (ready \<and> profile), gw_Profile := profile, gw_stopped := {},
        gw_Dependency := (\<lambda>c. if ready \<and> profile then probe_dependency (si_ready x c) (idle (gw_Dependency g c))
          else idle (gw_Dependency g c))\<rparr>))"

definition operation_apply :: "step_input \<Rightarrow> operation \<Rightarrow> gateway \<Rightarrow> gateway \<times> nat list" where
  "operation_apply x op g =
    (case op of
       SetEnabled b \<Rightarrow>
         (case revokeLocked (si_released x) [] (bump_computer (g\<lparr>gw_Enabled := b\<rparr>)) of
            (g, old) \<Rightarrow> (if b then g\<lparr>gw_Dependency := (gw_Dependency g)(
                Computer := probe_dependency (si_ready x Computer) (gw_Dependency g Computer),
                AUV := probe_dependency (si_ready x AUV) (gw_Dependency g AUV))\<rparr> else g, old))
     | SetPolicy revision p \<Rightarrow>
         (case revokeLocked (si_released x) []
             (g\<lparr>gw_policy := NormalizeComputerPolicy (Some p), gw_policyRevision := gw_policyRevision g + 1\<rparr>) of
            (g, old) \<Rightarrow> (bump_computer g, old))
     | Worker generation ready profile \<Rightarrow>
         (case revokeLocked (si_released x) [] g of (g, old) \<Rightarrow> (worker_reset x generation ready profile g, old))
     | Connection generation joined \<Rightarrow>
         if joined then (g\<lparr>gw_Connected := True\<rparr>, [])
         else (case revokeLocked (si_released x) [] (g\<lparr>gw_Connected := False\<rparr>) of (g, old) \<Rightarrow> (bump g, old))
     | SelectEngine engine \<Rightarrow> (bump_computer (g\<lparr>gw_Engine := engine\<rparr>), []))"

definition saves :: "operation \<Rightarrow> bool" where
  "saves op = (case op of SetEnabled b \<Rightarrow> True | SetPolicy n p \<Rightarrow> True | SelectEngine e \<Rightarrow> True | _ \<Rightarrow> False)"

definition operation_start :: "step_input \<Rightarrow> operation \<Rightarrow> nat \<Rightarrow> call \<Rightarrow> gateway \<Rightarrow> gateway" where
  "operation_start x op c k g =
    (if gw_op g \<noteq> None then g
     else (case operation_check x op g of
         Some e \<Rightarrow> conclude Finished c k e g
       | None \<Rightarrow> goto c k (OperationApply op) (g\<lparr>gw_op := Some c\<rparr>)))"

definition operation_end :: "step_input \<Rightarrow> operation \<Rightarrow> nat \<Rightarrow> call \<Rightarrow> gateway \<Rightarrow> gateway" where
  "operation_end x op c k g =
    (if saves op \<and> si_saved x \<noteq> None then refuse Finished c k (the (si_saved x)) (release_op c g)
     else (case operation_apply x op g of (g, old) \<Rightarrow> goto c k (Releasing old ThenNothing) g))"

subsection \<open>Closing what was revoked\<close>

definition all_closed :: "nat list \<Rightarrow> gateway \<Rightarrow> bool" where
  "all_closed es g = list_all (\<lambda>e. closed_with g e \<noteq> None) es"

definition released_engines :: "nat list \<Rightarrow> aftermath \<Rightarrow> nat \<Rightarrow> call \<Rightarrow> gateway \<Rightarrow> gateway" where
  "released_engines es after c k g =
    (if \<not> all_closed es g then g
     else let g = finishComputerEntries es g in
       (case after of
          ThenNothing \<Rightarrow> goto c k Finished (release_op c g)
        | ThenFailed p e \<Rightarrow> own_result p c k (Inl e) g
        | ThenReleased holding \<Rightarrow>
            if list_ex (\<lambda>e. closed_with g e \<noteq> Some None) es then refuse (after_release holding) c k CleanupFailed g
            else conclude (after_release holding) c k (Answer (Inr released_text)) g
        | ThenStopped \<Rightarrow> goto c k Stopped g))"

subsection \<open>The steps of the system\<close>

definition call_step :: "gateway_config \<Rightarrow> step_input \<Rightarrow> nat \<Rightarrow> call \<Rightarrow> gateway \<Rightarrow> gateway" where
  "call_step cf x c k =
    (case cl_pc k of
       AuthStart \<Rightarrow> auth_start c k
     | AuthEnter \<Rightarrow> auth_enter cf x c k
     | AuthSerial \<Rightarrow> wait_serial x AuthInspect AuthCleanup c k
     | AuthInspect \<Rightarrow> auth_inspect cf x c k
     | AuthConsent \<Rightarrow> auth_consent cf x c k
     | AuthPending i \<Rightarrow> auth_pending x i c k
     | AuthObserve \<Rightarrow> auth_observe cf x c k
     | AuthProbe \<Rightarrow> begin_probe AuthProbing AuthLeave c k
     | AuthProbing \<Rightarrow> auth_probing x c k
     | AuthRecheck \<Rightarrow> auth_recheck cf x c k
     | AuthGrant \<Rightarrow> auth_grant x c k
     | AuthLeave \<Rightarrow> auth_leave c k
     | AuthCleanup \<Rightarrow> auth_cleanup x c k
     | ExecTake \<Rightarrow> exec_take x c k
     | ExecSerial \<Rightarrow> wait_serial x (exec_held (rq_Tool (cl_request k))) Finished c k
     | ExecRelease \<Rightarrow> ReleaseComputer x True c k
     | ExecInspect \<Rightarrow> exec_inspect cf x c k
     | ExecObserved \<Rightarrow> exec_observed c k
     | ExecProbe \<Rightarrow> exec_probe c k
     | ExecProbing \<Rightarrow> exec_probing x c k
     | ExecStart \<Rightarrow> exec_start x c k
     | ExecFinish \<Rightarrow> exec_finish c k
     | ExecLeave \<Rightarrow> exec_leave c k
     | OwnEnter p \<Rightarrow> own_enter p c k
     | OwnReady p e \<Rightarrow> own_ready x p e c k
     | OwnRun p e \<Rightarrow> own_run x p e c k
     | OwnDone p \<Rightarrow> (case p of Refresh \<Rightarrow> refresh_done x c k | Action \<Rightarrow> exec_after cf x c k)
     | TurnStart \<Rightarrow> ComputerTurn x c k
     | DiscardStart \<Rightarrow> DiscardComputerPermit c k
     | ReleaseStart \<Rightarrow> ReleaseComputer x False c k
     | StopUseStart \<Rightarrow> StopComputerUse x c k
     | StopSessionStart \<Rightarrow> StopSession x c k
     | AnswerStart i choice \<Rightarrow> answer_start x i choice c k
     | AnswerSave i p \<Rightarrow> answer_save x i p c k
     | AnswerChoose i choice \<Rightarrow> answer_choose x i choice c k
     | OperationStart op \<Rightarrow> operation_start x op c k
     | OperationApply op \<Rightarrow> operation_end x op c k
     | Releasing es after \<Rightarrow> released_engines es after c k
     | Stopped \<Rightarrow> stop_report c k
     | Finished \<Rightarrow> (\<lambda>g. g))"

definition start_pc :: "call_pc \<Rightarrow> bool" where
  "start_pc pc = (case pc of AuthStart \<Rightarrow> True | ExecTake \<Rightarrow> True | TurnStart \<Rightarrow> True | DiscardStart \<Rightarrow> True | ReleaseStart \<Rightarrow> True
     | StopUseStart \<Rightarrow> True | StopSessionStart \<Rightarrow> True | AnswerStart i choice \<Rightarrow> True | OperationStart op \<Rightarrow> True | _ \<Rightarrow> False)"

datatype gateway_action =
    Begin nat call_pc computer_request
  | Cancel nat
  | Step step_input nat
  | EngineReady nat "computer_error + bool"
  | CloseEngine nat "computer_error option" "computer_error option"
  | Dependency capability string

text \<open>\<open>Execute\<close> gives the request of an authorization the operation of its execution.\<close>

definition begin_call :: "nat \<Rightarrow> call_pc \<Rightarrow> computer_request \<Rightarrow> gateway \<Rightarrow> gateway" where
  "begin_call c pc r g =
    (if gw_calls g c \<noteq> None \<or> \<not> start_pc pc then g
     else set_call c (new_call pc (if pc = AuthStart \<or> pc = ExecTake then r\<lparr>rq_Operation := ''computer''\<rparr> else r)) g)"

definition cancel_call :: "nat \<Rightarrow> gateway \<Rightarrow> gateway" where
  "cancel_call c g = (case gw_calls g c of None \<Rightarrow> g | Some k \<Rightarrow> set_call c (k\<lparr>cl_cancelled := True\<rparr>) g)"

fun gateway_step :: "gateway_config \<Rightarrow> gateway_action \<Rightarrow> gateway \<Rightarrow> gateway" where
  "gateway_step cf (Begin c pc r) g = begin_call c pc r g"
| "gateway_step cf (Cancel c) g = cancel_call c g"
| "gateway_step cf (Step x c) g = (case gw_calls g c of None \<Rightarrow> g | Some k \<Rightarrow> call_step cf x c k g)"
| "gateway_step cf (EngineReady e res) g = engine_ready e res g"
| "gateway_step cf (CloseEngine e err released) g = closeEntry e err released g"
| "gateway_step cf (Dependency c d) g = g\<lparr>gw_Dependency := (gw_Dependency g)(c := d)\<rparr>"

text \<open>\<open>New\<close> and \<open>ConfigureComputerGateway\<close>.\<close>

definition ConfigureComputerGateway :: "string \<Rightarrow> bool \<Rightarrow> computer_policy option \<Rightarrow> gateway" where
  "ConfigureComputerGateway engine enabled policy =
    \<lparr>gw_Generation = [], gw_CanChange = False, gw_Profile = False, gw_Connected = False, gw_Engine = (if engine = ''auv'' then ''auv'' else ''cua-driver''),
     gw_Enabled = enabled, gw_Dependency = (\<lambda>_. ''unprepared''), gw_Epoch = (\<lambda>_. 1), gw_stopped = {}, gw_sessions = (\<lambda>_. None),
     gw_policy = NormalizeComputerPolicy policy, gw_policyRevision = 1, gw_owner = zero_request, gw_lease = None, gw_serial = None,
     gw_op = None, gw_grants = {}, gw_denied = {}, gw_pending = [], gw_permits = [], gw_observation = None, gw_use = None,
     gw_desktop = None, gw_failure = None, gw_run = False, gw_probes = {}, gw_engines = (\<lambda>_. None), gw_entries = [],
     gw_calls = (\<lambda>_. None), gw_next = 0, gw_drawn = {}, gw_issued = [], gw_spent = [], gw_log = []\<rparr>"

end
