(* ===== verification/Computer_Safety.thy ===== *)
theory Computer_Safety
  imports Computer_Gateway
begin

text \<open>
  What the gateway guarantees in every interleaving of its calls: an engine is told to act only with a permit
  that was handed out for exactly this request and is used once, one call at a time drives an engine, and
  a stopped conversation acts no more.
\<close>

subsection \<open>Quiet changes\<close>

text \<open>What the invariant reads of a call.\<close>

definition essence :: "call \<Rightarrow> call_pc \<times> computer_request \<times> computer_target \<times> json_object option \<times> element_identity \<times> computer_permit \<times> string" where
  "essence k = (cl_pc k, cl_request k, cl_target k, cl_args k, cl_identity k, cl_permit k, cl_id k)"

text \<open>A change that leaves the books and the calls alone; it may take permits back.\<close>

definition quiet :: "gateway \<Rightarrow> gateway \<Rightarrow> bool" where
  "quiet g h \<longleftrightarrow> gw_spent h = gw_spent g \<and> gw_log h = gw_log g \<and> gw_issued h = gw_issued g \<and> gw_drawn g \<subseteq> gw_drawn h \<and>
     (\<exists>P. gw_permits h = filter P (gw_permits g)) \<and> gw_serial h = gw_serial g \<and>
     (\<forall>c. map_option essence (gw_calls h c) = map_option essence (gw_calls g c))"

named_theorems quiets

lemma quiet_refl [quiets]: "quiet g g"
  by (auto simp: quiet_def intro: exI [of _ "\<lambda>_. True"])

lemma quiet_trans: "quiet g h \<Longrightarrow> quiet h i \<Longrightarrow> quiet g i"
  by (auto simp: quiet_def)

lemma quiet_same:
  assumes "gw_spent h = gw_spent g" "gw_log h = gw_log g" "gw_issued h = gw_issued g" "gw_drawn h = gw_drawn g"
    "gw_permits h = gw_permits g" "gw_serial h = gw_serial g" "gw_calls h = gw_calls g"
  shows "quiet g h"
  unfolding quiet_def using assms by (auto intro: exI [of _ "\<lambda>_. True"])

lemma quiet_offer [quiets]: "quiet g (offer b c g)"
  by (auto simp: quiet_def offer_def set_call_def essence_def split: option.split intro: exI [of _ "\<lambda>_. True"])

lemma quiet_fold: "(\<And>x g. quiet g (f x g)) \<Longrightarrow> quiet g (fold f xs g)"
  by (induction xs arbitrary: g) (auto intro: quiet_refl quiet_trans)

lemma quiet_drop [quiets]: "quiet g (drop_permits P g)"
  by (auto simp: quiet_def drop_permits_def)

lemma quiet_prune [quiets]: "quiet g (prune now g)"
  by (simp add: prune_def quiet_drop)

lemma quiet_draw [quiets]: "quiet g (draw i g)"
  by (auto simp: quiet_def draw_def intro: exI [of _ "\<lambda>_. True"])

lemma quiet_refuse [quiets]: "quiet g (refuse_pending P g)"
  unfolding refuse_pending_def Let_def
  by (rule quiet_trans [OF quiet_fold quiet_same]) (auto simp: quiet_offer)

lemma quiet_owner [quiets]: "quiet g (release_owner e g)"
  by (rule quiet_same) (simp_all add: release_owner_def Let_def)

lemma quiet_revoke_computer [quiets]: "quiet g (revokeComputerLocked e scope g)"
proof -
  have mid: "quiet g (refuse_pending P (drop_permits Q g))" for P Q by (rule quiet_trans [OF quiet_drop quiet_refuse])
  show ?thesis unfolding revokeComputerLocked_def Let_def using mid quiet_trans [OF mid quiet_owner] by simp
qed

lemma quiet_revoke_engine [quiets]: "quiet g (revoke_engine e g)"
  by (rule quiet_same) (simp_all add: revoke_engine_def split: option.split)

lemma quiet_revoke: "revokeLocked e scope g = (h, old) \<Longrightarrow> quiet g h"
  unfolding revokeLocked_def Let_def prod.inject
  by (elim conjE, hypsubst) (rule quiet_trans [OF quiet_revoke_computer quiet_trans [OF quiet_fold quiet_same]], simp_all add: quiet_revoke_engine)

lemma quiet_finish [quiets]: "quiet g (finishComputerEntries es g)"
  by (rule quiet_same) (simp_all add: finishComputerEntries_def split: option.split)

lemma quiet_op [quiets]: "quiet g (release_op c g)"
  by (rule quiet_same) (simp_all add: release_op_def)

lemma quiet_probe [quiets]: "quiet g (end_probe c e g)"
  by (rule quiet_same) (simp_all add: end_probe_def Let_def split: option.split)

lemma quiet_new [quiets]: "quiet g (new_engine r g)"
  by (rule quiet_same) (simp_all add: new_engine_def Let_def)

lemma quiet_ready [quiets]: "quiet g (engine_ready e res g)"
  by (rule quiet_same) (simp_all add: engine_ready_def Let_def split: option.split)

lemma quiet_close [quiets]: "quiet g (closeEntry e err rel g)"
  by (rule quiet_same) (simp_all add: closeEntry_def Let_def split: option.split)

lemma quiet_mark [quiets]: "quiet g (mark_stopped session life g)"
  by (rule quiet_same) (simp_all add: mark_stopped_def)

lemma quiet_forget [quiets]: "quiet g (forget_lease g)"
  by (rule quiet_same) (simp_all add: forget_lease_def)

lemma quiet_take: "take_desktop cf a r g = (h, e) \<Longrightarrow> quiet g h"
  by (rule quiet_same) (auto simp: take_desktop_def Let_def split: if_splits sum.splits bool.splits)

lemma quiet_claim:
  assumes "claimComputerLocked cf a r g = (h, e)"
  shows "quiet g h"
  using assms unfolding claimComputerLocked_def Let_def
  by (auto split: if_splits intro: quiets quiet_trans [OF quiet_forget quiet_take])

lemma quiet_session [quiets]: "quiet g (refuse_session s g)"
  unfolding refuse_session_def by (rule quiet_trans [OF quiet_drop quiet_refuse])

lemma quiet_operation:
  assumes "operation_apply x op g = (h, old)"
  shows "quiet g h"
proof (cases op)
  case (SetEnabled b)
  obtain g1 old1 where r: "revokeLocked (si_released x) [] (bump_computer (g\<lparr>gw_Enabled := b\<rparr>)) = (g1, old1)" by fastforce
  have "quiet g (bump_computer (g\<lparr>gw_Enabled := b\<rparr>))" by (rule quiet_same) (simp_all add: bump_computer_def)
  moreover have "quiet g1 h" using assms SetEnabled r by (intro quiet_same) (auto simp: operation_apply_def split: if_splits)
  ultimately show ?thesis using quiet_revoke [OF r] quiet_trans by blast
next
  case (SetPolicy n p)
  let ?g = "g\<lparr>gw_policy := NormalizeComputerPolicy (Some p), gw_policyRevision := gw_policyRevision g + 1\<rparr>"
  obtain g1 old1 where r: "revokeLocked (si_released x) [] ?g = (g1, old1)" by fastforce
  have "quiet g ?g" by (rule quiet_same) simp_all
  moreover have "quiet g1 h" using assms SetPolicy r by (intro quiet_same) (auto simp: operation_apply_def bump_computer_def)
  ultimately show ?thesis using quiet_revoke [OF r] quiet_trans by blast
next
  case (Worker generation ready profile)
  obtain g1 old1 where r: "revokeLocked (si_released x) [] g = (g1, old1)" by fastforce
  have "quiet g1 h" using assms Worker r
    by (intro quiet_same) (auto simp: operation_apply_def worker_reset_def bump_def Let_def)
  then show ?thesis using quiet_revoke [OF r] quiet_trans by blast
next
  case (Connection generation b)
  obtain g1 old1 where r: "revokeLocked (si_released x) [] (g\<lparr>gw_Connected := False\<rparr>) = (g1, old1)" by fastforce
  have "quiet g (g\<lparr>gw_Connected := v\<rparr>)" for v by (rule quiet_same) simp_all
  moreover have "quiet g1 (bump g1)" by (rule quiet_same) (simp_all add: bump_def)
  ultimately show ?thesis using assms Connection r quiet_revoke [OF r] quiet_trans
    by (auto simp: operation_apply_def split: if_splits) blast
next
  case (SelectEngine engine)
  then show ?thesis using assms by (intro quiet_same) (auto simp: operation_apply_def bump_computer_def)
qed

subsection \<open>Where a call stands\<close>

text \<open>Between taking and giving back the token of the gateway.\<close>

definition in_serial :: "call_pc \<Rightarrow> bool" where
  "in_serial pc = (case pc of AuthInspect \<Rightarrow> True | AuthConsent \<Rightarrow> True | AuthPending i \<Rightarrow> True | AuthObserve \<Rightarrow> True
     | AuthProbe \<Rightarrow> True | AuthProbing \<Rightarrow> True | AuthRecheck \<Rightarrow> True | AuthGrant \<Rightarrow> True | AuthLeave \<Rightarrow> True
     | ExecRelease \<Rightarrow> True | ExecInspect \<Rightarrow> True | ExecObserved \<Rightarrow> True | ExecProbe \<Rightarrow> True | ExecProbing \<Rightarrow> True | ExecStart \<Rightarrow> True
     | ExecFinish \<Rightarrow> True | ExecLeave \<Rightarrow> True | OwnEnter p \<Rightarrow> True | OwnReady p e \<Rightarrow> True | OwnRun p e \<Rightarrow> True | OwnDone p \<Rightarrow> True
     | Releasing es after \<Rightarrow> (case after of ThenFailed p e \<Rightarrow> True | ThenReleased b \<Rightarrow> b | _ \<Rightarrow> False)
     | _ \<Rightarrow> False)"

text \<open>After a permit was taken and before its action was begun.\<close>

definition holds_permit :: "call_pc \<Rightarrow> bool" where
  "holds_permit pc = (case pc of ExecSerial \<Rightarrow> True | ExecInspect \<Rightarrow> True | ExecObserved \<Rightarrow> True | ExecProbe \<Rightarrow> True
     | ExecProbing \<Rightarrow> True | ExecStart \<Rightarrow> True | OwnEnter p \<Rightarrow> p = Action | OwnReady p e \<Rightarrow> p = Action | _ \<Rightarrow> False)"

text \<open>What an authorization has checked.\<close>

definition was_inspected :: "call_pc \<Rightarrow> bool" where
  "was_inspected pc = (case pc of AuthConsent \<Rightarrow> True | AuthPending i \<Rightarrow> True | AuthObserve \<Rightarrow> True | AuthProbe \<Rightarrow> True
     | AuthProbing \<Rightarrow> True | AuthRecheck \<Rightarrow> True | AuthGrant \<Rightarrow> True | OwnEnter p \<Rightarrow> p = Refresh | OwnReady p e \<Rightarrow> p = Refresh
     | OwnRun p e \<Rightarrow> p = Refresh | OwnDone p \<Rightarrow> p = Refresh | Releasing es after \<Rightarrow> (\<exists>e. after = ThenFailed Refresh e) | _ \<Rightarrow> False)"

definition was_accepted :: "call_pc \<Rightarrow> bool" where
  "was_accepted pc \<longleftrightarrow> was_inspected pc \<or> pc \<in> {AuthEnter, AuthSerial, AuthInspect}"

definition was_refreshed :: "call_pc \<Rightarrow> bool" where
  "was_refreshed pc \<longleftrightarrow> pc \<in> {AuthProbe, AuthProbing}"

definition was_probed :: "call_pc \<Rightarrow> bool" where
  "was_probed pc \<longleftrightarrow> pc \<in> {AuthRecheck, AuthGrant}"

lemmas pc_defs = in_serial_def holds_permit_def was_inspected_def was_accepted_def was_refreshed_def was_probed_def

definition accepted :: "computer_request \<Rightarrow> bool" where
  "accepted r \<longleftrightarrow> (\<exists>engine. validateComputerArguments r engine = None)"

definition admissible :: "call_pc \<Rightarrow> call \<Rightarrow> bool" where
  "admissible pc k \<longleftrightarrow> (was_accepted pc \<longrightarrow> accepted (cl_request k)) \<and>
     (was_inspected pc \<longrightarrow> rq_Tool (cl_request k) = ''computer_windows'' \<or> level_check (rq_Tool (cl_request k)) (cl_target k) = None) \<and>
     (was_refreshed pc \<longrightarrow> cl_args k \<noteq> None) \<and>
     (was_probed pc \<longrightarrow> enters_text (rq_Tool (cl_request k)) \<longrightarrow> cl_args k \<noteq> None \<and> \<not> ei_Password (cl_identity k))"

text \<open>A permit as it is handed out.\<close>

definition good_permit :: "computer_permit \<Rightarrow> bool" where
  "good_permit p \<longleftrightarrow> accepted (pm_request p) \<and>
     (windowed (rq_Tool (pm_request p)) \<longrightarrow> level_check (rq_Tool (pm_request p)) (pm_target p) = None) \<and>
     (enters_text (rq_Tool (pm_request p)) \<longrightarrow> pm_args p \<noteq> None \<and> \<not> ei_Password (pm_identity p))"

definition logged :: "gateway \<Rightarrow> string list" where
  "logged g = map (\<lambda>(c, i, r, t). i) (gw_log g)"

definition backed :: "gateway \<Rightarrow> string \<Rightarrow> computer_request \<Rightarrow> computer_permit \<Rightarrow> bool" where
  "backed g i r p \<longleftrightarrow> (i, p) \<in> set (gw_issued g) \<and> i \<in> set (gw_spent g) \<and> comparable r = comparable (pm_request p)"

definition call_ok :: "gateway \<Rightarrow> call \<Rightarrow> bool" where
  "call_ok g k \<longleftrightarrow> admissible (cl_pc k) k \<and>
     (holds_permit (cl_pc k) \<longrightarrow> backed g (cl_id k) (cl_request k) (cl_permit k) \<and> cl_id k \<notin> set (logged g))"

definition books_ok :: "gateway \<Rightarrow> bool" where
  "books_ok g \<longleftrightarrow> distinct (map fst (gw_permits g)) \<and> set (gw_permits g) \<subseteq> set (gw_issued g) \<and>
     fst ` set (gw_permits g) \<inter> set (gw_spent g) = {} \<and> fst ` set (gw_issued g) \<subseteq> gw_drawn g \<and> set (gw_spent g) \<subseteq> fst ` set (gw_issued g) \<and>
     (\<forall>(i, p) \<in> set (gw_issued g). good_permit p) \<and> distinct (logged g) \<and>
     (\<forall>(c, i, r, t) \<in> set (gw_log g). \<exists>p. backed g i r p \<and> t = pm_target p)"

definition apart :: "gateway \<Rightarrow> bool" where
  "apart g \<longleftrightarrow> (\<forall>c c' k k'. gw_calls g c = Some k \<and> gw_calls g c' = Some k' \<and> c \<noteq> c' \<longrightarrow>
     \<not> (holds_permit (cl_pc k) \<and> holds_permit (cl_pc k') \<and> cl_id k = cl_id k'))"

definition gateway_inv :: "gateway \<Rightarrow> bool" where
  "gateway_inv g \<longleftrightarrow> books_ok g \<and> apart g \<and>
     (\<forall>c k. gw_calls g c = Some k \<longrightarrow> call_ok g k \<and> (in_serial (cl_pc k) \<longrightarrow> gw_serial g = Some c))"

lemma gateway_invD:
  assumes "gateway_inv g" "gw_calls g c = Some k"
  shows "call_ok g k" "in_serial (cl_pc k) \<Longrightarrow> gw_serial g = Some c" "admissible (cl_pc k) k"
  using assms by (auto simp: gateway_inv_def call_ok_def)

lemma call_ok_essence: "essence k = essence k' \<Longrightarrow> call_ok g k = call_ok g k'"
  by (simp add: essence_def call_ok_def admissible_def)

lemma quiet_call_ok: "quiet g h \<Longrightarrow> call_ok h k = call_ok g k"
  by (simp add: quiet_def call_ok_def backed_def logged_def)

lemma quiet_books: "quiet g h \<Longrightarrow> books_ok g \<Longrightarrow> books_ok h"
  unfolding quiet_def books_ok_def logged_def backed_def
  by (elim conjE exE) (auto simp: distinct_map_filter)

lemma apart_mono:
  assumes "apart g"
    and "\<And>d l. gw_calls h d = Some l \<Longrightarrow>
      \<exists>kd. gw_calls g d = Some kd \<and> (holds_permit (cl_pc l) \<longrightarrow> holds_permit (cl_pc kd)) \<and> cl_id l = cl_id kd"
  shows "apart h"
  unfolding apart_def
proof (intro allI impI)
  fix d d' l l'
  assume a: "gw_calls h d = Some l \<and> gw_calls h d' = Some l' \<and> d \<noteq> d'"
  obtain kd where kd: "gw_calls g d = Some kd" "holds_permit (cl_pc l) \<longrightarrow> holds_permit (cl_pc kd)" "cl_id l = cl_id kd"
    using assms(2) a by blast
  obtain kd' where kd': "gw_calls g d' = Some kd'" "holds_permit (cl_pc l') \<longrightarrow> holds_permit (cl_pc kd')" "cl_id l' = cl_id kd'"
    using assms(2) a by blast
  have "\<not> (holds_permit (cl_pc kd) \<and> holds_permit (cl_pc kd') \<and> cl_id kd = cl_id kd')"
    using assms(1) kd(1) kd'(1) a unfolding apart_def by blast
  then show "\<not> (holds_permit (cl_pc l) \<and> holds_permit (cl_pc l') \<and> cl_id l = cl_id l')" using kd kd' by auto
qed

lemma same_essence:
  assumes "gateway_inv g" "gw_calls g d = Some kd" "essence kd = essence l"
  shows "call_ok g l \<and> (in_serial (cl_pc l) \<longrightarrow> gw_serial g = Some d)"
proof -
  have "cl_pc l = cl_pc kd" using assms(3) by (simp add: essence_def)
  then show ?thesis using gateway_invD [OF assms(1,2)] call_ok_essence [OF assms(3), of g] by auto
qed

text \<open>One step: the other calls keep what matters, this one changes to \<open>k'\<close>.\<close>

lemma step_inv:
  assumes "gateway_inv g" "quiet g h" "gw_calls g c = Some k"
    and "admissible (cl_pc k') k'" "cl_request k' = cl_request k" "cl_id k' = cl_id k" "cl_permit k' = cl_permit k"
    and "holds_permit (cl_pc k') \<longrightarrow> holds_permit (cl_pc k)" "in_serial (cl_pc k') \<longrightarrow> in_serial (cl_pc k)"
  shows "gateway_inv (set_call c k' h)"
proof -
  have serial: "gw_serial h = gw_serial g" and ess: "\<And>d. map_option essence (gw_calls h d) = map_option essence (gw_calls g d)"
    using assms(2) by (simp_all add: quiet_def)
  have old: "\<exists>kd. gw_calls g d = Some kd \<and> essence kd = essence l" if "gw_calls h d = Some l" for d l
    using ess [of d] that by (cases "gw_calls g d") auto
  have ok: "call_ok h l \<and> (in_serial (cl_pc l) \<longrightarrow> gw_serial h = Some d)" if "gw_calls (set_call c k' h) d = Some l" for d l
  proof (cases "d = c")
    case True
    then have "l = k'" using that by (simp add: set_call_def)
    then show ?thesis using gateway_invD [OF assms(1,3)] assms(4-9) serial True quiet_call_ok [OF assms(2)]
      by (auto simp: call_ok_def)
  next
    case False
    then have "gw_calls h d = Some l" using that by (simp add: set_call_def)
    then obtain kd where "gw_calls g d = Some kd" "essence kd = essence l" using old by blast
    then show ?thesis using same_essence [OF assms(1)] quiet_call_ok [OF assms(2)] serial by simp
  qed
  have "apart (set_call c k' h)"
  proof (rule apart_mono)
    show "apart g" using assms(1) by (simp add: gateway_inv_def)
    show "\<exists>kd. gw_calls g d = Some kd \<and> (holds_permit (cl_pc l) \<longrightarrow> holds_permit (cl_pc kd)) \<and> cl_id l = cl_id kd"
      if "gw_calls (set_call c k' h) d = Some l" for d l
      using that old [of d l] assms(3,6,8) by (cases "d = c") (auto simp: set_call_def essence_def)
  qed
  moreover have "books_ok (set_call c k' h)"
    using quiet_books [OF assms(2)] assms(1) by (simp add: gateway_inv_def books_ok_def set_call_def logged_def backed_def)
  moreover have "call_ok (set_call c k' h) l = call_ok h l" for l by (simp add: call_ok_def set_call_def backed_def logged_def)
  ultimately show ?thesis using ok by (simp add: gateway_inv_def) (simp add: set_call_def)
qed

lemma quiet_inv:
  assumes "gateway_inv g" "quiet g h"
  shows "gateway_inv h"
proof -
  have serial: "gw_serial h = gw_serial g" and ess: "\<And>d. map_option essence (gw_calls h d) = map_option essence (gw_calls g d)"
    using assms(2) by (simp_all add: quiet_def)
  have old: "\<exists>kd. gw_calls g d = Some kd \<and> essence kd = essence l" if "gw_calls h d = Some l" for d l
    using ess [of d] that by (cases "gw_calls g d") auto
  have "call_ok h l \<and> (in_serial (cl_pc l) \<longrightarrow> gw_serial h = Some d)" if "gw_calls h d = Some l" for d l
    using old [OF that] same_essence [OF assms(1)] serial quiet_call_ok [OF assms(2)] by auto
  moreover have "apart h"
  proof (rule apart_mono)
    show "apart g" using assms(1) by (simp add: gateway_inv_def)
    show "\<exists>kd. gw_calls g d = Some kd \<and> (holds_permit (cl_pc l) \<longrightarrow> holds_permit (cl_pc kd)) \<and> cl_id l = cl_id kd"
      if "gw_calls h d = Some l" for d l
      using old [OF that] by (auto simp: essence_def)
  qed
  ultimately show ?thesis using quiet_books [OF assms(2)] assms(1) by (simp add: gateway_inv_def)
qed

subsection \<open>Every step keeps the invariant\<close>

definition exit_pc :: "call_pc \<Rightarrow> bool" where
  "exit_pc pc \<longleftrightarrow> \<not> was_accepted pc \<and> \<not> was_inspected pc \<and> \<not> was_refreshed pc \<and> \<not> was_probed pc \<and> \<not> holds_permit pc"

lemma exits [simp]: "exit_pc Finished" "exit_pc AuthLeave" "exit_pc AuthCleanup" "exit_pc ExecLeave" "exit_pc ExecFinish" "exit_pc Stopped"
  "exit_pc (after_release b)" "exit_pc (Releasing es ThenNothing)" "exit_pc (Releasing es ThenStopped)" "exit_pc (Releasing es (ThenReleased b))"
  "exit_pc (Releasing es (ThenFailed Action e))" "exit_pc (OwnDone Action)" "exit_pc (AnswerChoose i ch)" "exit_pc (AnswerSave i p)"
  "exit_pc (OperationApply op)"
  by (simp_all add: exit_pc_def pc_defs after_release_def)

lemma serial_pcs [simp]: "\<not> in_serial Finished" "\<not> in_serial AuthCleanup" "\<not> in_serial Stopped" "in_serial AuthLeave" "in_serial ExecLeave"
  "in_serial (OwnEnter p)" "in_serial (OwnReady p e)" "in_serial (OwnRun p e)" "in_serial (OwnDone p)" "in_serial (Releasing es (ThenFailed p err))"
  "in_serial (after_release b) = b" "in_serial (Releasing es (ThenReleased b)) = b" "\<not> in_serial (Releasing es ThenNothing)"
  "\<not> in_serial (Releasing es ThenStopped)" "\<not> in_serial (AnswerChoose i ch)" "\<not> in_serial (AnswerSave i pol)" "\<not> in_serial (OperationApply op)"
  "in_serial ExecFinish"
  by (simp_all add: in_serial_def after_release_def)

lemma exit_inv:
  assumes "gateway_inv g" "gw_calls g c = Some k" "exit_pc (cl_pc k')" "in_serial (cl_pc k') \<longrightarrow> in_serial (cl_pc k)" "quiet g h"
    and "cl_request k' = cl_request k" "cl_id k' = cl_id k" "cl_permit k' = cl_permit k"
  shows "gateway_inv (set_call c k' h)"
  by (rule step_inv [OF assms(1,5,2)]) (use assms in \<open>simp_all add: exit_pc_def admissible_def\<close>)

text \<open>The call may have filled in what the invariant does not read.\<close>

definition same_core :: "call \<Rightarrow> call \<Rightarrow> bool" where
  "same_core k k' \<longleftrightarrow> cl_request k' = cl_request k \<and> cl_id k' = cl_id k \<and> cl_permit k' = cl_permit k"

lemma same_core_refl [simp]: "same_core k k"
  by (simp add: same_core_def)

lemma conclude_inv:
  assumes "gateway_inv g" "gw_calls g c = Some k" "exit_pc pc" "in_serial pc \<longrightarrow> in_serial (cl_pc k)" "quiet g h" "same_core k k'"
  shows "gateway_inv (conclude pc c k' x h)"
  unfolding conclude_def by (rule exit_inv [OF assms(1,2)]) (use assms in \<open>simp_all add: same_core_def\<close>)

lemma refuse_inv:
  assumes "gateway_inv g" "gw_calls g c = Some k" "exit_pc pc" "in_serial pc \<longrightarrow> in_serial (cl_pc k)" "quiet g h" "same_core k k'"
  shows "gateway_inv (refuse pc c k' e h)"
  unfolding refuse_def by (rule conclude_inv [OF assms])

lemma goto_inv:
  assumes "gateway_inv g" "gw_calls g c = Some k" "admissible pc k'" "holds_permit pc \<longrightarrow> holds_permit (cl_pc k)"
    "in_serial pc \<longrightarrow> in_serial (cl_pc k)" "quiet g h" "same_core k k'"
  shows "gateway_inv (goto c k' pc h)"
  unfolding goto_def by (rule step_inv [OF assms(1,6,2)]) (use assms in \<open>simp_all add: admissible_def same_core_def\<close>)

lemma goto_exit:
  assumes "gateway_inv g" "gw_calls g c = Some k" "exit_pc pc" "in_serial pc \<longrightarrow> in_serial (cl_pc k)" "quiet g h" "same_core k k'"
  shows "gateway_inv (goto c k' pc h)"
  unfolding goto_def by (rule exit_inv [OF assms(1,2)]) (use assms in \<open>simp_all add: same_core_def\<close>)

text \<open>An authorization before it waits, and after.\<close>

lemma auth_start_inv:
  assumes "gateway_inv g" "gw_calls g c = Some k" "cl_pc k = AuthStart"
  shows "gateway_inv (auth_start c k g)"
  using assms(3) unfolding auth_start_def
  by (auto intro!: refuse_inv [OF assms(1,2)] goto_inv [OF assms(1,2)] quiets simp: admissible_def pc_defs accepted_def split: option.split)

lemma wait_inv:
  assumes "gateway_inv g" "gw_calls g c = Some k" "\<not> in_serial (cl_pc k)" "admissible held k" "holds_permit held \<longrightarrow> holds_permit (cl_pc k)"
    and "exit_pc done_pc" "\<not> in_serial done_pc"
  shows "gateway_inv (wait_serial x held done_pc c k g)"
proof -
  have "gateway_inv (goto c k held (g\<lparr>gw_serial := Some c\<rparr>))" if free: "gw_serial g = None"
  proof -
    have others: "\<not> in_serial (cl_pc l)" if "gw_calls g d = Some l" for d l using gateway_invD(2) [OF assms(1) that] free by auto
    have "gateway_inv (g\<lparr>gw_serial := Some c\<rparr>)"
      using assms(1) others by (simp add: gateway_inv_def books_ok_def apart_def call_ok_def backed_def logged_def)
    then have inv: "gateway_inv (g\<lparr>gw_serial := Some c, gw_calls := (gw_calls g)(c \<mapsto> k)\<rparr>)" using assms(2) by (simp add: fun_upd_idem)
    have "call_ok g (k\<lparr>cl_pc := held\<rparr>)"
      using gateway_invD(1) [OF assms(1,2)] assms(4,5) by (simp add: call_ok_def admissible_def)
    moreover have "apart (goto c k held (g\<lparr>gw_serial := Some c\<rparr>))"
      by (rule apart_mono [of g]) (use assms(1,2,5) in \<open>auto simp: gateway_inv_def goto_def set_call_def split: if_splits\<close>)
    ultimately show ?thesis
      using assms(1) others
      by (auto simp: gateway_inv_def goto_def set_call_def books_ok_def call_ok_def backed_def logged_def)
  qed
  then show ?thesis using assms(7) unfolding wait_serial_def
    by (auto intro: refuse_inv [OF assms(1,2) assms(6)] assms(1) quiets)
qed

lemma auth_inspect_inv:
  assumes "gateway_inv g" "gw_calls g c = Some k" "cl_pc k = AuthInspect"
  shows "gateway_inv (auth_inspect cf x c k g)"
proof -
  have "admissible AuthInspect k" using gateway_invD(3) [OF assms(1,2)] assms(3) by simp
  then have acc: "accepted (cl_request k)" by (simp add: admissible_def pc_defs)
  have "gateway_inv (set_call c (k\<lparr>cl_pc := AuthConsent, cl_target := t\<rparr>) g)" if "level_check (rq_Tool (cl_request k)) t = None" for t
    by (rule step_inv [OF assms(1) quiet_refl assms(2)]) (use acc that assms(3) in \<open>simp_all add: admissible_def pc_defs\<close>)
  then show ?thesis
    using acc assms(3) unfolding auth_inspect_def Let_def
    by (auto intro!: refuse_inv [OF assms(1,2)] goto_inv [OF assms(1,2)] quiets simp: admissible_def pc_defs enters_text_def
        split: option.split sum.split)
qed

lemma auth_consent_inv:
  assumes "gateway_inv g" "gw_calls g c = Some k" "cl_pc k = AuthConsent"
  shows "gateway_inv (auth_consent cf x c k g)"
proof -
  have adm: "admissible AuthConsent k" using gateway_invD(3) [OF assms(1,2)] assms(3) by simp
  have grant: "quiet g (g\<lparr>gw_grants := gs\<rparr>)" for gs by (rule quiet_same) simp_all
  have pend: "quiet g (draw i g\<lparr>gw_pending := ps\<rparr>)" for i ps by (rule quiet_trans [OF quiet_draw quiet_same]) simp_all
  have pending: "gateway_inv (set_call c (k\<lparr>cl_pc := AuthPending i, cl_key := gk, cl_choice := None\<rparr>) (draw i g\<lparr>gw_pending := ps\<rparr>))" for i gk ps
    by (rule step_inv [OF assms(1) pend assms(2)]) (use adm assms(3) in \<open>simp_all add: admissible_def pc_defs\<close>)
  show ?thesis
    using adm assms(3) unfolding auth_consent_def Let_def
    by (auto intro!: refuse_inv [OF assms(1,2)] goto_inv [OF assms(1,2)] quiets grant pending assms(1) simp: admissible_def pc_defs)
qed

lemma auth_pending_inv:
  assumes "gateway_inv g" "gw_calls g c = Some k" "cl_pc k = AuthPending i"
  shows "gateway_inv (auth_pending x i c k g)"
proof -
  have adm: "admissible (AuthPending i) k" using gateway_invD(3) [OF assms(1,2)] assms(3) by simp
  have q: "quiet g (g\<lparr>gw_pending := ps\<rparr>)" "quiet g (g\<lparr>gw_pending := ps, gw_grants := gs\<rparr>)" "quiet g (g\<lparr>gw_pending := ps, gw_denied := gs\<rparr>)"
    for ps gs by (rule quiet_same; simp)+
  show ?thesis
    using adm assms(3) unfolding auth_pending_def Let_def
    by (auto intro!: refuse_inv [OF assms(1,2)] goto_inv [OF assms(1,2)] q assms(1) simp: admissible_def pc_defs)
qed

lemma auth_observe_inv:
  assumes "gateway_inv g" "gw_calls g c = Some k" "cl_pc k = AuthObserve"
  shows "gateway_inv (auth_observe cf x c k g)"
proof -
  have adm: "admissible AuthObserve k" using gateway_invD(3) [OF assms(1,2)] assms(3) by simp
  have refr: "gateway_inv (set_call c (k'\<lparr>cl_pc := OwnEnter Refresh, cl_source := so\<rparr>) g)"
    if "same_core k k'" "cl_target k' = cl_target k" for so k'
    by (rule step_inv [OF assms(1) quiet_refl assms(2)]) (use adm that assms(3) in \<open>simp_all add: admissible_def same_core_def pc_defs\<close>)
  show ?thesis
    using adm assms(3) unfolding auth_observe_def Let_def
    by (auto intro!: refuse_inv [OF assms(1,2)] goto_inv [OF assms(1,2)] refr quiets simp: admissible_def pc_defs same_core_def enters_text_def
        split: option.split sum.split)
qed

lemma refresh_done_inv:
  assumes "gateway_inv g" "gw_calls g c = Some k" "cl_pc k = OwnDone Refresh"
  shows "gateway_inv (refresh_done x c k g)"
proof -
  have adm: "admissible (OwnDone Refresh) k" using gateway_invD(3) [OF assms(1,2)] assms(3) by simp
  then have "accepted (cl_request k)" by (simp add: admissible_def pc_defs)
  then have some: "rq_Arguments (cl_request k) \<noteq> None" unfolding accepted_def by (auto elim: acceptedD)
  have q: "quiet g (g\<lparr>gw_observation := ob\<rparr>)" for ob by (rule quiet_same) simp_all
  have "gateway_inv (set_call c (k\<lparr>cl_pc := AuthProbe, cl_snapshot := sn, cl_element := el,
      cl_args := refreshed_args (cl_request k) ob el\<rparr>) (g\<lparr>gw_observation := Some ob\<rparr>))" for sn el ob
    by (rule step_inv [OF assms(1) q assms(2)])
      (use adm assms(3) some in \<open>auto simp: admissible_def pc_defs refreshed_args_def cloneArguments_def split: option.splits\<close>)
  then show ?thesis
    using assms(3) unfolding refresh_done_def
    by (auto intro!: refuse_inv [OF assms(1,2)] quiets split: sum.split)
qed

lemma begin_probe_inv:
  assumes "gateway_inv g" "gw_calls g c = Some k" "admissible probing k" "holds_permit probing \<longrightarrow> holds_permit (cl_pc k)"
    "in_serial (cl_pc k)" "exit_pc leave"
  shows "gateway_inv (begin_probe probing leave c k g)"
proof -
  have "quiet g (g\<lparr>gw_probes := ps\<rparr>)" for ps by (rule quiet_same) simp_all
  then show ?thesis unfolding begin_probe_def using assms
    by (auto intro!: refuse_inv [OF assms(1,2)] goto_inv [OF assms(1,2)] quiets)
qed

lemma auth_probing_inv:
  assumes "gateway_inv g" "gw_calls g c = Some k" "cl_pc k = AuthProbing"
  shows "gateway_inv (auth_probing x c k g)"
proof -
  have adm: "admissible AuthProbing k" using gateway_invD(3) [OF assms(1,2)] assms(3) by simp
  have "gateway_inv (set_call c (k\<lparr>cl_pc := AuthRecheck, cl_identity := i\<rparr>) (end_probe c None g))" if "\<not> ei_Password i" for i
    by (rule step_inv [OF assms(1) quiet_probe assms(2)]) (use adm assms(3) that in \<open>simp_all add: admissible_def pc_defs\<close>)
  then show ?thesis using assms(3) unfolding auth_probing_def Let_def
    by (auto intro!: refuse_inv [OF assms(1,2)] quiets split: sum.split simp: in_serial_def)
qed

lemma auth_recheck_inv:
  assumes "gateway_inv g" "gw_calls g c = Some k" "cl_pc k = AuthRecheck"
  shows "gateway_inv (auth_recheck cf x c k g)"
proof -
  have adm: "admissible AuthRecheck k" using gateway_invD(3) [OF assms(1,2)] assms(3) by simp
  then show ?thesis using assms(3) unfolding auth_recheck_def
    by (auto intro!: refuse_inv [OF assms(1,2)] goto_inv [OF assms(1,2)] quiets split: sum.split simp: admissible_def pc_defs)
qed

text \<open>Handing out a permit.\<close>

lemma issue_fields [simp]: "gw_calls (issue i p g) = gw_calls g" "gw_serial (issue i p g) = gw_serial g"
  by (simp_all add: issue_def draw_def)

lemma issue_inv:
  assumes "gateway_inv g" "i \<notin> gw_drawn g" "good_permit p"
  shows "gateway_inv (issue i p g)"
proof -
  have b: "books_ok g" using assms(1) by (simp add: gateway_inv_def)
  then have "i \<notin> fst ` set (gw_issued g)" using assms(2) unfolding books_ok_def by blast
  moreover have "fst ` set (gw_permits g) \<subseteq> fst ` set (gw_issued g)" "set (gw_spent g) \<subseteq> fst ` set (gw_issued g)"
    using b by (simp_all add: books_ok_def image_mono)
  ultimately have "i \<notin> fst ` set (gw_permits g)" "i \<notin> set (gw_spent g)" by blast+
  note fresh = this \<open>i \<notin> fst ` set (gw_issued g)\<close>
  have more: "backed (issue i p g) j r q" if "backed g j r q" for j r q using that by (simp add: backed_def issue_def draw_def)
  have "\<forall>(d, j, r, t) \<in> set (gw_log g). \<exists>q. backed g j r q \<and> t = pm_target q" using b by (simp add: books_ok_def)
  then have log: "\<forall>(d, j, r, t) \<in> set (gw_log g). \<exists>q. backed (issue i p g) j r q \<and> t = pm_target q"
    using more by (fastforce elim!: ballE)
  have fields: "gw_permits (issue i p g) = (i, p) # gw_permits g" "gw_issued (issue i p g) = (i, p) # gw_issued g"
    "gw_spent (issue i p g) = gw_spent g" "gw_drawn (issue i p g) = insert i (gw_drawn g)" "gw_log (issue i p g) = gw_log g"
    "logged (issue i p g) = logged g" by (simp_all add: issue_def draw_def logged_def)
  have "distinct (map fst (gw_permits g))" "set (gw_permits g) \<subseteq> set (gw_issued g)"
    "fst ` set (gw_permits g) \<inter> set (gw_spent g) = {}" "fst ` set (gw_issued g) \<subseteq> gw_drawn g"
    "set (gw_spent g) \<subseteq> fst ` set (gw_issued g)" "\<forall>(i, p) \<in> set (gw_issued g). good_permit p" "distinct (logged g)"
    using b by (simp_all add: books_ok_def)
  then have "books_ok (issue i p g)"
    unfolding books_ok_def fields using fresh assms(3) log by simp blast
  moreover have "call_ok (issue i p g) l" if "call_ok g l" for l
    using that by (auto simp: call_ok_def issue_def draw_def logged_def backed_def)
  ultimately show ?thesis using assms(1) unfolding gateway_inv_def apart_def by simp
qed

lemma calls_kept: "quiet g h \<Longrightarrow> gw_calls g c = Some k \<Longrightarrow> \<exists>k'. gw_calls h c = Some k' \<and> essence k' = essence k"
  unfolding quiet_def by (elim conjE) (erule allE [of _ c], cases "gw_calls h c", auto)

lemma auth_grant_inv:
  assumes "gateway_inv g" "gw_calls g c = Some k" "cl_pc k = AuthGrant"
  shows "gateway_inv (auth_grant x c k g)"
proof -
  let ?g = "prune (si_now x) g"
  have adm: "admissible AuthGrant k" using gateway_invD(3) [OF assms(1,2)] assms(3) by simp
  have same: "gw_calls ?g = gw_calls g" "gw_drawn ?g = gw_drawn g" by (simp_all add: prune_def drop_permits_def)
  have inv: "gateway_inv ?g" by (rule quiet_inv [OF assms(1) quiet_prune])
  have good: "good_permit (granted_permit x k)"
    using adm by (auto simp: good_permit_def granted_permit_def admissible_def pc_defs cloneArguments_def windowed_def)
  have "gateway_inv (conclude AuthLeave c (k\<lparr>cl_admitted := True\<rparr>) d (issue (si_id x) (granted_permit x k) ?g))"
    if "si_id x \<notin> gw_drawn g" for d
  proof (rule conclude_inv [OF issue_inv [OF inv _ good] _ exits(2) _ quiet_refl])
    show "si_id x \<notin> gw_drawn ?g" using that same by simp
    show "gw_calls (issue (si_id x) (granted_permit x k) ?g) c = Some k" using assms(2) same by simp
  qed (simp_all add: assms(3) in_serial_def same_core_def)
  moreover have "quiet g (draw i ?g)" for i by (rule quiet_trans [OF quiet_prune quiet_draw])
  ultimately show ?thesis using assms(3) same unfolding auth_grant_def Let_def
    by (auto intro!: refuse_inv [OF assms(1,2)] quiets inv simp: in_serial_def)
qed

lemma permit_release_inv:
  assumes "gateway_inv g" "gw_calls g c = Some k" "cl_pc k = AuthEnter" "rq_Tool (cl_request k) = ''computer_release''"
  shows "gateway_inv (permit_release x c k g)"
proof -
  let ?g = "prune (si_now x) g" and ?p = "zero_permit\<lparr>pm_request := cl_request k\<lparr>rq_Arguments := cloneArguments (rq_Arguments (cl_request k))\<rparr>,
    pm_expires := si_now x + 120\<rparr>"
  have adm: "admissible AuthEnter k" using gateway_invD(3) [OF assms(1,2)] assms(3) by simp
  have same: "gw_calls ?g = gw_calls g" "gw_drawn ?g = gw_drawn g" by (simp_all add: prune_def drop_permits_def)
  have inv: "gateway_inv ?g" by (rule quiet_inv [OF assms(1) quiet_prune])
  have good: "good_permit ?p"
    using adm assms(4) by (auto simp: good_permit_def admissible_def pc_defs cloneArguments_def windowed_def enters_text_def)
  have "gateway_inv (conclude Finished c k d (issue (si_id x) ?p ?g))" if "si_id x \<notin> gw_drawn g" for d
  proof (rule conclude_inv [OF issue_inv [OF inv _ good] _ exits(1) _ quiet_refl same_core_refl])
    show "si_id x \<notin> gw_drawn ?g" using that same by simp
    show "gw_calls (issue (si_id x) ?p ?g) c = Some k" using assms(2) same by simp
  qed simp
  then show ?thesis using assms(3) same unfolding permit_release_def Let_def
    by (auto intro!: refuse_inv [OF assms(1,2)] quiets inv)
qed

lemma auth_enter_inv:
  assumes "gateway_inv g" "gw_calls g c = Some k" "cl_pc k = AuthEnter"
  shows "gateway_inv (auth_enter cf x c k g)"
proof -
  have adm: "admissible AuthEnter k" using gateway_invD(3) [OF assms(1,2)] assms(3) by simp
  obtain h e where cl: "claimComputerLocked cf (si_acquire x) (cl_request k) g = (h, e)" by fastforce
  show ?thesis
    using permit_release_inv [OF assms] adm cl quiet_claim [OF cl] assms(3) unfolding auth_enter_def
    by (auto intro!: refuse_inv [OF assms(1,2)] goto_inv [OF assms(1,2)] simp: admissible_def pc_defs split: option.split)
qed

text \<open>Giving the token back.\<close>

lemma leave_inv:
  assumes "gateway_inv g" "gw_calls g c = Some k" "in_serial (cl_pc k)" "exit_pc pc" "\<not> in_serial pc"
  shows "gateway_inv (goto c k pc (g\<lparr>gw_serial := None\<rparr>))"
proof -
  have others: "\<not> in_serial (cl_pc l)" if "gw_calls g d = Some l" "d \<noteq> c" for d l
    using gateway_invD(2) [OF assms(1,2,3)] gateway_invD(2) [OF assms(1) that(1)] that(2) by auto
  have kept: "gateway_inv (goto c k pc g)" by (rule goto_exit [OF assms(1,2,4)]) (use assms in \<open>simp_all add: quiet_refl\<close>)
  have idle: "\<not> in_serial (cl_pc l)" if "gw_calls (goto c k pc g) d = Some l" for d l
    using that others [of d l] assms(5) by (auto simp: goto_def set_call_def split: if_splits)
  have "goto c k pc (g\<lparr>gw_serial := None\<rparr>) = (goto c k pc g)\<lparr>gw_serial := None\<rparr>" by (simp add: goto_def set_call_def)
  then show ?thesis
    using kept idle by (simp add: gateway_inv_def books_ok_def apart_def call_ok_def backed_def logged_def)
qed

lemma auth_cleanup_inv:
  assumes "gateway_inv g" "gw_calls g c = Some k" "cl_pc k = AuthCleanup"
  shows "gateway_inv (auth_cleanup x c k g)"
  unfolding auth_cleanup_def by (rule goto_exit [OF assms(1,2)]) (auto intro: quiet_same)

text \<open>Taking a permit.\<close>

lemma log_backed:
  assumes "books_ok g" "(c, i, r, t) \<in> set (gw_log g)"
  shows "\<exists>p. backed g i r p \<and> t = pm_target p"
proof -
  have "\<forall>(c, i, r, t) \<in> set (gw_log g). \<exists>p. backed g i r p \<and> t = pm_target p" using assms(1) by (simp add: books_ok_def)
  from bspec [OF this assms(2)] show ?thesis by simp
qed

lemma logged_spent: "books_ok g \<Longrightarrow> set (logged g) \<subseteq> set (gw_spent g)"
proof
  fix i
  assume b: "books_ok g" and "i \<in> set (logged g)"
  then obtain c r t where "(c, i, r, t) \<in> set (gw_log g)" by (auto simp: logged_def)
  then show "i \<in> set (gw_spent g)" using log_backed [OF b] by (metis backed_def)
qed

lemma permit_facts:
  assumes "books_ok g" "map_of (gw_permits g) i = Some p"
  shows "(i, p) \<in> set (gw_issued g)" "i \<notin> set (gw_spent g)" "i \<notin> set (logged g)"
proof -
  have "(i, p) \<in> set (gw_permits g)" using map_of_SomeD [OF assms(2)] .
  moreover have "set (gw_permits g) \<subseteq> set (gw_issued g)" "fst ` set (gw_permits g) \<inter> set (gw_spent g) = {}"
    using assms(1) by (simp_all add: books_ok_def)
  moreover have "i \<in> fst ` set (gw_permits g)" using calculation(1) by force
  ultimately show "(i, p) \<in> set (gw_issued g)" "i \<notin> set (gw_spent g)" by blast+
  then show "i \<notin> set (logged g)" using logged_spent [OF assms(1)] by blast
qed

definition spend :: "string \<Rightarrow> gateway \<Rightarrow> gateway" where
  "spend i g = g\<lparr>gw_permits := AList.delete i (gw_permits g), gw_spent := i # gw_spent g\<rparr>"

lemma spend_books:
  assumes "books_ok g" "map_of (gw_permits g) i = Some p"
  shows "books_ok (spend i g)"
proof -
  have fields: "gw_permits (spend i g) = filter (\<lambda>(j, _). i \<noteq> j) (gw_permits g)" "gw_issued (spend i g) = gw_issued g"
    "gw_spent (spend i g) = i # gw_spent g" "gw_drawn (spend i g) = gw_drawn g" "gw_log (spend i g) = gw_log g" "logged (spend i g) = logged g"
    by (simp_all add: spend_def logged_def AList.delete_eq)
  have "\<forall>(d, j, r, t) \<in> set (gw_log g). \<exists>q. backed g j r q \<and> t = pm_target q" using assms(1) by (simp add: books_ok_def)
  then have log: "\<forall>(d, j, r, t) \<in> set (gw_log g). \<exists>q. backed (spend i g) j r q \<and> t = pm_target q"
    by (fastforce elim!: ballE simp: backed_def fields)
  have "distinct (map fst (gw_permits g))" "set (gw_permits g) \<subseteq> set (gw_issued g)"
    "fst ` set (gw_permits g) \<inter> set (gw_spent g) = {}" "fst ` set (gw_issued g) \<subseteq> gw_drawn g"
    "set (gw_spent g) \<subseteq> fst ` set (gw_issued g)" "\<forall>(i, p) \<in> set (gw_issued g). good_permit p" "distinct (logged g)"
    using assms(1) by (simp_all add: books_ok_def)
  moreover have "i \<in> fst ` set (gw_issued g)" using permit_facts(1) [OF assms] by force
  ultimately show ?thesis
    unfolding books_ok_def fields using log by (auto simp: distinct_map_filter)
qed

lemma spend_call_ok: "call_ok g l \<Longrightarrow> call_ok (spend i g) l"
  by (auto simp: call_ok_def spend_def backed_def logged_def)

lemma spend_inv:
  assumes "gateway_inv g" "map_of (gw_permits g) i = Some p"
  shows "gateway_inv (spend i g)"
proof -
  have "books_ok (spend i g)" using assms(1) by (intro spend_books [OF _ assms(2)]) (simp add: gateway_inv_def)
  moreover have "gw_calls (spend i g) = gw_calls g" "gw_serial (spend i g) = gw_serial g" by (simp_all add: spend_def)
  ultimately show ?thesis using assms(1) spend_call_ok unfolding gateway_inv_def apart_def by simp
qed

lemma exec_take_inv:
  assumes "gateway_inv g" "gw_calls g c = Some k" "cl_pc k = ExecTake"
  shows "gateway_inv (exec_take x c k g)"
proof (cases "map_of (gw_permits g) (rq_Permit (cl_request k))")
  case None
  then show ?thesis using assms(3) by (auto simp: exec_take_def Let_def intro!: refuse_inv [OF assms(1,2)] quiets)
next
  case (Some p)
  let ?i = "rq_Permit (cl_request k)"
  let ?k = "k\<lparr>cl_pc := ExecSerial, cl_engine := gw_Engine g, cl_permit := p, cl_id := ?i\<rparr>"
  have b: "books_ok g" using assms(1) by (simp add: gateway_inv_def)
  note facts = permit_facts [OF b Some]
  have inv: "gateway_inv (spend ?i g)" by (rule spend_inv [OF assms(1) Some])
  have calls: "gw_calls (spend ?i g) = gw_calls g" "gw_serial (spend ?i g) = gw_serial g" by (simp_all add: spend_def)
  have failed: "gateway_inv (refuse Finished c k e (spend ?i g))" for e
    by (rule refuse_inv [OF inv _ exits(1) _ quiet_refl same_core_refl]) (simp_all add: calls assms(2))
  have taken: "gateway_inv (set_call c ?k (spend ?i g))" if "comparable (cl_request k) = comparable (pm_request p)"
  proof -
    have ok: "call_ok (set_call c ?k (spend ?i g)) ?k"
      using facts that by (auto simp: call_ok_def admissible_def pc_defs backed_def spend_def set_call_def logged_def)
    have others: "call_ok (set_call c ?k (spend ?i g)) l \<and> (holds_permit (cl_pc l) \<longrightarrow> cl_id l \<noteq> ?i) \<and> (in_serial (cl_pc l) \<longrightarrow> gw_serial g = Some d)"
      if "gw_calls g d = Some l" for d l
    proof -
      have "call_ok g l" "in_serial (cl_pc l) \<Longrightarrow> gw_serial g = Some d" using gateway_invD [OF assms(1) that] by simp_all
      then show ?thesis using facts(2) by (auto simp: call_ok_def backed_def spend_def set_call_def logged_def)
    qed
    have "apart (set_call c ?k (spend ?i g))"
      unfolding apart_def
    proof (intro allI impI)
      fix d d' l l'
      assume a: "gw_calls (set_call c ?k (spend ?i g)) d = Some l \<and> gw_calls (set_call c ?k (spend ?i g)) d' = Some l' \<and> d \<noteq> d'"
      show "\<not> (holds_permit (cl_pc l) \<and> holds_permit (cl_pc l') \<and> cl_id l = cl_id l')"
      proof (cases "d = c \<or> d' = c")
        case True
        have "cl_id m \<noteq> ?i" if "gw_calls g e = Some m" "holds_permit (cl_pc m)" for e m using others that by blast
        note ids = this
        from True show ?thesis
        proof
          assume "d = c"
          then have "cl_id l = ?i" "gw_calls g d' = Some l'" using a calls by (auto simp: set_call_def)
          then show ?thesis using ids by metis
        next
          assume "d' = c"
          then have "cl_id l' = ?i" "gw_calls g d = Some l" using a calls by (auto simp: set_call_def)
          then show ?thesis using ids by metis
        qed
      next
        case False
        then have "gw_calls g d = Some l" "gw_calls g d' = Some l'" using a calls by (auto simp: set_call_def)
        then show ?thesis using assms(1) a unfolding gateway_inv_def apart_def by blast
      qed
    qed
    moreover have "books_ok (set_call c ?k (spend ?i g))"
      using spend_books [OF b Some] by (simp add: books_ok_def set_call_def logged_def backed_def)
    ultimately show ?thesis
      using ok others by (auto simp: gateway_inv_def set_call_def spend_def in_serial_def)
  qed
  show ?thesis
    using Some taken failed refuse_inv [OF assms(1,2) exits(1)] unfolding exec_take_def Let_def spend_def
    by (auto simp: quiet_refl)
qed

lemma held_facts: "admissible (exec_held tool) k" "\<not> was_inspected (exec_held tool)"
  by (simp_all add: exec_held_def admissible_def pc_defs)

lemma exec_pcs [simp]: "admissible ExecInspect k" "admissible ExecObserved k" "admissible ExecProbe k" "admissible ExecProbing k"
  "admissible ExecStart k" "admissible (OwnEnter Action) k" "admissible (OwnReady Action e) k" "admissible (OwnRun Action e) k"
  by (simp_all add: admissible_def pc_defs)

lemma exec_serial_inv:
  assumes "gateway_inv g" "gw_calls g c = Some k" "cl_pc k = ExecSerial"
  shows "gateway_inv (wait_serial x (exec_held (rq_Tool (cl_request k))) Finished c k g)"
  by (rule wait_inv [OF assms(1,2)]) (use assms(3) held_facts in \<open>simp_all add: in_serial_def holds_permit_def\<close>)

lemma auth_serial_inv:
  assumes "gateway_inv g" "gw_calls g c = Some k" "cl_pc k = AuthSerial"
  shows "gateway_inv (wait_serial x AuthInspect AuthCleanup c k g)"
proof (rule wait_inv [OF assms(1,2)])
  show "admissible AuthInspect k" using gateway_invD(3) [OF assms(1,2)] assms(3) by (simp add: admissible_def pc_defs)
qed (use assms(3) in \<open>simp_all add: in_serial_def holds_permit_def\<close>)

lemma exec_inspect_inv:
  assumes "gateway_inv g" "gw_calls g c = Some k" "cl_pc k = ExecInspect"
  shows "gateway_inv (exec_inspect cf x c k g)"
  using assms(3) unfolding exec_inspect_def
  by (auto intro!: refuse_inv [OF assms(1,2)] goto_inv [OF assms(1,2)] quiets simp: in_serial_def holds_permit_def split: sum.split)

lemma exec_observed_inv:
  assumes "gateway_inv g" "gw_calls g c = Some k" "cl_pc k = ExecObserved"
  shows "gateway_inv (exec_observed c k g)"
  using assms(3) unfolding exec_observed_def
  by (auto intro!: refuse_inv [OF assms(1,2)] goto_inv [OF assms(1,2)] quiets simp: in_serial_def holds_permit_def)

lemma exec_probe_inv:
  assumes "gateway_inv g" "gw_calls g c = Some k" "cl_pc k = ExecProbe"
  shows "gateway_inv (exec_probe c k g)"
  using assms(3) unfolding exec_probe_def
  by (auto intro!: begin_probe_inv [OF assms(1,2)] goto_inv [OF assms(1,2)] quiets simp: in_serial_def holds_permit_def)

lemma exec_probing_inv:
  assumes "gateway_inv g" "gw_calls g c = Some k" "cl_pc k = ExecProbing"
  shows "gateway_inv (exec_probing x c k g)"
  using assms(3) unfolding exec_probing_def Let_def
  by (auto intro!: refuse_inv [OF assms(1,2)] goto_inv [OF assms(1,2)] quiets simp: in_serial_def holds_permit_def split: sum.split)

lemma exec_start_inv:
  assumes "gateway_inv g" "gw_calls g c = Some k" "cl_pc k = ExecStart"
  shows "gateway_inv (exec_start x c k g)"
proof -
  have "gateway_inv (set_call c (k\<lparr>cl_pc := OwnEnter Action, cl_args := a\<rparr>) (g\<lparr>gw_use := u, gw_observation := ob\<rparr>))" for a u ob
    by (rule step_inv [OF assms(1) _ assms(2)]) (use assms(3) in \<open>auto simp: admissible_def pc_defs intro: quiet_same\<close>)
  then show ?thesis using assms(3) unfolding exec_start_def Let_def
    by (auto intro!: refuse_inv [OF assms(1,2)] quiets simp: in_serial_def)
qed

text \<open>The phases of \<open>executeOwned\<close>.\<close>

lemma own_admissible:
  "admissible (OwnEnter p) k = admissible (OwnDone p) k" "admissible (OwnReady p e) k = admissible (OwnDone p) k"
  "admissible (OwnRun p e) k = admissible (OwnDone p) k" "admissible (Releasing es (ThenFailed p err)) k = admissible (OwnDone p) k"
  by (simp_all add: admissible_def pc_defs)

lemma own_holds [simp]: "\<not> holds_permit (OwnDone p)" "\<not> holds_permit (OwnRun p e)" "\<not> holds_permit (Releasing es after)"
  "holds_permit (OwnEnter p) = (p = Action)" "holds_permit (OwnReady p e) = (p = Action)"
  by (simp_all add: holds_permit_def)

lemma own_result_inv:
  assumes "gateway_inv g" "gw_calls g c = Some k" "admissible (OwnDone p) k" "in_serial (cl_pc k)" "quiet g h"
  shows "gateway_inv (own_result p c k v h)"
  unfolding own_result_def by (rule step_inv [OF assms(1,5,2)]) (use assms(3,4) in \<open>simp_all add: admissible_def\<close>)

lemma own_enter_inv:
  assumes "gateway_inv g" "gw_calls g c = Some k" "cl_pc k = OwnEnter p"
  shows "gateway_inv (own_enter p c k g)"
proof -
  have "admissible (OwnDone p) k" using gateway_invD(3) [OF assms(1,2)] assms(3) by (simp add: own_admissible)
  then show ?thesis using assms(3) unfolding own_enter_def Let_def
    by (auto intro!: own_result_inv [OF assms(1,2)] goto_inv [OF assms(1,2)] quiets simp: own_admissible split: option.split)
qed

lemma fail_owned_inv:
  assumes "gateway_inv g" "gw_calls g c = Some k" "admissible (OwnDone p) k" "in_serial (cl_pc k)"
  shows "gateway_inv (failOwnedAutomationEntry x p e c k err g)"
proof -
  obtain h old where r: "revokeLocked (si_released x) (scope_of (cl_request k)) g = (h, old)" by fastforce
  show ?thesis using assms(3,4) quiet_revoke [OF r] r unfolding failOwnedAutomationEntry_def
    by (auto intro!: own_result_inv [OF assms(1,2)] goto_inv [OF assms(1,2)] quiets simp: own_admissible)
qed

lemma log_inv:
  assumes "gateway_inv g" "gw_calls g c = Some k" "cl_pc k = OwnReady Action e"
  shows "gateway_inv (goto c k (OwnRun Action e) (log_action Action c k g))"
proof -
  let ?h = "goto c k (OwnRun Action e) (log_action Action c k g)"
  have ok: "backed g (cl_id k) (cl_request k) (cl_permit k)" "cl_id k \<notin> set (logged g)" "gw_serial g = Some c"
    using gateway_invD [OF assms(1,2)] assms(3) by (simp_all add: call_ok_def)
  have fields: "gw_log ?h = (c, cl_id k, cl_request k, pm_target (cl_permit k)) # gw_log g" "logged ?h = cl_id k # logged g"
    "gw_permits ?h = gw_permits g" "gw_issued ?h = gw_issued g" "gw_spent ?h = gw_spent g" "gw_drawn ?h = gw_drawn g" "gw_serial ?h = gw_serial g"
    by (simp_all add: goto_def set_call_def log_action_def logged_def)
  have backs: "backed ?h i r q = backed g i r q" for i r q by (simp add: backed_def fields)
  have b: "books_ok g" using assms(1) by (simp add: gateway_inv_def)
  have "\<forall>(d, j, r, t) \<in> set (gw_log g). \<exists>q. backed g j r q \<and> t = pm_target q" using b by (simp add: books_ok_def)
  moreover have "distinct (map fst (gw_permits g))" "set (gw_permits g) \<subseteq> set (gw_issued g)"
    "fst ` set (gw_permits g) \<inter> set (gw_spent g) = {}" "fst ` set (gw_issued g) \<subseteq> gw_drawn g"
    "set (gw_spent g) \<subseteq> fst ` set (gw_issued g)" "\<forall>(i, p) \<in> set (gw_issued g). good_permit p" "distinct (logged g)"
    using b by (simp_all add: books_ok_def)
  ultimately have books: "books_ok ?h"
    unfolding books_ok_def backs unfolding fields using ok by auto
  have calls: "gw_calls ?h d = (if d = c then Some (k\<lparr>cl_pc := OwnRun Action e\<rparr>) else gw_calls g d)" for d
    by (simp add: goto_def set_call_def log_action_def)
  have apart: "apart ?h"
    by (rule apart_mono [of g]) (use assms in \<open>auto simp: gateway_inv_def calls split: if_splits\<close>)
  have "call_ok ?h l \<and> (in_serial (cl_pc l) \<longrightarrow> gw_serial ?h = Some d)" if "gw_calls ?h d = Some l" for d l
  proof (cases "d = c")
    case True
    then have "l = k\<lparr>cl_pc := OwnRun Action e\<rparr>" using that by (simp add: calls)
    then show ?thesis using ok(3) True by (simp add: fields call_ok_def)
  next
    case False
    then have l: "gw_calls g d = Some l" using that by (simp add: calls)
    have "\<not> (holds_permit (cl_pc l) \<and> cl_id l = cl_id k)"
      using assms False l unfolding gateway_inv_def apart_def by (metis own_holds(5))
    then show ?thesis using gateway_invD [OF assms(1) l] by (auto simp: call_ok_def backs fields)
  qed
  then show ?thesis using books apart by (simp add: gateway_inv_def)
qed

lemma own_ready_inv:
  assumes "gateway_inv g" "gw_calls g c = Some k" "cl_pc k = OwnReady p e"
  shows "gateway_inv (own_ready x p e c k g)"
proof -
  have adm: "admissible (OwnDone p) k" using gateway_invD(3) [OF assms(1,2)] assms(3) by (simp add: own_admissible)
  have run: "gateway_inv (goto c k (OwnRun p e) (log_action p c k g))"
  proof (cases p)
    case Refresh
    then show ?thesis using adm assms(3)
      by (intro goto_inv [OF assms(1,2)]) (simp_all add: own_admissible log_action_def quiet_refl)
  next
    case Action
    then show ?thesis using log_inv assms by simp
  qed
  have out: "gateway_inv (own_result p c k v g)" for v
    by (rule own_result_inv [OF assms(1,2) adm]) (simp_all add: assms(3) quiet_refl)
  have failed: "gateway_inv (failOwnedAutomationEntry x p e c k err g)" for err
    by (rule fail_owned_inv [OF assms(1,2) adm]) (simp add: assms(3))
  show ?thesis
    using run out failed assms(1) unfolding own_ready_def by (simp split: option.split sum.split bool.split)
qed

lemma own_run_inv:
  assumes "gateway_inv g" "gw_calls g c = Some k" "cl_pc k = OwnRun p e"
  shows "gateway_inv (own_run x p e c k g)"
proof -
  have adm: "admissible (OwnDone p) k" using gateway_invD(3) [OF assms(1,2)] assms(3) by (simp add: own_admissible)
  have out: "gateway_inv (own_result p c k v g)" for v
    by (rule own_result_inv [OF assms(1,2) adm]) (simp_all add: assms(3) quiet_refl)
  have failed: "gateway_inv (failOwnedAutomationEntry x p e c k err g)" for err
    by (rule fail_owned_inv [OF assms(1,2) adm]) (simp add: assms(3))
  show ?thesis using out failed unfolding own_run_def by (simp split: sum.split)
qed

text \<open>The end of an execution, and the calls that take back.\<close>

lemma exec_after_inv:
  assumes "gateway_inv g" "gw_calls g c = Some k" "cl_pc k = OwnDone Action"
  shows "gateway_inv (exec_after cf x c k g)"
proof -
  have q: "quiet g (g\<lparr>gw_observation := ob\<rparr>)" for ob by (rule quiet_same) simp_all
  show ?thesis using assms(3) unfolding exec_after_def exec_content_def Let_def
    by (auto intro!: refuse_inv [OF assms(1,2)] conclude_inv [OF assms(1,2)] quiets q split: sum.split)
qed

lemma exec_finish_inv:
  assumes "gateway_inv g" "gw_calls g c = Some k" "cl_pc k = ExecFinish"
  shows "gateway_inv (exec_finish c k g)"
proof -
  have q: "quiet g (g\<lparr>gw_use := u\<rparr>)" for u by (rule quiet_same) simp_all
  show ?thesis using assms(3) unfolding exec_finish_def by (auto intro!: goto_exit [OF assms(1,2)] quiets q)
qed

lemma ReleaseComputer_inv:
  assumes "gateway_inv g" "gw_calls g c = Some k" "holding \<longrightarrow> in_serial (cl_pc k)"
  shows "gateway_inv (ReleaseComputer x holding c k g)"
proof -
  obtain h old where r: "revokeLocked (si_released x) (scope_of (cl_request k)) g = (h, old)" by fastforce
  show ?thesis using assms(3) quiet_revoke [OF r] r unfolding ReleaseComputer_def Let_def
    by (auto intro!: refuse_inv [OF assms(1,2)] conclude_inv [OF assms(1,2)] goto_exit [OF assms(1,2)] quiets)
qed

lemma ComputerTurn_inv:
  assumes "gateway_inv g" "gw_calls g c = Some k"
  shows "gateway_inv (ComputerTurn x c k g)"
proof -
  have q: "quiet g (refuse_session s (g\<lparr>gw_sessions := ss, gw_observation := ob\<rparr>))"
    "quiet g (refuse_session s ((draw i g)\<lparr>gw_sessions := ss, gw_observation := ob\<rparr>))" for s ss ob i
    by (rule quiet_trans [OF quiet_same quiet_session]; simp)
      (rule quiet_trans [OF quiet_trans [OF quiet_draw quiet_same] quiet_session]; simp)
  show ?thesis unfolding ComputerTurn_def Let_def
    by (simp add: refuse_inv [OF assms] conclude_inv [OF assms] quiet_refl q assms(1))
qed

lemma DiscardComputerPermit_inv:
  assumes "gateway_inv g" "gw_calls g c = Some k"
  shows "gateway_inv (DiscardComputerPermit c k g)"
proof -
  have "quiet g (g\<lparr>gw_permits := AList.delete i (gw_permits g)\<rparr>)" for i
    by (auto simp: quiet_def AList.delete_eq)
  then show ?thesis unfolding DiscardComputerPermit_def by (intro conclude_inv [OF assms]) simp_all
qed

lemma stop_conversation_inv:
  assumes "gateway_inv g" "gw_calls g c = Some k" "exit_pc (Releasing [] after)" "\<not> in_serial (Releasing [] after)"
  shows "gateway_inv (stop_conversation x after c k g)"
proof -
  let ?m = "mark_stopped (rq_Session (cl_request k)) (rq_Lifetime (cl_request k)) g"
  obtain h old where r: "revokeLocked (si_released x) (scope_of (cl_request k)) ?m = (h, old)" by fastforce
  have "quiet g h" by (rule quiet_trans [OF quiet_mark quiet_revoke [OF r]])
  then show ?thesis using assms(3,4) r unfolding stop_conversation_def
    by (auto intro!: goto_exit [OF assms(1,2)] simp: exit_pc_def pc_defs)
qed

lemma stop_report_inv:
  assumes "gateway_inv g" "gw_calls g c = Some k"
  shows "gateway_inv (stop_report c k g)"
proof -
  have q: "quiet g (g\<lparr>gw_use := u\<rparr>)" for u by (rule quiet_same) simp_all
  show ?thesis unfolding stop_report_def Let_def
    by (auto intro!: refuse_inv [OF assms] conclude_inv [OF assms] quiets q split: option.split)
qed

lemma answer_start_inv:
  assumes "gateway_inv g" "gw_calls g c = Some k"
  shows "gateway_inv (answer_start x i choice c k g)"
proof -
  have q: "quiet g (g\<lparr>gw_op := w\<rparr>)" for w by (rule quiet_same) simp_all
  show ?thesis unfolding answer_start_def
    by (auto intro!: refuse_inv [OF assms] goto_exit [OF assms] quiets q assms(1) split: option.split)
qed

lemma answer_save_inv:
  assumes "gateway_inv g" "gw_calls g c = Some k"
  shows "gateway_inv (answer_save x i p c k g)"
proof -
  have q: "quiet g (g\<lparr>gw_policy := w, gw_policyRevision := v\<rparr>)" for w v by (rule quiet_same) simp_all
  show ?thesis unfolding answer_save_def
    by (auto intro!: refuse_inv [OF assms] goto_exit [OF assms] quiets q)
qed

text \<open>An answer reaches another call, so this call's own record has to be read again.\<close>

lemma answer_choose_inv:
  assumes "gateway_inv g" "gw_calls g c = Some k"
  shows "gateway_inv (answer_choose x i choice c k g)"
proof -
  have "quiet g (release_op c (offer b d (g\<lparr>gw_pending := ps\<rparr>)))" for b d ps
    by (rule quiet_trans [OF quiet_trans [OF quiet_same quiet_offer] quiet_op]) simp_all
  then show ?thesis unfolding answer_choose_def
    by (auto intro!: refuse_inv [OF assms] conclude_inv [OF assms] quiets split: option.split)
qed

lemma operation_start_inv:
  assumes "gateway_inv g" "gw_calls g c = Some k"
  shows "gateway_inv (operation_start x op c k g)"
proof -
  have q: "quiet g (g\<lparr>gw_op := w\<rparr>)" for w by (rule quiet_same) simp_all
  show ?thesis unfolding operation_start_def
    by (auto intro!: conclude_inv [OF assms] goto_exit [OF assms] quiets q assms(1) split: option.split)
qed

lemma operation_end_inv:
  assumes "gateway_inv g" "gw_calls g c = Some k"
  shows "gateway_inv (operation_end x op c k g)"
proof -
  obtain h old where r: "operation_apply x op g = (h, old)" by fastforce
  show ?thesis using quiet_operation [OF r] r unfolding operation_end_def
    by (auto intro!: refuse_inv [OF assms] goto_exit [OF assms] quiets)
qed

lemma released_engines_inv:
  assumes "gateway_inv g" "gw_calls g c = Some k" "cl_pc k = Releasing es after"
  shows "gateway_inv (released_engines es after c k g)"
proof (cases after)
  case ThenNothing
  have "quiet g (release_op c (finishComputerEntries es g))" by (rule quiet_trans [OF quiet_finish quiet_op])
  then show ?thesis using ThenNothing assms(1) unfolding released_engines_def Let_def
    by (auto intro!: goto_exit [OF assms(1,2)])
next
  case (ThenFailed p e)
  then have "admissible (OwnDone p) k" using gateway_invD(3) [OF assms(1,2)] assms(3) by (simp add: own_admissible)
  then show ?thesis using ThenFailed assms(1,3) unfolding released_engines_def Let_def
    by (auto intro!: own_result_inv [OF assms(1,2)] quiets)
next
  case (ThenReleased b)
  then show ?thesis using assms(1,3) unfolding released_engines_def Let_def
    by (auto intro!: refuse_inv [OF assms(1,2)] conclude_inv [OF assms(1,2)] quiets)
next
  case ThenStopped
  then show ?thesis using assms(1) unfolding released_engines_def Let_def
    by (auto intro!: goto_exit [OF assms(1,2)] quiets)
qed

lemma leaves_inv:
  assumes "gateway_inv g" "gw_calls g c = Some k"
  shows "cl_pc k = AuthLeave \<Longrightarrow> gateway_inv (auth_leave c k g)" "cl_pc k = ExecLeave \<Longrightarrow> gateway_inv (exec_leave c k g)"
  unfolding auth_leave_def exec_leave_def by (rule leave_inv [OF assms]; simp)+

lemmas call_step_invs = auth_start_inv auth_enter_inv auth_serial_inv auth_inspect_inv auth_consent_inv auth_pending_inv auth_observe_inv
  auth_probing_inv auth_recheck_inv auth_grant_inv leaves_inv auth_cleanup_inv exec_take_inv exec_serial_inv exec_inspect_inv
  exec_observed_inv exec_probe_inv exec_probing_inv exec_start_inv exec_finish_inv own_enter_inv own_ready_inv own_run_inv
  ComputerTurn_inv DiscardComputerPermit_inv answer_start_inv answer_save_inv answer_choose_inv operation_start_inv operation_end_inv
  released_engines_inv stop_report_inv

lemma call_step_inv:
  assumes "gateway_inv g" "gw_calls g c = Some k"
  shows "gateway_inv (call_step cf x c k g)"
proof (cases "cl_pc k")
  case AuthProbe
  then have "admissible AuthProbing k" using gateway_invD(3) [OF assms] by (simp add: admissible_def pc_defs)
  then show ?thesis using AuthProbe unfolding call_step_def
    by (simp add: begin_probe_inv [OF assms]) (simp add: begin_probe_inv [OF assms] in_serial_def holds_permit_def)
next
  case (OwnDone p)
  then show ?thesis using refresh_done_inv [OF assms] exec_after_inv [OF assms] by (cases p) (simp_all add: call_step_def)
next
  case ExecRelease
  then show ?thesis by (simp add: call_step_def ReleaseComputer_inv [OF assms] in_serial_def)
next
  case ReleaseStart
  then show ?thesis by (simp add: call_step_def ReleaseComputer_inv [OF assms])
next
  case StopUseStart
  then show ?thesis by (simp add: call_step_def StopComputerUse_def stop_conversation_inv [OF assms])
next
  case StopSessionStart
  then show ?thesis
    by (simp add: call_step_def StopSession_def stop_conversation_inv [OF assms] goto_exit [OF assms] quiet_refl)
next
  case Finished
  then show ?thesis using assms(1) by (simp add: call_step_def)
qed (use call_step_invs [OF assms] in \<open>simp_all add: call_step_def\<close>)

lemma begin_call_inv:
  assumes "gateway_inv g"
  shows "gateway_inv (begin_call c pc r g)"
proof (cases "gw_calls g c = None \<and> start_pc pc")
  case True
  define k where "k = new_call pc (if pc = AuthStart \<or> pc = ExecTake then r\<lparr>rq_Operation := ''computer''\<rparr> else r)"
  have pc: "cl_pc k = pc" "exit_pc pc" "\<not> in_serial pc"
    using True by (simp_all add: k_def new_call_def start_pc_def exit_pc_def pc_defs split: call_pc.splits)
  have calls: "gw_calls (set_call c k g) d = (if d = c then Some k else gw_calls g d)" for d by (simp add: set_call_def)
  have "apart (set_call c k g)"
    unfolding apart_def
  proof (intro allI impI)
    fix d d' l l'
    assume a: "gw_calls (set_call c k g) d = Some l \<and> gw_calls (set_call c k g) d' = Some l' \<and> d \<noteq> d'"
    show "\<not> (holds_permit (cl_pc l) \<and> holds_permit (cl_pc l') \<and> cl_id l = cl_id l')"
    proof (cases "d = c \<or> d' = c")
      case True
      then show ?thesis using a pc by (auto simp: calls exit_pc_def split: if_splits)
    next
      case False
      then have "gw_calls g d = Some l" "gw_calls g d' = Some l'" using a by (simp_all add: calls)
      then show ?thesis using assms a unfolding gateway_inv_def apart_def by blast
    qed
  qed
  moreover have "books_ok (set_call c k g)"
    using assms by (simp add: gateway_inv_def books_ok_def set_call_def logged_def backed_def)
  moreover have "call_ok (set_call c k g) l \<and> (in_serial (cl_pc l) \<longrightarrow> gw_serial (set_call c k g) = Some d)"
    if "gw_calls (set_call c k g) d = Some l" for d l
  proof (cases "d = c")
    case True
    then have "l = k" using that by (simp add: calls)
    then show ?thesis using pc by (simp add: call_ok_def exit_pc_def admissible_def)
  next
    case False
    then show ?thesis using that gateway_invD [OF assms, of d l] by (simp add: calls call_ok_def backed_def logged_def set_call_def)
  qed
  ultimately have "gateway_inv (set_call c k g)" by (simp add: gateway_inv_def)
  then show ?thesis using True by (simp add: begin_call_def k_def)
qed (auto simp: begin_call_def assms)

lemma cancel_quiet: "quiet g (cancel_call c g)"
  by (auto simp: quiet_def cancel_call_def set_call_def essence_def split: option.split intro: exI [of _ "\<lambda>_. True"])

lemma gateway_step_inv:
  assumes "gateway_inv g"
  shows "gateway_inv (gateway_step cf a g)"
proof (cases a)
  case (Step x c)
  then show ?thesis using assms call_step_inv [OF assms] by (simp split: option.split)
next
  case (Dependency c d)
  then show ?thesis by (auto intro!: quiet_inv [OF assms] quiet_same)
qed (auto intro: quiet_inv [OF assms] quiets cancel_quiet begin_call_inv [OF assms])

lemma configured_inv: "gateway_inv (ConfigureComputerGateway engine enabled policy)"
  by (simp add: ConfigureComputerGateway_def gateway_inv_def books_ok_def apart_def logged_def)

interpretation gateways: invariant_system "ConfigureComputerGateway engine enabled policy" "gateway_step cf" gateway_inv for engine enabled policy cf
  by unfold_locales (rule configured_inv, rule gateway_step_inv)



end
