(* ===== verification/Computer_Stop.thy ===== *)
theory Computer_Stop
  imports Computer_Safety
begin

text \<open>
  After a conversation was stopped, nothing that was requested before carries on: neither a permit it still
  holds nor a call that is under way makes an engine act.
\<close>

subsection \<open>Epochs and the list of stopped conversations\<close>

text \<open>What decides over a request: a step leaves it alone, stops a conversation, or begins a new epoch.\<close>

definition kept :: "gateway \<Rightarrow> gateway \<Rightarrow> bool" where
  "kept g h \<longleftrightarrow> gw_Epoch h = gw_Epoch g \<and> gw_stopped h = gw_stopped g \<and> gw_log h = gw_log g"

named_theorems kepts

lemma kept_trans: "kept g h \<Longrightarrow> kept h i \<Longrightarrow> kept g i"
  by (simp add: kept_def)

lemma kept_self [kepts]: "kept g g"
  by (simp add: kept_def)

lemma kept_fields: "gw_Epoch h = gw_Epoch g \<Longrightarrow> gw_stopped h = gw_stopped g \<Longrightarrow> gw_log h = gw_log g \<Longrightarrow> kept g h"
  by (simp add: kept_def)

lemma kept_set [simp]: "kept g (set_call c k h) = kept g h" "kept g (goto c k pc h) = kept g h" "kept g (conclude pc c k v h) = kept g h"
  "kept g (refuse pc c k e h) = kept g h" "kept g (own_result p c k w h) = kept g h"
  by (simp_all add: kept_def set_call_def goto_def conclude_def refuse_def own_result_def)

lemma kept_fold: "(\<And>x g. kept g (f x g)) \<Longrightarrow> kept g (fold f xs g)"
  by (induction xs arbitrary: g) (auto intro: kept_self kept_trans)

lemma kept_offer: "kept g (offer b c g)"
  by (simp add: kept_def offer_def set_call_def split: option.split)

lemma kept_drop [kepts]: "kept g (drop_permits P g)"
  by (simp add: kept_def drop_permits_def)

lemma kept_prune [kepts]: "kept g (prune now g)"
  by (simp add: prune_def kept_drop)

lemma kept_issue [kepts]: "kept g (issue i p g)"
  by (simp add: kept_def issue_def draw_def)

lemma kept_draw [kepts]: "kept g (draw i g)"
  by (simp add: kept_def draw_def)

lemma kept_refuse [kepts]: "kept g (refuse_pending P g)"
  unfolding refuse_pending_def Let_def
  by (rule kept_trans [OF kept_fold kept_fields]) (auto simp: kept_offer)

lemma kept_owner [kepts]: "kept g (release_owner e g)"
  by (simp add: kept_def release_owner_def Let_def)

lemma kept_revoke_computer [kepts]: "kept g (revokeComputerLocked e scope g)"
proof -
  have mid: "kept g (refuse_pending P (drop_permits Q g))" for P Q by (rule kept_trans [OF kept_drop kept_refuse])
  show ?thesis unfolding revokeComputerLocked_def Let_def using mid kept_trans [OF mid kept_owner] by simp
qed

lemma kept_revoke_engine: "kept g (revoke_engine e g)"
  by (simp add: kept_def revoke_engine_def split: option.split)

lemma kept_revoke: "revokeLocked e scope g = (h, old) \<Longrightarrow> kept g h"
  unfolding revokeLocked_def Let_def prod.inject
  by (elim conjE, hypsubst) (rule kept_trans [OF kept_revoke_computer kept_trans [OF kept_fold kept_fields]], simp_all add: kept_revoke_engine)

lemma kept_more [kepts]: "kept g (finishComputerEntries es g)" "kept g (release_op c g)" "kept g (end_probe c err g)" "kept g (new_engine r g)"
  "kept g (engine_ready e res g)" "kept g (closeEntry e err2 rel g)" "kept g (forget_lease g)"
  by (simp_all add: kept_def finishComputerEntries_def release_op_def end_probe_def new_engine_def engine_ready_def closeEntry_def
      forget_lease_def Let_def split: option.split)

lemma kept_take: "take_desktop cf a r g = (h, e) \<Longrightarrow> kept g h"
  by (rule kept_fields) (auto simp: take_desktop_def Let_def split: if_splits sum.splits bool.splits)

lemma kept_claim: "claimComputerLocked cf a r g = (h, e) \<Longrightarrow> kept g h"
  unfolding claimComputerLocked_def Let_def
  by (auto split: if_splits intro: kepts kept_trans [OF kept_more(7) kept_take])

lemma kept_session [kepts]: "kept g (refuse_session s g)"
  unfolding refuse_session_def by (rule kept_trans [OF kept_drop kept_refuse])

lemma kept_spend [kepts]: "kept g (spend i g)"
  by (simp add: kept_def spend_def)

text \<open>The steps of the two big calls.\<close>

lemma kept_auth:
  "kept g (auth_start c k g)" "kept g (wait_serial x held done_pc c k g)" "kept g (auth_inspect cf x c k g)" "kept g (auth_consent cf x c k g)"
  "kept g (auth_pending x i c k g)" "kept g (auth_observe cf x c k g)" "kept g (refresh_done x c k g)" "kept g (begin_probe pc pc' c k g)"
  "kept g (auth_recheck cf x c k g)" "kept g (auth_leave c k g)" "kept g (auth_cleanup x c k g)"
  by (simp_all add: auth_start_def wait_serial_def auth_inspect_def auth_consent_def auth_pending_def auth_observe_def refresh_done_def
      begin_probe_def auth_recheck_def auth_leave_def auth_cleanup_def Let_def draw_def kept_self kept_fields split: option.split sum.split)

lemma kept_auth_enter: "kept g (auth_enter cf x c k g)"
proof -
  obtain h e where cl: "claimComputerLocked cf (si_acquire x) (cl_request k) g = (h, e)" by fastforce
  have "kept g (permit_release x c k g)"
    by (simp add: permit_release_def Let_def kepts kept_trans [OF kept_prune kept_issue])
  then show ?thesis using kept_claim [OF cl] cl by (simp add: auth_enter_def split: option.split)
qed

lemma kept_auth_rest: "kept g (auth_probing x c k g)" "kept g (auth_grant x c k g)"
  by (simp_all add: auth_probing_def auth_grant_def Let_def kepts kept_trans [OF kept_prune kept_issue] kept_trans [OF kept_prune kept_draw]
      split: sum.split)

lemma kept_exec: "kept g (exec_take x c k g)" "kept g (exec_inspect cf x c k g)" "kept g (exec_observed c k g)" "kept g (exec_probe c k g)"
  "kept g (exec_probing x c k g)" "kept g (exec_start x c k g)" "kept g (exec_after cf x c k g)" "kept g (exec_finish c k g)"
  "kept g (exec_leave c k g)" "kept g (own_enter p c k g)"
  by (simp_all add: exec_take_def exec_inspect_def exec_observed_def exec_probe_def kept_auth(8) exec_probing_def exec_start_def
      exec_after_def exec_content_def exec_finish_def exec_leave_def own_enter_def Let_def kepts kept_fields split: option.split sum.split)

lemma kept_fail: "kept g (failOwnedAutomationEntry x p e c k err g)"
proof -
  obtain h old where r: "revokeLocked (si_released x) (scope_of (cl_request k)) g = (h, old)" by fastforce
  show ?thesis using kept_revoke [OF r] r by (simp add: failOwnedAutomationEntry_def kept_self)
qed

lemma kept_run: "kept g (own_run x p e c k g)"
  by (simp add: own_run_def kept_fail kept_self split: sum.split)

lemma kept_release: "kept g (ReleaseComputer x holding c k g)"
proof -
  obtain h old where r: "revokeLocked (si_released x) (scope_of (cl_request k)) g = (h, old)" by fastforce
  show ?thesis using kept_revoke [OF r] r by (simp add: ReleaseComputer_def Let_def kept_self)
qed

lemma kept_turn: "kept g (ComputerTurn x c k g)"
  by (simp add: ComputerTurn_def Let_def kept_self kept_trans [OF kept_fields kept_session] draw_def)

lemma kept_rest: "kept g (DiscardComputerPermit c k g)" "kept g (stop_report c k g)" "kept g (answer_start x i ch c k g)"
  "kept g (answer_save x i p c k g)" "kept g (operation_start x op c k g)"
  by (simp_all add: DiscardComputerPermit_def stop_report_def answer_start_def answer_save_def operation_start_def Let_def kepts kept_fields
      split: option.split)

lemma kept_choose: "kept g (answer_choose x i choice c k g)"
proof -
  have "kept g (release_op c (offer b d (g\<lparr>gw_pending := ps\<rparr>)))" for b d ps
    by (rule kept_trans [OF kept_trans [OF kept_fields kept_offer] kept_more(2)]) simp_all
  then show ?thesis by (simp add: answer_choose_def kepts split: option.split)
qed

lemma kept_released: "kept g (released_engines es after c k g)"
  by (simp add: released_engines_def Let_def kepts kept_trans [OF kept_more(1) kept_more(2)] split: aftermath.split)

lemma kept_begin: "kept g (begin_call c pc r g)" "kept g (cancel_call c g)"
  by (simp_all add: begin_call_def cancel_call_def kept_self split: option.split)

subsection \<open>What a step does to them\<close>

definition same_epochs :: "gateway \<Rightarrow> gateway \<Rightarrow> bool" where
  "same_epochs g h \<longleftrightarrow> gw_Epoch h = gw_Epoch g \<and> gw_stopped g \<subseteq> gw_stopped h"

definition next_epochs :: "gateway \<Rightarrow> gateway \<Rightarrow> bool" where
  "next_epochs g h \<longleftrightarrow> gw_Epoch h Computer = gw_Epoch g Computer + 1 \<and> gw_Epoch h AUV = gw_Epoch g AUV + 1"

definition decided :: "gateway \<Rightarrow> gateway \<Rightarrow> bool" where
  "decided g h \<longleftrightarrow> (same_epochs g h \<or> next_epochs g h) \<and>
     (gw_log h = gw_log g \<or> (\<exists>c i r t. gw_log h = (c, i, r, t) # gw_log g \<and> computerValidLocked g r))"

lemma kept_decided: "kept g h \<Longrightarrow> decided g h"
  by (simp add: kept_def decided_def same_epochs_def)

lemma decided_apply:
  assumes "operation_apply x op g = (h, old)"
  shows "decided g h"
proof (cases op)
  case (SetEnabled b)
  obtain g1 old1 where r: "revokeLocked (si_released x) [] (bump_computer (g\<lparr>gw_Enabled := b\<rparr>)) = (g1, old1)" by fastforce
  then show ?thesis using assms SetEnabled kept_revoke [OF r]
    by (auto simp: operation_apply_def kept_def decided_def next_epochs_def bump_computer_def split: if_splits)
next
  case (SetPolicy n p)
  obtain g1 old1 where r: "revokeLocked (si_released x) []
      (g\<lparr>gw_policy := NormalizeComputerPolicy (Some p), gw_policyRevision := gw_policyRevision g + 1\<rparr>) = (g1, old1)" by fastforce
  then show ?thesis using assms SetPolicy kept_revoke [OF r]
    by (auto simp: operation_apply_def kept_def decided_def next_epochs_def bump_computer_def)
next
  case (Worker generation ready profile)
  obtain g1 old1 where r: "revokeLocked (si_released x) [] g = (g1, old1)" by fastforce
  then show ?thesis using assms Worker kept_revoke [OF r]
    by (auto simp: operation_apply_def kept_def decided_def next_epochs_def worker_reset_def bump_def Let_def)
next
  case (Connection generation b)
  obtain g1 old1 where r: "revokeLocked (si_released x) [] (g\<lparr>gw_Connected := False\<rparr>) = (g1, old1)" by fastforce
  then show ?thesis using assms Connection kept_revoke [OF r]
    by (auto simp: operation_apply_def kept_def decided_def next_epochs_def same_epochs_def bump_def split: if_splits)
next
  case (SelectEngine engine)
  then show ?thesis using assms by (auto simp: operation_apply_def decided_def next_epochs_def bump_computer_def)
qed

lemma decided_set [simp]: "decided g (goto c k pc h) = decided g h" "decided g (refuse pc c k e h) = decided g h"
  by (simp_all add: decided_def same_epochs_def next_epochs_def goto_def refuse_def conclude_def set_call_def)

lemma decided_end: "decided g (operation_end x op c k g)"
proof -
  obtain h old where r: "operation_apply x op g = (h, old)" by fastforce
  show ?thesis using decided_apply [OF r] r by (simp add: operation_end_def kept_decided [OF kept_more(2)])
qed

lemma marked: "gw_Epoch (mark_stopped s l g) = gw_Epoch g" "gw_log (mark_stopped s l g) = gw_log g"
  "gw_stopped (mark_stopped s l g) =
     insert (revocationKey Computer (gw_Epoch g Computer) s l) (insert (revocationKey AUV (gw_Epoch g AUV) s l) (gw_stopped g))"
  by (simp_all add: mark_stopped_def)

lemma stop_effect:
  "gw_Epoch (stop_conversation x after c k g) = gw_Epoch g" "gw_log (stop_conversation x after c k g) = gw_log g"
  "gw_stopped (stop_conversation x after c k g) = gw_stopped (mark_stopped (rq_Session (cl_request k)) (rq_Lifetime (cl_request k)) g)"
proof -
  let ?m = "mark_stopped (rq_Session (cl_request k)) (rq_Lifetime (cl_request k)) g"
  obtain h old where r: "revokeLocked (si_released x) (scope_of (cl_request k)) ?m = (h, old)" by fastforce
  show "gw_Epoch (stop_conversation x after c k g) = gw_Epoch g" "gw_log (stop_conversation x after c k g) = gw_log g"
    "gw_stopped (stop_conversation x after c k g) = gw_stopped ?m"
    using kept_revoke [OF r] r by (simp_all add: stop_conversation_def kept_def goto_def set_call_def marked)
qed

lemma decided_stop: "decided g (stop_conversation x after c k g)"
  by (auto simp: decided_def same_epochs_def stop_effect marked)

lemma decided_ready: "decided g (own_ready x p e c k g)"
proof -
  have run: "decided g (goto c k (OwnRun p e) (log_action p c k g))" if "computerValidLocked g (cl_request k)"
    using that by (cases p) (auto simp: decided_def same_epochs_def log_action_def goto_def set_call_def)
  have out: "decided g (own_result p c k v g)" for v by (rule kept_decided) (simp add: kept_self)
  have failed: "decided g (failOwnedAutomationEntry x p e c k err g)" for err by (rule kept_decided [OF kept_fail])
  have same: "decided g g" by (rule kept_decided [OF kept_self])
  show ?thesis using run out failed same by (simp add: own_ready_def usable_def split: option.split sum.split bool.split)
qed

lemmas kept_steps = kept_auth kept_auth_enter kept_auth_rest kept_exec kept_run kept_release kept_turn kept_rest kept_choose kept_released

lemma decided_call: "decided g (call_step cf x c k g)"
  unfolding call_step_def
  by (simp add: kept_decided [OF kept_self] decided_end decided_stop decided_ready StopComputerUse_def StopSession_def kept_steps [THEN kept_decided]
      split: call_pc.split purpose.split)

lemma decided_step: "decided g (gateway_step cf a g)"
proof (cases a)
  case (Step x c)
  then show ?thesis using decided_call kept_decided [OF kept_self] by (simp split: option.split)
qed (simp_all add: kept_decided [OF kept_begin(1)] kept_decided [OF kept_begin(2)] kept_decided [OF kept_more(5)]
  kept_decided [OF kept_more(6)] kept_decided [OF kept_fields])

subsection \<open>A stopped conversation\<close>

interpretation epochs: invariant_system "ConfigureComputerGateway engine enabled policy" "gateway_step cf"
  "\<lambda>g :: gateway. gw_Epoch g AUV = gw_Epoch g Computer" for engine enabled policy cf
proof unfold_locales
  show "gw_Epoch (ConfigureComputerGateway engine enabled policy) AUV = gw_Epoch (ConfigureComputerGateway engine enabled policy) Computer"
    by (simp add: ConfigureComputerGateway_def)
  fix g :: gateway and a
  assume "gw_Epoch g AUV = gw_Epoch g Computer"
  then show "gw_Epoch (gateway_step cf a g) AUV = gw_Epoch (gateway_step cf a g) Computer"
    using decided_step [of g cf a] by (auto simp: decided_def same_epochs_def next_epochs_def)
qed

text \<open>A conversation of an epoch is over: it is on the list of that epoch, or the epoch is past, by at most \<open>n\<close>.\<close>

definition over :: "nat \<Rightarrow> string \<Rightarrow> string \<Rightarrow> 64 word \<Rightarrow> gateway \<Rightarrow> bool" where
  "over n session life epoch g \<longleftrightarrow> gw_Epoch g AUV = gw_Epoch g Computer \<and>
     (gw_Epoch g Computer = epoch \<and> revocationKey Computer epoch session life \<in> gw_stopped g \<or>
      0 < unat (gw_Epoch g Computer - epoch) \<and> unat (gw_Epoch g Computer - epoch) \<le> n)"

lemma over_invalid:
  assumes "over n (rq_Session r) (rq_Lifetime r) (rq_Epoch r) g"
  shows "\<not> computerValidLocked g r"
  using assms by (auto simp: over_def computerValidLocked_def engine_slot_def)

lemma next_word:
  assumes "unat (d :: 64 word) \<le> n" "Suc n < 2 ^ 64"
  shows "unat (d + 1) = Suc (unat d)"
  using assms by (simp add: unat_word_ariths(1))

lemma over_step:
  assumes "over n session life epoch g" "Suc n < 2 ^ 64"
  shows "over (Suc n) session life epoch (gateway_step cf a g)"
proof -
  let ?h = "gateway_step cf a g"
  consider "same_epochs g ?h" | "next_epochs g ?h" using decided_step [of g cf a] by (auto simp: decided_def)
  then show ?thesis
  proof cases
    case 1
    then show ?thesis using assms(1) by (auto simp: over_def same_epochs_def)
  next
    case 2
    have d: "gw_Epoch ?h Computer - epoch = gw_Epoch g Computer - epoch + 1" using 2 by (simp add: next_epochs_def)
    have le: "unat (gw_Epoch g Computer - epoch) \<le> n" using assms(1) by (auto simp: over_def)
    have "unat (gw_Epoch ?h Computer - epoch) = Suc (unat (gw_Epoch g Computer - epoch))" unfolding d by (rule next_word [OF le assms(2)])
    moreover have "gw_Epoch ?h AUV = gw_Epoch ?h Computer" using 2 assms(1) by (simp add: next_epochs_def over_def)
    ultimately show ?thesis unfolding over_def using le by (intro conjI disjI2) simp_all
  qed
qed

definition concerns :: "computer_request \<Rightarrow> nat \<times> string \<times> computer_request \<times> computer_target \<Rightarrow> bool" where
  "concerns r = (\<lambda>(c, i, q, t). rq_Session q = rq_Session r \<and> rq_Lifetime q = rq_Lifetime r \<and> rq_Epoch q = rq_Epoch r)"

lemma over_log:
  assumes "over n (rq_Session r) (rq_Lifetime r) (rq_Epoch r) g"
  shows "filter (concerns r) (gw_log (gateway_step cf a g)) = filter (concerns r) (gw_log g)"
proof -
  have "\<not> concerns r (c, i, q, t)" if "computerValidLocked g q" for c i q t
    using over_invalid [of n q g] that assms by (auto simp: concerns_def)
  then show ?thesis using decided_step [of g cf a] by (auto simp: decided_def)
qed

lemma over_run:
  assumes "over n (rq_Session r) (rq_Lifetime r) (rq_Epoch r) g" "n + length script < 2 ^ 64"
  shows "over (n + length script) (rq_Session r) (rq_Lifetime r) (rq_Epoch r) (fold (gateway_step cf) script g) \<and>
    filter (concerns r) (gw_log (fold (gateway_step cf) script g)) = filter (concerns r) (gw_log g)"
  using assms
proof (induction script arbitrary: n g)
  case (Cons a script)
  have "over (Suc n) (rq_Session r) (rq_Lifetime r) (rq_Epoch r) (gateway_step cf a g)"
    using over_step [OF Cons.prems(1)] Cons.prems(2) by simp
  from Cons.IH [OF this] show ?case using over_log [OF Cons.prems(1)] Cons.prems(2) by simp
qed simp

text \<open>(C12) From the moment a conversation is stopped, every request it made in that epoch is refused for good:
  whatever is pending, running or called later, and whatever the settings, the Worker and its gateway do in the
  next steps (fewer than the counter of epochs can hold), no engine is told to act for it again.
\<close>

theorem stopped_conversation_acts_no_more:
  assumes "g = fold (gateway_step cf) before (ConfigureComputerGateway engine enabled policy)"
    and "gw_calls g c = Some k" "cl_pc k = StopUseStart" "length script < 2 ^ 64"
    and "rq_Session r = rq_Session (cl_request k)" "rq_Lifetime r = rq_Lifetime (cl_request k)" "rq_Epoch r = gw_Epoch g Computer"
  shows "\<not> computerValidLocked (fold (gateway_step cf) script (gateway_step cf (Step x c) g)) r \<and>
    filter (concerns r) (gw_log (fold (gateway_step cf) script (gateway_step cf (Step x c) g))) = filter (concerns r) (gw_log g)"
proof -
  let ?h = "gateway_step cf (Step x c) g"
  have h: "?h = stop_conversation x ThenStopped c k g"
    using assms(2,3) by (simp add: call_step_def StopComputerUse_def)
  have "gw_Epoch g AUV = gw_Epoch g Computer" unfolding assms(1) by (rule epochs.inv_run)
  then have "over 0 (rq_Session r) (rq_Lifetime r) (rq_Epoch r) ?h"
    unfolding h by (simp add: over_def stop_effect marked assms(5-7))
  from over_run [OF this, of script cf] have "over (length script) (rq_Session r) (rq_Lifetime r) (rq_Epoch r) (fold (gateway_step cf) script ?h)"
    "filter (concerns r) (gw_log (fold (gateway_step cf) script ?h)) = filter (concerns r) (gw_log ?h)"
    using assms(4) by simp_all
  moreover have "gw_log ?h = gw_log g" unfolding h by (rule stop_effect)
  ultimately show ?thesis using over_invalid by simp
qed

end
