(* ===== verification/Computer_Examples.thy ===== *)
theory Computer_Examples
  imports Computer_Stop
begin

text \<open>
  The properties of the gateway on runs of one desktop, and a run in which a cancelled call takes the
  desktop from another call of its own conversation.
\<close>

subsection \<open>A conversation observes a window\<close>

definition plain_input :: step_input where
  "plain_input = \<lparr>si_now = 10, si_id = [], si_ctx = False, si_inspect = Inr editor, si_probe = Inr zero_identity, si_acquire = Inr True,
     si_released = None, si_answer = Inr JNull, si_terminal = False, si_chosen = True, si_saved = None, si_ready = (\<lambda>_. Some True),
     si_windows = (\<lambda>_ _. Inr editor)\<rparr>"

definition plain_config :: gateway_config where
  "plain_config = \<lparr>gc_env = ascii_env, gc_keywords = [], gc_acquire = True, gc_probe = True\<rparr>"

definition observe_request :: "string \<Rightarrow> computer_request" where
  "observe_request permit = (sample_request ''computer_observe'' [(''pid'', JNum 7), (''window_id'', JNum 9)])\<lparr>rq_Epoch := 2, rq_Permit := permit\<rparr>"

definition windows_request :: "string \<Rightarrow> computer_request" where
  "windows_request permit = (sample_request ''computer_windows'' [])\<lparr>rq_Epoch := 2, rq_Permit := permit\<rparr>"

abbreviation next_step :: "nat \<Rightarrow> gateway_action" where
  "next_step c \<equiv> Step plain_input c"

definition opened :: "gateway_action list" where
  "opened = Begin 0 (OperationStart (Worker ''g'' True True)) zero_request # replicate 3 (next_step 0) @
     Begin 1 (OperationStart (Connection ''g'' True)) zero_request # replicate 3 (next_step 1)"

definition authorized :: "nat \<Rightarrow> computer_request \<Rightarrow> gateway_action list" where
  "authorized n r = Begin 2 AuthStart r # replicate n (next_step 2) @ [Step (plain_input\<lparr>si_id := ''permit''\<rparr>) 2, next_step 2]"

definition started :: "nat \<Rightarrow> computer_request \<Rightarrow> gateway_action list" where
  "started n r = Begin 4 ExecTake r # replicate n (next_step 4)"

definition executed :: "gateway_action list" where
  "executed = [next_step 4, EngineReady 1 (Inr True), next_step 4]"

definition desktop :: gateway where
  "desktop = ConfigureComputerGateway ''cua-driver'' True (Some (DefaultComputerPolicy\<lparr>NewApps := ''allow''\<rparr>))"

definition observing :: "gateway_action list" where
  "observing = opened @ authorized 7 (observe_request []) @ started 6 (observe_request ''permit'') @ executed"

definition acting :: gateway where
  "acting = fold (gateway_step plain_config) observing desktop"

lemma acting_log: "gw_log acting = [(4, ''permit'', observe_request ''permit'', editor)]"
  by code_simp


subsection \<open>A conversation is stopped\<close>

definition stopping :: "gateway_action list" where
  "stopping = opened @ authorized 4 (windows_request []) @ [Begin 9 StopUseStart (windows_request [])]"

text \<open>What a run shows of one call, and of who holds the desktop.\<close>

definition glimpse :: "nat \<Rightarrow> gateway \<Rightarrow> (call_pc \<times> string \<times> string) option \<times> 64 word" where
  "glimpse c g = (map_option (\<lambda>k. (cl_pc k, rq_Session (cl_request k), rq_Lifetime (cl_request k))) (gw_calls g c), gw_Epoch g Computer)"

definition holders :: "gateway \<Rightarrow> (nat \<times> string) list \<times> string \<times> nat option \<times> nat option option \<times> computer_error option option" where
  "holders g = (map (\<lambda>(c, i, r, t). (c, i)) (gw_log g), rq_Session (gw_owner g), gw_desktop g, map_option en_desktop (gw_engines g 1),
     closed_with g 1)"

lemma stopping_call: "glimpse 9 (fold (gateway_step plain_config) stopping desktop) = (Some (StopUseStart, ''s'', ''l''), 2)"
  by code_simp

text \<open>The permit the conversation still holds is worth nothing.\<close>

lemma stopped_conversation_acts_no_more_witness:
  "\<not> computerValidLocked (fold (gateway_step plain_config) (started 4 (windows_request ''permit'') @ executed)
     (gateway_step plain_config (next_step 9) (fold (gateway_step plain_config) stopping desktop))) (windows_request ''permit'')"
proof -
  let ?g = "fold (gateway_step plain_config) stopping desktop"
  obtain k where k: "gw_calls ?g 9 = Some k" "cl_pc k = StopUseStart" "rq_Session (cl_request k) = ''s''" "rq_Lifetime (cl_request k) = ''l''"
    using stopping_call by (cases "gw_calls ?g 9") (auto simp: glimpse_def)
  have "?g = fold (gateway_step plain_config) stopping
      (ConfigureComputerGateway ''cua-driver'' True (Some (DefaultComputerPolicy\<lparr>NewApps := ''allow''\<rparr>)))" by (simp only: desktop_def)
  moreover have "length (started 4 (windows_request ''permit'') @ executed) < 2 ^ 64" by (simp add: started_def executed_def)
  moreover have "rq_Epoch (windows_request ''permit'') = gw_Epoch ?g Computer" "rq_Session (windows_request ''permit'') = ''s''"
    "rq_Lifetime (windows_request ''permit'') = ''l''"
    using stopping_call by (simp_all add: windows_request_def sample_request_def glimpse_def)
  ultimately show ?thesis
    using stopped_conversation_acts_no_more [OF _ k(1,2), of plain_config stopping "''cua-driver''" True
        "Some (DefaultComputerPolicy\<lparr>NewApps := ''allow''\<rparr>)" "started 4 (windows_request ''permit'') @ executed"] k(3,4) by simp
qed

subsection \<open>A cancelled call takes the desktop away\<close>

text \<open>While an action is about to start its engine, another call of the same conversation waits for the token and is
  cancelled.  Its clean-up sees no engine yet and releases the desktop the first call has claimed.\<close>

definition crossing :: "gateway_action list" where
  "crossing = Begin 5 AuthStart (windows_request []) # replicate 2 (next_step 5) @
     [Cancel 5, Step (plain_input\<lparr>si_ctx := True\<rparr>) 5, next_step 5]"

definition crossed :: gateway where
  "crossed = fold (gateway_step plain_config) (opened @ authorized 4 (windows_request []) @ started 4 (windows_request ''permit'') @ crossing @ executed) desktop"

lemma action_without_desktop: "holders crossed = ([(4, ''permit'')], [], None, Some None, None)"
  by code_simp

text \<open>The next conversation that asks gets the desktop, although that engine is neither closed nor revoked.\<close>

lemma unowned_desktop_is_taken:
  assumes "gw_failure g = None" "computerValidLocked g r" "gw_lease g = Some e" "closed_with g e = None" "\<not> revoked_engine g e"
    and "gw_owner g = zero_request" "gc_acquire cf"
  shows "gw_owner (fst (claimComputerLocked cf (Inr True) r g)) = r \<and> snd (claimComputerLocked cf (Inr True) r g) = None"
  using assms by (simp add: claimComputerLocked_def lease_closed_def forget_lease_def take_desktop_def zero_request_def)

end
