(* ===== verification/Spec2Isabelle.thy ===== *)
theory Spec2Isabelle
  imports Lifecycle Quit_Windows Release Notifications Hostevents Interactions Activity_Bridge
    Trailing_Publisher Redact Selfupdate Page_Flow Acquisition
    Automation_Policy Host_Examples Computer_Examples
begin

text \<open>
  \<^bold>\<open>Verification library of DSH Work.\<close>

  DSH Work is a desktop host for a DSH Worker.  A per-user daemon owns the Worker and its
  lifecycle, talks to workspace windows over local transports, forwards what the Worker and its
  pages report, and updates itself from a release feed.  The library models the parts of
  \<open>src/internal\<close> that decide: state machines, stores, parsers and protocols.  What is left to the
  operating system, the network and the window toolkit is an argument of the definitions.

  \<^bold>\<open>How the parts interact.\<close>  The lifecycle machine hands out generations; the bridge to the Worker's
  activity stream and the workspace context are bound to one.  A workspace page reports its pending
  interactions to the page service, which keeps them in the interaction store; the store tells the
  notifier, which publishes through the notification router, and the user's answer goes back as a
  command over the event hub.  Window visibility and the managed quit are kept by the ledger and the
  quit flow.  The release package fixes what a version is; the updater compares it with the identity
  it reads from a downloaded executable before that is staged and started.  The acquisition
  coordinator fetches the artifacts the host manages, and everything the Worker prints is redacted
  before it is kept.  The manager of DSH installations keeps the catalogues, the selected run context,
  the restore points of the profiles and the state of a recovery, in memory and on disk.  The Host sits
  above: it begins a generation for a run context the manager resolved, drives the lifecycle machine
  through its start, commits the context back to the manager, supervises the Worker and replaces one
  context by another under the manager's guard.  What the Worker's conversations do to the desktop goes
  through the gateway of computer use, which asks the policies and the classifier.

  \<^bold>\<open>Theories and sources.\<close>
  \<^item> \<open>Prelude\<close>: the outcome type (result, error or panic), lemmas on lists and threads, and the
    interfaces as locales: \<open>invariant_system\<close> (a start state, steps and an invariant they keep),
    \<open>generation_guarded\<close> (operations that do nothing for another generation), \<open>change_log\<close> (a state
    whose changes can be replayed), \<open>fifo_window\<close> (a bounded memory).  Every one is interpreted on
    the model of a component.
  \<^item> \<open>Go_Strings\<close>: Go strings as bytes: UTF-8 decoding and encoding, trimming, fields, splitting,
    decimal numbers.
  \<^item> \<open>Workspace_Context\<close> (\<open>workspacecontext/context.go\<close>) and \<open>Lifecycle\<close> (\<open>lifecycle/types.go\<close>): the
    record \<open>status\<close> is the status of the Go \<open>Machine\<close>, one definition per method.  Shown: the status is
    consistent in every reachable state, calls of other generations change nothing, the state
    changes are exactly a diagram, start-up phases only advance, a stop always completes.
  \<^item> \<open>Quit_Windows\<close> (\<open>lifecycle/window_policy.go\<close>, \<open>quit_flow.go\<close>): the window ledger, and the quit
    flow as a step relation on threads.  Shown: no window is visible while quitting, one quit runs
    at a time and in order.
  \<^item> \<open>Release\<close> (\<open>release/version.go\<close>, \<open>compare.go\<close>, \<open>compute.go\<close>, \<open>windows.go\<close>): parsing, precedence and the
    computation of a release.  Shown: which strings parse and that printing inverts parsing, that a
    computed release is consistent and above the last stable one, and when the code panics.
  \<^item> \<open>Notifications\<close> (\<open>notifications/router.go\<close>): preferences and the router with its ring buffer.
    Shown: at most one delivery per identifier within 1024 others, the buffer is a first-in
    first-out window, delivered events are bounded and wanted.
  \<^item> \<open>Hostevents\<close> (\<open>hostevents/hub.go\<close>): topics, commands and subscriptions.  Shown: a subscriber can
    rebuild the topics, a live stream is complete and in order, staged commands arrive once.
  \<^item> \<open>Interactions\<close> (\<open>dshinteraction/store.go\<close>): critical sections as functions, \<open>dispatch\<close> as a step
    relation.  Shown: callbacks run one at a time in order, an observer knows the pending
    interactions once all calls have returned, an instance has one owner.
  \<^item> \<open>Activity_Snapshot\<close>, \<open>Activity_Bridge\<close> (\<open>dshactivity/bridge.go\<close>): normalization of snapshots, the
    event-stream reader and the navigation of the bridge.  Shown: snapshots are well formed and
    bounded, frames are read back, only messages of the current generation and the newest navigation
    count.
  \<^item> \<open>Trailing_Publisher\<close> (\<open>desktopapp/trailing_publisher.go\<close>): a step relation of producers, timers and
    drains.  Shown: throttled values are spaced, the latest value is not lost.
  \<^item> \<open>Redact\<close> (\<open>redact/redact.go\<close>): a total function on ASCII text; a panic on text that is not UTF-8.
  \<^item> \<open>PE_Identity\<close> (\<open>selfupdate/pe.go\<close>): slices with length and capacity.  Shown: with two spare bytes
    every file content gives a result or an error; without them a short file crashes the reader.
  \<^item> \<open>Selfupdate\<close> (\<open>selfupdate/digest.go\<close>, \<open>install.go\<close>, \<open>identity_windows.go\<close>, \<open>staging.go\<close>,
    \<open>handoff.go\<close>): composes \<open>Release\<close> and \<open>PE_Identity\<close>.  Shown: a staged or rechecked installer has
    the digest of the feed, declares the advertised release and is signed as the build requires; a
    refused payload stays on disk.
  \<^item> \<open>Page_Flow\<close> (\<open>daemon/surface.go\<close>, \<open>dsh_page_service.go\<close>, \<open>presence/tracker.go\<close>,
    \<open>desktopapp/interaction_notify.go\<close>, parts of \<open>nativeui/locale.go\<close>): composes \<open>Interactions\<close>,
    \<open>Notifications\<close> and \<open>Activity_Bridge\<close>.  Shown: which reported interactions are announced, that an
    answer reaches the page that asked, which surface names are accepted.
  \<^item> \<open>Acquisition\<close> (\<open>acquisition/acquisition.go\<close>): the coordinator over an arbitrary world.  Shown:
    staging directories are cleaned up, sources are tried in order.
  \<^item> \<open>Automation_Policy\<close> (\<open>settings/browser_policy.go\<close>, \<open>computer_policy.go\<close>,
    \<open>automation/browser_classify.go\<close>): the policies for automated sessions and the classifier of
    browser actions.  Shown: stored policies are well formed, a block wins, the most specific rule
    is found, actions without confirmation are harmless.
  \<^item> \<open>Manager_State\<close> (\<open>dshmanager/model.go\<close>, \<open>storage.go\<close>, \<open>profile_records.go\<close>): the data of the
    manager and the validation of a state before it is written.
  \<^item> \<open>Manager_Records\<close> (\<open>profile_records.go\<close>, \<open>storage.go\<close>): splitting a state into the application file
    and the record files of the profiles, and reading them back.  Shown: what was saved is read back.
  \<^item> \<open>Manager_Ops\<close> (\<open>manager.go\<close>, \<open>profile_operations.go\<close>): one definition per operation on catalogues and
    contexts, over the pair of manager and disk.  Shown: the state stays valid and the file is either
    the old one or what the manager holds; entries a selected context needs are not removed.
  \<^item> \<open>Restore_Points\<close> (\<open>restore_points.go\<close>): recording, pruning, choosing and resuming.  Shown: exactly which
    points are pruned, and that the references into them keep resolving.
  \<^item> \<open>Manager_Start\<close> (\<open>New\<close> and \<open>normalizeConfig\<close> of \<open>manager.go\<close>): from the configuration and the disk to a
    manager.  Shown: the state it starts in is valid; a recovery resumes by itself at most once, over
    crashes and restarts.  \<open>Manager_Examples\<close> applies the properties of the five theories to a small
    installation.
  \<^item> \<open>Host_Run\<close> (\<open>app/host.go\<close>): the Host's fields, and the goroutine of a generation as a program
    counter with one step per critical section or call of an adapter; \<open>host_step\<close> is the step of any
    goroutine or user.  The answers of adapters are arguments of the step.  Shown: at most one Worker
    boundary is open, readiness is supervised.
  \<^item> \<open>Host_Endings\<close>, \<open>Host_Startup\<close>: a cancelled generation ends; a start that is answered becomes ready.
  \<^item> \<open>Host_Guard\<close>, \<open>Host_Switch\<close> (\<open>applyRunContextLocked\<close> and its callees): who holds the manager's guard,
    and the switch between run contexts with its roll-back.  Shown: the guard has one owner; what a
    switch promises however it ends.  \<open>Host_Examples\<close> applies them to the example installation and
    shows the runs that leave the Host without a way to start.
  \<^item> \<open>Computer_Requests\<close> (\<open>automation/computer_schemas.go\<close>, \<open>computer_gateway.go\<close>): JSON values, the arguments of
    the tools and the risk of an action.  Shown: what accepted arguments look like, and that actions
    carried out without asking are harmless.
  \<^item> \<open>Computer_Gateway\<close> (\<open>computer_gateway.go\<close>, parts of \<open>service.go\<close> and \<open>components.go\<close>): the state of computer use
    and its calls as program counters; \<open>gateway_step\<close> is a step of any call, engine or user.  The history
    fields record the permits handed out and taken and the actions begun.  \<open>Computer_Safety\<close>: every action
    has a permit of its own for exactly its request, and one call at a time drives an engine.
    \<open>Computer_Stop\<close>: a stopped conversation acts no more.  \<open>Computer_Examples\<close>: runs of one desktop, and
    one in which a cancelled call takes the desktop from another.

  \<^bold>\<open>Conventions.\<close>  A struct is a record, a method that changes it a function to the changed record, an
  error a value; a nil pointer is \<open>None\<close>.  Counters and file fields that can wrap are words of their
  width; a slice expression out of range, a failed \<open>MustParse\<close> and a nil dereference are \<open>Panic\<close> or
  \<open>None\<close>.  A critical section is one step; goroutines are threads of a step relation, and
  reachability quantifies over all interleavings.

  \<^bold>\<open>Bounds and termination.\<close>  No definition uses fuel: loops are structural or come with a measure
  (the switch of a run context runs a script of the other goroutines' steps, its argument, between its
  own, and is \<open>None\<close> when the script ends before what it waits for; a cancelled generation needs at most
  eighteen of its own steps, a smooth start fourteen)
  (the rest of the input for scanners, the length of the block for nested version blocks, the
  distance to the end of the text for redaction), so every modelled loop ends on every input.  The
  redaction loop is defined for a key with a first character, as all keys of the code are.

  \<^bold>\<open>Not modelled.\<close>  Transport, JSON coding, drawing, system calls and the external programs the host
  starts.  Of the Host: the plug-in commands, the migration of application profiles, maintenance and the
  acquisition commands, which call the modelled components around files and external programs, and the
  recovery a first start may begin.  Of the manager: the contents of a profile (copying, importing,
  repairing its files).  Of the automation service: the browser gateway and its profiles, whose consents and
  permits follow the protocol of computer use, and the preparation of components.  The settings service, the pet, the daemon's and the Worker's transports, the
  command lines of the adapter and the Windows layer are file, network, drawing or system calls with
  little state of their own.  Time is an argument of the operations that read it;
  durations and scheduling are not otherwise represented.  Error texts are kept where the code
  compares or shows them and are constructors elsewhere.
\<close>

end
